(* ===== verification/Prelude.thy ===== *)
theory Prelude
  imports Main "HOL-Library.AList"
begin

text \<open>
  Shared ground of the development: Go times and durations as integers, Go maps as
  association lists with distinct keys, and the account-scoped keys that several
  in-memory stores of \<open>internal/server\<close> and \<open>internal/providerquota\<close> build by
  joining identifiers with a NUL byte.
\<close>

named_theorems gomap \<open>reading Go maps after they were written\<close>
named_theorems scoped \<open>facts on account-scoped keys\<close>

section \<open>Time\<close>

text \<open>
  An instant is the number of nanoseconds since Go's zero time (1 January of year 1, UTC),
  so \<open>IsZero\<close> is a comparison with 0. A duration is a number of nanoseconds;
  \<open>Time.Sub\<close> saturates at the bounds of \<open>int64\<close>, as the standard library does.
\<close>

type_synonym time = int
type_synonym duration = int

definition zero_time :: time where
  "zero_time = 0"

definition is_zero :: "time \<Rightarrow> bool" where
  "is_zero t \<longleftrightarrow> t = zero_time"

definition max_duration :: duration where
  "max_duration = 2 ^ 63 - 1"

definition min_duration :: duration where
  "min_duration = - (2 ^ 63)"

definition time_sub :: "time \<Rightarrow> time \<Rightarrow> duration" where
  "time_sub a b = max min_duration (min max_duration (a - b))"

definition time_add :: "time \<Rightarrow> duration \<Rightarrow> time" where
  "time_add t d = t + d"

definition seconds :: "int \<Rightarrow> duration" where
  "seconds n = n * 1000000000"

lemma time_sub_self [simp]: "time_sub t t = 0"
  by (simp add: time_sub_def max_duration_def min_duration_def)

lemma time_sub_mono: "a \<le> b \<Longrightarrow> time_sub a c \<le> time_sub b c"
  by (auto simp: time_sub_def)

lemma time_sub_exact: "0 \<le> a - b \<Longrightarrow> a - b \<le> max_duration \<Longrightarrow> time_sub a b = a - b"
  by (simp add: time_sub_def min_duration_def)

lemma upt_Suc_map: "[0..<Suc n] = 0 # map Suc [0..<n]"
  by (simp add: map_Suc_upt upt_conv_Cons del: upt_Suc)

section \<open>Go maps\<close>

text \<open>
  A Go map is an association list with distinct keys. Its list order stands for the
  iteration order of the runtime, which the language leaves open: a theorem that holds
  for every such list holds for every order.
\<close>

type_synonym ('k, 'v) gomap = "('k \<times> 'v) list"

definition gm_wf :: "('k, 'v) gomap \<Rightarrow> bool" where
  "gm_wf m \<longleftrightarrow> distinct (map fst m)"

definition gm_get :: "('k, 'v) gomap \<Rightarrow> 'k \<Rightarrow> 'v option" where
  "gm_get m k = map_of m k"

definition gm_get0 :: "'v \<Rightarrow> ('k, 'v) gomap \<Rightarrow> 'k \<Rightarrow> 'v" where
  "gm_get0 d m k = (case gm_get m k of None \<Rightarrow> d | Some v \<Rightarrow> v)"

definition gm_set :: "'k \<Rightarrow> 'v \<Rightarrow> ('k, 'v) gomap \<Rightarrow> ('k, 'v) gomap" where
  "gm_set k v m = AList.update k v m"

definition gm_del :: "'k \<Rightarrow> ('k, 'v) gomap \<Rightarrow> ('k, 'v) gomap" where
  "gm_del k m = AList.delete k m"

definition gm_keep :: "('k \<Rightarrow> 'v \<Rightarrow> bool) \<Rightarrow> ('k, 'v) gomap \<Rightarrow> ('k, 'v) gomap" where
  "gm_keep P m = filter (\<lambda>(k, v). P k v) m"

lemma gm_wf_Nil [simp]: "gm_wf []"
  by (simp add: gm_wf_def)

lemma gm_wf_set [simp]: "gm_wf m \<Longrightarrow> gm_wf (gm_set k v m)"
  by (simp add: gm_wf_def gm_set_def distinct_update)

lemma gm_wf_del [simp]: "gm_wf m \<Longrightarrow> gm_wf (gm_del k m)"
  by (simp add: gm_wf_def gm_del_def distinct_delete)

lemma gm_wf_keep [simp]: "gm_wf m \<Longrightarrow> gm_wf (gm_keep P m)"
  unfolding gm_wf_def gm_keep_def by (induction m) auto

lemma gm_get_Nil [simp]: "gm_get [] k = None"
  by (simp add: gm_get_def)

lemma gm_get_Cons [simp]: "gm_get ((k, v) # m) k' = (if k' = k then Some v else gm_get m k')"
  by (simp add: gm_get_def)

lemma gm_get_set [simp, gomap]: "gm_get (gm_set k v m) k' = (if k' = k then Some v else gm_get m k')"
  by (simp add: gm_get_def gm_set_def update_conv')

lemma gm_get_del [simp, gomap]: "gm_get (gm_del k m) k' = (if k' = k then None else gm_get m k')"
  by (simp add: gm_get_def gm_del_def delete_conv')

lemma gm_get_keep [gomap]:
  "gm_wf m \<Longrightarrow> gm_get (gm_keep P m) k =
     (case gm_get m k of None \<Rightarrow> None | Some v \<Rightarrow> if P k v then Some v else None)"
proof (induction m)
  case Nil
  then show ?case by (simp add: gm_get_def gm_keep_def)
next
  case (Cons kv m)
  then show ?case
    by (cases kv) (auto simp: gm_get_def gm_keep_def gm_wf_def split: option.splits
        dest: map_of_SomeD intro: rev_image_eqI)
qed

lemma gm_get_SomeD: "gm_get m k = Some v \<Longrightarrow> (k, v) \<in> set m"
  by (simp add: gm_get_def map_of_SomeD)

lemma gm_get_SomeI: "gm_wf m \<Longrightarrow> (k, v) \<in> set m \<Longrightarrow> gm_get m k = Some v"
  by (simp add: gm_get_def gm_wf_def map_of_is_SomeI)

lemma gm_mem_iff: "gm_wf m \<Longrightarrow> (k, v) \<in> set m \<longleftrightarrow> gm_get m k = Some v"
  using gm_get_SomeD gm_get_SomeI by metis

lemma gm_get_None_iff: "gm_get m k = None \<longleftrightarrow> k \<notin> fst ` set m"
  by (simp add: gm_get_def map_of_eq_None_iff)

lemma set_gm_keep: "set (gm_keep P m) = {(k, v) \<in> set m. P k v}"
  by (auto simp: gm_keep_def)

lemma set_gm_set: "gm_wf m \<Longrightarrow>
  set (gm_set k v m) = insert (k, v) {(k', v') \<in> set m. k' \<noteq> k}"
  by (auto simp: gm_mem_iff split: if_splits)

lemma set_gm_del: "gm_wf m \<Longrightarrow> set (gm_del k m) = {(k', v') \<in> set m. k' \<noteq> k}"
  by (auto simp: gm_mem_iff split: if_splits)

lemma length_gm_keep: "length (gm_keep P m) \<le> length m"
  by (simp add: gm_keep_def)

lemma length_gm_set:
  "length (gm_set k v m) = (if gm_get m k = None then Suc (length m) else length m)"
  by (induction m) (auto simp: gm_set_def gm_get_def)

lemma length_gm_set_le: "length (gm_set k v m) \<le> Suc (length m)"
  by (simp add: length_gm_set)

lemma length_gm_del: "length (gm_del k m) \<le> length m"
  by (simp add: gm_del_def length_delete_le)

lemma length_gm_del_less: "k \<in> fst ` set m \<Longrightarrow> length (gm_del k m) < length m"
  unfolding gm_del_def AList.delete_eq
  by (force intro: length_filter_less)

text \<open>Two lists of the same entries are the same map, whatever the order.\<close>

definition gm_same :: "('k, 'v) gomap \<Rightarrow> ('k, 'v) gomap \<Rightarrow> bool" where
  "gm_same m m' \<longleftrightarrow> (\<forall>k. gm_get m k = gm_get m' k)"

lemma gm_same_refl [simp]: "gm_same m m"
  by (simp add: gm_same_def)

lemma gm_same_set: "gm_wf m \<Longrightarrow> gm_wf m' \<Longrightarrow> gm_same m m' \<longleftrightarrow> set m = set m'"
  unfolding gm_same_def
  by (metis gm_mem_iff not_Some_eq subset_antisym subrelI)

text \<open>Sums over the entries of a map, whatever the iteration order.\<close>

definition gm_sum :: "('k \<Rightarrow> 'v \<Rightarrow> int) \<Rightarrow> ('k, 'v) gomap \<Rightarrow> int" where
  "gm_sum f m = sum_list (map (\<lambda>(k, v). f k v) m)"

definition at_key :: "('k \<Rightarrow> 'v \<Rightarrow> int) \<Rightarrow> ('k, 'v) gomap \<Rightarrow> 'k \<Rightarrow> int" where
  "at_key f m k = (case gm_get m k of None \<Rightarrow> 0 | Some v \<Rightarrow> f k v)"

lemma gm_sum_Nil [simp]: "gm_sum f [] = 0"
  by (simp add: gm_sum_def)

lemma gm_sum_Cons [simp]: "gm_sum f ((k, v) # m) = f k v + gm_sum f m"
  by (simp add: gm_sum_def)

lemma gm_sum_set: "gm_sum f (gm_set k v m) = gm_sum f m - at_key f m k + f k v"
  by (induction m) (auto simp: gm_set_def at_key_def)

lemma gm_sum_del: "gm_wf m \<Longrightarrow> gm_sum f (gm_del k m) = gm_sum f m - at_key f m k"
proof (induction m)
  case Nil
  then show ?case by (simp add: gm_del_def at_key_def)
next
  case (Cons kv m)
  obtain k' v' where kv: "kv = (k', v')" by (cases kv)
  from Cons.prems kv have wf: "gm_wf m" and nin: "k' \<notin> fst ` set m" by (auto simp: gm_wf_def)
  note IH = Cons.IH [OF wf]
  show ?case
  proof (cases "k = k'")
    case True
    with nin have "at_key f m k = 0" by (simp add: at_key_def gm_get_None_iff [THEN iffD2])
    with IH True show ?thesis by (simp add: kv gm_del_def at_key_def)
  next
    case False
    with IH show ?thesis by (simp add: kv gm_del_def at_key_def)
  qed
qed

lemma gm_sum_nonneg: "(\<And>k v. (k, v) \<in> set m \<Longrightarrow> 0 \<le> f k v) \<Longrightarrow> 0 \<le> gm_sum f m"
  unfolding gm_sum_def by (rule sum_list_nonneg) auto

section \<open>Strings and account-scoped keys\<close>

definition NUL :: char where
  "NUL = CHR 0x00"

definition has_prefix :: "string \<Rightarrow> string \<Rightarrow> bool" where
  "has_prefix s p \<longleftrightarrow> length p \<le> length s \<and> take (length p) s = p"

text \<open>\<open>tenantKey\<close> of \<open>server.go\<close>; \<open>scope_prefix\<close> is the prefix every scan of a store uses.\<close>

definition tenantKey :: "string \<Rightarrow> string \<Rightarrow> string" where
  "tenantKey accountID i = accountID @ [NUL] @ i"

definition scope_prefix :: "string \<Rightarrow> string" where
  "scope_prefix accountID = accountID @ [NUL]"

text \<open>Account ids are generated by the store and hold no NUL byte.\<close>

definition nul_free :: "string \<Rightarrow> bool" where
  "nul_free s \<longleftrightarrow> NUL \<notin> set s"

lemma has_prefix_append [simp]: "has_prefix (p @ s) p"
  by (simp add: has_prefix_def)

lemma has_prefix_iff: "has_prefix s p \<longleftrightarrow> (\<exists>r. s = p @ r)"
  unfolding has_prefix_def by (metis append_eq_conv_conj append_take_drop_id length_append le_add1)

lemma nul_split_unique:
  "nul_free a \<Longrightarrow> nul_free b \<Longrightarrow> a @ NUL # x = b @ NUL # y \<longleftrightarrow> a = b \<and> x = y"
  unfolding nul_free_def
  by (induction a arbitrary: b; case_tac b) auto

lemma tenantKey_prefix [scoped, simp]:
  "nul_free a \<Longrightarrow> nul_free b \<Longrightarrow> has_prefix (tenantKey b i) (scope_prefix a) \<longleftrightarrow> a = b"
  by (auto simp: has_prefix_iff tenantKey_def scope_prefix_def nul_split_unique)

lemma tenantKey_prefix_self [scoped, simp]: "has_prefix (tenantKey a i) (scope_prefix a)"
  by (simp add: has_prefix_iff tenantKey_def scope_prefix_def)

lemma tenantKey_inject [scoped, simp]:
  "nul_free a \<Longrightarrow> nul_free b \<Longrightarrow> tenantKey a i = tenantKey b j \<longleftrightarrow> a = b \<and> i = j"
  by (simp add: tenantKey_def nul_split_unique)

lemma tenantKey_same_account [simp]: "tenantKey a i = tenantKey a j \<longleftrightarrow> i = j"
  by (simp add: tenantKey_def)

lemma drop_scope_tenantKey [simp]: "drop (length (scope_prefix a)) (tenantKey a i) = i"
  by (simp add: scope_prefix_def tenantKey_def)

text \<open>The entries of one account, copied out under keys without the account prefix.\<close>

definition scoped_copy :: "string \<Rightarrow> (string, 'v) gomap \<Rightarrow> (string, 'v) gomap" where
  "scoped_copy accountID m =
     fold (\<lambda>(key, v) out.
             if has_prefix key (scope_prefix accountID)
             then gm_set (drop (length (scope_prefix accountID)) key) v out else out) m []"

definition scoped_keys :: "(string, 'v) gomap \<Rightarrow> bool" where
  "scoped_keys m \<longleftrightarrow> (\<forall>(key, v) \<in> set m. \<exists>a i. nul_free a \<and> key = tenantKey a i)"

lemma scoped_copy_fold:
  assumes "gm_wf m" "scoped_keys m" "nul_free a"
  shows "gm_get (fold (\<lambda>(key, v) out.
             if has_prefix key (scope_prefix a)
             then gm_set (drop (length (scope_prefix a)) key) v out else out) m out) i =
         (case gm_get m (tenantKey a i) of None \<Rightarrow> gm_get out i | Some v \<Rightarrow> Some v)"
  using assms
proof (induction m arbitrary: out)
  case Nil
  then show ?case by simp
next
  case (Cons kv m)
  obtain key v where kv: "kv = (key, v)" by (cases kv)
  from Cons.prems(2) kv obtain b j where b: "nul_free b" "key = tenantKey b j"
    by (auto simp: scoped_keys_def)
  from Cons.prems kv have wf: "gm_wf m" "scoped_keys m" and nin: "gm_get m key = None"
    by (auto simp: gm_wf_def scoped_keys_def gm_get_None_iff)
  note IH = Cons.IH [OF wf Cons.prems(3)]
  show ?case
    using IH [of out] IH [of "gm_set j v out"] nin b Cons.prems(3)
    by (cases "a = b") (auto simp: kv split: option.splits)
qed

lemma scoped_copy_get:
  "gm_wf m \<Longrightarrow> scoped_keys m \<Longrightarrow> nul_free a \<Longrightarrow> gm_get (scoped_copy a m) i = gm_get m (tenantKey a i)"
  by (simp add: scoped_copy_def scoped_copy_fold split: option.split)

end
