(* ===== verification/Text.thy ===== *)
theory Text
  imports Prelude
begin

text \<open>
  The operations of Go's \<open>strings\<close> and \<open>unicode/utf8\<close> packages the router's error handling uses, on
  byte strings. A Go string is a list of bytes; \<open>pieces\<close> splits it the way a range loop over it
  does: valid UTF-8 sequences are kept together, an invalid byte stands alone. \<open>strings.ToLower\<close>
  is modelled on the ASCII letters only (the router compares its result with ASCII phrases).
\<close>

section \<open>Bytes and runes\<close>

abbreviation byte :: "char \<Rightarrow> nat" where
  "byte c \<equiv> of_char c"

definition cont_byte :: "char \<Rightarrow> bool" where
  "cont_byte c \<longleftrightarrow> 128 \<le> byte c \<and> byte c \<le> 191"

text \<open>The length of the valid UTF-8 sequence at the head of a string; 0 when there is none.\<close>

fun rune_len :: "string \<Rightarrow> nat" where
  "rune_len [] = 0"
| "rune_len (a # cs) =
     (if byte a < 128 then 1
      else if 194 \<le> byte a \<and> byte a \<le> 223 then
        (case cs of b # _ \<Rightarrow> if cont_byte b then 2 else 0 | [] \<Rightarrow> 0)
      else if 224 \<le> byte a \<and> byte a \<le> 239 then
        (case cs of b # c # _ \<Rightarrow>
           if (if byte a = 224 then 160 else 128) \<le> byte b \<and>
              byte b \<le> (if byte a = 237 then 159 else 191) \<and> cont_byte c then 3 else 0
         | _ \<Rightarrow> 0)
      else if 240 \<le> byte a \<and> byte a \<le> 244 then
        (case cs of b # c # d # _ \<Rightarrow>
           if (if byte a = 240 then 144 else 128) \<le> byte b \<and>
              byte b \<le> (if byte a = 244 then 143 else 191) \<and> cont_byte c \<and> cont_byte d then 4 else 0
         | _ \<Rightarrow> 0)
      else 0)"

declare rune_len.simps(2) [simp del]

function pieces :: "string \<Rightarrow> string list" where
  "pieces [] = []"
| "pieces (c # cs) = (let n = max 1 (rune_len (c # cs)) in take n (c # cs) # pieces (drop (n - 1) cs))"
  by pat_completeness auto
termination by (relation "measure length") auto

definition valid_rune :: "string \<Rightarrow> bool" where
  "valid_rune r \<longleftrightarrow> r \<noteq> [] \<and> rune_len r = length r"

definition utf8_valid :: "string \<Rightarrow> bool" where
  "utf8_valid s \<longleftrightarrow> list_all valid_rune (pieces s)"

definition replacement :: string where
  "replacement = [CHR 0xEF, CHR 0xBF, CHR 0xBD]"

definition canon_rune :: "string \<Rightarrow> string" where
  "canon_rune r = (if valid_rune r then r else replacement)"

lemma rune_len_le: "rune_len s \<le> length s"
  by (cases s) (auto simp: rune_len.simps split: list.splits)

lemma rune_len_take:
  "rune_len s = n \<Longrightarrow> 0 < n \<Longrightarrow> rune_len (take n s @ t) = n"
proof (cases s)
  case (Cons a cs)
  assume n: "rune_len s = n" "0 < n"
  consider "cs = []" | b where "cs = [b]" | b c where "cs = [b, c]" | b c d ds where "cs = b # c # d # ds"
    by (metis list.exhaust)
  then show ?thesis
  proof cases
    case 1 then show ?thesis using Cons n by (auto simp: rune_len.simps split: if_splits)
  next
    case 2 then show ?thesis using Cons n by (auto simp: rune_len.simps split: if_splits)
  next
    case 3 then show ?thesis using Cons n by (auto simp: rune_len.simps split: if_splits)
  next
    case 4
    then show ?thesis using Cons n
      by (auto simp: rune_len.simps split: if_splits)
  qed
qed simp

lemma rune_len_append: "valid_rune r \<Longrightarrow> rune_len (r @ t) = length r"
  using rune_len_take [of r "length r" t] by (auto simp: valid_rune_def)

lemma concat_pieces [simp]: "concat (pieces s) = s"
  by (induction s rule: pieces.induct) (simp_all add: Let_def take_Cons' max_def)

lemma pieces_append_rune:
  assumes "valid_rune r"
  shows "pieces (r @ t) = r # pieces t"
proof -
  obtain c cs where r: "r = c # cs" using assms by (cases r) (auto simp: valid_rune_def)
  have "rune_len (c # (cs @ t)) = Suc (length cs)" using rune_len_append [OF assms, of t] r by simp
  then show ?thesis by (simp add: r Let_def)
qed

lemma pieces_concat: "list_all valid_rune rs \<Longrightarrow> pieces (concat rs) = rs"
  by (induction rs) (simp_all add: pieces_append_rune)

lemma valid_replacement [simp]: "valid_rune replacement"
  by (simp add: valid_rune_def replacement_def cont_byte_def rune_len.simps)

lemma valid_canon [simp]: "valid_rune (canon_rune r)"
  by (simp add: canon_rune_def)

lemma valid_ascii: "byte c < 128 \<Longrightarrow> valid_rune [c]"
  by (simp add: valid_rune_def rune_len.simps)

section \<open>White space, case, substrings\<close>

text \<open>\<open>unicode.IsSpace\<close> and \<open>unicode.IsControl\<close> of one piece.\<close>

definition space_runes :: "string list" where
  "space_runes =
     [[CHR 0x09], [CHR 0x0A], [CHR 0x0B], [CHR 0x0C], [CHR 0x0D], [CHR 0x20],
      [CHR 0xC2, CHR 0x85], [CHR 0xC2, CHR 0xA0], [CHR 0xE1, CHR 0x9A, CHR 0x80],
      [CHR 0xE2, CHR 0x80, CHR 0x80], [CHR 0xE2, CHR 0x80, CHR 0x81], [CHR 0xE2, CHR 0x80, CHR 0x82],
      [CHR 0xE2, CHR 0x80, CHR 0x83], [CHR 0xE2, CHR 0x80, CHR 0x84], [CHR 0xE2, CHR 0x80, CHR 0x85],
      [CHR 0xE2, CHR 0x80, CHR 0x86], [CHR 0xE2, CHR 0x80, CHR 0x87], [CHR 0xE2, CHR 0x80, CHR 0x88],
      [CHR 0xE2, CHR 0x80, CHR 0x89], [CHR 0xE2, CHR 0x80, CHR 0x8A], [CHR 0xE2, CHR 0x80, CHR 0xA8],
      [CHR 0xE2, CHR 0x80, CHR 0xA9], [CHR 0xE2, CHR 0x80, CHR 0xAF], [CHR 0xE2, CHR 0x81, CHR 0x9F],
      [CHR 0xE3, CHR 0x80, CHR 0x80]]"

definition is_space :: "string \<Rightarrow> bool" where
  "is_space r \<longleftrightarrow> List.member space_runes r"

definition is_control :: "string \<Rightarrow> bool" where
  "is_control r = (case r of
      [c] \<Rightarrow> byte c < 32 \<or> byte c = 127
    | [a, b] \<Rightarrow> byte a = 194 \<and> 128 \<le> byte b \<and> byte b \<le> 159
    | _ \<Rightarrow> False)"

definition trim_pieces :: "string list \<Rightarrow> string list" where
  "trim_pieces rs = rev (dropWhile is_space (rev (dropWhile is_space rs)))"

definition trim_space :: "string \<Rightarrow> string" where
  "trim_space s = concat (trim_pieces (pieces s))"

fun fields_acc :: "string list \<Rightarrow> string list \<Rightarrow> string list list" where
  "fields_acc cur [] = (if cur = [] then [] else [rev cur])"
| "fields_acc cur (r # rs) =
     (if is_space r then (if cur = [] then fields_acc [] rs else rev cur # fields_acc [] rs)
      else fields_acc (r # cur) rs)"

definition text_fields :: "string list \<Rightarrow> string list list" where
  "text_fields rs = fields_acc [] rs"

fun join_with :: "'a list \<Rightarrow> 'a list list \<Rightarrow> 'a list" where
  "join_with sep [] = []"
| "join_with sep [x] = x"
| "join_with sep (x # y # zs) = x @ sep @ join_with sep (y # zs)"

definition lower_char :: "char \<Rightarrow> char" where
  "lower_char c = (if 65 \<le> byte c \<and> byte c \<le> 90 then char_of (byte c + 32) else c)"

definition to_lower :: "string \<Rightarrow> string" where
  "to_lower s = List.map lower_char s"

fun contains :: "string \<Rightarrow> string \<Rightarrow> bool" where
  "contains [] t \<longleftrightarrow> t = []"
| "contains (c # cs) t \<longleftrightarrow> has_prefix (c # cs) t \<or> contains cs t"

definition has_suffix :: "string \<Rightarrow> string \<Rightarrow> bool" where
  "has_suffix s t \<longleftrightarrow> has_prefix (rev s) (rev t)"

text \<open>\<open>strings.ReplaceAll\<close> for a non-empty pattern: after a match the next \<open>length old - 1\<close> bytes
  are skipped.\<close>

fun replace_from :: "nat \<Rightarrow> string \<Rightarrow> string \<Rightarrow> string \<Rightarrow> string" where
  "replace_from k old new [] = []"
| "replace_from k old new (c # cs) =
     (if 0 < k then replace_from (k - 1) old new cs
      else if has_prefix (c # cs) old then new @ replace_from (length old - 1) old new cs
      else c # replace_from 0 old new cs)"

definition replace_all :: "string \<Rightarrow> string \<Rightarrow> string \<Rightarrow> string" where
  "replace_all s old new = replace_from 0 old new s"

section \<open>Decimal numbers\<close>

fun nat_digits :: "nat \<Rightarrow> string" where
  "nat_digits n = (if n < 10 then [char_of (48 + n)] else nat_digits (n div 10) @ [char_of (48 + n mod 10)])"

declare nat_digits.simps [simp del]

definition itoa :: "int \<Rightarrow> string" where
  "itoa n = (if n < 0 then CHR ''-'' # nat_digits (nat (- n)) else nat_digits (nat n))"

definition digit_val :: "char \<Rightarrow> nat option" where
  "digit_val c = (if 48 \<le> byte c \<and> byte c \<le> 57 then Some (byte c - 48) else None)"

fun digits_val :: "nat \<Rightarrow> string \<Rightarrow> nat option" where
  "digits_val acc [] = Some acc"
| "digits_val acc (c # cs) = (case digit_val c of None \<Rightarrow> None | Some d \<Rightarrow> digits_val (10 * acc + d) cs)"

text \<open>\<open>strconv.Atoi\<close> on a 64-bit platform.\<close>

definition atoi :: "string \<Rightarrow> int option" where
  "atoi s =
     (let (neg, ds) = (case s of c # cs \<Rightarrow> if c = CHR ''-'' then (True, cs)
                                         else if c = CHR ''+'' then (False, cs) else (False, s)
                       | [] \<Rightarrow> (False, []))
      in if ds = [] then None
         else (case digits_val 0 ds of None \<Rightarrow> None
               | Some n \<Rightarrow> (let v = (if neg then - int n else int n)
                           in if - (2 ^ 63) \<le> v \<and> v < 2 ^ 63 then Some v else None)))"

lemma digits_val_append:
  "digits_val acc (s @ t) = (case digits_val acc s of None \<Rightarrow> None | Some n \<Rightarrow> digits_val n t)"
  by (induction s arbitrary: acc) (auto split: option.split)

lemma digits_val_nat_digits: "digits_val 0 (nat_digits n) = Some n"
proof (induction n rule: nat_digits.induct)
  case (1 n)
  show ?case
  proof (cases "n < 10")
    case True then show ?thesis by (subst nat_digits.simps) (simp add: digit_val_def)
  next
    case False
    then show ?thesis using 1 by (subst nat_digits.simps) (simp add: digit_val_def digits_val_append)
  qed
qed

section \<open>Replacement leaves no occurrence\<close>

lemma contains_Nil [simp]: "contains s []"
  by (cases s) (simp_all add: has_prefix_def)

lemma has_prefix_Cons [simp]: "has_prefix (c # s) (d # t) \<longleftrightarrow> c = d \<and> has_prefix s t"
  by (auto simp: has_prefix_def)

lemma has_prefix_Nil [simp]: "has_prefix s []" "has_prefix [] t \<longleftrightarrow> t = []"
  by (auto simp: has_prefix_def)

lemma contains_drop: "contains (drop k s) t \<Longrightarrow> contains s t"
  by (induction s arbitrary: k) (auto simp: drop_Cons' split: if_splits)

lemma has_prefix_split:
  "b \<notin> set s \<Longrightarrow> has_prefix (xs @ b # r) s \<Longrightarrow> has_prefix xs s"
proof (induction xs arbitrary: s)
  case Nil then show ?case by (cases s) auto
next
  case (Cons x xs) then show ?case by (cases s) auto
qed

lemma contains_split:
  "b \<notin> set s \<Longrightarrow> s \<noteq> [] \<Longrightarrow> contains (xs @ b # r) s \<Longrightarrow> contains xs s \<or> contains r s"
proof (induction xs)
  case Nil then show ?case by (cases s) auto
next
  case (Cons x xs) then show ?case using has_prefix_split [of b s "x # xs" r] by auto
qed

definition mark :: string where
  "mark = ''[redacted]''"

definition not_in_mark :: "string \<Rightarrow> bool" where
  "not_in_mark s \<longleftrightarrow> s \<noteq> [] \<and> CHR ''['' \<notin> set s \<and> CHR '']'' \<notin> set s \<and> \<not> contains ''redacted'' s"

lemma mark_unfold: "mark = CHR ''['' # (''redacted'' @ CHR '']'' # [])"
  by (simp add: mark_def)

lemma contains_mark:
  assumes "not_in_mark s" "contains (mark @ r) s"
  shows "contains r s"
proof -
  define w where "w = ''redacted''"
  have m: "mark @ r = [] @ CHR ''['' # (w @ CHR '']'' # r)" by (simp add: mark_def w_def)
  have s: "s \<noteq> []" "CHR ''['' \<notin> set s" "CHR '']'' \<notin> set s" "\<not> contains w s"
    using assms(1) by (simp_all only: not_in_mark_def w_def simp_thms)
  have "contains (w @ CHR '']'' # r) s"
    using contains_split [OF s(2,1) assms(2) [unfolded m]] s(1) by simp
  then show ?thesis using contains_split [OF s(3,1)] s(4) by blast
qed

lemma prefix_replace:
  "CHR ''['' \<notin> set s \<Longrightarrow> has_prefix (replace_from 0 old mark t) s \<Longrightarrow> has_prefix t s"
proof (induction t arbitrary: s)
  case (Cons c cs)
  show ?case
  proof (cases s)
    case (Cons d ds)
    then show ?thesis using Cons.prems Cons.IH [of ds] by (auto simp: mark_def split: if_splits)
  qed simp
qed simp

lemma not_in_markD: "not_in_mark s \<Longrightarrow> s \<noteq> [] \<and> CHR ''['' \<notin> set s"
  unfolding not_in_mark_def by blast

lemma prefix_replace_Cons:
  assumes "not_in_mark s" "has_prefix (c # replace_from 0 old mark cs) s"
  shows "has_prefix (c # cs) s"
  using not_in_markD [OF assms(1)] assms(2) prefix_replace [of "tl s" old cs] by (cases s) auto

lemma contains_replace:
  "not_in_mark s \<Longrightarrow> contains (replace_from k old mark t) s \<Longrightarrow> contains (drop k t) s"
proof (induction t arbitrary: k)
  case (Cons c cs)
  show ?case
  proof (cases "0 < k")
    case True then show ?thesis using Cons by (simp add: drop_Cons')
  next
    case False
    show ?thesis
    proof (cases "has_prefix (c # cs) old")
      case True
      then have "contains (replace_from (length old - 1) old mark cs) s"
        using Cons.prems False contains_mark [of s] by simp
      then have "contains cs s" using Cons.IH Cons.prems(1) contains_drop by blast
      then show ?thesis using False by simp
    next
      case no: False
      then have "has_prefix (c # replace_from 0 old mark cs) s \<or> contains (replace_from 0 old mark cs) s"
        using Cons.prems(2) False by simp
      then have "has_prefix (c # cs) s \<or> contains cs s"
        using prefix_replace_Cons Cons.IH [of 0] Cons.prems(1) by auto
      then show ?thesis using False by simp
    qed
  qed
qed simp

lemma replaced_gone: "not_in_mark s \<Longrightarrow> \<not> contains (replace_from k s mark t) s"
proof (induction t arbitrary: k)
  case Nil then show ?case using not_in_markD by simp
next
  case (Cons c cs)
  have 1: "\<not> contains (replace_from m s mark cs) s" for m using Cons by blast
  have 2: "\<not> contains (mark @ replace_from m s mark cs) s" for m using 1 contains_mark [OF Cons.prems] by blast
  show ?case using 1 2 prefix_replace_Cons [OF Cons.prems, of c s cs] by auto
qed

lemma replace_all_gone: "not_in_mark s \<Longrightarrow> \<not> contains (replace_all t s mark) s"
  by (simp add: replace_all_def replaced_gone)

lemma replace_all_keeps_out: "not_in_mark s \<Longrightarrow> \<not> contains t s \<Longrightarrow> \<not> contains (replace_all t old mark) s"
  using contains_replace [of s 0 old t] by (auto simp: replace_all_def)

section \<open>Cutting\<close>

definition before :: "char \<Rightarrow> string \<Rightarrow> string" where
  "before c s = takeWhile (\<lambda>x. x \<noteq> c) s"

definition after :: "char \<Rightarrow> string \<Rightarrow> string" where
  "after c s = drop 1 (dropWhile (\<lambda>x. x \<noteq> c) s)"

definition trim_prefix :: "string \<Rightarrow> string \<Rightarrow> string" where
  "trim_prefix s p = (if has_prefix s p then drop (length p) s else s)"

end
