(* ===== verification/Json.thy ===== *)
theory Json
  imports Text
begin

text \<open>
  The JSON documents of the program: the values of \<open>encoding/json\<close> as a datatype (an object is an
  association list in document order, duplicate keys included, as the decoder sees them; a number
  keeps its literal), a parser for the grammar \<open>json.Unmarshal\<close> accepts, and the decoding of an
  object into the string fields of a struct. Keys are matched to struct fields without regard to
  ASCII case and the last match wins, as the decoder does. The decoder's nesting limit (10000) and
  the non-ASCII folds of its key matching are not modelled.
\<close>

section \<open>Values\<close>

datatype json =
    JNull
  | JBool bool
  | JNum string
  | JStr string
  | JArr "json list"
  | JObj "(string \<times> json) list"

section \<open>Parsing\<close>

definition json_ws :: "char \<Rightarrow> bool" where
  "json_ws c \<longleftrightarrow> byte c = 32 \<or> byte c = 9 \<or> byte c = 10 \<or> byte c = 13"

definition skip_ws :: "string \<Rightarrow> string" where
  "skip_ws s = dropWhile json_ws s"

definition hex_digit :: "char \<Rightarrow> nat option" where
  "hex_digit c = (if 48 \<le> byte c \<and> byte c \<le> 57 then Some (byte c - 48)
                  else if 97 \<le> byte c \<and> byte c \<le> 102 then Some (byte c - 87)
                  else if 65 \<le> byte c \<and> byte c \<le> 70 then Some (byte c - 55) else None)"

fun hex4 :: "string \<Rightarrow> (nat \<times> string) option" where
  "hex4 (a # b # c # d # rest) =
     (case (hex_digit a, hex_digit b, hex_digit c, hex_digit d) of
        (Some w, Some x, Some y, Some z) \<Rightarrow> Some (4096 * w + 256 * x + 16 * y + z, rest)
      | _ \<Rightarrow> None)"
| "hex4 _ = None"

definition encode_rune :: "nat \<Rightarrow> string" where
  "encode_rune n =
     (if n < 128 then [char_of n]
      else if n < 2048 then [char_of (192 + n div 64), char_of (128 + n mod 64)]
      else if 55296 \<le> n \<and> n \<le> 57343 then replacement
      else if n < 65536 then
        [char_of (224 + n div 4096), char_of (128 + n div 64 mod 64), char_of (128 + n mod 64)]
      else if n < 1114112 then
        [char_of (240 + n div 262144), char_of (128 + n div 4096 mod 64),
         char_of (128 + n div 64 mod 64), char_of (128 + n mod 64)]
      else replacement)"

text \<open>A \<open>\u\<close> escape: a surrogate pair is one rune, a lone surrogate is U+FFFD.\<close>

definition unicode_escape :: "string \<Rightarrow> (string \<times> string) option" where
  "unicode_escape s = (case hex4 s of None \<Rightarrow> None
     | Some (n, rest) \<Rightarrow>
         (if 55296 \<le> n \<and> n \<le> 56319 then
            (case rest of b # u # rest1 \<Rightarrow>
               (if b = CHR 0x5C \<and> u = CHR ''u'' then
                  (case hex4 rest1 of None \<Rightarrow> Some (replacement, rest)
                   | Some (m, rest2) \<Rightarrow>
                       if 56320 \<le> m \<and> m \<le> 57343
                       then Some (encode_rune (65536 + (n - 55296) * 1024 + (m - 56320)), rest2)
                       else Some (replacement, rest))
                else Some (replacement, rest))
             | _ \<Rightarrow> Some (replacement, rest))
          else Some (encode_rune n, rest)))"

definition simple_escape :: "char \<Rightarrow> char option" where
  "simple_escape c = (if c = CHR 0x22 \<or> c = CHR 0x5C \<or> c = CHR ''/'' then Some c
     else if c = CHR ''b'' then Some (CHR 0x08) else if c = CHR ''f'' then Some (CHR 0x0C)
     else if c = CHR ''n'' then Some (CHR 0x0A) else if c = CHR ''r'' then Some (CHR 0x0D)
     else if c = CHR ''t'' then Some (CHR 0x09) else None)"

definition escape_seq :: "char \<Rightarrow> string \<Rightarrow> (string \<times> string) option" where
  "escape_seq e es = (if e = CHR ''u'' then unicode_escape es
                      else map_option (\<lambda>x. ([x], es)) (simple_escape e))"

text \<open>The rest of a string literal after its opening quote. The first argument bounds the number of
  characters read.\<close>

fun lit_chars :: "string \<Rightarrow> string \<Rightarrow> (string \<times> string) option" where
  "lit_chars [] s = None"
| "lit_chars (_ # f) [] = None"
| "lit_chars (_ # f) (c # cs) =
     (if c = CHR 0x22 then Some ([], cs)
      else if c = CHR 0x5C then
        (case cs of [] \<Rightarrow> None
         | e # es \<Rightarrow>
             (case escape_seq e es of
                None \<Rightarrow> None
              | Some (r, rest) \<Rightarrow> map_option (\<lambda>(t, u). (r @ t, u)) (lit_chars f rest)))
      else if byte c < 32 then None
      else map_option (\<lambda>(t, u). (c # t, u)) (lit_chars f cs))"

definition json_lit :: "string \<Rightarrow> (string \<times> string) option" where
  "json_lit s = map_option (\<lambda>(t, u). (concat (List.map canon_rune (pieces t)), u)) (lit_chars (CHR 0x20 # s) s)"

definition is_digit :: "char \<Rightarrow> bool" where
  "is_digit c \<longleftrightarrow> 48 \<le> byte c \<and> byte c \<le> 57"

definition digits :: "string \<Rightarrow> string \<times> string" where
  "digits s = (takeWhile is_digit s, dropWhile is_digit s)"

definition frac_part :: "string \<Rightarrow> (string \<times> string) option" where
  "frac_part s = (case s of
      c # cs \<Rightarrow> if c = CHR ''.'' then (case digits cs of (d, r) \<Rightarrow> if d = [] then None else Some (c # d, r))
               else Some ([], s)
    | [] \<Rightarrow> Some ([], s))"

definition exp_part :: "string \<Rightarrow> (string \<times> string) option" where
  "exp_part s = (case s of
      c # cs \<Rightarrow>
        if c = CHR ''e'' \<or> c = CHR ''E'' then
          (let (sg, ds) = (case cs of x # xs \<Rightarrow> if x = CHR ''+'' \<or> x = CHR ''-'' then ([x], xs) else ([], cs)
                                   | [] \<Rightarrow> ([], cs));
               (d, r) = digits ds
           in if d = [] then None else Some (c # sg @ d, r))
        else Some ([], s)
    | [] \<Rightarrow> Some ([], s))"

definition int_part :: "string \<Rightarrow> (string \<times> string) option" where
  "int_part s = (case s of
      c # cs \<Rightarrow> if c = CHR ''0'' then Some ([c], cs)
               else if is_digit c then (case digits s of (d, r) \<Rightarrow> Some (d, r)) else None
    | [] \<Rightarrow> None)"

definition json_num :: "string \<Rightarrow> (string \<times> string) option" where
  "json_num s =
     (let (sg, s1) = (case s of c # cs \<Rightarrow> if c = CHR ''-'' then ([c], cs) else ([], s) | [] \<Rightarrow> ([], s)) in
      case int_part s1 of None \<Rightarrow> None
      | Some (i, s2) \<Rightarrow>
          (case frac_part s2 of None \<Rightarrow> None
           | Some (f, s3) \<Rightarrow>
               (case exp_part s3 of None \<Rightarrow> None
                | Some (e, s4) \<Rightarrow> Some (sg @ i @ f @ e, s4))))"

definition keyword :: "string \<Rightarrow> (json \<times> string) option" where
  "keyword s = (if has_prefix s ''true'' then Some (JBool True, drop 4 s)
                else if has_prefix s ''false'' then Some (JBool False, drop 5 s)
                else if has_prefix s ''null'' then Some (JNull, drop 4 s) else None)"

fun pval :: "string \<Rightarrow> string \<Rightarrow> (json \<times> string) option"
  and pelems :: "string \<Rightarrow> string \<Rightarrow> (json list \<times> string) option"
  and pmembers :: "string \<Rightarrow> string \<Rightarrow> ((string \<times> json) list \<times> string) option" where
  "pval [] s = None"
| "pval (_ # f) s = (case skip_ws s of
      [] \<Rightarrow> None
    | c # cs \<Rightarrow>
        if c = CHR 0x22 then map_option (\<lambda>(t, r). (JStr t, r)) (json_lit cs)
        else if c = CHR 0x7B then
          (case skip_ws cs of
             d # r \<Rightarrow> if d = CHR 0x7D then Some (JObj [], r)
                     else map_option (\<lambda>(m, r). (JObj m, r)) (pmembers f cs)
           | [] \<Rightarrow> None)
        else if c = CHR 0x5B then
          (case skip_ws cs of
             d # r \<Rightarrow> if d = CHR 0x5D then Some (JArr [], r)
                     else map_option (\<lambda>(m, r). (JArr m, r)) (pelems f cs)
           | [] \<Rightarrow> None)
        else if c = CHR ''-'' \<or> is_digit c then map_option (\<lambda>(t, r). (JNum t, r)) (json_num (c # cs))
        else keyword (c # cs))"
| "pelems [] s = None"
| "pelems (_ # f) s = (case pval f s of None \<Rightarrow> None
    | Some (v, r) \<Rightarrow> (case skip_ws r of [] \<Rightarrow> None
        | c # cs \<Rightarrow> if c = CHR '','' then map_option (\<lambda>(vs, r). (v # vs, r)) (pelems f cs)
                   else if c = CHR 0x5D then Some ([v], cs) else None))"
| "pmembers [] s = None"
| "pmembers (_ # f) s = (case skip_ws s of [] \<Rightarrow> None
    | q # s1 \<Rightarrow> if q \<noteq> CHR 0x22 then None else
       (case json_lit s1 of None \<Rightarrow> None
        | Some (k, s2) \<Rightarrow>
           (case skip_ws s2 of [] \<Rightarrow> None
            | d # s3 \<Rightarrow> if d \<noteq> CHR '':'' then None else
               (case pval f s3 of None \<Rightarrow> None
                | Some (v, r) \<Rightarrow> (case skip_ws r of [] \<Rightarrow> None
                    | c # cs \<Rightarrow> if c = CHR '','' then map_option (\<lambda>(m, r). ((k, v) # m, r)) (pmembers f cs)
                               else if c = CHR 0x7D then Some ([(k, v)], cs) else None)))))"

definition json_parse :: "string \<Rightarrow> json option" where
  "json_parse s = (case pval (CHR 0x20 # CHR 0x20 # s @ s) s of None \<Rightarrow> None
     | Some (v, r) \<Rightarrow> if skip_ws r = [] then Some v else None)"

section \<open>Struct fields\<close>

definition key_match :: "string \<Rightarrow> string \<Rightarrow> bool" where
  "key_match name k \<longleftrightarrow> to_lower k = to_lower name"

text \<open>The raw value a \<open>json.RawMessage\<close> field receives.\<close>

definition field_raw :: "string \<Rightarrow> (string \<times> json) list \<Rightarrow> json option" where
  "field_raw name m = List.fold (\<lambda>(k, v) acc. if key_match name k then Some v else acc) m None"

text \<open>A \<open>string\<close> field: null leaves it, any other non-string value is a decoding error (\<open>None\<close>).\<close>

definition field_string :: "string \<Rightarrow> (string \<times> json) list \<Rightarrow> string option" where
  "field_string name m =
     List.fold (\<lambda>(k, v) acc. if key_match name k then
         (case v of JStr t \<Rightarrow> map_option (\<lambda>_. t) acc | JNull \<Rightarrow> acc | _ \<Rightarrow> None) else acc)
       m (Some [])"

section \<open>The fuel of the parser is enough\<close>

lemma skip_ws_le: "length (skip_ws s) \<le> length s"
  by (simp add: skip_ws_def length_dropWhile_le)

lemma skip_ws_Cons: "skip_ws s = c # cs \<Longrightarrow> length cs < length s"
  using skip_ws_le [of s] by simp

lemma hex4_length: "hex4 s = Some (n, r) \<Longrightarrow> length s = length r + 4"
  by (induction s rule: hex4.induct) (auto split: option.splits)

lemma unicode_escape_length: "unicode_escape s = Some (t, r) \<Longrightarrow> length r < length s"
  by (auto simp: unicode_escape_def split: option.splits if_splits list.splits dest!: hex4_length)

lemma escape_length: "escape_seq e es = Some (t, r) \<Longrightarrow> length r \<le> length es"
  by (auto simp: escape_seq_def split: if_splits dest: unicode_escape_length)

lemma lit_chars_Cons:
  "lit_chars (x # f) (c # cs) =
     (if c = CHR 0x22 then Some ([], cs)
      else if c = CHR 0x5C then
        (case cs of [] \<Rightarrow> None
         | e # es \<Rightarrow> (case escape_seq e es of None \<Rightarrow> None
              | Some (r, rest) \<Rightarrow> map_option (\<lambda>(t, u). (r @ t, u)) (lit_chars f rest)))
      else if byte c < 32 then None
      else map_option (\<lambda>(t, u). (c # t, u)) (lit_chars f cs))"
  by (rule lit_chars.simps(3))

lemma lit_chars_length: "lit_chars f s = Some (t, r) \<Longrightarrow> length r < length s"
proof (induction f arbitrary: s t r)
  case Nil then show ?case by simp
next
  case (Cons x f)
  show ?case
  proof (cases s)
    case Nil then show ?thesis using Cons.prems by simp
  next
    case (Cons c cs)
    consider "c = CHR 0x22" | "c \<noteq> CHR 0x22" "c = CHR 0x5C" | "c \<noteq> CHR 0x22" "c \<noteq> CHR 0x5C" by blast
    then show ?thesis
    proof cases
      case 1 then show ?thesis using Cons.prems Cons by (simp add: lit_chars_Cons)
    next
      case 2
      then obtain e es q rest t' where "cs = e # es" "escape_seq e es = Some (q, rest)" "lit_chars f rest = Some (t', r)"
        using Cons.prems Cons by (auto simp: lit_chars_Cons split: list.splits option.splits)
      then show ?thesis using Cons.IH [of rest t' r] escape_length [of e es q rest] Cons by simp
    next
      case 3
      then obtain t' where "lit_chars f cs = Some (t', r)"
        using Cons.prems Cons by (auto simp: lit_chars_Cons split: if_splits)
      then show ?thesis using Cons.IH [of cs t' r] Cons by simp
    qed
  qed
qed

lemma lit_chars_fuel:
  "length s < length f \<Longrightarrow> length s < length f' \<Longrightarrow> lit_chars f s = lit_chars f' s"
proof (induction f arbitrary: s f')
  case Nil then show ?case by simp
next
  case (Cons x f)
  then obtain y g where f': "f' = y # g" by (cases f') auto
  show ?case
  proof (cases s)
    case Nil then show ?thesis using f' by simp
  next
    case (Cons c cs)
    have tail: "lit_chars f u = lit_chars g u" if "length u \<le> length cs" for u
      using Cons.IH [of u g] Cons.prems Cons f' that by simp
    have esc: "lit_chars f u = lit_chars g u" if "cs = e # es" "escape_seq e es = Some (q, u)" for e es q u
      using tail [of u] escape_length [OF that(2)] that(1) by simp
    show ?thesis
      unfolding Cons f' lit_chars_Cons using tail [OF order_refl] esc
      by (simp split: list.split option.split)
  qed
qed

lemma json_lit_length: "json_lit s = Some (t, r) \<Longrightarrow> length r < length s"
  by (auto simp: json_lit_def dest: lit_chars_length)

lemma digits_length: "digits s = (d, r) \<Longrightarrow> length s = length d + length r"
  unfolding digits_def by (metis Pair_inject length_append takeWhile_dropWhile_id)

lemma frac_part_length: "frac_part s = Some (t, r) \<Longrightarrow> length r \<le> length s"
  by (auto simp: frac_part_def split: list.splits if_splits prod.splits dest: digits_length)

lemma exp_part_length: "exp_part s = Some (t, r) \<Longrightarrow> length r \<le> length s"
  by (auto simp: exp_part_def split: list.splits if_splits prod.splits dest: digits_length)

lemma int_part_length: "int_part s = Some (t, r) \<Longrightarrow> length r < length s"
proof (cases s)
  case (Cons c cs)
  assume "int_part s = Some (t, r)"
  then show ?thesis
    using digits_length [of s t r] Cons
    by (auto simp: int_part_def digits_def split: if_splits)
qed (simp add: int_part_def)

lemma json_num_length: "json_num s = Some (t, r) \<Longrightarrow> length r < length s"
  by (auto simp: json_num_def Let_def split: option.splits prod.splits list.splits if_splits
      dest!: int_part_length frac_part_length exp_part_length)

lemma keyword_length: "keyword s = Some (v, r) \<Longrightarrow> length r < length s"
  by (auto simp: keyword_def has_prefix_def split: if_splits)

lemma parser_length:
  "(\<forall>s v r. pval f s = Some (v, r) \<longrightarrow> length r < length s) \<and>
   (\<forall>s v r. pelems f s = Some (v, r) \<longrightarrow> length r < length s) \<and>
   (\<forall>s v r. pmembers f s = Some (v, r) \<longrightarrow> length r < length s)"
proof (induction f)
  case Nil then show ?case by simp
next
  case (Cons x f)
  then have V: "\<And>s v r. pval f s = Some (v, r) \<Longrightarrow> length r < length s"
    and E: "\<And>s v r. pelems f s = Some (v, r) \<Longrightarrow> length r < length s"
    and M: "\<And>s v r. pmembers f s = Some (v, r) \<Longrightarrow> length r < length s" by blast+
  have "length r < length s" if "pval (x # f) s = Some (v, r)" for s v r
  proof -
    from that have "skip_ws s \<noteq> []" by auto
    then obtain c cs where c: "skip_ws s = c # cs" by (cases "skip_ws s") simp_all
    have "length r < length (c # cs)"
      using that c
      by (auto split: if_splits list.splits dest!: json_lit_length E M skip_ws_Cons json_num_length keyword_length)
    then show ?thesis using skip_ws_le [of s] c by simp
  qed
  moreover have "length r < length s" if "pelems (x # f) s = Some (v, r)" for s v r
    using that by (auto split: option.splits list.splits if_splits dest!: V E skip_ws_Cons)
  moreover have "length r < length s" if "pmembers (x # f) s = Some (v, r)" for s v r
    using that by (auto split: option.splits list.splits if_splits dest!: V M skip_ws_Cons json_lit_length)
  ultimately show ?case by blast
qed

lemmas pval_length = parser_length [THEN conjunct1, rule_format]
lemmas pelems_length = parser_length [THEN conjunct2, THEN conjunct1, rule_format]
lemmas pmembers_length = parser_length [THEN conjunct2, THEN conjunct2, rule_format]

lemma parser_fuel:
  "(\<forall>s g. 2 * length s + 1 \<le> length f \<longrightarrow> 2 * length s + 1 \<le> length g \<longrightarrow> pval f s = pval g s) \<and>
   (\<forall>s g. 2 * length s + 2 \<le> length f \<longrightarrow> 2 * length s + 2 \<le> length g \<longrightarrow> pelems f s = pelems g s) \<and>
   (\<forall>s g. 2 * length s + 2 \<le> length f \<longrightarrow> 2 * length s + 2 \<le> length g \<longrightarrow> pmembers f s = pmembers g s)"
proof (induction f)
  case Nil then show ?case by simp
next
  case (Cons x f)
  then have V: "\<And>s g. 2 * length s + 1 \<le> length f \<Longrightarrow> 2 * length s + 1 \<le> length g \<Longrightarrow> pval f s = pval g s"
    and E: "\<And>s g. 2 * length s + 2 \<le> length f \<Longrightarrow> 2 * length s + 2 \<le> length g \<Longrightarrow> pelems f s = pelems g s"
    and M: "\<And>s g. 2 * length s + 2 \<le> length f \<Longrightarrow> 2 * length s + 2 \<le> length g \<Longrightarrow> pmembers f s = pmembers g s"
    by blast+
  have "pval (x # f) s = pval g s" if "2 * length s + 1 \<le> length (x # f)" "2 * length s + 1 \<le> length g" for s g
  proof -
    from that(2) have "g \<noteq> []" by auto
    then obtain y h where g: "g = y # h" by (cases g) simp_all
    show ?thesis
    proof (cases "skip_ws s")
      case Nil then show ?thesis by (simp add: g)
    next
      case (Cons c cs)
      then have "length cs < length s" by (rule skip_ws_Cons)
      then have "pelems f cs = pelems h cs" "pmembers f cs = pmembers h cs"
        using that g by (auto intro!: E M)
      then show ?thesis by (simp add: Cons g split: list.split)
    qed
  qed
  moreover have "pelems (x # f) s = pelems g s" if "2 * length s + 2 \<le> length (x # f)" "2 * length s + 2 \<le> length g" for s g
  proof -
    from that(2) have "g \<noteq> []" by auto
    then obtain y h where g: "g = y # h" by (cases g) simp_all
    have v: "pval f s = pval h s" using that g by (auto intro!: V)
    have e: "pelems f cs = pelems h cs" if "pval h s = Some (w, r)" "skip_ws r = c # cs" for w r c cs
      using pval_length [OF that(1)] skip_ws_Cons [OF that(2)] \<open>2 * length s + 2 \<le> length (x # f)\<close>
        \<open>2 * length s + 2 \<le> length g\<close> g by (auto intro!: E)
    show ?thesis by (auto simp: g v e split: option.split list.split)
  qed
  moreover have "pmembers (x # f) s = pmembers g s" if "2 * length s + 2 \<le> length (x # f)" "2 * length s + 2 \<le> length g" for s g
  proof -
    from that(2) have "g \<noteq> []" by auto
    then obtain y h where g: "g = y # h" by (cases g) simp_all
    have v: "pval f s3 = pval h s3"
      if "skip_ws s = q # s1" "json_lit s1 = Some (k, s2)" "skip_ws s2 = d # s3" for q s1 k s2 d s3
      using skip_ws_Cons [OF that(1)] json_lit_length [OF that(2)] skip_ws_Cons [OF that(3)]
        \<open>2 * length s + 2 \<le> length (x # f)\<close> \<open>2 * length s + 2 \<le> length g\<close> g by (auto intro!: V)
    have m: "pmembers f cs = pmembers h cs"
      if "skip_ws s = q # s1" "json_lit s1 = Some (k, s2)" "skip_ws s2 = d # s3"
         "pval h s3 = Some (w, r)" "skip_ws r = c # cs" for q s1 k s2 d s3 w r c cs
      using skip_ws_Cons [OF that(1)] json_lit_length [OF that(2)] skip_ws_Cons [OF that(3)]
        pval_length [OF that(4)] skip_ws_Cons [OF that(5)]
        \<open>2 * length s + 2 \<le> length (x # f)\<close> \<open>2 * length s + 2 \<le> length g\<close> g by (auto intro!: M)
    show ?thesis by (auto simp: g v m split: option.split list.split)
  qed
  ultimately show ?case by blast
qed

lemmas pval_fuel = parser_fuel [THEN conjunct1, rule_format]

lemma json_parse_fuel:
  "2 * length s + 1 \<le> length f \<Longrightarrow>
   json_parse s = (case pval f s of None \<Rightarrow> None | Some (v, r) \<Rightarrow> if skip_ws r = [] then Some v else None)"
  using pval_fuel [of s f "CHR 0x20 # CHR 0x20 # s @ s"] by (simp add: json_parse_def)

end
