(* ===== verification/GoValue.thy ===== *)
theory GoValue
  imports Json "HOL-Library.List_Lexorder" "HOL-Library.Char_ord"
begin

text \<open>
  The dynamic values the translation layer works on: a Go \<open>any\<close> that came out of \<open>json.Unmarshal\<close> or
  that the code built, a \<open>map[string]any\<close> being an association list with distinct keys. Numbers of a
  document are IEEE doubles, as the decoder makes them: \<open>Flt neg m e\<close> is the double of value m * 2^e.
  Decoding rounds a literal to the nearest double; encoding writes the shortest decimal that reads
  back as the same double, sorts the keys of an object and escapes HTML, as \<open>encoding/json\<close> does;
  \<open>sprint\<close> is \<open>fmt.Sprint\<close>. A nil slice stored in a document is written \<open>null\<close>, like nil, and nothing
  in the code tells the two apart once stored: both are \<open>ANil\<close>.
\<close>

section \<open>Doubles\<close>

datatype flt = Flt bool int int

text \<open>The arithmetic is on integers, so that it evaluates in binary.\<close>

function bits :: "int \<Rightarrow> int" where
  "bits n = (if n \<le> 0 then 0 else 1 + bits (n div 2))"
  by pat_completeness auto
termination by (relation "measure nat") auto

declare bits.simps [simp del]

text \<open>The double nearest to n / d, ties to even; \<open>None\<close> on overflow.\<close>

definition shift_ratio :: "int \<Rightarrow> int \<Rightarrow> int \<Rightarrow> int \<times> int" where
  "shift_ratio n d e = (if 0 \<le> e then (n, d * 2 ^ nat e) else (n * 2 ^ nat (- e), d))"

definition half_even :: "int \<Rightarrow> int \<Rightarrow> int" where
  "half_even n d = (let q = n div d; r = n mod d in if d < 2 * r \<or> (2 * r = d \<and> q mod 2 = 1) then q + 1 else q)"

definition round_ratio :: "int \<Rightarrow> int \<Rightarrow> (int \<times> int) option" where
  "round_ratio n d =
     (if n = 0 then Some (0, 0)
      else let j = bits n - bits d;
               (a, b) = shift_ratio n d j;
               fl = (if b \<le> a then j else j - 1);
               e = max (- 1074) (fl - 52);
               (x, y) = shift_ratio n d e;
               m = half_even x y;
               (m, e) = (if m = 2 ^ 53 then (2 ^ 52, e + 1) else (m, e))
           in if 971 < e then None else if m = 0 then Some (0, 0) else Some (m, e))"

definition ratio10 :: "int \<Rightarrow> int \<Rightarrow> int \<Rightarrow> int \<times> int" where
  "ratio10 n d k = (if 0 \<le> k then (n * 10 ^ nat k, d) else (n, d * 10 ^ nat (- k)))"

definition digit_int :: "string \<Rightarrow> int" where
  "digit_int s = List.fold (\<lambda>c acc. 10 * acc + (of_char c - 48)) s 0"

function int_digits :: "int \<Rightarrow> string" where
  "int_digits n = (if n < 10 then [char_of (48 + n)] else int_digits (n div 10) @ [char_of (48 + n mod 10)])"
  by pat_completeness auto
termination by (relation "measure nat") auto

declare int_digits.simps [simp del]

text \<open>A JSON number literal: sign, digits, fraction, exponent.\<close>

definition signed_digits :: "string \<Rightarrow> int" where
  "signed_digits s = (case s of c # cs \<Rightarrow> if c = CHR ''-'' then - digit_int cs
                     else if c = CHR ''+'' then digit_int cs else digit_int s | [] \<Rightarrow> 0)"

definition float_of_lit :: "string \<Rightarrow> flt option" where
  "float_of_lit s =
     (let (neg, s1) = (case s of c # cs \<Rightarrow> if c = CHR ''-'' then (True, cs) else (False, s) | [] \<Rightarrow> (False, s));
          (i, s2) = digits s1;
          (f, s3) = (case s2 of c # cs \<Rightarrow> if c = CHR ''.'' then digits cs else ([], s2) | [] \<Rightarrow> ([], []));
          x = (case s3 of [] \<Rightarrow> 0 | c # cs \<Rightarrow> signed_digits cs);
          (n, d) = ratio10 (digit_int (i @ f)) 1 (x - int (length f))
      in map_option (\<lambda>(m, e). Flt neg m e) (round_ratio n d))"

text \<open>The shortest digits that read back as m * 2^e, with the position of the decimal point: the value
  is 0.ds * 10^dp. Of several candidates of one length the nearest is taken.\<close>

definition ratio_of :: "int \<Rightarrow> int \<Rightarrow> int \<times> int" where
  "ratio_of m e = (if 0 \<le> e then (m * 2 ^ nat e, 1) else (m, 2 ^ nat (- e)))"

definition log10_ratio :: "int \<Rightarrow> int \<Rightarrow> int" where
  "log10_ratio n d =
     (if d \<le> n then int (length (int_digits (n div d))) - 1
      else case List.find (\<lambda>k. d \<le> n * 10 ^ k) [1..<400] of Some k \<Rightarrow> - int k | None \<Rightarrow> 0)"

definition reads_back :: "int \<Rightarrow> int \<Rightarrow> int \<Rightarrow> int \<Rightarrow> bool" where
  "reads_back m e s c = (case ratio10 c 1 s of (x, y) \<Rightarrow> round_ratio x y = Some (m, e))"

definition digits_at :: "int \<Rightarrow> int \<Rightarrow> int \<Rightarrow> int option" where
  "digits_at m e s =
     (let (n, d) = ratio_of m e; (a, b) = ratio10 n d (- s); lo = a div b; r = a mod b in
      if reads_back m e s lo \<and> (2 * r \<le> b \<or> \<not> reads_back m e s (lo + 1)) then Some lo
      else if reads_back m e s (lo + 1) then Some (lo + 1) else None)"

definition drop_zeros :: "string \<Rightarrow> string" where
  "drop_zeros s = rev (dropWhile (\<lambda>c. c = CHR ''0'') (rev s))"

fun shortest_from :: "int \<Rightarrow> int \<Rightarrow> int \<Rightarrow> nat list \<Rightarrow> string \<times> int" where
  "shortest_from m e p [] = ([], 0)"
| "shortest_from m e p (k # ks) =
     (let s = p - int k + 1 in
      case digits_at m e s of
        Some c \<Rightarrow> (drop_zeros (int_digits c), int (length (int_digits c)) + s)
      | None \<Rightarrow> shortest_from m e p ks)"

definition shortest :: "int \<Rightarrow> int \<Rightarrow> string \<times> int" where
  "shortest m e = (if m = 0 then ([], 0)
     else case ratio_of m e of (n, d) \<Rightarrow> shortest_from m e (log10_ratio n d) [1..<18])"

definition zeros :: "nat \<Rightarrow> string" where
  "zeros n = replicate n (CHR ''0'')"

text \<open>\<open>%f\<close> and \<open>%e\<close> of \<open>strconv\<close> with the shortest precision.\<close>

definition fmt_f :: "string \<Rightarrow> int \<Rightarrow> string" where
  "fmt_f ds dp =
     (let whole = (if 0 < dp then take (nat dp) ds @ zeros (nat dp - length ds) else ''0'');
          frac = (if 0 < dp then drop (nat dp) ds else if ds = [] then [] else zeros (nat (- dp)) @ ds)
      in if frac = [] then whole else whole @ ''.'' @ frac)"

definition fmt_e :: "nat \<Rightarrow> string \<Rightarrow> int \<Rightarrow> string" where
  "fmt_e width ds dp =
     (let x = dp - 1; a = int_digits (if x < 0 then - x else x) in
      take 1 ds @ (if drop 1 ds = [] then [] else ''.'' @ drop 1 ds) @ ''e'' @
      (if x < 0 then ''-'' else ''+'') @ zeros (width - length a) @ a)"

definition json_float :: "flt \<Rightarrow> string" where
  "json_float f = (case f of Flt neg m e \<Rightarrow> case shortest m e of (ds, dp) \<Rightarrow>
     (if neg then ''-'' else []) @
     (if m \<noteq> 0 \<and> (dp < - 5 \<or> 22 \<le> dp) then fmt_e (if dp < 1 then 1 else 2) ds dp else fmt_f ds dp))"

definition sprint_float :: "flt \<Rightarrow> string" where
  "sprint_float f = (case f of Flt neg m e \<Rightarrow> case shortest m e of (ds, dp) \<Rightarrow>
     (if neg then ''-'' else []) @
     (if m \<noteq> 0 \<and> (dp < - 3 \<or> 7 \<le> dp) then fmt_e 2 ds dp else fmt_f ds dp))"

section \<open>Dynamic values\<close>

datatype any =
    ANil
  | ABool bool
  | ANum flt
  | AInt int
  | AStr string
  | AArr "any list"
  | AObj "(string \<times> any) list"

type_synonym obj = "(string, any) gomap"

fun any_of :: "json \<Rightarrow> any option" where
  "any_of JNull = Some ANil"
| "any_of (JBool b) = Some (ABool b)"
| "any_of (JNum l) = map_option ANum (float_of_lit l)"
| "any_of (JStr s) = Some (AStr s)"
| "any_of (JArr vs) = map_option AArr (those (map any_of vs))"
| "any_of (JObj m) =
     map_option (\<lambda>ps. AObj (List.fold (\<lambda>(k, v) acc. gm_set k v acc) ps []))
       (those (map (\<lambda>kv. map_option (Pair (fst kv)) (any_of (snd kv))) m))"

definition unmarshal_any :: "string \<Rightarrow> any option" where
  "unmarshal_any s = Option.bind (json_parse s) any_of"

text \<open>\<open>json.Unmarshal\<close> into a \<open>map[string]any\<close>: an object, or null, which leaves the map nil
  (\<open>Some None\<close>), or an error (\<open>None\<close>).\<close>

definition unmarshal_map :: "string \<Rightarrow> obj option option" where
  "unmarshal_map s = (case unmarshal_any s of
      Some (AObj m) \<Rightarrow> Some (Some m) | Some ANil \<Rightarrow> Some None | _ \<Rightarrow> None)"

section \<open>Reading values\<close>

text \<open>Indexing a map that lacks the key yields nil; a failed type assertion yields the zero value.\<close>

definition at :: "obj \<Rightarrow> string \<Rightarrow> any" where
  "at m k = gm_get0 ANil m k"

definition has_key :: "obj \<Rightarrow> string \<Rightarrow> bool" where
  "has_key m k \<longleftrightarrow> gm_get m k \<noteq> None"

fun as_map :: "any \<Rightarrow> obj" where
  "as_map (AObj m) = m" | "as_map _ = []"

fun is_map :: "any \<Rightarrow> bool" where
  "is_map (AObj m) = True" | "is_map _ = False"

fun as_str :: "any \<Rightarrow> string option" where
  "as_str (AStr s) = Some s" | "as_str _ = None"

fun strField :: "any \<Rightarrow> string" where
  "strField (AStr s) = s" | "strField _ = []"

fun as_bool :: "any \<Rightarrow> bool option" where
  "as_bool (ABool b) = Some b" | "as_bool _ = None"

fun asSlice :: "any \<Rightarrow> any list option" where
  "asSlice (AArr xs) = Some xs" | "asSlice _ = None"

definition elems :: "any \<Rightarrow> any list" where
  "elems v = (case asSlice v of Some xs \<Rightarrow> xs | None \<Rightarrow> [])"

text \<open>A slice stored in a document: the nil slice is null.\<close>

fun boxed :: "any list option \<Rightarrow> any" where
  "boxed None = ANil" | "boxed (Some xs) = AArr xs"

definition nil_slice :: "any list \<Rightarrow> any" where
  "nil_slice xs = (if xs = [] then ANil else AArr xs)"

definition is_str :: "any \<Rightarrow> string \<Rightarrow> bool" where
  "is_str v s \<longleftrightarrow> v = AStr s"

section \<open>Integers out of values\<close>

definition max_int64 :: int where
  "max_int64 = 2 ^ 63 - 1"

text \<open>\<open>fmt.Sscanf(s, "%d", &n)\<close> for an \<open>int64\<close>: blanks, an optional sign, digits; what follows is ignored.\<close>

definition scan_space :: "string list \<Rightarrow> string list option" where
  "scan_space rs =
     (let rest = dropWhile (\<lambda>r. is_space r \<and> r \<noteq> [CHR 0x0A]) rs in
      if rest \<noteq> [] \<and> hd rest = [CHR 0x0A] then None else Some rest)"

definition sscan_int :: "string \<Rightarrow> int option" where
  "sscan_int s = (case scan_space (pieces s) of None \<Rightarrow> None | Some rs \<Rightarrow>
     (let t = concat rs;
          (neg, u) = (case t of c # cs \<Rightarrow> if c = CHR ''-'' then (True, cs)
                        else if c = CHR ''+'' then (False, cs) else (False, t) | [] \<Rightarrow> (False, []));
          ds = takeWhile is_digit u;
          n = (if neg then - digit_int ds else digit_int ds)
      in if ds = [] \<or> max_int64 < n \<or> n < - (2 ^ 63) then None else Some n))"

text \<open>A double that is a non-negative integer below 2^63.\<close>

definition float_nat :: "flt \<Rightarrow> int option" where
  "float_nat f = (case f of Flt neg m e \<Rightarrow>
     if m = 0 then Some 0
     else if neg then None
     else if 0 \<le> e then (if m * 2 ^ nat e < 2 ^ 63 then Some (m * 2 ^ nat e) else None)
     else if m mod 2 ^ nat (- e) = 0 then (if m div 2 ^ nat (- e) < 2 ^ 63 then Some (m div 2 ^ nat (- e)) else None)
     else None)"

fun coerceInt64 :: "any \<Rightarrow> int option" where
  "coerceInt64 (AInt n) = Some n"
| "coerceInt64 (ANum f) = float_nat f"
| "coerceInt64 (AStr s) = (case sscan_int s of Some n \<Rightarrow> if 0 \<le> n then Some n else None | None \<Rightarrow> None)"
| "coerceInt64 _ = None"

text \<open>Arithmetic of \<open>int64\<close>.\<close>

definition wrap64 :: "int \<Rightarrow> int" where
  "wrap64 n = (n + 2 ^ 63) mod 2 ^ 64 - 2 ^ 63"

section \<open>Arithmetic of doubles\<close>

text \<open>An infinite double is written with the exponent 1024, which no finite one has; it is only ever the
  result of a sum of finite doubles. \<open>encoding/json\<close> refuses to encode it.\<close>

definition flt_zero :: flt where
  "flt_zero = Flt False 0 0"

definition flt_inf :: "bool \<Rightarrow> flt" where
  "flt_inf neg = Flt neg 1 1024"

definition signed :: "bool \<Rightarrow> int \<Rightarrow> int" where
  "signed neg m = (if neg then - m else m)"

definition flt_add :: "flt \<Rightarrow> flt \<Rightarrow> flt" where
  "flt_add a b = (case (a, b) of (Flt n1 m1 e1, Flt n2 m2 e2) \<Rightarrow>
     (let e = min e1 e2;
          n = signed n1 (m1 * 2 ^ nat (e1 - e)) + signed n2 (m2 * 2 ^ nat (e2 - e));
          neg = (if n = 0 then n1 \<and> n2 else n < 0);
          (x, y) = ratio_of \<bar>n\<bar> e
      in case round_ratio x y of Some (m, e) \<Rightarrow> Flt neg m e | None \<Rightarrow> flt_inf neg))"

definition flt_pos :: "flt \<Rightarrow> bool" where
  "flt_pos f = (case f of Flt neg m e \<Rightarrow> \<not> neg \<and> m \<noteq> 0)"

definition flt_finite :: "flt \<Rightarrow> bool" where
  "flt_finite f = (case f of Flt neg m e \<Rightarrow> e \<le> 971)"

fun finite_any :: "any \<Rightarrow> bool" where
  "finite_any (ANum f) = flt_finite f"
| "finite_any (AArr vs) = list_all finite_any vs"
| "finite_any (AObj m) = list_all (\<lambda>kv. finite_any (snd kv)) m"
| "finite_any _ = True"

section \<open>Encoding\<close>

definition hex_char :: "nat \<Rightarrow> char" where
  "hex_char n = ''0123456789abcdef'' ! n"

definition u_escape :: "nat \<Rightarrow> string" where
  "u_escape n = [CHR 0x5C, CHR ''u'', hex_char (n div 4096 mod 16), hex_char (n div 256 mod 16),
                 hex_char (n div 16 mod 16), hex_char (n mod 16)]"

definition short_escape :: "nat \<Rightarrow> string option" where
  "short_escape b = (if b = 34 then Some [CHR 0x5C, CHR 0x22] else if b = 92 then Some [CHR 0x5C, CHR 0x5C]
     else if b = 8 then Some [CHR 0x5C, CHR ''b''] else if b = 12 then Some [CHR 0x5C, CHR ''f'']
     else if b = 10 then Some [CHR 0x5C, CHR ''n''] else if b = 13 then Some [CHR 0x5C, CHR ''r'']
     else if b = 9 then Some [CHR 0x5C, CHR ''t''] else None)"

definition esc_rune :: "string \<Rightarrow> string" where
  "esc_rune r =
     (if \<not> valid_rune r then u_escape 65533
      else if length r = 1 then
        (let b = byte (hd r) in
         case short_escape b of Some x \<Rightarrow> x
         | None \<Rightarrow> if b < 32 \<or> b = 60 \<or> b = 62 \<or> b = 38 then u_escape b else r)
      else if r = [CHR 0xE2, CHR 0x80, CHR 0xA8] then u_escape 8232
      else if r = [CHR 0xE2, CHR 0x80, CHR 0xA9] then u_escape 8233
      else r)"

definition json_string :: "string \<Rightarrow> string" where
  "json_string s = [CHR 0x22] @ concat (map esc_rune (pieces s)) @ [CHR 0x22]"

definition int_text :: "int \<Rightarrow> string" where
  "int_text n = (if n < 0 then CHR ''-'' # int_digits (- n) else int_digits n)"

fun marshal :: "any \<Rightarrow> string" where
  "marshal ANil = ''null''"
| "marshal (ABool b) = (if b then ''true'' else ''false'')"
| "marshal (ANum f) = json_float f"
| "marshal (AInt n) = int_text n"
| "marshal (AStr s) = json_string s"
| "marshal (AArr vs) = ''['' @ join_with '','' (map marshal vs) @ '']''"
| "marshal (AObj m) = CHR 0x7B #
     join_with '','' (map snd (sort_key fst (map (\<lambda>kv. (fst kv, json_string (fst kv) @ '':'' @ marshal (snd kv))) m)))
     @ [CHR 0x7D]"

fun sprint :: "any \<Rightarrow> string" where
  "sprint ANil = ''<nil>''"
| "sprint (ABool b) = (if b then ''true'' else ''false'')"
| "sprint (ANum f) = sprint_float f"
| "sprint (AInt n) = int_text n"
| "sprint (AStr s) = s"
| "sprint (AArr vs) = ''['' @ join_with '' '' (map sprint vs) @ '']''"
| "sprint (AObj m) = ''map['' @
     join_with '' '' (map snd (sort_key fst (map (\<lambda>kv. (fst kv, fst kv @ '':'' @ sprint (snd kv))) m))) @ '']''"

end
