(* ===== verification/Reasoning.thy ===== *)
theory Reasoning
  imports GoValue
begin

text \<open>
  Reasoning controls (\<open>internal/server/translate.go\<close>, \<open>internal/providers/registry.go\<close>): the selector a
  client states in its own protocol is read into a canonical \<open>reasoningSelector\<close>
  (\<open>extractReasoningSelector\<close>) and written into the request of the target in the target's protocol,
  as far as the capabilities of its model allow (\<open>applyReasoningSelector\<close>). A function that mutates a
  Go map returns the new map and whether it changed. The lemmas say what a target can receive:
  only selectors it advertises, and nothing outside the selector fields is touched.
\<close>

section \<open>Capabilities\<close>

abbreviation (input) ProtocolChat :: string where "ProtocolChat \<equiv> ''chat''"
abbreviation (input) ProtocolResponses :: string where "ProtocolResponses \<equiv> ''responses''"
abbreviation (input) ProtocolMessages :: string where "ProtocolMessages \<equiv> ''messages''"

record ReasoningOption =
  opt_Type :: string
  opt_Values :: "string list"
  opt_Min :: "int option"
  opt_Max :: "int option"

record ReasoningCapabilities =
  caps_Options :: "ReasoningOption list"
  caps_ClientEfforts :: "string list option"
  caps_ThinkingModes :: "string list"
  caps_DefaultEffort :: string
  caps_Mandatory :: "bool option"
  caps_DefaultEnabled :: "bool option"
  caps_Parameters :: "string list"
  caps_EffortAliases :: "(string, string) gomap"

record ReasoningOptions =
  SupportsEffort :: bool
  SupportedEfforts :: "string list"
  SupportsDisable :: bool
  SupportsBudget :: bool
  BudgetMin :: "int option"
  BudgetMax :: "int option"
  SupportsToggle :: bool
  SupportsAdaptive :: bool
  SupportsEnabled :: bool

definition no_options :: ReasoningOptions where
  "no_options = \<lparr>SupportsEffort = False, SupportedEfforts = [], SupportsDisable = False,
     SupportsBudget = False, BudgetMin = None, BudgetMax = None, SupportsToggle = False,
     SupportsAdaptive = False, SupportsEnabled = False\<rparr>"

definition lower_bound :: "int option \<Rightarrow> int option \<Rightarrow> int option" where
  "lower_bound new old = (case new of None \<Rightarrow> old
     | Some v \<Rightarrow> (case old of None \<Rightarrow> Some v | Some w \<Rightarrow> if v < w then Some v else Some w))"

definition upper_bound :: "int option \<Rightarrow> int option \<Rightarrow> int option" where
  "upper_bound new old = (case new of None \<Rightarrow> old
     | Some v \<Rightarrow> (case old of None \<Rightarrow> Some v | Some w \<Rightarrow> if w < v then Some v else Some w))"

definition add_option :: "ReasoningOption \<Rightarrow> ReasoningOptions \<Rightarrow> ReasoningOptions" where
  "add_option opt r =
     (if opt_Type opt = ''effort'' then
        r\<lparr>SupportsEffort := True, SupportedEfforts := opt_Values opt,
          SupportsDisable := SupportsDisable r \<or> List.member (opt_Values opt) ''none''\<rparr>
      else if opt_Type opt = ''budget_tokens'' then
        r\<lparr>SupportsBudget := True, BudgetMin := lower_bound (opt_Min opt) (BudgetMin r),
          BudgetMax := upper_bound (opt_Max opt) (BudgetMax r)\<rparr>
      else if opt_Type opt = ''toggle'' then r\<lparr>SupportsToggle := True\<rparr>
      else r)"

definition add_mode :: "string \<Rightarrow> ReasoningOptions \<Rightarrow> ReasoningOptions" where
  "add_mode md r = (if md = ''adaptive'' then r\<lparr>SupportsAdaptive := True\<rparr>
                    else if md = ''enabled'' then r\<lparr>SupportsEnabled := True\<rparr> else r)"

definition ExtractReasoningOptions :: "ReasoningCapabilities option \<Rightarrow> ReasoningOptions" where
  "ExtractReasoningOptions caps = (case caps of None \<Rightarrow> no_options
     | Some c \<Rightarrow> List.fold add_mode (caps_ThinkingModes c) (List.fold add_option (caps_Options c) no_options))"

definition canonicalEffortOrder :: "string list" where
  "canonicalEffortOrder = [''none'', ''minimal'', ''low'', ''medium'', ''high'', ''xhigh'', ''max'']"

fun index_in :: "'a list \<Rightarrow> 'a \<Rightarrow> int option" where
  "index_in [] x = None"
| "index_in (y # ys) x = (if y = x then Some 0 else map_option ((+) 1) (index_in ys x))"

definition effortIndex :: "string \<Rightarrow> int" where
  "effortIndex v = (case index_in canonicalEffortOrder v of Some i \<Rightarrow> i | None \<Rightarrow> -1)"

text \<open>The values without repetitions, in encounter order: \<open>seen\<close> of the code.\<close>

fun first_seen :: "'a list \<Rightarrow> 'a list \<Rightarrow> 'a list" where
  "first_seen seen [] = []"
| "first_seen seen (v # vs) =
     (if List.member seen v then first_seen seen vs else v # first_seen (v # seen) vs)"

definition SortEfforts :: "string list \<Rightarrow> string list" where
  "SortEfforts values =
     (let vs = first_seen [] values;
          known = filter (\<lambda>v. 0 \<le> effortIndex v) vs;
          unknown = filter (\<lambda>v. effortIndex v < 0) vs
      in sort_key effortIndex known @ unknown)"

section \<open>Selectors\<close>

record reasoningSelector =
  Present :: bool
  Enabled :: "bool option"
  Mode :: string
  Effort :: string
  BudgetTokens :: "int option"

definition no_selector :: reasoningSelector where
  "no_selector = \<lparr>Present = False, Enabled = None, Mode = [], Effort = [], BudgetTokens = None\<rparr>"

text \<open>\<open>if x, ok := v.(string); ok && x != ""\<close>.\<close>

definition when_text :: "any \<Rightarrow> (string \<Rightarrow> 's \<Rightarrow> 's) \<Rightarrow> 's \<Rightarrow> 's" where
  "when_text v f s = (case as_str v of Some x \<Rightarrow> if x \<noteq> [] then f x s else s | None \<Rightarrow> s)"

definition when_int :: "any \<Rightarrow> (int \<Rightarrow> 's \<Rightarrow> 's) \<Rightarrow> 's \<Rightarrow> 's" where
  "when_int v f s = (case coerceInt64 v of Some x \<Rightarrow> f x s | None \<Rightarrow> s)"

definition when_bool :: "any \<Rightarrow> (bool \<Rightarrow> 's \<Rightarrow> 's) \<Rightarrow> 's \<Rightarrow> 's" where
  "when_bool v f s = (case as_bool v of Some x \<Rightarrow> f x s | None \<Rightarrow> s)"

definition extractChatReasoning :: "obj \<Rightarrow> reasoningSelector" where
  "extractChatReasoning source =
     (let sel = when_text (at source ''reasoning_effort'')
                  (\<lambda>e s. s\<lparr>Present := True, Effort := e\<rparr>) no_selector in
      case at source ''reasoning'' of
        AObj reasoning \<Rightarrow>
          (let sel = when_text (at reasoning ''effort'')
                       (\<lambda>e s. s\<lparr>Present := True, Effort := (if Effort s = [] then e else Effort s)\<rparr>) sel;
               sel = when_int (at reasoning ''max_tokens'')
                       (\<lambda>n s. s\<lparr>Present := True, BudgetTokens := Some n\<rparr>) sel
           in when_bool (at reasoning ''enabled'') (\<lambda>b s. s\<lparr>Present := True, Enabled := Some b\<rparr>) sel)
      | _ \<Rightarrow> sel)"

definition extractResponsesReasoning :: "obj \<Rightarrow> reasoningSelector" where
  "extractResponsesReasoning source = (case at source ''reasoning'' of
      AObj reasoning \<Rightarrow> when_text (at reasoning ''effort'') (\<lambda>e s. s\<lparr>Present := True, Effort := e\<rparr>) no_selector
    | _ \<Rightarrow> no_selector)"

definition extractMessagesReasoning :: "obj \<Rightarrow> reasoningSelector" where
  "extractMessagesReasoning source =
     (let sel = (case at source ''output_config'' of
                   AObj oc \<Rightarrow> when_text (at oc ''effort'') (\<lambda>e s. s\<lparr>Present := True, Effort := e\<rparr>) no_selector
                 | _ \<Rightarrow> no_selector)
      in case at source ''thinking'' of
           AObj thinking \<Rightarrow>
             when_int (at thinking ''budget_tokens'') (\<lambda>n s. s\<lparr>Present := True, BudgetTokens := Some n\<rparr>)
               (when_text (at thinking ''type'') (\<lambda>t s. s\<lparr>Present := True, Mode := t\<rparr>) sel)
         | _ \<Rightarrow> sel)"

definition extractReasoningSelector :: "string \<Rightarrow> string \<Rightarrow> reasoningSelector" where
  "extractReasoningSelector body protocol =
     (case unmarshal_map body of None \<Rightarrow> no_selector
      | Some source \<Rightarrow>
          (let m = (case source of Some m \<Rightarrow> m | None \<Rightarrow> []) in
           if protocol = ProtocolChat then extractChatReasoning m
           else if protocol = ProtocolResponses then extractResponsesReasoning m
           else if protocol = ProtocolMessages then extractMessagesReasoning m
           else no_selector))"

definition clientExplicitlyNonStreaming :: "string \<Rightarrow> bool" where
  "clientExplicitlyNonStreaming body =
     (case unmarshal_map body of None \<Rightarrow> False
      | Some source \<Rightarrow>
          (let request = (case source of Some m \<Rightarrow> m | None \<Rightarrow> []) in
           if \<not> has_key request ''stream'' then False
           else as_bool (at request ''stream'') \<noteq> Some True))"

section \<open>Removing a selector\<close>

text \<open>Deletes the named keys that are present from a map stored under a key of the source; a map left
  empty is deleted itself.\<close>

definition drop_keys :: "string list \<Rightarrow> obj \<Rightarrow> obj \<times> bool" where
  "drop_keys ks m = List.fold (\<lambda>k (m, ch). if has_key m k then (gm_del k m, True) else (m, ch)) ks (m, False)"

definition strip_nested :: "string \<Rightarrow> string list \<Rightarrow> obj \<Rightarrow> obj \<times> bool" where
  "strip_nested name ks source = (case at source name of
      AObj m \<Rightarrow>
        (case drop_keys ks m of (m', ch) \<Rightarrow>
           if m' = [] then (gm_del name source, True) else (gm_set name (AObj m') source, ch))
    | _ \<Rightarrow> (source, False))"

definition stripReasoningSelectorMap :: "string \<Rightarrow> obj \<Rightarrow> obj \<times> bool" where
  "stripReasoningSelectorMap target source =
     (if target = ProtocolChat then
        (let (s1, c1) = drop_keys [''reasoning_effort''] source;
             (s2, c2) = strip_nested ''reasoning'' [''effort'', ''max_tokens'', ''enabled'', ''mode''] s1
         in (s2, c1 \<or> c2))
      else if target = ProtocolResponses then
        strip_nested ''reasoning'' [''effort'', ''enabled'', ''mode''] source
      else if target = ProtocolMessages then
        (let (s1, c1) = strip_nested ''output_config'' [''effort''] source;
             (s2, c2) = strip_nested ''thinking'' [''type'', ''budget_tokens''] s1
         in (s2, c1 \<or> c2))
      else (source, False))"

definition stripReasoningSelector :: "string \<Rightarrow> string \<Rightarrow> string" where
  "stripReasoningSelector body target =
     (case unmarshal_map body of None \<Rightarrow> body
      | Some source \<Rightarrow>
          (case stripReasoningSelectorMap target (case source of Some m \<Rightarrow> m | None \<Rightarrow> []) of
             (m, ch) \<Rightarrow> if ch then marshal (AObj m) else body))"

section \<open>Writing a selector\<close>

definition set_nested :: "string \<Rightarrow> string \<Rightarrow> any \<Rightarrow> obj \<Rightarrow> obj" where
  "set_nested name k v source = gm_set name (AObj (gm_set k v (as_map (at source name)))) source"

definition maxJavaScriptSafeInteger :: int where
  "maxJavaScriptSafeInteger = 2 ^ 53 - 1"

definition setChatEffort :: "string \<Rightarrow> obj \<Rightarrow> obj" where
  "setChatEffort effort source = gm_set ''reasoning_effort'' (AStr effort) source"

definition setChatEnabled :: "bool \<Rightarrow> obj \<Rightarrow> obj" where
  "setChatEnabled enabled source = set_nested ''reasoning'' ''enabled'' (ABool enabled) source"

definition setChatMode :: "string \<Rightarrow> obj \<Rightarrow> obj" where
  "setChatMode md source = set_nested ''reasoning'' ''mode'' (AStr md) source"

definition setChatBudget :: "int \<Rightarrow> obj \<Rightarrow> obj" where
  "setChatBudget budget source =
     set_nested ''reasoning'' ''max_tokens''
       (if maxJavaScriptSafeInteger < budget then AStr (int_text budget) else AInt budget) source"

definition setResponsesEffort :: "string \<Rightarrow> obj \<Rightarrow> obj" where
  "setResponsesEffort effort source = set_nested ''reasoning'' ''effort'' (AStr effort) source"

definition setResponsesEnabled :: "bool \<Rightarrow> obj \<Rightarrow> obj" where
  "setResponsesEnabled enabled source = set_nested ''reasoning'' ''enabled'' (ABool enabled) source"

definition setResponsesMode :: "string \<Rightarrow> obj \<Rightarrow> obj" where
  "setResponsesMode md source = set_nested ''reasoning'' ''mode'' (AStr md) source"

definition setMessagesEffort :: "string \<Rightarrow> obj \<Rightarrow> obj" where
  "setMessagesEffort effort source = set_nested ''output_config'' ''effort'' (AStr effort) source"

definition setMessagesThinkingType :: "string \<Rightarrow> obj \<Rightarrow> obj" where
  "setMessagesThinkingType t source = set_nested ''thinking'' ''type'' (AStr t) source"

definition setMessagesBudget :: "int \<Rightarrow> obj \<Rightarrow> obj" where
  "setMessagesBudget budget source = set_nested ''thinking'' ''budget_tokens'' (AInt budget) source"

definition matchesEffort :: "string \<Rightarrow> string list \<Rightarrow> bool" where
  "matchesEffort effort supported \<longleftrightarrow> List.member supported effort"

definition effortIsSupported :: "string \<Rightarrow> ReasoningOptions \<Rightarrow> bool" where
  "effortIsSupported effort opts \<longleftrightarrow>
     SupportsEffort opts \<and> (SupportedEfforts opts = [] \<or> matchesEffort effort (SupportedEfforts opts))"

definition budgetIsSupported :: "int \<Rightarrow> ReasoningOptions \<Rightarrow> bool" where
  "budgetIsSupported budget opts \<longleftrightarrow> SupportsBudget opts \<and>
     (case BudgetMin opts of Some lo \<Rightarrow> lo \<le> budget | None \<Rightarrow> True) \<and>
     (case BudgetMax opts of Some hi \<Rightarrow> budget \<le> hi | None \<Rightarrow> True)"

definition messagesDefaultBudget :: "ReasoningOptions \<Rightarrow> int" where
  "messagesDefaultBudget opts =
     (case BudgetMin opts of Some lo \<Rightarrow> if 1024 < lo then lo else 1024 | None \<Rightarrow> 1024)"

definition messagesBudgetFitsOutput :: "obj \<Rightarrow> int \<Rightarrow> bool" where
  "messagesBudgetFitsOutput source budget =
     (case coerceInt64 (at source ''max_tokens'') of Some c \<Rightarrow> 0 < c \<and> budget < c
      | None \<Rightarrow> (case coerceInt64 (at source ''max_output_tokens'') of Some c \<Rightarrow> 0 < c \<and> budget < c
                 | None \<Rightarrow> True))"

definition isMandatoryReasoning :: "ReasoningCapabilities option \<Rightarrow> bool" where
  "isMandatoryReasoning caps \<longleftrightarrow> (case caps of Some c \<Rightarrow> caps_Mandatory c = Some True | None \<Rightarrow> False)"

text \<open>One optional write: the new source and whether anything was written so far.\<close>

definition write_if :: "bool \<Rightarrow> (obj \<Rightarrow> obj) \<Rightarrow> obj \<times> bool \<Rightarrow> obj \<times> bool" where
  "write_if b f s = (if b then (f (fst s), True) else s)"

definition disables :: "reasoningSelector \<Rightarrow> string \<Rightarrow> bool" where
  "disables sel md \<longleftrightarrow> md = ''disabled'' \<or> Effort sel = ''none''"

text \<open>The effort with which an explicit enable is expressed to a Chat target without a toggle.\<close>

definition default_effort_for :: "ReasoningCapabilities option \<Rightarrow> ReasoningOptions \<Rightarrow> string option" where
  "default_effort_for caps opts = (case caps of None \<Rightarrow> None
     | Some c \<Rightarrow> if caps_DefaultEffort c \<noteq> [] \<and>
                   \<not> (caps_Mandatory c = Some True \<and> caps_DefaultEffort c = ''none'') \<and>
                   effortIsSupported (caps_DefaultEffort c) opts
                then Some (caps_DefaultEffort c) else None)"

definition chat_enable :: "string \<Rightarrow> ReasoningOptions \<Rightarrow> ReasoningCapabilities option \<Rightarrow> bool \<Rightarrow> obj \<Rightarrow> obj \<times> bool" where
  "chat_enable md opts caps unknownSupport source =
     (if md = ''enabled'' then
        (if SupportsToggle opts then (setChatEnabled True source, True)
         else (case default_effort_for caps opts of
                 Some e \<Rightarrow> (setChatEffort e source, True) | None \<Rightarrow> (source, False)))
      else if md = ''adaptive'' \<and> unknownSupport then (setChatMode ''adaptive'' source, True)
      else (source, False))"

definition wants_effort :: "reasoningSelector \<Rightarrow> ReasoningOptions \<Rightarrow> bool \<Rightarrow> bool" where
  "wants_effort sel opts unknownSupport \<longleftrightarrow>
     Effort sel \<noteq> [] \<and> Effort sel \<noteq> ''none'' \<and> (effortIsSupported (Effort sel) opts \<or> unknownSupport)"

definition chat_budget :: "reasoningSelector \<Rightarrow> ReasoningOptions \<Rightarrow> bool \<Rightarrow> obj \<times> bool \<Rightarrow> obj \<times> bool" where
  "chat_budget sel opts unknownSupport s = (case BudgetTokens sel of
      Some n \<Rightarrow> write_if (budgetIsSupported n opts \<or> unknownSupport) (setChatBudget n) s
    | None \<Rightarrow> s)"

definition applyChatReasoning ::
  "obj \<Rightarrow> reasoningSelector \<Rightarrow> string \<Rightarrow> ReasoningOptions \<Rightarrow> ReasoningCapabilities option \<Rightarrow> bool \<Rightarrow> obj \<times> bool" where
  "applyChatReasoning source sel md opts caps unknownSupport =
     (if disables sel md then
        (if effortIsSupported ''none'' opts \<or> unknownSupport then (setChatEffort ''none'' source, True)
         else if SupportsToggle opts then (setChatEnabled False source, True)
         else (source, False))
      else
        chat_budget sel opts unknownSupport
          (write_if (wants_effort sel opts unknownSupport) (setChatEffort (Effort sel))
             (chat_enable md opts caps unknownSupport source)))"

definition applyResponsesReasoning ::
  "obj \<Rightarrow> reasoningSelector \<Rightarrow> string \<Rightarrow> ReasoningOptions \<Rightarrow> bool \<Rightarrow> obj \<times> bool" where
  "applyResponsesReasoning source sel md opts unknownSupport =
     (if disables sel md then
        (if effortIsSupported ''none'' opts \<or> unknownSupport then (setResponsesEffort ''none'' source, True)
         else if SupportsToggle opts then (setResponsesEnabled False source, True)
         else (source, False))
      else
        write_if (wants_effort sel opts unknownSupport) (setResponsesEffort (Effort sel))
          (if md = ''enabled'' \<and> SupportsToggle opts then (setResponsesEnabled True source, True)
           else if md = ''adaptive'' \<and> unknownSupport then (setResponsesMode ''adaptive'' source, True)
           else (source, False)))"

text \<open>The mode of a Messages target; an effort or a budget alone means enabled thinking.\<close>

definition messages_mode :: "reasoningSelector \<Rightarrow> string \<Rightarrow> string" where
  "messages_mode sel md =
     (if md = [] \<and> ((Effort sel \<noteq> [] \<and> Effort sel \<noteq> ''none'') \<or> BudgetTokens sel \<noteq> None)
      then ''enabled'' else md)"

definition messages_budget :: "reasoningSelector \<Rightarrow> ReasoningOptions \<Rightarrow> int" where
  "messages_budget sel opts = (case BudgetTokens sel of Some n \<Rightarrow> n | None \<Rightarrow> messagesDefaultBudget opts)"

text \<open>The thinking part; \<open>None\<close> when the code returns because the budget does not fit.\<close>

definition messages_thinking ::
  "obj \<Rightarrow> reasoningSelector \<Rightarrow> string \<Rightarrow> ReasoningOptions \<Rightarrow> bool \<Rightarrow> (obj \<times> bool) option" where
  "messages_thinking source sel md opts unknownSupport =
     (if md = ''adaptive'' then
        Some (write_if (SupportsAdaptive opts \<or> unknownSupport) (setMessagesThinkingType ''adaptive'') (source, False))
      else if md = ''enabled'' then
        (if SupportsAdaptive opts then Some (setMessagesThinkingType ''adaptive'' source, True)
         else if SupportsEnabled opts \<or> SupportsToggle opts \<or> SupportsBudget opts \<or> unknownSupport then
           (if \<not> messagesBudgetFitsOutput source (messages_budget sel opts) then None
            else Some (setMessagesBudget (messages_budget sel opts) (setMessagesThinkingType ''enabled'' source), True))
         else Some (source, False))
      else Some (source, False))"

definition applyMessagesReasoning ::
  "obj \<Rightarrow> reasoningSelector \<Rightarrow> string \<Rightarrow> ReasoningOptions \<Rightarrow> bool \<Rightarrow> obj \<times> bool" where
  "applyMessagesReasoning source sel md opts unknownSupport =
     (if disables sel md then
        (if SupportsDisable opts \<or> unknownSupport then (setMessagesThinkingType ''disabled'' source, True)
         else (source, False))
      else (case messages_thinking source sel (messages_mode sel md) opts unknownSupport of
              None \<Rightarrow> (source, False)
            | Some s \<Rightarrow> write_if (wants_effort sel opts unknownSupport) (setMessagesEffort (Effort sel)) s))"

section \<open>A selector onto a request\<close>

definition selector_mode :: "reasoningSelector \<Rightarrow> string" where
  "selector_mode sel = (case Enabled sel of None \<Rightarrow> Mode sel | Some b \<Rightarrow> if b then ''enabled'' else ''disabled'')"

definition supports_any :: "ReasoningOptions \<Rightarrow> bool" where
  "supports_any opts \<longleftrightarrow> SupportsEffort opts \<or> SupportsBudget opts \<or> SupportsToggle opts \<or>
     SupportsAdaptive opts \<or> SupportsEnabled opts"

text \<open>The body of \<open>applyReasoningSelector\<close> between \<open>Unmarshal\<close> and \<open>Marshal\<close>.\<close>

definition apply_to_map ::
  "obj \<Rightarrow> reasoningSelector \<Rightarrow> string \<Rightarrow> ReasoningCapabilities option \<Rightarrow> obj \<times> bool" where
  "apply_to_map source sel target caps =
     (let opts = ExtractReasoningOptions caps;
          unknownSupport = (caps = None);
          (s1, c1) = (if unknownSupport then (source, False) else stripReasoningSelectorMap target source);
          md = selector_mode sel;
          (s2, c2) =
            (if \<not> unknownSupport \<and> \<not> supports_any opts then (s1, False)
             else if target = ProtocolChat then applyChatReasoning s1 sel md opts caps unknownSupport
             else if target = ProtocolResponses then applyResponsesReasoning s1 sel md opts unknownSupport
             else if target = ProtocolMessages then applyMessagesReasoning s1 sel md opts unknownSupport
             else (s1, False))
      in (s2, c1 \<or> c2))"

text \<open>Writing into the nil map of a \<open>null\<close> body panics (\<open>None\<close>).\<close>

definition applyReasoningSelector ::
  "string \<Rightarrow> reasoningSelector \<Rightarrow> string \<Rightarrow> ReasoningCapabilities option \<Rightarrow> string option" where
  "applyReasoningSelector body sel target caps =
     (if \<not> Present sel then Some body
      else (case unmarshal_map body of
              None \<Rightarrow> Some body
            | Some None \<Rightarrow> if snd (apply_to_map [] sel target caps) then None else Some body
            | Some (Some source) \<Rightarrow>
                (case apply_to_map source sel target caps of
                   (m, changed) \<Rightarrow> Some (if changed then marshal (AObj m) else body))))"

definition disable_selector :: reasoningSelector where
  "disable_selector = no_selector\<lparr>Present := True, Effort := ''none''\<rparr>"

definition injectChatDisable :: "string \<Rightarrow> ReasoningCapabilities option \<Rightarrow> (string \<times> bool) option" where
  "injectChatDisable body caps =
     (if caps = None \<or> isMandatoryReasoning caps then Some (body, False)
      else (case unmarshal_map body of
              None \<Rightarrow> Some (body, False)
            | Some source \<Rightarrow>
                (case applyChatReasoning (case source of Some m \<Rightarrow> m | None \<Rightarrow> []) disable_selector []
                        (ExtractReasoningOptions caps) caps False of
                   (m, changed) \<Rightarrow>
                     if \<not> changed then Some (body, False)
                     else if source = None then None else Some (marshal (AObj m), True))))"
section \<open>Reading what was written\<close>

text \<open>A field of an object stored in a map.\<close>

definition sub :: "obj \<Rightarrow> string \<Rightarrow> string \<Rightarrow> any" where
  "sub m name k = at (as_map (at m name)) k"

lemma at_set [simp]: "at (gm_set k v m) k' = (if k' = k then v else at m k')"
  by (simp add: at_def gm_get0_def)

lemma at_del [simp]: "at (gm_del k m) k' = (if k' = k then ANil else at m k')"
  by (simp add: at_def gm_get0_def)

lemma at_Nil [simp]: "at [] k = ANil"
  by (simp add: at_def gm_get0_def)

lemma sub_set [simp]: "sub (gm_set k v m) name f = (if name = k then at (as_map v) f else sub m name f)"
  by (simp add: sub_def)

lemma sub_del [simp]: "sub (gm_del k m) name f = (if name = k then ANil else sub m name f)"
  by (simp add: sub_def)

lemma sub_set_nested [simp]:
  "sub (set_nested n k v m) name f = (if name = n \<and> f = k then v else sub m name f)"
  by (simp add: set_nested_def sub_def)

lemma at_set_nested: "k' \<noteq> n \<Longrightarrow> at (set_nested n k v m) k' = at m k'"
  by (simp add: set_nested_def)

lemma drop_keys_at: "at (fst (drop_keys ks m)) k = (if k \<in> set ks then ANil else at m k)"
proof -
  have "at (fst (List.fold (\<lambda>k (m, ch). if has_key m k then (gm_del k m, True) else (m, ch)) ks s)) k =
          (if k \<in> set ks then ANil else at (fst s) k)" for s
    by (induction ks arbitrary: s) (auto simp: has_key_def at_def gm_get0_def split: prod.split)
  then show ?thesis by (simp add: drop_keys_def)
qed

lemma strip_nested_at: "k \<noteq> name \<Longrightarrow> at (fst (strip_nested name ks s)) k = at s k"
  by (auto simp: strip_nested_def split: any.splits prod.splits)

lemma strip_nested_sub:
  "sub (fst (strip_nested name ks s)) n k = (if n = name \<and> k \<in> set ks then ANil else sub s n k)"
proof (cases "at s name")
  case (AObj m)
  obtain m' ch where d: "drop_keys ks m = (m', ch)" by fastforce
  from drop_keys_at [of ks m k] d have "at m' k = (if k \<in> set ks then ANil else at m k)" by simp
  with AObj d show ?thesis by (auto simp: strip_nested_def sub_def)
qed (auto simp: strip_nested_def sub_def)

lemmas written_defs =
  setChatEffort_def setChatEnabled_def setChatMode_def setChatBudget_def setResponsesEffort_def
  setResponsesEnabled_def setResponsesMode_def setMessagesEffort_def setMessagesThinkingType_def
  setMessagesBudget_def

lemmas stripped = drop_keys_at strip_nested_at strip_nested_sub

section \<open>What a target receives\<close>

definition chat_fits :: "ReasoningOptions \<Rightarrow> obj \<Rightarrow> bool" where
  "chat_fits opts m \<longleftrightarrow>
     (at m ''reasoning_effort'' = ANil \<or>
        (\<exists>e. at m ''reasoning_effort'' = AStr e \<and> effortIsSupported e opts)) \<and>
     (sub m ''reasoning'' ''max_tokens'' = ANil \<or>
        (\<exists>n. sub m ''reasoning'' ''max_tokens'' \<in> {AInt n, AStr (int_text n)} \<and> budgetIsSupported n opts)) \<and>
     (sub m ''reasoning'' ''enabled'' = ANil \<or> SupportsToggle opts) \<and>
     sub m ''reasoning'' ''effort'' = ANil \<and> sub m ''reasoning'' ''mode'' = ANil"

definition responses_fits :: "ReasoningOptions \<Rightarrow> obj \<Rightarrow> bool" where
  "responses_fits opts m \<longleftrightarrow>
     (sub m ''reasoning'' ''effort'' = ANil \<or>
        (\<exists>e. sub m ''reasoning'' ''effort'' = AStr e \<and> effortIsSupported e opts)) \<and>
     (sub m ''reasoning'' ''enabled'' = ANil \<or> SupportsToggle opts) \<and>
     sub m ''reasoning'' ''mode'' = ANil"

definition messages_fits :: "ReasoningOptions \<Rightarrow> obj \<Rightarrow> bool" where
  "messages_fits opts m \<longleftrightarrow>
     (sub m ''output_config'' ''effort'' = ANil \<or>
        (\<exists>e. sub m ''output_config'' ''effort'' = AStr e \<and> effortIsSupported e opts)) \<and>
     (case sub m ''thinking'' ''type'' of
        AStr t \<Rightarrow> t = ''disabled'' \<and> SupportsDisable opts \<or> t = ''adaptive'' \<and> SupportsAdaptive opts \<or>
                  t = ''enabled'' \<and> (SupportsEnabled opts \<or> SupportsToggle opts \<or> SupportsBudget opts)
      | v \<Rightarrow> v = ANil) \<and>
     (sub m ''thinking'' ''budget_tokens'' = ANil \<or>
        (\<exists>n. sub m ''thinking'' ''budget_tokens'' = AInt n \<and> messagesBudgetFitsOutput m n \<and>
             sub m ''thinking'' ''type'' = AStr ''enabled''))"

lemma strip_fits:
  "chat_fits opts (fst (stripReasoningSelectorMap ProtocolChat m))"
  "responses_fits opts (fst (stripReasoningSelectorMap ProtocolResponses m))"
  "messages_fits opts (fst (stripReasoningSelectorMap ProtocolMessages m))"
  by (simp_all add: stripReasoningSelectorMap_def chat_fits_def responses_fits_def messages_fits_def
      stripped split_def Let_def)

lemma default_effort_supported: "default_effort_for caps opts = Some e \<Longrightarrow> effortIsSupported e opts"
  by (auto simp: default_effort_for_def split: option.splits if_splits)

lemma chat_fits_writes:
  "chat_fits opts m \<Longrightarrow> effortIsSupported e opts \<Longrightarrow> chat_fits opts (setChatEffort e m)"
  "chat_fits opts m \<Longrightarrow> SupportsToggle opts \<Longrightarrow> chat_fits opts (setChatEnabled b m)"
  "chat_fits opts m \<Longrightarrow> budgetIsSupported n opts \<Longrightarrow> chat_fits opts (setChatBudget n m)"
  by (auto simp: chat_fits_def written_defs at_set_nested)

lemma chat_enable_fits:
  "chat_fits opts m \<Longrightarrow> chat_fits opts (fst (chat_enable md opts caps False m))"
  by (auto simp: chat_enable_def intro: chat_fits_writes dest: default_effort_supported split: option.split)

lemma applyChat_fits:
  assumes "chat_fits opts m"
  shows "chat_fits opts (fst (applyChatReasoning m sel md opts caps False))"
  using assms chat_enable_fits [OF assms, of md caps]
  by (auto simp: applyChatReasoning_def chat_budget_def write_if_def wants_effort_def
      intro: chat_fits_writes split: option.split)

lemma applyResponses_fits:
  "responses_fits opts m \<Longrightarrow> responses_fits opts (fst (applyResponsesReasoning m sel md opts False))"
  by (auto simp: responses_fits_def applyResponsesReasoning_def write_if_def wants_effort_def written_defs)

lemma budget_fits_frame:
  "''max_tokens'' \<noteq> k \<Longrightarrow> ''max_output_tokens'' \<noteq> k \<Longrightarrow>
   messagesBudgetFitsOutput (set_nested k f v m) n = messagesBudgetFitsOutput m n"
  by (simp add: messagesBudgetFitsOutput_def at_set_nested split: option.split)

lemma thinking_fits:
  assumes "messages_fits opts m" "sub m ''thinking'' ''budget_tokens'' = ANil"
    and "messages_thinking m sel md opts False = Some s"
  shows "messages_fits opts (fst s)"
  using assms
  by (auto simp: messages_fits_def messages_thinking_def write_if_def written_defs budget_fits_frame
      split: if_splits)

lemma applyMessages_fits:
  assumes "messages_fits opts m" "sub m ''thinking'' ''budget_tokens'' = ANil"
  shows "messages_fits opts (fst (applyMessagesReasoning m sel md opts False))"
proof -
  have eff: "messages_fits opts (fst (write_if (wants_effort sel opts False) (setMessagesEffort (Effort sel)) s))"
    if "messages_fits opts (fst s)" for s
    using that by (auto simp: messages_fits_def write_if_def wants_effort_def written_defs budget_fits_frame)
  show ?thesis
  proof (cases "disables sel md")
    case True
    then show ?thesis using assms
      by (auto simp: applyMessagesReasoning_def written_defs messages_fits_def budget_fits_frame)
  next
    case False
    then show ?thesis
      using assms(1) thinking_fits [OF assms]
      by (auto simp only: applyMessagesReasoning_def if_False fst_conv split: option.split intro: eff)
  qed
qed

text \<open>A target of known capabilities receives only what it advertises, and a thinking budget only with
  enabled thinking and below the output limit of the request.\<close>

lemma apply_chat_advertised:
  "chat_fits (ExtractReasoningOptions (Some c)) (fst (apply_to_map m sel ProtocolChat (Some c)))"
  using strip_fits(1) [of _ m] by (auto simp: apply_to_map_def Let_def split_def intro: applyChat_fits)

lemma apply_responses_advertised:
  "responses_fits (ExtractReasoningOptions (Some c)) (fst (apply_to_map m sel ProtocolResponses (Some c)))"
  using strip_fits(2) [of _ m] by (auto simp: apply_to_map_def Let_def split_def intro: applyResponses_fits)

lemma strip_no_budget:
  "sub (fst (stripReasoningSelectorMap ProtocolMessages m)) ''thinking'' ''budget_tokens'' = ANil"
  by (simp add: stripReasoningSelectorMap_def stripped split_def Let_def)

lemma apply_messages_advertised:
  "messages_fits (ExtractReasoningOptions (Some c)) (fst (apply_to_map m sel ProtocolMessages (Some c)))"
  using strip_fits(3) [of _ m] strip_no_budget [of m]
  by (auto simp: apply_to_map_def Let_def split_def intro: applyMessages_fits)
section \<open>What is left alone\<close>

definition selector_field :: "string \<Rightarrow> string \<Rightarrow> bool" where
  "selector_field name f \<longleftrightarrow>
     name = ''reasoning'' \<and> List.member [''effort'', ''max_tokens'', ''enabled'', ''mode''] f \<or>
     name = ''output_config'' \<and> f = ''effort'' \<or>
     name = ''thinking'' \<and> List.member [''type'', ''budget_tokens''] f"

definition selector_keys :: "string list" where
  "selector_keys = [''reasoning_effort'', ''reasoning'', ''output_config'', ''thinking'']"

definition same_rest :: "obj \<Rightarrow> obj \<Rightarrow> bool" where
  "same_rest m m' \<longleftrightarrow>
     (\<forall>k. \<not> List.member selector_keys k \<longrightarrow> at m' k = at m k) \<and>
     (\<forall>name f. List.member selector_keys name \<longrightarrow> name \<noteq> ''reasoning_effort'' \<longrightarrow> \<not> selector_field name f \<longrightarrow>
        sub m' name f = sub m name f)"

lemma same_rest_refl [simp]: "same_rest m m"
  by (simp add: same_rest_def)

lemma same_rest_trans: "same_rest a b \<Longrightarrow> same_rest b c \<Longrightarrow> same_rest a c"
  by (simp add: same_rest_def)

lemma same_rest_effort: "same_rest m (setChatEffort e m)"
  by (simp add: same_rest_def setChatEffort_def selector_keys_def)

lemma same_rest_drop_effort: "same_rest m (fst (drop_keys [''reasoning_effort''] m))"
  by (simp add: same_rest_def drop_keys_at selector_keys_def sub_def)

lemma same_rest_set_nested:
  "selector_field name k \<Longrightarrow> same_rest m (set_nested name k v m)"
  by (auto simp: same_rest_def selector_field_def selector_keys_def at_set_nested)

lemma same_rest_strip_nested:
  "\<forall>k \<in> set ks. selector_field name k \<Longrightarrow> List.member selector_keys name \<Longrightarrow>
   same_rest m (fst (strip_nested name ks m))"
  by (auto simp: same_rest_def strip_nested_sub intro!: strip_nested_at)

lemma same_rest_writes:
  "same_rest m (setChatEnabled b m)" "same_rest m (setChatMode t m)" "same_rest m (setChatBudget n m)"
  "same_rest m (setResponsesEffort t m)" "same_rest m (setResponsesEnabled b m)" "same_rest m (setResponsesMode t m)"
  "same_rest m (setMessagesEffort t m)" "same_rest m (setMessagesThinkingType t m)" "same_rest m (setMessagesBudget n m)"
  by (simp_all add: setChatEnabled_def setChatMode_def setChatBudget_def setResponsesEffort_def
      setResponsesEnabled_def setResponsesMode_def setMessagesEffort_def setMessagesThinkingType_def
      setMessagesBudget_def same_rest_set_nested selector_field_def)

lemma same_rest_strip: "same_rest m (fst (stripReasoningSelectorMap target m))"
proof -
  have nested: "same_rest s (fst (strip_nested ''reasoning'' [''effort'', ''max_tokens'', ''enabled'', ''mode''] s))"
    "same_rest s (fst (strip_nested ''reasoning'' [''effort'', ''enabled'', ''mode''] s))"
    "same_rest s (fst (strip_nested ''output_config'' [''effort''] s))"
    "same_rest s (fst (strip_nested ''thinking'' [''type'', ''budget_tokens''] s))" for s
    by (auto intro!: same_rest_strip_nested simp: selector_field_def selector_keys_def)
  show ?thesis
    by (auto simp: stripReasoningSelectorMap_def Let_def split_def
        intro: nested same_rest_trans [OF same_rest_drop_effort] same_rest_trans [OF nested(3)])
qed

lemma same_rest_write_if:
  "same_rest m (fst s) \<Longrightarrow> (\<And>x. same_rest x (f x)) \<Longrightarrow> same_rest m (fst (write_if b f s))"
  by (auto simp: write_if_def intro: same_rest_trans)

lemma same_rest_chat: "same_rest m (fst (applyChatReasoning m sel md opts caps u))"
proof -
  have "same_rest m (fst (chat_enable md opts caps u m))"
    by (auto simp: chat_enable_def intro: same_rest_writes same_rest_effort split: option.split)
  then show ?thesis
    by (auto simp: applyChatReasoning_def chat_budget_def intro!: same_rest_write_if same_rest_writes same_rest_effort
        split: option.split)
qed

lemma same_rest_responses: "same_rest m (fst (applyResponsesReasoning m sel md opts u))"
  by (auto simp: applyResponsesReasoning_def intro!: same_rest_write_if same_rest_writes)

lemma same_rest_messages: "same_rest m (fst (applyMessagesReasoning m sel md opts u))"
proof -
  have "same_rest m (fst s)" if "messages_thinking m sel d opts u = Some s" for d s
    using that same_rest_trans [OF same_rest_writes(8) same_rest_writes(9)]
    by (auto simp: messages_thinking_def intro!: same_rest_write_if same_rest_writes split: if_splits)
  then show ?thesis
    by (auto simp: applyMessagesReasoning_def intro!: same_rest_write_if same_rest_writes split: option.split)
qed

lemma apply_same_rest: "same_rest m (fst (apply_to_map m sel target caps))"
  using same_rest_strip [of m target]
  by (auto simp: apply_to_map_def Let_def split_def
      intro: same_rest_chat same_rest_responses same_rest_messages same_rest_trans [OF same_rest_strip])

section \<open>Decimal text of an integer is read back\<close>

lemma of_char_digit: "0 \<le> d \<Longrightarrow> d < 10 \<Longrightarrow> of_char (char_of (48 + d :: int)) = (48 + d :: int)"
  by (simp add: of_char_of take_bit_eq_mod)

lemma byte_digit:
  assumes "0 \<le> d" "d < 10"
  shows "byte (char_of (48 + d :: int)) = 48 + nat d"
  using assms nat_of_char [of "char_of (48 + d :: int)"] by (simp add: of_char_digit nat_add_distrib del: of_char_of)

lemma digit_int_snoc: "digit_int (s @ [c]) = 10 * digit_int s + (of_char c - 48)"
  by (simp add: digit_int_def)

lemma int_digits_read: "0 \<le> n \<Longrightarrow>
  digit_int (int_digits n) = n \<and> int_digits n \<noteq> [] \<and> list_all is_digit (int_digits n)"
proof (induction n rule: int_digits.induct)
  case (1 n)
  show ?case
  proof (cases "n < 10")
    case True
    with 1(2) show ?thesis
      by (subst (1 2 3) int_digits.simps)
        (simp add: digit_int_def of_char_digit is_digit_def byte_digit)
  next
    case False
    let ?c = "char_of (48 + n mod 10)"
    have m: "0 \<le> n mod 10" "n mod 10 < 10" by simp_all
    from 1 False have IH: "digit_int (int_digits (n div 10)) = n div 10" "list_all is_digit (int_digits (n div 10))" by auto
    have "is_digit ?c" using byte_digit [OF m] m by (simp add: is_digit_def)
    moreover have "of_char ?c - 48 = n mod 10" using of_char_digit [OF m] by simp
    moreover have "int_digits n = int_digits (n div 10) @ [?c]" using False by (subst int_digits.simps) simp
    ultimately show ?thesis using IH by (simp add: digit_int_snoc)
  qed
qed

lemma pieces_ascii: "list_all (\<lambda>c. byte c < 128) s \<Longrightarrow> pieces s = map (\<lambda>c. [c]) s"
  using pieces_concat [of "map (\<lambda>c. [c]) s"] by (simp add: list_all_iff valid_ascii)

lemma digit_not_space: "is_digit c \<Longrightarrow> \<not> is_space [c]"
  by (auto simp: is_digit_def is_space_def space_runes_def)

lemma sscan_int_text:
  assumes "0 \<le> n" "n \<le> max_int64"
  shows "sscan_int (int_text n) = Some n"
proof -
  have t: "int_text n = int_digits n" using assms(1) by (simp add: int_text_def)
  obtain c cs where c: "int_digits n = c # cs" "is_digit c" "list_all is_digit cs"
    using int_digits_read [OF assms(1)] by (cases "int_digits n") auto
  have a: "list_all (\<lambda>c. byte c < 128) (c # cs)" using c by (auto simp: list_all_iff is_digit_def)
  have nl: "[c] \<noteq> [CHR 0x0A]" and sign: "c \<noteq> CHR ''-''" "c \<noteq> CHR ''+''" using c(2) by (auto simp: is_digit_def)
  have "scan_space (pieces (c # cs)) = Some (pieces (c # cs))"
    using digit_not_space [OF c(2)] nl unfolding pieces_ascii [OF a] by (simp add: scan_space_def)
  moreover have tw: "takeWhile is_digit (c # cs) = c # cs"
    using c(2,3) by (simp only: takeWhile_eq_all_conv list_all_iff) simp
  moreover have "digit_int (c # cs) = n" using int_digits_read [OF assms(1)] c(1) by simp
  moreover have "concat (pieces (c # cs)) = c # cs" by (rule concat_pieces)
  ultimately show ?thesis
    using sign assms unfolding t c(1) sscan_int_def
    by (simp only: Let_def tw list.case option.case if_False split_conv concat_pieces) simp
qed

section \<open>Unknown capabilities pass the selector through\<close>

lemma chat_passes:
  assumes "at m ''reasoning_effort'' = ANil" "at m ''reasoning'' = ANil"
    and "\<not> disables sel (selector_mode sel)"
    and "\<forall>n. BudgetTokens sel = Some n \<longrightarrow> 0 \<le> n \<and> n \<le> max_int64"
  shows "extractChatReasoning (fst (apply_to_map m sel ProtocolChat None)) =
     no_selector\<lparr>Present := Effort sel \<noteq> [] \<or> BudgetTokens sel \<noteq> None,
       Effort := Effort sel, BudgetTokens := BudgetTokens sel\<rparr>"
proof -
  have none: "Effort sel \<noteq> ''none''" using assms(3) by (simp add: disables_def)
  have opts: "ExtractReasoningOptions None = no_options" by (simp add: ExtractReasoningOptions_def)
  obtain s where s: "chat_enable (selector_mode sel) no_options None True m = s" by simp
  have fs: "fst s = m \<or> fst s = setChatMode ''adaptive'' m"
    using s by (auto simp: chat_enable_def no_options_def default_effort_for_def)
  define r where "r = fst (apply_to_map m sel ProtocolChat None)"
  have r: "r = fst (chat_budget sel no_options True (write_if (wants_effort sel no_options True) (setChatEffort (Effort sel)) s))"
    using assms(3) s by (simp add: r_def apply_to_map_def Let_def split_def applyChatReasoning_def opts)
  have e: "at r ''reasoning_effort'' = (if Effort sel = [] then ANil else AStr (Effort sel))"
    using fs assms(1) none unfolding r
    by (auto simp: chat_budget_def write_if_def wants_effort_def written_defs at_set_nested split: option.split)
  have b: "coerceInt64 (sub r ''reasoning'' ''max_tokens'') = BudgetTokens sel"
    using fs assms(2,4) unfolding r
    by (auto simp: chat_budget_def write_if_def wants_effort_def written_defs sub_def sscan_int_text
        at_set_nested set_nested_def split: option.split)
  have x: "as_str (sub r ''reasoning'' ''effort'') = None" "as_bool (sub r ''reasoning'' ''enabled'') = None"
    using fs assms(2) unfolding r
    by (auto simp: chat_budget_def write_if_def wants_effort_def written_defs sub_def
        at_set_nested set_nested_def split: option.split)
  show ?thesis
    unfolding r_def [symmetric] using e b x
    by (cases "at r ''reasoning''")
      (auto simp: extractChatReasoning_def Let_def sub_def when_text_def when_int_def when_bool_def no_selector_def
        split: option.split)
qed

lemma responses_passes:
  assumes "at m ''reasoning'' = ANil" "\<not> disables sel (selector_mode sel)"
  shows "extractResponsesReasoning (fst (apply_to_map m sel ProtocolResponses None)) =
     no_selector\<lparr>Present := Effort sel \<noteq> [], Effort := Effort sel\<rparr>"
  using assms
  by (auto simp: apply_to_map_def Let_def applyResponsesReasoning_def ExtractReasoningOptions_def no_options_def
      write_if_def wants_effort_def written_defs set_nested_def extractResponsesReasoning_def when_text_def
      no_selector_def disables_def)
section \<open>What the capabilities say\<close>

definition mins :: "ReasoningOption list \<Rightarrow> int list" where
  "mins os = List.map_filter (\<lambda>opt. if opt_Type opt = ''budget_tokens'' then opt_Min opt else None) os"

definition maxs :: "ReasoningOption list \<Rightarrow> int list" where
  "maxs os = List.map_filter (\<lambda>opt. if opt_Type opt = ''budget_tokens'' then opt_Max opt else None) os"

fun least_of :: "int option \<Rightarrow> int list \<Rightarrow> int option" where
  "least_of acc [] = acc"
| "least_of acc (x # xs) = least_of (lower_bound (Some x) acc) xs"

fun greatest_of :: "int option \<Rightarrow> int list \<Rightarrow> int option" where
  "greatest_of acc [] = acc"
| "greatest_of acc (x # xs) = greatest_of (upper_bound (Some x) acc) xs"

lemma least_of_Some: "least_of (Some a) xs = Some (List.fold min xs a)"
  by (induction xs arbitrary: a) (auto simp: lower_bound_def min_def)

lemma greatest_of_Some: "greatest_of (Some a) xs = Some (List.fold max xs a)"
  by (induction xs arbitrary: a) (auto simp: upper_bound_def max_def)

lemma least_of_None: "least_of None xs = (if xs = [] then None else Some (Min (set xs)))"
proof (cases xs)
  case (Cons a ys)
  then show ?thesis using Min.set_eq_fold [of a ys] by (simp add: lower_bound_def least_of_Some)
qed simp

lemma greatest_of_None: "greatest_of None xs = (if xs = [] then None else Some (Max (set xs)))"
proof (cases xs)
  case (Cons a ys)
  then show ?thesis using Max.set_eq_fold [of a ys] by (simp add: upper_bound_def greatest_of_Some)
qed simp

lemma lower_bound_None [simp]: "lower_bound None x = x"
  by (simp add: lower_bound_def)

lemma upper_bound_None [simp]: "upper_bound None x = x"
  by (simp add: upper_bound_def)

lemma fold_option:
  "SupportsEffort (List.fold add_option os r) \<longleftrightarrow> SupportsEffort r \<or> (\<exists>opt \<in> set os. opt_Type opt = ''effort'')"
  "SupportsDisable (List.fold add_option os r) \<longleftrightarrow> SupportsDisable r \<or>
     (\<exists>opt \<in> set os. opt_Type opt = ''effort'' \<and> ''none'' \<in> set (opt_Values opt))"
  "SupportsBudget (List.fold add_option os r) \<longleftrightarrow> SupportsBudget r \<or> (\<exists>opt \<in> set os. opt_Type opt = ''budget_tokens'')"
  "SupportsToggle (List.fold add_option os r) \<longleftrightarrow> SupportsToggle r \<or> (\<exists>opt \<in> set os. opt_Type opt = ''toggle'')"
  "SupportsAdaptive (List.fold add_option os r) = SupportsAdaptive r"
  "SupportsEnabled (List.fold add_option os r) = SupportsEnabled r"
  "BudgetMin (List.fold add_option os r) = least_of (BudgetMin r) (mins os)"
  "BudgetMax (List.fold add_option os r) = greatest_of (BudgetMax r) (maxs os)"
  by (induction os arbitrary: r)
    (auto simp: add_option_def mins_def maxs_def List.map_filter_def split: option.splits)

lemma fold_mode:
  "SupportsEffort (List.fold add_mode ms r) = SupportsEffort r"
  "SupportedEfforts (List.fold add_mode ms r) = SupportedEfforts r"
  "SupportsDisable (List.fold add_mode ms r) = SupportsDisable r"
  "SupportsBudget (List.fold add_mode ms r) = SupportsBudget r"
  "SupportsToggle (List.fold add_mode ms r) = SupportsToggle r"
  "BudgetMin (List.fold add_mode ms r) = BudgetMin r"
  "BudgetMax (List.fold add_mode ms r) = BudgetMax r"
  "SupportsAdaptive (List.fold add_mode ms r) \<longleftrightarrow> SupportsAdaptive r \<or> ''adaptive'' \<in> set ms"
  "SupportsEnabled (List.fold add_mode ms r) \<longleftrightarrow> SupportsEnabled r \<or> ''enabled'' \<in> set ms"
  by (induction ms arbitrary: r) (auto simp: add_mode_def)

lemma budget_range:
  "BudgetMin (ExtractReasoningOptions (Some c)) =
     (let ns = mins (caps_Options c) in if ns = [] then None else Some (Min (set ns)))"
  "BudgetMax (ExtractReasoningOptions (Some c)) =
     (let ns = maxs (caps_Options c) in if ns = [] then None else Some (Max (set ns)))"
  by (simp_all add: ExtractReasoningOptions_def fold_option fold_mode no_options_def least_of_None
      greatest_of_None Let_def)

section \<open>The order of efforts\<close>

lemma index_in_nth: "index_in ys x = Some i \<Longrightarrow> 0 \<le> i \<and> nat i < length ys \<and> ys ! nat i = x"
proof (induction ys arbitrary: i)
  case (Cons y ys)
  show ?case
  proof (cases "y = x")
    case False
    with Cons.prems obtain j where j: "index_in ys x = Some j" "i = 1 + j" by auto
    with Cons.IH [OF j(1)] show ?thesis by (simp add: nat_add_distrib)
  qed (use Cons.prems in simp)
qed simp

lemma effortIndex_inj: "0 \<le> effortIndex v \<Longrightarrow> effortIndex v = effortIndex w \<Longrightarrow> v = w"
  by (auto simp: effortIndex_def split: option.splits dest!: index_in_nth)

lemma set_first_seen: "set (first_seen seen vs) = set vs - set seen"
  by (induction seen vs rule: first_seen.induct) auto

lemma distinct_first_seen: "distinct (first_seen seen vs)"
  by (induction seen vs rule: first_seen.induct) (auto simp: set_first_seen)

definition known_part :: "string list \<Rightarrow> string list" where
  "known_part vs = sort_key effortIndex (filter (\<lambda>v. 0 \<le> effortIndex v) (first_seen [] vs))"

lemma known_part_sorted: "sorted (map effortIndex (known_part vs)) \<and> distinct (map effortIndex (known_part vs)) \<and>
  set (known_part vs) = {v \<in> set vs. 0 \<le> effortIndex v}"
  by (auto simp: known_part_def set_first_seen distinct_map distinct_first_seen inj_on_def intro: effortIndex_inj)

lemma known_part_unique:
  assumes "{v \<in> set vs. 0 \<le> effortIndex v} = {v \<in> set ws. 0 \<le> effortIndex v}"
  shows "known_part vs = known_part ws"
proof -
  have k: "set (known_part vs) = set (known_part ws)" using assms known_part_sorted by blast
  then have "map effortIndex (known_part vs) = map effortIndex (known_part ws)"
    using known_part_sorted [of vs] known_part_sorted [of ws] by (intro sorted_distinct_set_unique) auto
  moreover have "inj_on effortIndex (set (known_part vs) \<union> set (known_part ws))"
    using known_part_sorted [of vs] known_part_sorted [of ws] by (auto simp: inj_on_def intro: effortIndex_inj)
  ultimately show ?thesis by (rule map_inj_on)
qed

lemma SortEfforts_parts: "SortEfforts vs = known_part vs @ filter (\<lambda>v. effortIndex v < 0) (first_seen [] vs)"
  by (simp add: SortEfforts_def known_part_def Let_def)

lemma set_SortEfforts: "set (SortEfforts vs) = set vs"
  by (auto simp: SortEfforts_def Let_def set_first_seen)

lemma distinct_SortEfforts: "distinct (SortEfforts vs)"
  by (auto simp: SortEfforts_def Let_def distinct_first_seen set_first_seen)

lemma SortEfforts_known:
  assumes "set vs = set ws" "\<forall>v \<in> set vs. 0 \<le> effortIndex v"
  shows "SortEfforts vs = SortEfforts ws"
proof -
  have "filter (\<lambda>v. effortIndex v < 0) (first_seen [] us) = []" if "\<forall>v \<in> set us. 0 \<le> effortIndex v" for us
    using that by (auto simp: filter_empty_conv set_first_seen)
  with assms show ?thesis
    using known_part_unique [of vs ws] by (simp add: SortEfforts_parts)
qed

end
