(* ===== verification/VirtualCapabilities.thy ===== *)
theory VirtualCapabilities
  imports Reasoning
begin

text \<open>
  What a virtual model may claim on behalf of its targets
  (\<open>internal/server/virtual_capabilities.go\<close>): the least known limits, flags every target has, and
  the union of the reasoning mechanisms. The order in which the runtime iterates over the set of
  effort values is the parameter \<open>ord\<close>, any rearrangement of it.
\<close>

section \<open>Targets\<close>

record virtualTargetCapabilities =
  ContextLength :: "int option"
  MaxOutputTokens :: "int option"
  SupportsTools :: "bool option"
  SupportsVision :: "bool option"
  SupportsReasoning :: "bool option"
  SupportsStructuredOutput :: "bool option"
  Capabilities :: "ReasoningCapabilities option"

text \<open>The fields of \<open>virtualTargetView\<close> the aggregation reads.\<close>

record virtualTargetView =
  view_Enabled :: bool
  view_Available :: bool
  view_caps :: virtualTargetCapabilities

definition virtualTargetEligible :: "virtualTargetView \<Rightarrow> bool" where
  "virtualTargetEligible t \<longleftrightarrow> view_Enabled t \<and> view_Available t"

definition eligibleVirtualTargets :: "virtualTargetView list \<Rightarrow> virtualTargetView list" where
  "eligibleVirtualTargets targets = filter virtualTargetEligible targets"

definition virtualTargetCapability :: "virtualTargetView \<Rightarrow> virtualTargetCapabilities" where
  "virtualTargetCapability t = view_caps t"

section \<open>Merging reasoning capabilities\<close>

definition hasOption :: "ReasoningCapabilities \<Rightarrow> string \<Rightarrow> bool" where
  "hasOption c t \<longleftrightarrow> list_ex (\<lambda>opt. opt_Type opt = t) (caps_Options c)"

definition findBudget :: "ReasoningCapabilities \<Rightarrow> ReasoningOption option" where
  "findBudget c = List.find (\<lambda>opt. opt_Type opt = ''budget_tokens'') (caps_Options c)"

definition mergeBoolAndPtr :: "bool option \<Rightarrow> bool option \<Rightarrow> bool option" where
  "mergeBoolAndPtr a b = (case (a, b) of (Some x, Some y) \<Rightarrow> Some (x \<and> y) | _ \<Rightarrow> None)"

definition mergeBoolPtr :: "bool option \<Rightarrow> bool option \<Rightarrow> bool option" where
  "mergeBoolPtr a b = (case (a, b) of (Some x, Some y) \<Rightarrow> Some (x \<or> y) | (Some x, None) \<Rightarrow> Some x | (None, _) \<Rightarrow> b)"

definition effort_options :: "ReasoningCapabilities \<Rightarrow> ReasoningOption list" where
  "effort_options c = filter (\<lambda>opt. opt_Type opt = ''effort'') (caps_Options c)"

definition effort_option :: "string list \<Rightarrow> ReasoningOption" where
  "effort_option vs = \<lparr>opt_Type = ''effort'', opt_Values = vs, opt_Min = None, opt_Max = None\<rparr>"

text \<open>The values of the effort options, and whether one of them is the unrestricted form.\<close>

definition merged_efforts :: "(string list \<Rightarrow> string list) \<Rightarrow> ReasoningOption list \<Rightarrow> string list" where
  "merged_efforts ord os =
     (if list_ex (\<lambda>opt. opt_Values opt = []) os then []
      else SortEfforts (ord (first_seen [] (concat (map opt_Values os)))))"

definition client_values :: "ReasoningCapabilities \<Rightarrow> string list" where
  "client_values c = concat (map (\<lambda>opt. case caps_ClientEfforts c of Some es \<Rightarrow> es | None \<Rightarrow> opt_Values opt) (effort_options c))"

definition merged_client_efforts ::
  "(string list \<Rightarrow> string list) \<Rightarrow> ReasoningCapabilities \<Rightarrow> ReasoningCapabilities \<Rightarrow> string list option" where
  "merged_client_efforts ord a b =
     (let os = effort_options a @ effort_options b in
      if os \<noteq> [] \<and> \<not> list_ex (\<lambda>opt. opt_Values opt = []) os \<and>
         (caps_ClientEfforts a \<noteq> None \<or> caps_ClientEfforts b \<noteq> None)
      then Some (SortEfforts (ord (first_seen [] (client_values a @ client_values b))))
      else None)"

definition merged_budget :: "ReasoningCapabilities \<Rightarrow> ReasoningCapabilities \<Rightarrow> ReasoningOption list" where
  "merged_budget a b =
     (if findBudget a = None \<and> findBudget b = None then []
      else let (mn, mx) = (case findBudget a of Some x \<Rightarrow> (opt_Min x, opt_Max x) | None \<Rightarrow> (None, None));
               (mn, mx) = (case findBudget b of Some y \<Rightarrow> (lower_bound (opt_Min y) mn, upper_bound (opt_Max y) mx)
                           | None \<Rightarrow> (mn, mx))
           in [\<lparr>opt_Type = ''budget_tokens'', opt_Values = [], opt_Min = mn, opt_Max = mx\<rparr>])"

definition merged_modes :: "string list \<Rightarrow> string list" where
  "merged_modes ms =
     (let seen = first_seen [] ms in
      if 1 < length seen then filter (List.member seen) [''adaptive'', ''enabled''] else seen)"

definition merged_aliases :: "(string, string) gomap \<Rightarrow> (string, string) gomap \<Rightarrow> (string, string) gomap" where
  "merged_aliases a b =
     List.fold (\<lambda>(k, v) m. if gm_get m k = None then gm_set k v m else m) b
       (List.fold (\<lambda>(k, v) m. gm_set k v m) a [])"

definition merge_known ::
  "(string list \<Rightarrow> string list) \<Rightarrow> ReasoningCapabilities \<Rightarrow> ReasoningCapabilities \<Rightarrow> ReasoningCapabilities" where
  "merge_known ord a b =
     (let os = effort_options a @ effort_options b in
      \<lparr>caps_Options =
         (if os \<noteq> [] then [effort_option (merged_efforts ord os)] else []) @
         (if hasOption a ''toggle'' \<or> hasOption b ''toggle''
          then [\<lparr>opt_Type = ''toggle'', opt_Values = [], opt_Min = None, opt_Max = None\<rparr>] else []) @
         merged_budget a b,
       caps_ClientEfforts = merged_client_efforts ord a b,
       caps_ThinkingModes = merged_modes (caps_ThinkingModes a @ caps_ThinkingModes b),
       caps_DefaultEffort = (if caps_DefaultEffort a = [] then caps_DefaultEffort b else caps_DefaultEffort a),
       caps_Mandatory = mergeBoolAndPtr (caps_Mandatory a) (caps_Mandatory b),
       caps_DefaultEnabled = mergeBoolPtr (caps_DefaultEnabled a) (caps_DefaultEnabled b),
       caps_Parameters = first_seen [] (caps_Parameters a @ caps_Parameters b),
       caps_EffortAliases = merged_aliases (caps_EffortAliases a) (caps_EffortAliases b)\<rparr>)"

definition mergeReasoningCapabilities ::
  "(string list \<Rightarrow> string list) \<Rightarrow> ReasoningCapabilities option \<Rightarrow> ReasoningCapabilities option \<Rightarrow>
   ReasoningCapabilities option" where
  "mergeReasoningCapabilities ord a b =
     (case a of None \<Rightarrow> b | Some x \<Rightarrow> (case b of None \<Rightarrow> a | Some y \<Rightarrow> Some (merge_known ord x y)))"

section \<open>Aggregation\<close>

text \<open>One pass of the loop over a limit: the least value so far and whether all were known.\<close>

definition limit_step :: "int option \<Rightarrow> int option \<times> bool \<Rightarrow> int option \<times> bool" where
  "limit_step v s = (case s of (best, known) \<Rightarrow>
     (case v of None \<Rightarrow> (best, False)
      | Some n \<Rightarrow> if n \<le> 0 then (best, False)
                 else if known \<and> (case best of None \<Rightarrow> True | Some m \<Rightarrow> n < m) then (Some n, known)
                 else (best, known)))"

definition least_limit :: "int option list \<Rightarrow> int option" where
  "least_limit vs = (case List.fold limit_step vs (None, True) of (best, known) \<Rightarrow> if known then best else None)"

text \<open>The loop returns at the first false flag.\<close>

fun virtual_bool :: "bool \<Rightarrow> bool option list \<Rightarrow> bool option" where
  "virtual_bool unknown [] = (if unknown then None else Some True)"
| "virtual_bool unknown (v # vs) =
     (case v of None \<Rightarrow> virtual_bool True vs
      | Some b \<Rightarrow> if \<not> b then Some False else virtual_bool unknown vs)"

definition aggregateVirtualBool ::
  "virtualTargetCapabilities list \<Rightarrow> (virtualTargetCapabilities \<Rightarrow> bool option) \<Rightarrow> bool option" where
  "aggregateVirtualBool targets val = virtual_bool False (map val targets)"

definition aggregateVirtualCapabilities ::
  "(string list \<Rightarrow> string list) \<Rightarrow> virtualTargetCapabilities list \<Rightarrow> virtualTargetCapabilities" where
  "aggregateVirtualCapabilities ord targets =
     (if targets = [] then
        \<lparr>ContextLength = None, MaxOutputTokens = None, SupportsTools = None, SupportsVision = None,
         SupportsReasoning = None, SupportsStructuredOutput = None, Capabilities = None\<rparr>
      else
        \<lparr>ContextLength = least_limit (map ContextLength targets),
         MaxOutputTokens = least_limit (map MaxOutputTokens targets),
         SupportsTools = aggregateVirtualBool targets SupportsTools,
         SupportsVision = aggregateVirtualBool targets SupportsVision,
         SupportsReasoning = aggregateVirtualBool targets SupportsReasoning,
         SupportsStructuredOutput = aggregateVirtualBool targets SupportsStructuredOutput,
         Capabilities = List.fold (\<lambda>t r. mergeReasoningCapabilities ord r (Capabilities t)) targets None\<rparr>)"

text \<open>The two views of the admin handlers, with the field a caller substitutes.\<close>

definition aggregateVirtualNumeric ::
  "(string list \<Rightarrow> string list) \<Rightarrow> virtualTargetView list \<Rightarrow> (virtualTargetView \<Rightarrow> int option) option \<Rightarrow> int option" where
  "aggregateVirtualNumeric ord targets val =
     ContextLength (aggregateVirtualCapabilities ord
       (map (\<lambda>t. case val of None \<Rightarrow> virtualTargetCapability t
               | Some f \<Rightarrow> (virtualTargetCapability t)\<lparr>ContextLength := f t\<rparr>) (eligibleVirtualTargets targets)))"

definition aggregateVirtualReasoning ::
  "(string list \<Rightarrow> string list) \<Rightarrow> virtualTargetView list \<Rightarrow>
   (virtualTargetView \<Rightarrow> ReasoningCapabilities option) option \<Rightarrow> ReasoningCapabilities option" where
  "aggregateVirtualReasoning ord targets cf =
     Capabilities (aggregateVirtualCapabilities ord
       (map (\<lambda>t. case cf of None \<Rightarrow> virtualTargetCapability t
               | Some f \<Rightarrow> (virtualTargetCapability t)\<lparr>Capabilities := f t\<rparr>) (eligibleVirtualTargets targets)))"

section \<open>Limits and flags\<close>

lemma limit_known: "snd (List.fold limit_step vs s) \<longleftrightarrow> snd s \<and> (\<forall>v \<in> set vs. \<exists>n > 0. v = Some n)"
proof (induction vs arbitrary: s)
  case (Cons v vs)
  have "snd (limit_step v s) \<longleftrightarrow> snd s \<and> (\<exists>n > 0. v = Some n)"
    by (cases s) (auto simp: limit_step_def split: option.splits)
  with Cons show ?case by auto
qed simp

lemma limit_least:
  "\<forall>v \<in> set vs. \<exists>n > 0. v = Some n \<Longrightarrow>
   fst (List.fold limit_step vs (best, True)) = least_of best (map the vs)"
proof (induction vs arbitrary: best)
  case (Cons v vs)
  then obtain n where "v = Some n" "0 < n" by auto
  then have "limit_step v (best, True) = (lower_bound v best, True)"
    by (auto simp: limit_step_def lower_bound_def split: option.splits)
  with Cons \<open>v = Some n\<close> show ?case by simp
qed simp

lemma least_limit_iff:
  assumes "vs \<noteq> []"
  shows "least_limit vs = (if \<forall>v \<in> set vs. \<exists>n > 0. v = Some n then Some (Min (set (map the vs))) else None)"
proof -
  obtain best known where f: "List.fold limit_step vs (None, True) = (best, known)" by fastforce
  have k: "known \<longleftrightarrow> (\<forall>v \<in> set vs. \<exists>n > 0. v = Some n)" using limit_known [of vs "(None, True)"] by (simp add: f)
  show ?thesis
  proof (cases known)
    case True
    then have "best = least_of None (map the vs)" using limit_least [of vs None] k by (simp add: f)
    with True k assms show ?thesis by (simp only: least_limit_def f split_conv least_of_None map_is_Nil_conv if_True if_False)
  next
    case False
    with k show ?thesis by (simp only: least_limit_def f split_conv if_False)
  qed
qed

lemma least_limit_map:
  "targets \<noteq> [] \<Longrightarrow> least_limit (map f targets) =
     (if \<forall>t \<in> set targets. \<exists>n > 0. f t = Some n then Some (Min (set (map (the \<circ> f) targets))) else None)"
  using least_limit_iff [of "map f targets"] by (simp only: map_is_Nil_conv set_map ball_simps map_map simp_thms)

lemma virtual_bool_iff:
  "virtual_bool u vs =
     (if Some False \<in> set vs then Some False else if u \<or> None \<in> set vs then None else Some True)"
proof (induction vs arbitrary: u)
  case (Cons v vs)
  consider "v = None" | "v = Some True" | "v = Some False" by (metis (full_types) option.exhaust)
  then show ?case by cases (simp_all add: Cons.IH)
qed simp

section \<open>The union claims what some target offers\<close>

lemma effort_union:
  "SupportsEffort (ExtractReasoningOptions (Some c)) \<longleftrightarrow> effort_options c \<noteq> []"
  by (auto simp: ExtractReasoningOptions_def fold_option fold_mode no_options_def effort_options_def filter_empty_conv)

lemma supported_last:
  "SupportedEfforts (List.fold add_option os r) =
     (let es = filter (\<lambda>opt. opt_Type opt = ''effort'') os in if es = [] then SupportedEfforts r else opt_Values (last es))"
  by (induction os arbitrary: r) (auto simp: add_option_def Let_def)

lemma supported_efforts:
  "effort_options c \<noteq> [] \<Longrightarrow> SupportedEfforts (ExtractReasoningOptions (Some c)) = opt_Values (last (effort_options c))"
  by (simp add: ExtractReasoningOptions_def fold_mode supported_last effort_options_def Let_def)

lemma effort_options_merge:
  "effort_options (merge_known ord a b) =
     (let os = effort_options a @ effort_options b in if os = [] then [] else [effort_option (merged_efforts ord os)])"
  by (auto simp: effort_options_def merge_known_def effort_option_def merged_budget_def Let_def split: prod.split)

definition rearranges :: "(string list \<Rightarrow> string list) \<Rightarrow> bool" where
  "rearranges ord \<longleftrightarrow> (\<forall>xs. set (ord xs) = set xs)"

lemma set_merged_efforts:
  "rearranges ord \<Longrightarrow> \<not> list_ex (\<lambda>opt. opt_Values opt = []) os \<Longrightarrow>
   set (merged_efforts ord os) = (\<Union>opt \<in> set os. set (opt_Values opt))"
  by (auto simp: merged_efforts_def set_SortEfforts set_first_seen rearranges_def)

lemma merge_effort:
  assumes "rearranges ord"
  shows "effortIsSupported e (ExtractReasoningOptions (Some (merge_known ord a b))) \<longleftrightarrow>
     (\<exists>opt \<in> set (effort_options a @ effort_options b). opt_Values opt = [] \<or> e \<in> set (opt_Values opt))"
proof (cases "effort_options a @ effort_options b = []")
  case True
  then show ?thesis by (simp add: effortIsSupported_def effort_union effort_options_merge)
next
  case False
  let ?os = "effort_options a @ effort_options b"
  have m: "effort_options (merge_known ord a b) = [effort_option (merged_efforts ord ?os)]"
    using False by (simp add: effort_options_merge)
  have ev: "opt_Values (effort_option vs) = vs" for vs by (simp add: effort_option_def)
  show ?thesis
  proof (cases "list_ex (\<lambda>opt. opt_Values opt = []) ?os")
    case True
    then show ?thesis using m
      by (auto simp: effortIsSupported_def effort_union supported_efforts ev merged_efforts_def list_ex_iff)
  next
    case r: False
    obtain opt where "opt \<in> set ?os" using False by (cases ?os) auto
    then have "opt_Values opt \<noteq> []" "set (opt_Values opt) \<subseteq> set (merged_efforts ord ?os)"
      using r set_merged_efforts [OF assms r] by (auto simp: list_ex_iff)
    then have "merged_efforts ord ?os \<noteq> []" by (cases "opt_Values opt") auto
    then show ?thesis
      using r m set_merged_efforts [OF assms r]
      by (auto simp: effortIsSupported_def effort_union supported_efforts ev list_ex_iff matchesEffort_def)
  qed
qed

lemma merge_effort_left:
  assumes "rearranges ord" "effortIsSupported e (ExtractReasoningOptions (Some a))"
  shows "effortIsSupported e (ExtractReasoningOptions (Some (merge_known ord a b)))"
    and "effortIsSupported e (ExtractReasoningOptions (Some (merge_known ord b a)))"
proof -
  have ne: "effort_options a \<noteq> []" using assms(2) by (simp add: effortIsSupported_def effort_union)
  then have "last (effort_options a) \<in> set (effort_options a)" by simp
  moreover have "opt_Values (last (effort_options a)) = [] \<or> e \<in> set (opt_Values (last (effort_options a)))"
    using assms(2) ne by (simp add: effortIsSupported_def supported_efforts matchesEffort_def)
  ultimately show "effortIsSupported e (ExtractReasoningOptions (Some (merge_known ord a b)))"
    and "effortIsSupported e (ExtractReasoningOptions (Some (merge_known ord b a)))"
    unfolding merge_effort [OF assms(1)] by auto
qed

definition offers :: "string \<Rightarrow> ReasoningCapabilities option \<Rightarrow> bool" where
  "offers e c \<longleftrightarrow> c \<noteq> None \<and> effortIsSupported e (ExtractReasoningOptions c)"

lemma offers_merge:
  "rearranges ord \<Longrightarrow> offers e a \<or> offers e b \<Longrightarrow> offers e (mergeReasoningCapabilities ord a b)"
  by (auto simp: offers_def mergeReasoningCapabilities_def intro: merge_effort_left split: option.splits)

lemma offers_fold:
  assumes "rearranges ord" "offers e r \<or> (\<exists>t \<in> set targets. offers e (Capabilities t))"
  shows "offers e (List.fold (\<lambda>t r. mergeReasoningCapabilities ord r (Capabilities t)) targets r)"
  using assms(2)
proof (induction targets arbitrary: r)
  case (Cons t ts)
  have "offers e (mergeReasoningCapabilities ord r (Capabilities t)) \<or> (\<exists>t \<in> set ts. offers e (Capabilities t))"
    using Cons.prems offers_merge [OF assms(1), of e r "Capabilities t"] by auto
  from Cons.IH [OF this] show ?case by simp
qed simp

section \<open>Mandatory only when every target is\<close>

lemma mandatory_merge:
  "isMandatoryReasoning (mergeReasoningCapabilities ord a b) \<Longrightarrow>
     (a \<noteq> None \<longrightarrow> isMandatoryReasoning a) \<and> (b \<noteq> None \<longrightarrow> isMandatoryReasoning b)"
  by (auto simp: isMandatoryReasoning_def mergeReasoningCapabilities_def merge_known_def mergeBoolAndPtr_def Let_def
      split: option.splits)

lemma mandatory_fold:
  "isMandatoryReasoning (List.fold (\<lambda>t r. mergeReasoningCapabilities ord r (Capabilities t)) targets r) \<Longrightarrow>
     (r \<noteq> None \<longrightarrow> isMandatoryReasoning r) \<and>
     (\<forall>t \<in> set targets. Capabilities t \<noteq> None \<longrightarrow> isMandatoryReasoning (Capabilities t))"
proof (induction targets arbitrary: r)
  case (Cons t ts)
  from Cons.IH [of "mergeReasoningCapabilities ord r (Capabilities t)"] Cons.prems
  have "isMandatoryReasoning (mergeReasoningCapabilities ord r (Capabilities t)) \<or> mergeReasoningCapabilities ord r (Capabilities t) = None"
    and rest: "\<forall>t \<in> set ts. Capabilities t \<noteq> None \<longrightarrow> isMandatoryReasoning (Capabilities t)"
    by auto
  then have "(r \<noteq> None \<longrightarrow> isMandatoryReasoning r) \<and> (Capabilities t \<noteq> None \<longrightarrow> isMandatoryReasoning (Capabilities t))"
    using mandatory_merge [of ord r "Capabilities t"]
    by (auto simp: mergeReasoningCapabilities_def split: option.splits)
  with rest show ?case by auto
qed simp

section \<open>The iteration order does not show\<close>

definition all_known :: "ReasoningCapabilities \<Rightarrow> bool" where
  "all_known c \<longleftrightarrow> (\<forall>opt \<in> set (effort_options c). \<forall>v \<in> set (opt_Values opt). 0 \<le> effortIndex v) \<and>
     (\<forall>es. caps_ClientEfforts c = Some es \<longrightarrow> (\<forall>v \<in> set es. 0 \<le> effortIndex v))"

lemma merge_order:
  assumes "rearranges ord" "rearranges ord'" "all_known a" "all_known b"
  shows "merge_known ord a b = merge_known ord' a b"
proof -
  let ?os = "effort_options a @ effort_options b"
  have "SortEfforts (ord (first_seen [] (concat (map opt_Values ?os)))) =
        SortEfforts (ord' (first_seen [] (concat (map opt_Values ?os))))"
    using assms by (intro SortEfforts_known) (auto simp: rearranges_def set_first_seen all_known_def)
  moreover have "SortEfforts (ord (first_seen [] (client_values a @ client_values b))) =
        SortEfforts (ord' (first_seen [] (client_values a @ client_values b)))"
    using assms
    by (intro SortEfforts_known)
      (fastforce simp: rearranges_def set_first_seen all_known_def client_values_def split: option.splits)+
  ultimately show ?thesis
    by (simp add: merge_known_def merged_efforts_def merged_client_efforts_def Let_def)
qed

end
