(* ===== verification/RequestTranslation.thy ===== *)
theory RequestTranslation
  imports Reasoning
begin

text \<open>
  Translation of requests between the three client protocols (\<open>internal/server/translate.go\<close>,
  \<open>reasoning_state.go\<close>): every request becomes a Chat document (\<open>requestToChat\<close>), which becomes a
  Messages or a Responses document. Opaque reasoning state travels in the \<open>reasoning_details\<close> of Chat
  messages. Errors are values of a sum; a nil slice is \<open>None\<close> where the code tells it from an empty one.
\<close>

section \<open>Errors\<close>

datatype terr =
    JsonError
  | Unsupported string
  | ReasoningState
  | SystemBlocks
  | NoTranslation
  | NilMap

type_synonym 'a res = "terr + 'a"

definition unsupported_text :: "string \<Rightarrow> string" where
  "unsupported_text feature =
     (if List.member [''reasoning state'', ''tool messages'', ''tool calls'', ''provider-hosted tools''] feature
      then feature @ '' cannot be represented in this target'' @ [CHR 0x27] @ ''s protocol''
      else if has_prefix feature ''message role ''
      then feature @ '' cannot be represented in this target'' @ [CHR 0x27] @ ''s protocol''
      else feature @ '' is only supported through a native Responses provider'')"

definition bind_res :: "'a res \<Rightarrow> ('a \<Rightarrow> 'b res) \<Rightarrow> 'b res" where
  "bind_res r f = (case r of Inl e \<Rightarrow> Inl e | Inr x \<Rightarrow> f x)"

text \<open>A loop over a slice that threads a state and stops at the first error.\<close>

fun fold_res :: "('a \<Rightarrow> 's \<Rightarrow> 's res) \<Rightarrow> 'a list \<Rightarrow> 's \<Rightarrow> 's res" where
  "fold_res f [] s = Inr s"
| "fold_res f (x # xs) s = (case f x s of Inl e \<Rightarrow> Inl e | Inr s' \<Rightarrow> fold_res f xs s')"

lemma bind_res_simps [simp]: "bind_res (Inl e) f = Inl e" "bind_res (Inr x) f = f x"
  by (simp_all add: bind_res_def)

lemma bind_res_Inr: "bind_res r f = Inr y \<longleftrightarrow> (\<exists>x. r = Inr x \<and> f x = Inr y)"
  by (cases r) simp_all

lemma fold_res_append:
  "fold_res f (xs @ ys) s = bind_res (fold_res f xs s) (fold_res f ys)"
  by (induction xs arbitrary: s) (auto simp: bind_res_def split: sum.splits)

text \<open>An invariant of a loop.\<close>

lemma fold_res_inv:
  "fold_res f xs s = Inr t \<Longrightarrow> I s \<Longrightarrow> (\<And>x s s'. x \<in> set xs \<Longrightarrow> I s \<Longrightarrow> f x s = Inr s' \<Longrightarrow> I s') \<Longrightarrow> I t"
proof (induction xs arbitrary: s)
  case (Cons x xs)
  from Cons.prems(1) obtain s' where s': "f x s = Inr s'" "fold_res f xs s' = Inr t" by (auto split: sum.splits)
  show ?case
  proof (rule Cons.IH [OF s'(2)])
    show "I s'" using Cons.prems(3) [OF _ Cons.prems(2) s'(1)] by simp
  next
    fix y u u' assume "y \<in> set xs" "I u" "f y u = Inr u'"
    then show "I u'" using Cons.prems(3) [of y u u'] by simp
  qed
qed simp

section \<open>Opaque reasoning state\<close>

abbreviation (input) claude_format :: string where "claude_format \<equiv> ''anthropic-claude-v1''"
abbreviation (input) responses_format :: string where "responses_format \<equiv> ''openai-responses-v1''"

text \<open>A signature is kept only when it is not empty.\<close>

definition with_signature :: "any \<Rightarrow> obj \<Rightarrow> obj" where
  "with_signature sig m = (if strField sig = [] then m else gm_set ''signature'' sig m)"

definition anthropicReasoningToChatDetails :: "obj \<Rightarrow> int \<Rightarrow> obj res" where
  "anthropicReasoningToChatDetails block index =
     (let result = [(''format'', AStr claude_format), (''index'', AInt index)] in
      if is_str (at block ''type'') ''thinking'' then
        (case as_str (at block ''thinking'') of
           None \<Rightarrow> Inl ReasoningState
         | Some t \<Rightarrow>
             Inr (with_signature (at block ''signature'')
                    (gm_set ''text'' (AStr t) (gm_set ''type'' (AStr ''reasoning.text'') result))))
      else if is_str (at block ''type'') ''redacted_thinking'' then
        (let d = strField (at block ''data'') in
         if d = [] then Inl ReasoningState
         else Inr (gm_set ''data'' (AStr d) (gm_set ''type'' (AStr ''reasoning.encrypted'') result)))
      else Inl ReasoningState)"

definition detail_to_block :: "any \<Rightarrow> any res" where
  "detail_to_block raw =
     (let detail = as_map raw in
      if \<not> is_map raw \<or> \<not> is_str (at detail ''format'') claude_format then Inl ReasoningState
      else if strField (at detail ''type'') = ''reasoning.text'' then
        (case as_str (at detail ''text'') of
           None \<Rightarrow> Inl ReasoningState
         | Some t \<Rightarrow> Inr (AObj (with_signature (at detail ''signature'')
                                 [(''type'', AStr ''thinking''), (''thinking'', AStr t)])))
      else if strField (at detail ''type'') = ''reasoning.encrypted'' then
        (let d = strField (at detail ''data'') in
         if d = [] then Inl ReasoningState
         else Inr (AObj [(''type'', AStr ''redacted_thinking''), (''data'', AStr d)]))
      else Inl ReasoningState)"

definition chatReasoningDetailsToAnthropic :: "any \<Rightarrow> any list res" where
  "chatReasoningDetailsToAnthropic v =
     (case asSlice v of None \<Rightarrow> Inl ReasoningState
      | Some details \<Rightarrow> fold_res (\<lambda>raw out. bind_res (detail_to_block raw) (\<lambda>b. Inr (out @ [b]))) details [])"

definition with_id :: "obj \<Rightarrow> obj \<Rightarrow> obj" where
  "with_id item d = (case as_str (at item ''id'') of Some i \<Rightarrow> gm_set ''id'' (AStr i) d | None \<Rightarrow> d)"

fun summary_details :: "obj \<Rightarrow> nat \<Rightarrow> any list \<Rightarrow> any list" where
  "summary_details item n [] = []"
| "summary_details item n (raw # rs) =
     (let t = strField (at (as_map raw) ''text'') in
      (if t = [] then [] else
         [AObj (with_id item [(''type'', AStr ''reasoning.summary''), (''summary'', AStr t),
            (''format'', AStr responses_format), (''index'', AInt (int n))])])
      @ summary_details item (Suc n) rs)"

definition responsesReasoningToChatDetails :: "obj \<Rightarrow> any list" where
  "responsesReasoningToChatDetails item =
     (let enc = strField (at item ''encrypted_content'') in
      (if enc = [] then [] else
         [AObj (with_id item [(''type'', AStr ''reasoning.encrypted''), (''data'', AStr enc),
            (''format'', AStr responses_format)])])
      @ summary_details item 0 (elems (at item ''summary'')))"

text \<open>Details of one id are gathered in one item, which stays where it first appeared; the item already in
  the output is the one that is extended, as the code's shared map is.\<close>

definition extend_item :: "obj \<Rightarrow> obj \<Rightarrow> obj res" where
  "extend_item d item =
     (if is_str (at d ''type'') ''reasoning.encrypted'' then
        (let e = strField (at d ''data'') in
         if e = [] then Inl ReasoningState
         else let item = gm_set ''encrypted_content'' (AStr e) item in
              Inr (if has_key item ''summary'' then item else gm_set ''summary'' (AArr []) item))
      else if is_str (at d ''type'') ''reasoning.summary'' then
        (case as_str (at d ''summary'') of
           None \<Rightarrow> Inl ReasoningState
         | Some t \<Rightarrow> Inr (gm_set ''summary'' (AArr (elems (at item ''summary'') @
             [AObj [(''type'', AStr ''summary_text''), (''text'', AStr t)]])) item))
      else Inl ReasoningState)"

text \<open>The output with, for each item, the id it was filed under (empty for none).\<close>

fun update_at :: "string \<Rightarrow> obj \<Rightarrow> (string \<times> obj) list \<Rightarrow> (string \<times> obj) list" where
  "update_at i item [] = [(i, item)]"
| "update_at i item ((j, x) # out) = (if j = i then (i, item) # out else (j, x) # update_at i item out)"

definition detail_to_item :: "any \<Rightarrow> (string \<times> obj) list \<Rightarrow> (string \<times> obj) list res" where
  "detail_to_item raw out =
     (let d = as_map raw in
      if \<not> is_map raw \<or> \<not> is_str (at d ''format'') responses_format then Inl ReasoningState
      else
        (let i = strField (at d ''id'');
             fresh = [(''type'', AStr ''reasoning'')];
             item = (if i = [] then fresh
                     else case map_of out i of Some x \<Rightarrow> x | None \<Rightarrow> gm_set ''id'' (AStr i) fresh)
         in bind_res (extend_item d item)
              (\<lambda>item. Inr (if i = [] then out @ [([], item)] else update_at i item out))))"

definition chatReasoningDetailsToResponses :: "any \<Rightarrow> any list res" where
  "chatReasoningDetailsToResponses v =
     (case asSlice v of None \<Rightarrow> Inl ReasoningState
      | Some details \<Rightarrow> bind_res (fold_res detail_to_item details []) (\<lambda>out. Inr (map (AObj \<circ> snd) out)))"

definition has_claude_state :: "any \<Rightarrow> bool" where
  "has_claude_state raw =
     list_ex (\<lambda>d. is_str (at (as_map d) ''format'') claude_format) (elems (at (as_map raw) ''reasoning_details''))"

definition validateReasoningRepresentability :: "obj \<Rightarrow> string \<Rightarrow> string \<Rightarrow> bool" where
  "validateReasoningRepresentability source frm to \<longleftrightarrow>
     \<not> (frm \<noteq> to \<and> frm = ProtocolChat \<and> to = ProtocolResponses \<and>
        list_ex has_claude_state (elems (at source ''messages'')))"

section \<open>Content\<close>

definition anthropicImageToOpenAI :: "obj \<Rightarrow> any" where
  "anthropicImageToOpenAI block =
     (let source = as_map (at block ''source'');
          url = (if is_str (at source ''type'') ''base64''
                 then ''data:'' @ sprint (at source ''media_type'') @ '';base64,'' @ sprint (at source ''data'')
                 else sprint (at source ''url''))
      in AObj [(''type'', AStr ''image_url''), (''image_url'', AObj [(''url'', AStr url)])])"

definition openAIImageToAnthropic :: "obj \<Rightarrow> any" where
  "openAIImageToAnthropic block =
     (let raw = at block ''image_url'';
          url = strField (if is_map raw then at (as_map raw) ''url'' else raw)
      in if has_prefix url ''data:'' then
           AObj [(''type'', AStr ''image''), (''source'', AObj [(''type'', AStr ''base64''),
             (''media_type'', AStr (trim_prefix (before (CHR '';'') (before (CHR '','') url)) ''data:'')),
             (''data'', AStr (after (CHR '','') url))])]
         else AObj [(''type'', AStr ''image''), (''source'', AObj [(''type'', AStr ''url''), (''url'', AStr url)])])"

text \<open>\<open>first\<close>: the first value that is not nil.\<close>

definition first_of :: "any \<Rightarrow> any \<Rightarrow> any" where
  "first_of a b = (if a \<noteq> ANil then a else if b \<noteq> ANil then b else AStr [])"

definition anthropic_block :: "any \<Rightarrow> any list" where
  "anthropic_block raw =
     (let block = as_map raw; t = at block ''type'' in
      if is_str t ''text'' \<or> is_str t ''input_text'' then
        (let x = first_of (at block ''text'') (at block ''input_text'') in
         case as_str x of
           Some s \<Rightarrow> if trim_space s = [] then [] else [AObj [(''type'', AStr ''text''), (''text'', x)]]
         | None \<Rightarrow> [AObj [(''type'', AStr ''text''), (''text'', x)]])
      else if is_str t ''image_url'' \<or> is_str t ''input_image'' then [openAIImageToAnthropic block]
      else [])"

definition chatContentToAnthropic :: "any \<Rightarrow> any list option" where
  "chatContentToAnthropic v =
     (case as_str v of
        Some s \<Rightarrow> if trim_space s = [] then None else Some [AObj [(''type'', AStr ''text''), (''text'', AStr s)]]
      | None \<Rightarrow> Some (concat (map anthropic_block (elems v))))"

definition responses_part :: "any \<Rightarrow> any list" where
  "responses_part raw =
     (let block = as_map raw; t = at block ''type'' in
      if is_str t ''input_text'' \<or> is_str t ''output_text'' then
        [AObj [(''type'', AStr ''text''), (''text'', at block ''text'')]]
      else if is_str t ''input_image'' then
        [AObj [(''type'', AStr ''image_url''), (''image_url'', AObj [(''url'', at block ''image_url'')])]]
      else [])"

definition responsesContentToChat :: "any \<Rightarrow> any" where
  "responsesContentToChat v = AArr (concat (map responses_part (elems v)))"

definition jsonString :: "any \<Rightarrow> string" where
  "jsonString v = marshal v"

definition jsonValue :: "any \<Rightarrow> any" where
  "jsonValue v = (case as_str v of None \<Rightarrow> v
     | Some s \<Rightarrow> (case unmarshal_any s of Some d \<Rightarrow> d | None \<Rightarrow> v))"

section \<open>Messages to Chat\<close>

record turn =
  textBlocks :: "any list"
  toolCalls :: "any list"
  reasoningDetails :: "any list"
  reasoningText :: string
  emitted :: "any list"

definition fn_call :: "any \<Rightarrow> any \<Rightarrow> any \<Rightarrow> any" where
  "fn_call i name args = AObj [(''id'', i), (''type'', AStr ''function''),
     (''function'', AObj [(''name'', name), (''arguments'', args)])]"

definition tool_message :: "any \<Rightarrow> any \<Rightarrow> any" where
  "tool_message i content = AObj [(''role'', AStr ''tool''), (''tool_call_id'', i), (''content'', content)]"

definition thinking_block :: "string \<Rightarrow> nat \<Rightarrow> obj \<Rightarrow> turn \<Rightarrow> turn res" where
  "thinking_block role index block t =
     (let plain = is_str (at block ''type'') ''thinking'';
          t = (if plain then t\<lparr>reasoningText := reasoningText t @ strField (at block ''thinking'')\<rparr> else t)
      in if plain \<and> strField (at block ''signature'') = [] then Inr t
         else bind_res (anthropicReasoningToChatDetails block (int index))
                (\<lambda>d. Inr (if role = ''assistant'' then t\<lparr>reasoningDetails := reasoningDetails t @ [AObj d]\<rparr> else t)))"

definition message_block :: "string \<Rightarrow> nat \<times> any \<Rightarrow> turn \<Rightarrow> turn res" where
  "message_block role ib t =
     (let (index, item) = ib; block = as_map item; k = at block ''type'' in
      if is_str k ''text'' then
        Inr (t\<lparr>textBlocks := textBlocks t @ [AObj [(''type'', AStr ''text''), (''text'', at block ''text'')]]\<rparr>)
      else if is_str k ''image'' then Inr (t\<lparr>textBlocks := textBlocks t @ [anthropicImageToOpenAI block]\<rparr>)
      else if is_str k ''tool_use'' then
        Inr (t\<lparr>toolCalls := toolCalls t @
               [fn_call (at block ''id'') (at block ''name'') (AStr (jsonString (at block ''input'')))]\<rparr>)
      else if is_str k ''tool_result'' then
        Inr (t\<lparr>emitted := emitted t @ [tool_message (at block ''tool_use_id'') (at block ''content'')]\<rparr>)
      else if is_str k ''thinking'' \<or> is_str k ''redacted_thinking'' then thinking_block role index block t
      else Inr t)"

definition put_if :: "bool \<Rightarrow> string \<Rightarrow> any \<Rightarrow> obj \<Rightarrow> obj" where
  "put_if b k v m = (if b then gm_set k v m else m)"

definition turn_message :: "string \<Rightarrow> turn \<Rightarrow> any list" where
  "turn_message role t =
     (if textBlocks t \<noteq> [] \<or> toolCalls t \<noteq> [] \<or> reasoningDetails t \<noteq> [] \<or> reasoningText t \<noteq> [] then
        [AObj (put_if (reasoningDetails t \<noteq> []) ''reasoning_details'' (AArr (reasoningDetails t))
          (put_if (toolCalls t \<noteq> []) ''tool_calls'' (AArr (toolCalls t))
            (put_if (reasoningText t \<noteq> []) ''reasoning_content'' (AStr (reasoningText t))
              [(''role'', AStr role), (''content'', AArr (textBlocks t))])))]
      else [])"

definition message_to_chat :: "any \<Rightarrow> any list \<Rightarrow> any list res" where
  "message_to_chat raw out =
     (let message = as_map raw; role = strField (at message ''role''); content = at message ''content'' in
      case asSlice content of
        None \<Rightarrow> Inr (out @ [AObj [(''role'', AStr role), (''content'', content)]])
      | Some blocks \<Rightarrow>
          bind_res (fold_res (message_block role) (List.enumerate 0 blocks)
                     \<lparr>textBlocks = [], toolCalls = [], reasoningDetails = [], reasoningText = [], emitted = out\<rparr>)
            (\<lambda>t. Inr (emitted t @ turn_message role t)))"

definition copy_keys :: "string list \<Rightarrow> obj \<Rightarrow> obj \<Rightarrow> obj" where
  "copy_keys ks source m = List.fold (\<lambda>k m. put_if (has_key source k) k (at source k) m) ks m"

definition chat_base :: "obj \<Rightarrow> obj" where
  "chat_base source =
     put_if (has_key source ''max_output_tokens'') ''max_completion_tokens'' (at source ''max_output_tokens'')
       (put_if (has_key source ''max_tokens'') ''max_tokens'' (at source ''max_tokens'')
         (copy_keys [''temperature'', ''top_p'', ''stream'', ''stop'', ''metadata''] source []))"

definition messages_tool :: "any \<Rightarrow> any" where
  "messages_tool raw = (let tool = as_map raw in
     AObj [(''type'', AStr ''function''), (''function'', AObj [(''name'', at tool ''name''),
       (''description'', at tool ''description''), (''parameters'', at tool ''input_schema'')])])"

definition messages_choice :: "obj \<Rightarrow> obj \<Rightarrow> obj" where
  "messages_choice source chat =
     (if \<not> is_map (at source ''tool_choice'') then chat
      else let choice = as_map (at source ''tool_choice''); k = at choice ''type'' in
        if is_str k ''auto'' then gm_set ''tool_choice'' (AStr ''auto'') chat
        else if is_str k ''any'' then gm_set ''tool_choice'' (AStr ''required'') chat
        else if is_str k ''tool'' then
          gm_set ''tool_choice'' (AObj [(''type'', AStr ''function''),
            (''function'', AObj [(''name'', at choice ''name'')])]) chat
        else chat)"

definition messagesRequestToChat :: "obj \<Rightarrow> obj res" where
  "messagesRequestToChat source =
     bind_res (fold_res message_to_chat (elems (at source ''messages''))
        (if has_key source ''system'' then [AObj [(''role'', AStr ''system''), (''content'', at source ''system'')]] else []))
       (\<lambda>msgs. Inr (gm_set ''messages'' (nil_slice msgs) (messages_choice source
          (put_if (has_key source ''tools'') ''tools'' (AArr (map messages_tool (elems (at source ''tools''))))
             (chat_base source)))))"

section \<open>Responses to Chat\<close>

definition responses_item :: "any \<Rightarrow> any list" where
  "responses_item raw =
     (let item = as_map raw; kind = strField (at item ''type'') in
      if kind = ''reasoning'' then
        (let details = responsesReasoningToChatDetails item in
         if details = [] then []
         else [AObj [(''role'', AStr ''assistant''), (''content'', AStr []), (''reasoning_details'', AArr details)]])
      else if kind = ''message'' \<or> kind = [] then
        [AObj [(''role'', at item ''role''), (''content'', responsesContentToChat (at item ''content''))]]
      else if kind = ''function_call'' then
        [AObj [(''role'', AStr ''assistant''), (''content'', ANil),
          (''tool_calls'', AArr [fn_call (at item ''call_id'') (at item ''name'') (at item ''arguments'')])]]
      else if kind = ''function_call_output'' then [tool_message (at item ''call_id'') (at item ''output'')]
      else [])"

definition responses_tool :: "any \<Rightarrow> any" where
  "responses_tool raw = (let tool = as_map raw in
     AObj [(''type'', AStr ''function''), (''function'', AObj [(''name'', at tool ''name''),
       (''description'', at tool ''description''), (''parameters'', at tool ''parameters''),
       (''strict'', at tool ''strict'')])])"

definition responsesRequestToChat :: "obj \<Rightarrow> obj" where
  "responsesRequestToChat source =
     (let instructions = strField (at source ''instructions'');
          sys = (if instructions = [] then []
                 else [AObj [(''role'', AStr ''system''), (''content'', AStr instructions)]]);
          msgs = sys @ (case as_str (at source ''input'') of
                   Some t \<Rightarrow> [AObj [(''role'', AStr ''user''), (''content'', AStr t)]]
                 | None \<Rightarrow> concat (map responses_item (elems (at source ''input''))))
      in gm_set ''messages'' (nil_slice msgs)
           (put_if (has_key source ''tool_choice'') ''tool_choice'' (at source ''tool_choice'')
             (put_if (has_key source ''tools'') ''tools'' (AArr (map responses_tool (elems (at source ''tools''))))
               (chat_base source))))"

definition requestToChat :: "obj \<Rightarrow> string \<Rightarrow> obj res" where
  "requestToChat source frm =
     (if frm = ProtocolChat then Inr source
      else if frm = ProtocolMessages then messagesRequestToChat source
      else Inr (responsesRequestToChat source))"
section \<open>Chat to Messages\<close>

definition text_block :: "string \<Rightarrow> any" where
  "text_block s = AObj [(''type'', AStr ''text''), (''text'', AStr s)]"

definition system_block :: "any \<Rightarrow> any list \<Rightarrow> any list res" where
  "system_block raw out =
     (let block = as_map raw in
      if \<not> is_map raw \<or> \<not> is_str (at block ''type'') ''text'' then Inl SystemBlocks
      else (case as_str (at block ''text'') of None \<Rightarrow> Inl SystemBlocks | Some t \<Rightarrow> Inr (out @ [text_block t])))"

definition system_blocks :: "any \<Rightarrow> any list \<Rightarrow> any list res" where
  "system_blocks content out =
     (case content of
        AStr s \<Rightarrow> Inr (out @ [text_block s])
      | AArr blocks \<Rightarrow> fold_res system_block blocks out
      | _ \<Rightarrow> Inl SystemBlocks)"

text \<open>The content of a turn with its reasoning state in front, and whether state was dropped.\<close>

definition with_reasoning :: "obj \<Rightarrow> string \<Rightarrow> any list option \<Rightarrow> any list option \<times> bool" where
  "with_reasoning message role content =
     (let details = at message ''reasoning_details'';
          plain = strField (at message ''reasoning_content'') \<noteq> [] \<and> role = ''assistant'' in
      if details \<noteq> ANil then
        (case chatReasoningDetailsToAnthropic details of
           Inr blocks \<Rightarrow> (Some (blocks @ (case content of Some c \<Rightarrow> c | None \<Rightarrow> [])), blocks = [] \<and> plain)
         | Inl _ \<Rightarrow> (content, True))
      else (content, plain))"

definition tool_use :: "any \<Rightarrow> any" where
  "tool_use raw =
     (let call = as_map raw; fn = as_map (at call ''function'') in
      AObj [(''type'', AStr ''tool_use''), (''id'', at call ''id''), (''name'', at fn ''name''),
        (''input'', jsonValue (at fn ''arguments''))])"

definition append_slice :: "any list option \<Rightarrow> any list \<Rightarrow> any list option" where
  "append_slice xs ys = (if ys = [] then xs else Some ((case xs of Some x \<Rightarrow> x | None \<Rightarrow> []) @ ys))"

record msgs =
  systems :: "any list"
  messages :: "any list"
  stripped :: bool

definition tool_result :: "obj \<Rightarrow> any" where
  "tool_result message = AObj [(''role'', AStr ''user''), (''content'', AArr [AObj [(''type'', AStr ''tool_result''),
     (''tool_use_id'', at message ''tool_call_id''), (''content'', at message ''content'')]])]"

definition chat_turn :: "obj \<Rightarrow> string \<Rightarrow> msgs \<Rightarrow> msgs" where
  "chat_turn message role s =
     (let (content, turnStripped) = with_reasoning message role (chatContentToAnthropic (at message ''content''));
          calls = elems (at message ''tool_calls'');
          content = append_slice content (map tool_use calls);
          s = s\<lparr>stripped := stripped s \<or> turnStripped\<rparr>
      in if (content = None \<or> content = Some []) \<and> calls = [] \<and> role = ''assistant'' \<and> turnStripped then s
         else s\<lparr>messages := messages s @ [AObj [(''role'', AStr role), (''content'', boxed content)]]\<rparr>)"

definition chat_message :: "any \<Rightarrow> msgs \<Rightarrow> msgs res" where
  "chat_message raw s =
     (let message = as_map raw; role = strField (at message ''role'') in
      if role = ''system'' \<or> role = ''developer'' then
        bind_res (system_blocks (at message ''content'') (systems s)) (\<lambda>sys. Inr (s\<lparr>systems := sys\<rparr>))
      else if role = ''tool'' then Inr (s\<lparr>messages := messages s @ [tool_result message]\<rparr>)
      else Inr (chat_turn message role s))"

definition anthropic_tool :: "any \<Rightarrow> any" where
  "anthropic_tool raw = (let fn = as_map (at (as_map raw) ''function'') in
     AObj [(''name'', at fn ''name''), (''description'', at fn ''description''), (''input_schema'', at fn ''parameters'')])"

definition anthropic_choice :: "obj \<Rightarrow> obj \<Rightarrow> obj" where
  "anthropic_choice chat out = (case at chat ''tool_choice'' of
      AStr v \<Rightarrow> gm_set ''tool_choice'' (AObj [(''type'', AStr (if v = ''required'' then ''any'' else v))]) out
    | AObj v \<Rightarrow> gm_set ''tool_choice'' (AObj [(''type'', AStr ''tool''), (''name'', at (as_map (at v ''function'')) ''name'')]) out
    | _ \<Rightarrow> out)"

subsection \<open>Prompt cache markers\<close>

definition anthropicMaxCacheBreakpoints :: nat where
  "anthropicMaxCacheBreakpoints = 4"

definition cacheableBlockTypes :: "string list" where
  "cacheableBlockTypes = [''text'', ''image'', ''tool_use'', ''tool_result'', ''document'']"

definition marked :: "any \<Rightarrow> bool" where
  "marked raw \<longleftrightarrow> at (as_map raw) ''cache_control'' \<noteq> ANil"

definition ephemeralCacheControl :: any where
  "ephemeralCacheControl = AObj [(''type'', AStr ''ephemeral'')]"

definition mark_block :: "any \<Rightarrow> any" where
  "mark_block raw = AObj (gm_set ''cache_control'' ephemeralCacheControl (as_map raw))"

definition count_marked :: "any list \<Rightarrow> nat" where
  "count_marked bs = length (filter marked bs)"

definition countCacheBreakpoints :: "any list \<Rightarrow> nat" where
  "countCacheBreakpoints blocks =
     count_marked blocks + sum_list (map (\<lambda>b. count_marked (elems (at (as_map b) ''content''))) blocks)"

definition cacheable :: "any \<Rightarrow> bool" where
  "cacheable b \<longleftrightarrow> is_map b \<and> \<not> marked b \<and> List.member cacheableBlockTypes (strField (at (as_map b) ''type''))"

text \<open>The last element a function accepts is replaced; \<open>None\<close> when there is none.\<close>

fun replace_last :: "('a \<Rightarrow> 'a option) \<Rightarrow> 'a list \<Rightarrow> 'a list option" where
  "replace_last f [] = None"
| "replace_last f (x # xs) = (case replace_last f xs of
      Some ys \<Rightarrow> Some (x # ys)
    | None \<Rightarrow> (case f x of Some y \<Rightarrow> Some (y # xs) | None \<Rightarrow> None))"

definition mark_in_message :: "any \<Rightarrow> any option" where
  "mark_in_message raw =
     (case asSlice (at (as_map raw) ''content'') of None \<Rightarrow> None
      | Some content \<Rightarrow>
          map_option (\<lambda>c. AObj (gm_set ''content'' (AArr c) (as_map raw)))
            (replace_last (\<lambda>b. if cacheable b then Some (mark_block b) else None) content))"

definition mark_messages :: "any list \<Rightarrow> any list" where
  "mark_messages ms = (case replace_last mark_in_message ms of Some ms' \<Rightarrow> ms' | None \<Rightarrow> ms)"

definition mark_system :: "any list \<Rightarrow> any list \<times> bool" where
  "mark_system sys =
     (if sys \<noteq> [] \<and> is_map (last sys) \<and> \<not> marked (last sys)
      then (butlast sys @ [mark_block (last sys)], True) else (sys, False))"

definition applyPromptCacheBreakpoints :: "any list \<Rightarrow> any list \<Rightarrow> any list \<times> any list" where
  "applyPromptCacheBreakpoints sys ms =
     (let used = countCacheBreakpoints sys + countCacheBreakpoints ms in
      if anthropicMaxCacheBreakpoints \<le> used then (sys, ms)
      else
        (let (sys', b) = mark_system sys; used = (if b then Suc used else used) in
         if length ms < 2 \<or> anthropicMaxCacheBreakpoints \<le> used then (sys', ms)
         else (sys', mark_messages ms)))"

subsection \<open>The request\<close>

definition messages_limits :: "obj \<Rightarrow> any" where
  "messages_limits chat =
     (if has_key chat ''max_completion_tokens'' then at chat ''max_completion_tokens''
      else if has_key chat ''max_tokens'' then at chat ''max_tokens''
      else if has_key chat ''max_output_tokens'' then at chat ''max_output_tokens''
      else AInt 4096)"

definition messages_base :: "obj \<Rightarrow> obj" where
  "messages_base chat =
     gm_set ''max_tokens'' (messages_limits chat)
       (copy_keys [''temperature'', ''top_p'', ''stream'', ''stop_sequences'', ''metadata''] chat
          [(''model'', at chat ''model'')])"

definition messages_document :: "obj \<Rightarrow> any list \<Rightarrow> any list \<Rightarrow> obj" where
  "messages_document chat sys ms =
     (let out = gm_set ''messages'' (AArr ms) (put_if (sys \<noteq> []) ''system'' (AArr sys) (messages_base chat));
          out = (case asSlice (at chat ''tools'') of None \<Rightarrow> out
                 | Some ts \<Rightarrow> gm_set ''tools'' (AArr (map anthropic_tool ts)) out)
      in anthropic_choice chat out)"

definition chatToMessagesRequest :: "obj \<Rightarrow> (obj \<times> bool) res" where
  "chatToMessagesRequest chat =
     bind_res (fold_res chat_message (elems (at chat ''messages'')) \<lparr>systems = [], messages = [], stripped = False\<rparr>)
       (\<lambda>s. let (sys, ms) = applyPromptCacheBreakpoints (systems s) (messages s)
            in Inr (messages_document chat sys ms, stripped s))"

section \<open>Chat to Responses\<close>

lemma size_at: "size (at m k) < size (AObj m)"
proof (cases "at m k = ANil")
  case False
  then have "(k, at m k) \<in> set m"
    by (auto simp: at_def gm_get0_def split: option.splits dest: gm_get_SomeD)
  then have "size (snd (k, at m k)) \<le> size_list (\<lambda>p. size (snd p)) m" by (intro size_list_estimation') auto
  also have "\<dots> \<le> size_list (size_prod (\<lambda>_. 0) size) m"
    by (rule size_list_pointwise) (auto simp: size_prod_simp)
  finally show ?thesis by simp
qed simp

lemma size_at_le: "size (at m k) \<le> size_list (size_prod (\<lambda>x. 0) size) m"
  using size_at [of m k] by simp

text \<open>The text of an instruction: strings, lists of them, objects with a text or a content.\<close>

function responsesInstructionText :: "any \<Rightarrow> string" where
  "responsesInstructionText v = (case v of
      AStr s \<Rightarrow> s
    | AArr vs \<Rightarrow> join_with [CHR 0x0A] (filter (\<lambda>t. t \<noteq> []) (map responsesInstructionText vs))
    | AObj m \<Rightarrow> if has_key m ''text'' then responsesInstructionText (at m ''text'')
               else if has_key m ''content'' then responsesInstructionText (at m ''content'') else []
    | _ \<Rightarrow> [])"
  by pat_completeness auto
termination
  by (relation "measure size") (auto simp: less_Suc_eq_le size_at_le size_list_estimation')

declare responsesInstructionText.simps [simp del]

definition content_part :: "any \<Rightarrow> any list \<Rightarrow> any list res" where
  "content_part raw out =
     (let block = as_map raw; t = at block ''type'' in
      if \<not> is_map raw then Inl (Unsupported ''message content blocks'')
      else if is_str t ''text'' then
        (case as_str (at block ''text'') of
           None \<Rightarrow> Inl (Unsupported ''text content blocks'')
         | Some x \<Rightarrow> Inr (out @ [AObj [(''type'', AStr ''input_text''), (''text'', AStr x)]]))
      else if is_str t ''image_url'' then
        (let u = strField (at (as_map (at block ''image_url'')) ''url'') in
         if u = [] then Inl (Unsupported ''image content blocks'')
         else Inr (out @ [AObj [(''type'', AStr ''input_image''), (''image_url'', AStr u)]]))
      else Inl (Unsupported (''content block '' @ sprint t)))"

definition chatContentToResponsesParts :: "any \<Rightarrow> any list res" where
  "chatContentToResponsesParts v =
     (case as_str v of
        Some s \<Rightarrow> Inr [AObj [(''type'', AStr ''input_text''), (''text'', AStr s)]]
      | None \<Rightarrow> (case asSlice v of
            None \<Rightarrow> Inl (Unsupported ''message content'')
          | Some list \<Rightarrow> fold_res content_part list []))"

definition responses_message :: "string \<Rightarrow> any list \<Rightarrow> any" where
  "responses_message role parts = AObj [(''type'', AStr ''message''), (''role'', AStr role), (''content'', AArr parts)]"

definition messageToResponsesItem :: "obj \<Rightarrow> string \<Rightarrow> any res" where
  "messageToResponsesItem msg role =
     bind_res (chatContentToResponsesParts (at msg ''content'')) (\<lambda>parts. Inr (responses_message role parts))"

definition userMessageToResponsesItem :: "obj \<Rightarrow> any res" where
  "userMessageToResponsesItem msg = messageToResponsesItem msg ''user''"

definition rewriteResponsesTextRoles :: "string \<Rightarrow> any list \<Rightarrow> any list" where
  "rewriteResponsesTextRoles toType parts =
     map (\<lambda>raw. if is_map raw \<and> is_str (at (as_map raw) ''type'') ''input_text''
                then AObj (gm_set ''type'' (AStr toType) (as_map raw)) else raw) parts"

definition assistantMessageToResponsesItem :: "obj \<Rightarrow> any res" where
  "assistantMessageToResponsesItem msg =
     bind_res (chatContentToResponsesParts (at msg ''content''))
       (\<lambda>parts. Inr (responses_message ''assistant'' (rewriteResponsesTextRoles ''output_text'' parts)))"

definition hasChatMessageContent :: "any \<Rightarrow> bool" where
  "hasChatMessageContent v = (case v of AStr s \<Rightarrow> s \<noteq> [] | AArr vs \<Rightarrow> vs \<noteq> [] | _ \<Rightarrow> v \<noteq> ANil)"

text \<open>\<open>None\<close> is the action that suppresses the tools.\<close>

definition convertToolChoice :: "any \<Rightarrow> string option res" where
  "convertToolChoice v = (case as_str v of
      None \<Rightarrow> Inl (Unsupported ''tool_choice'')
    | Some s \<Rightarrow> if s = ''auto'' then Inr (Some s) else if s = ''none'' then Inr None
               else Inl (Unsupported (''tool_choice '' @ s)))"

record responses_acc =
  acc_input :: "any list"
  systemParts :: "string list"

definition add_items :: "any list \<Rightarrow> responses_acc \<Rightarrow> responses_acc" where
  "add_items xs s = s\<lparr>acc_input := acc_input s @ xs\<rparr>"

definition function_call :: "any \<Rightarrow> responses_acc \<Rightarrow> responses_acc res" where
  "function_call raw s =
     (let call = as_map raw; f = at call ''function''; fn = as_map f in
      if \<not> is_map raw \<or> \<not> is_map f \<or> at call ''id'' = ANil \<or> at fn ''name'' = ANil \<or> at fn ''arguments'' = ANil
      then Inl (Unsupported ''tool calls'')
      else Inr (add_items [AObj [(''type'', AStr ''function_call''), (''call_id'', AStr (strField (at call ''id''))),
             (''name'', at fn ''name''), (''arguments'', at fn ''arguments'')]] s))"

definition assistant_items :: "obj \<Rightarrow> responses_acc \<Rightarrow> responses_acc res" where
  "assistant_items msg s =
     bind_res (if has_key msg ''reasoning_details''
               then bind_res (chatReasoningDetailsToResponses (at msg ''reasoning_details'')) (\<lambda>r. Inr (add_items r s))
               else Inr s)
       (\<lambda>s. let calls = elems (at msg ''tool_calls'') in
            if calls \<noteq> [] then
              bind_res (if hasChatMessageContent (at msg ''content'')
                        then bind_res (assistantMessageToResponsesItem msg) (\<lambda>i. Inr (add_items [i] s)) else Inr s)
                (fold_res function_call calls)
            else if hasChatMessageContent (at msg ''content'') \<or> at msg ''reasoning_details'' = ANil
            then bind_res (assistantMessageToResponsesItem msg) (\<lambda>i. Inr (add_items [i] s))
            else Inr s)"

definition tool_output :: "obj \<Rightarrow> responses_acc \<Rightarrow> responses_acc res" where
  "tool_output msg s =
     (let i = strField (at msg ''tool_call_id'') in
      case as_str (at msg ''content'') of
        None \<Rightarrow> Inl (Unsupported ''tool messages'')
      | Some content \<Rightarrow>
          if i = [] then Inl (Unsupported ''tool messages'')
          else Inr (add_items [AObj [(''type'', AStr ''function_call_output''), (''call_id'', AStr i),
                 (''output'', AStr content)]] s))"

definition responses_step :: "any \<Rightarrow> responses_acc \<Rightarrow> responses_acc res" where
  "responses_step raw s =
     (let msg = as_map raw; role = strField (at msg ''role'') in
      if \<not> is_map raw then Inl (Unsupported ''message items'')
      else if role = ''system'' \<or> role = ''developer'' then
        (let t = responsesInstructionText (at msg ''content'') in
         Inr (if t = [] then s else s\<lparr>systemParts := systemParts s @ [t]\<rparr>))
      else if role = ''user'' then bind_res (userMessageToResponsesItem msg) (\<lambda>i. Inr (add_items [i] s))
      else if role = ''assistant'' then assistant_items msg s
      else if role = ''tool'' then tool_output msg s
      else Inl (Unsupported (''message role '' @ role)))"

definition responses_tool_of :: "any \<Rightarrow> any list \<Rightarrow> any list res" where
  "responses_tool_of raw out =
     (let tool = as_map raw; f = at tool ''function''; fn = as_map f in
      if \<not> is_map raw \<or> \<not> is_str (at tool ''type'') ''function'' \<or> \<not> is_map f
      then Inl (Unsupported ''non-function tools'')
      else Inr (out @ [AObj [(''type'', AStr ''function''), (''name'', at fn ''name''),
             (''description'', at fn ''description''), (''parameters'', at fn ''parameters''),
             (''strict'', at fn ''strict'')]]))"

definition responses_choice :: "obj \<Rightarrow> obj \<Rightarrow> (obj \<times> bool) res" where
  "responses_choice chat out =
     (if \<not> has_key chat ''tool_choice'' then Inr (out, False)
      else bind_res (convertToolChoice (at chat ''tool_choice''))
             (\<lambda>c. case c of None \<Rightarrow> Inr (out, True) | Some v \<Rightarrow> Inr (gm_set ''tool_choice'' (AStr v) out, False)))"

definition responses_limits :: "obj \<Rightarrow> obj \<Rightarrow> obj" where
  "responses_limits chat out =
     (if has_key chat ''max_completion_tokens'' then gm_set ''max_output_tokens'' (at chat ''max_completion_tokens'') out
      else put_if (has_key chat ''max_tokens'') ''max_output_tokens'' (at chat ''max_tokens'') out)"

definition chatToResponsesRequest :: "obj \<Rightarrow> obj res" where
  "chatToResponsesRequest chat =
     bind_res (fold_res responses_step (elems (at chat ''messages'')) \<lparr>acc_input = [], systemParts = []\<rparr>)
       (\<lambda>s. let out = [(''model'', at chat ''model'')];
                out = put_if (systemParts s \<noteq> []) ''instructions''
                        (AStr (join_with [CHR 0x0A, CHR 0x0A] (systemParts s))) out;
                out = gm_set ''input'' (nil_slice (acc_input s)) out
            in bind_res (responses_choice chat out)
                 (\<lambda>(out, suppressTools).
                    let out = responses_limits chat (copy_keys [''temperature'', ''top_p'', ''stream'', ''metadata''] chat out)
                    in (case (suppressTools, asSlice (at chat ''tools'')) of
                          (False, Some ts) \<Rightarrow>
                            bind_res (fold_res responses_tool_of ts []) (\<lambda>c. Inr (gm_set ''tools'' (AArr c) out))
                        | _ \<Rightarrow> Inr out)))"

section \<open>Translation of a body\<close>

text \<open>The fields of a Responses request that only a native provider can serve.\<close>

definition responses_only :: "string list" where
  "responses_only = [''conversation'', ''previous_response_id'', ''store'', ''background'', ''files'']"

definition used_field :: "obj \<Rightarrow> string \<Rightarrow> bool" where
  "used_field source k \<longleftrightarrow> at source k \<noteq> ANil \<and> at source k \<noteq> ABool False \<and> at source k \<noteq> AStr []"

definition responses_guard :: "obj \<Rightarrow> unit res" where
  "responses_guard source =
     (case List.find (used_field source) responses_only of
        Some k \<Rightarrow> Inl (Unsupported k)
      | None \<Rightarrow>
          if list_ex (\<lambda>t. \<not> is_str (at (as_map t) ''type'') ''function'') (elems (at source ''tools''))
          then Inl (Unsupported ''provider-hosted tools'') else Inr ())"

text \<open>The document a body is translated to, with the stripped flag. \<open>limit\<close> is the model's output limit,
  0 when it has none.\<close>

definition translate_map :: "obj option \<Rightarrow> string \<Rightarrow> string \<Rightarrow> string \<Rightarrow> int \<Rightarrow> (obj \<times> bool) res" where
  "translate_map src frm to model limit =
     (let source = (case src of Some m \<Rightarrow> m | None \<Rightarrow> []) in
      if \<not> validateReasoningRepresentability source frm to then Inl ReasoningState
      else bind_res (if frm = ProtocolResponses then responses_guard source else Inr ())
        (\<lambda>_. bind_res (requestToChat source frm)
          (\<lambda>chat.
             if frm = ProtocolChat \<and> src = None then Inl NilMap
             else let chat = gm_set ''model'' (AStr model) chat in
               if to = ProtocolChat then Inr (chat, False)
               else if to = ProtocolMessages then
                 chatToMessagesRequest (put_if (0 < limit) ''max_output_tokens'' (AInt limit) chat)
               else if to = ProtocolResponses then
                 bind_res (chatToResponsesRequest chat) (\<lambda>m. Inr (m, False))
               else Inl NoTranslation)))"

definition translateRequestObserved :: "string \<Rightarrow> string \<Rightarrow> string \<Rightarrow> string \<Rightarrow> int \<Rightarrow> (string \<times> bool) res" where
  "translateRequestObserved body frm to model limit =
     (if frm = to then Inr (body, False)
      else (case unmarshal_map body of
              None \<Rightarrow> Inl JsonError
            | Some src \<Rightarrow> bind_res (translate_map src frm to model limit)
                 (\<lambda>(m, stripped). Inr (marshal (AObj m), stripped))))"

definition translateRequest :: "string \<Rightarrow> string \<Rightarrow> string \<Rightarrow> string \<Rightarrow> int \<Rightarrow> string res" where
  "translateRequest body frm to model limit =
     bind_res (translateRequestObserved body frm to model limit) (\<lambda>r. Inr (fst r))"

end
