(* ===== verification/TranslationLaws.thy ===== *)
theory TranslationLaws
  imports RequestTranslation
begin

text \<open>
  What the request translation keeps: the order and number of the turns, opaque reasoning state, the
  tools and their choice, the limits; and what it adds, the cache markers of a Messages request.
\<close>

section \<open>Reading built objects\<close>

lemma at_Cons [simp]: "at ((k, v) # m) k' = (if k' = k then v else at m k')"
  by (simp add: at_def gm_get0_def)

lemma at_put_if [simp]: "at (put_if b k v m) k' = (if b \<and> k' = k then v else at m k')"
  by (simp add: put_if_def)

lemma at_copy_keys:
  "at (copy_keys ks source m) k = (if k \<in> set ks \<and> has_key source k then at source k else at m k)"
proof -
  have "at (List.fold (\<lambda>k m. put_if (has_key source k) k (at source k) m) ks m) k =
          (if k \<in> set ks \<and> has_key source k then at source k else at m k)" for m
    by (induction ks arbitrary: m) auto
  then show ?thesis by (simp add: copy_keys_def)
qed

lemma at_missing: "\<not> has_key m k \<Longrightarrow> at m k = ANil"
  by (simp add: has_key_def at_def gm_get0_def)

lemma has_key_set [simp]: "has_key (gm_set k v m) k' \<longleftrightarrow> k' = k \<or> has_key m k'"
  by (simp add: has_key_def)

lemma has_key_Cons [simp]: "has_key ((k, v) # m) k' \<longleftrightarrow> k' = k \<or> has_key m k'"
  by (simp add: has_key_def)

lemma has_key_Nil [simp]: "\<not> has_key [] k"
  by (simp add: has_key_def)

lemma has_key_put_if [simp]: "has_key (put_if b k v m) k' \<longleftrightarrow> (b \<and> k' = k) \<or> has_key m k'"
  by (simp add: put_if_def)

section \<open>Opaque reasoning state survives\<close>

definition same_state :: "obj \<Rightarrow> obj \<Rightarrow> bool" where
  "same_state block b \<longleftrightarrow> at b ''type'' = at block ''type'' \<and>
     (if is_str (at block ''type'') ''thinking''
      then at b ''thinking'' = at block ''thinking'' \<and>
           at b ''signature'' = (if strField (at block ''signature'') = [] then ANil else at block ''signature'')
      else at b ''data'' = at block ''data'')"

lemma strField_Some: "strField v \<noteq> [] \<Longrightarrow> v = AStr (strField v)"
  by (cases v) auto

lemma at_with_signature:
  "at (with_signature sig m) k = (if k = ''signature'' \<and> strField sig \<noteq> [] then sig else at m k)"
  by (simp add: with_signature_def)

lemma detail_roundtrip:
  assumes "anthropicReasoningToChatDetails block i = Inr d"
  shows "\<exists>b. detail_to_block (AObj d) = Inr (AObj b) \<and> same_state block b"
proof (cases "is_str (at block ''type'') ''thinking''")
  case True
  then obtain t where t: "at block ''thinking'' = AStr t" and
    d: "d = with_signature (at block ''signature'') (gm_set ''text'' (AStr t) (gm_set ''type'' (AStr ''reasoning.text'')
          [(''format'', AStr claude_format), (''index'', AInt i)]))"
    using assms by (auto simp: anthropicReasoningToChatDetails_def elim: as_str.elims split: option.splits)
  have "detail_to_block (AObj d) = Inr (AObj (with_signature (at d ''signature'')
          [(''type'', AStr ''thinking''), (''thinking'', AStr t)]))"
    unfolding detail_to_block_def by (simp add: d at_with_signature is_str_def)
  moreover have "at d ''signature'' = (if strField (at block ''signature'') = [] then ANil else at block ''signature'')"
    by (simp add: d at_with_signature)
  ultimately show ?thesis using True t
    by (auto simp: same_state_def at_with_signature is_str_def)
next
  case False
  then have r: "is_str (at block ''type'') ''redacted_thinking''" and ne: "strField (at block ''data'') \<noteq> []"
    and d: "d = gm_set ''data'' (AStr (strField (at block ''data''))) (gm_set ''type'' (AStr ''reasoning.encrypted'')
          [(''format'', AStr claude_format), (''index'', AInt i)])"
    using assms by (auto simp: anthropicReasoningToChatDetails_def Let_def split: if_splits)
  have "detail_to_block (AObj d) = Inr (AObj [(''type'', AStr ''redacted_thinking''),
          (''data'', AStr (strField (at block ''data'')))])"
    unfolding detail_to_block_def using ne by (simp add: d is_str_def)
  with r False strField_Some [OF ne] show ?thesis by (auto simp: same_state_def is_str_def)
qed

section \<open>Cache markers\<close>

lemma replace_last_Some:
  "replace_last f xs = Some ys \<Longrightarrow>
   \<exists>as x y bs. xs = as @ x # bs \<and> ys = as @ y # bs \<and> f x = Some y \<and> (\<forall>b \<in> set bs. f b = None)"
proof (induction xs arbitrary: ys)
  case (Cons x xs)
  show ?case
  proof (cases "replace_last f xs")
    case None
    then have "\<forall>b \<in> set xs. f b = None"
      by (induction xs) (auto split: option.splits)
    with None Cons.prems show ?thesis
      by (intro exI [of _ "[]"] exI [of _ x] exI [of _ "the (f x)"] exI [of _ xs]) (auto split: option.splits)
  next
    case (Some zs)
    from Cons.IH [OF Some] obtain as u v bs
      where "xs = as @ u # bs" "zs = as @ v # bs" "f u = Some v" "\<forall>b \<in> set bs. f b = None" by blast
    with Some Cons.prems show ?thesis
      by (intro exI [of _ "x # as"] exI [of _ u] exI [of _ v] exI [of _ bs]) auto
  qed
qed simp

lemma marked_mark [simp]: "marked (mark_block b)"
  by (simp add: marked_def mark_block_def ephemeralCacheControl_def)

lemma count_marked_append [simp]: "count_marked (xs @ ys) = count_marked xs + count_marked ys"
  by (simp add: count_marked_def)

lemma count_marked_Cons: "count_marked (x # xs) = (if marked x then 1 else 0) + count_marked xs"
  by (simp add: count_marked_def)

lemma count_append [simp]: "countCacheBreakpoints (xs @ ys) = countCacheBreakpoints xs + countCacheBreakpoints ys"
  by (simp add: countCacheBreakpoints_def)

lemma count_Cons:
  "countCacheBreakpoints (x # xs) =
     (if marked x then 1 else 0) + count_marked (elems (at (as_map x) ''content'')) + countCacheBreakpoints xs"
  by (simp add: countCacheBreakpoints_def count_marked_Cons)

lemma count_mark_messages: "countCacheBreakpoints (mark_messages ms) \<le> Suc (countCacheBreakpoints ms)"
proof (cases "replace_last mark_in_message ms")
  case None
  then show ?thesis by (simp add: mark_messages_def)
next
  case (Some ms')
  from replace_last_Some [OF Some] obtain as x y bs
    where m: "ms = as @ x # bs" "ms' = as @ y # bs" "mark_in_message x = Some y" by blast
  from m(3) obtain c c' where c: "asSlice (at (as_map x) ''content'') = Some c"
    "replace_last (\<lambda>b. if cacheable b then Some (mark_block b) else None) c = Some c'"
    and y: "y = AObj (gm_set ''content'' (AArr c') (as_map x))"
    by (auto simp: mark_in_message_def split: option.splits)
  from replace_last_Some [OF c(2)] obtain cs b ds
    where "c = cs @ b # ds" "c' = cs @ mark_block b # ds" "cacheable b" by (auto split: if_splits)
  then have "count_marked c' = Suc (count_marked c)" by (simp add: count_marked_Cons cacheable_def)
  moreover have "marked y = marked x" by (simp add: y marked_def)
  moreover have "elems (at (as_map x) ''content'') = c" using c(1) by (simp add: elems_def)
  ultimately have "countCacheBreakpoints [y] = Suc (countCacheBreakpoints [x])"
    by (simp add: count_Cons y elems_def)
  then show ?thesis using Some count_append [of as "x # bs"] count_append [of as "y # bs"]
      count_append [of "[x]" bs] count_append [of "[y]" bs]
    by (simp add: mark_messages_def m)
qed

lemma count_mark_system:
  "mark_system sys = (sys', b) \<Longrightarrow>
   countCacheBreakpoints sys' = countCacheBreakpoints sys + (if b then 1 else 0)"
proof -
  assume m: "mark_system sys = (sys', b)"
  show ?thesis
  proof (cases b)
    case True
    with m have s: "sys' = butlast sys @ [mark_block (last sys)]" "sys \<noteq> []" "\<not> marked (last sys)"
      by (auto simp: mark_system_def split: if_splits)
    then have "sys = butlast sys @ [last sys]" by simp
    then have "countCacheBreakpoints sys = countCacheBreakpoints (butlast sys) + countCacheBreakpoints [last sys]"
      by (metis count_append)
    moreover have "countCacheBreakpoints [mark_block (last sys)] = Suc (countCacheBreakpoints [last sys])"
      using s(3) by (simp add: count_Cons) (simp add: mark_block_def)
    ultimately show ?thesis using s(1) True by simp
  next
    case False
    with m show ?thesis by (auto simp: mark_system_def split: if_splits)
  qed
qed

lemma breakpoints_bound:
  assumes "applyPromptCacheBreakpoints sys ms = (sys', ms')"
  defines "n \<equiv> countCacheBreakpoints sys + countCacheBreakpoints ms"
  shows "countCacheBreakpoints sys' + countCacheBreakpoints ms' \<le> max n anthropicMaxCacheBreakpoints \<and>
         countCacheBreakpoints sys' + countCacheBreakpoints ms' \<le> n + 2"
proof -
  obtain s b where s: "mark_system sys = (s, b)" by fastforce
  note cs = count_mark_system [OF s] and cm = count_mark_messages [of ms]
  show ?thesis
    using assms s cs cm
    by (auto simp: applyPromptCacheBreakpoints_def anthropicMaxCacheBreakpoints_def Let_def split: if_splits)
qed

text \<open>Apart from the markers nothing changes.\<close>

definition same_block :: "any \<Rightarrow> any \<Rightarrow> bool" where
  "same_block a b \<longleftrightarrow> a = b \<or> (\<forall>k. k \<noteq> ''cache_control'' \<longrightarrow> at (as_map b) k = at (as_map a) k) \<and>
     is_map b \<and> is_map a"

definition same_message :: "any \<Rightarrow> any \<Rightarrow> bool" where
  "same_message a b \<longleftrightarrow> a = b \<or> (\<forall>k. k \<noteq> ''content'' \<longrightarrow> at (as_map b) k = at (as_map a) k) \<and>
     (\<exists>c d. at (as_map a) ''content'' = AArr c \<and> at (as_map b) ''content'' = AArr d \<and> list_all2 same_block c d)"

lemma same_block_refl [simp]: "same_block a a"
  by (simp add: same_block_def)

lemma same_message_refl [simp]: "same_message a a"
  by (simp add: same_message_def)

lemma same_refl_list [simp]: "list_all2 same_block xs xs" "list_all2 same_message xs xs"
  by (simp_all add: list.rel_refl)

lemma same_block_mark: "is_map b \<Longrightarrow> same_block b (mark_block b)"
  by (simp add: same_block_def mark_block_def)

lemma same_mark_messages: "list_all2 same_message ms (mark_messages ms)"
proof (cases "replace_last mark_in_message ms")
  case (Some ms')
  from replace_last_Some [OF Some] obtain as x y bs
    where m: "ms = as @ x # bs" "ms' = as @ y # bs" "mark_in_message x = Some y" by blast
  from m(3) obtain c c' where c: "at (as_map x) ''content'' = AArr c"
    "replace_last (\<lambda>b. if cacheable b then Some (mark_block b) else None) c = Some c'"
    and y: "y = AObj (gm_set ''content'' (AArr c') (as_map x))"
    by (auto simp: mark_in_message_def elim: asSlice.elims split: option.splits)
  from replace_last_Some [OF c(2)] obtain cs b ds
    where "c = cs @ b # ds" "c' = cs @ mark_block b # ds" "cacheable b" by (auto split: if_splits)
  then have "list_all2 same_block c c'" by (simp add: list_all2_append cacheable_def same_block_mark)
  then have "same_message x y" by (auto simp: same_message_def y c(1))
  then show ?thesis using Some by (simp add: mark_messages_def m list_all2_append)
qed (simp add: mark_messages_def)

lemma same_mark_system: "list_all2 same_block sys (fst (mark_system sys))"
proof (cases "sys \<noteq> [] \<and> is_map (last sys) \<and> \<not> marked (last sys)")
  case True
  then obtain xs x where "sys = xs @ [x]" "is_map x" "\<not> marked x" by (metis append_butlast_last_id)
  then show ?thesis by (simp add: mark_system_def list_all2_append same_block_mark)
qed (auto simp: mark_system_def)

lemma breakpoints_same:
  assumes "applyPromptCacheBreakpoints sys ms = (sys', ms')"
  shows "list_all2 same_block sys sys' \<and> list_all2 same_message ms ms'"
  using assms same_mark_messages [of ms] same_mark_system [of sys]
  by (auto simp: applyPromptCacheBreakpoints_def Let_def split: if_splits prod.splits)
section \<open>Turns keep their order and their number\<close>

abbreviation (input) no_msgs :: msgs where
  "no_msgs \<equiv> \<lparr>systems = [], messages = [], stripped = False\<rparr>"

text \<open>What one Chat message contributes to the Messages conversation.\<close>

definition chat_image :: "any \<Rightarrow> any list" where
  "chat_image raw =
     (let message = as_map raw; role = strField (at message ''role'') in
      if role = ''system'' \<or> role = ''developer'' then []
      else if role = ''tool'' then [tool_result message]
      else messages (chat_turn message role no_msgs))"

lemma chat_turn_messages:
  "messages (chat_turn m role s) = messages s @ messages (chat_turn m role no_msgs)"
  by (cases "with_reasoning m role (chatContentToAnthropic (at m ''content''))") (auto simp: chat_turn_def Let_def)

lemma chat_turn_systems [simp]: "systems (chat_turn m role s) = systems s"
  by (simp add: chat_turn_def Let_def split: prod.split)

lemma chat_message_messages:
  "chat_message raw s = Inr s' \<Longrightarrow> messages s' = messages s @ chat_image raw"
  using chat_turn_messages [of "as_map raw" "strField (at (as_map raw) ''role'')" s]
  by (auto simp: chat_message_def chat_image_def Let_def bind_res_Inr split: if_splits)

lemma chat_messages_images:
  "fold_res chat_message raws s = Inr t \<Longrightarrow> messages t = messages s @ concat (map chat_image raws)"
  by (induction raws arbitrary: s) (auto dest!: chat_message_messages split: sum.splits)

lemma chat_image_length: "length (chat_image raw) \<le> 1"
  by (simp add: chat_image_def chat_turn_def Let_def split: prod.split)

lemma with_reasoning_content:
  "with_reasoning m role c = (c', b) \<Longrightarrow> c' = None \<or> c' = Some [] \<Longrightarrow> c = None \<or> c = Some []"
  by (auto simp: with_reasoning_def Let_def split: if_splits sum.splits option.splits)

lemma append_slice_empty:
  "append_slice xs ys = None \<or> append_slice xs ys = Some [] \<longleftrightarrow> ys = [] \<and> (xs = None \<or> xs = Some [])"
  by (auto simp: append_slice_def split: option.splits)

text \<open>A turn is left out only when nothing of it can be shown to the target.\<close>

lemma chat_image_dropped:
  assumes "chat_image raw = []"
  defines "m \<equiv> as_map raw"
  shows "strField (at m ''role'') = ''system'' \<or> strField (at m ''role'') = ''developer'' \<or>
     strField (at m ''role'') = ''assistant'' \<and> elems (at m ''tool_calls'') = [] \<and>
       (chatContentToAnthropic (at m ''content'') = None \<or> chatContentToAnthropic (at m ''content'') = Some []) \<and>
       (at m ''reasoning_details'' \<noteq> ANil \<or> strField (at m ''reasoning_content'') \<noteq> [])"
proof -
  let ?role = "strField (at m ''role'')"
  obtain c b where w: "with_reasoning m ?role (chatContentToAnthropic (at m ''content'')) = (c, b)" by fastforce
  show ?thesis
  proof (cases "?role = ''system'' \<or> ?role = ''developer''")
    case False
    with assms w have drop: "append_slice c (map tool_use (elems (at m ''tool_calls''))) = None \<or>
        append_slice c (map tool_use (elems (at m ''tool_calls''))) = Some []"
      "elems (at m ''tool_calls'') = []" "?role = ''assistant''" b
      by (auto simp: chat_image_def chat_turn_def Let_def m_def split: if_splits)
    then have "c = None \<or> c = Some []" by (simp add: append_slice_def)
    with w have e: "chatContentToAnthropic (at m ''content'') = None \<or> chatContentToAnthropic (at m ''content'') = Some []"
      by (rule with_reasoning_content)
    have "at m ''reasoning_details'' \<noteq> ANil \<or> strField (at m ''reasoning_content'') \<noteq> []"
      using w \<open>b\<close> by (auto simp: with_reasoning_def Let_def split: if_splits)
    with drop(2,3) e show ?thesis by blast
  qed blast
qed

section \<open>A plain conversation survives the round trip through Chat\<close>

datatype plain =
    Plain string "string list" "(any \<times> any \<times> any) list"
  | Result any any

definition tool_use_block :: "any \<times> any \<times> any \<Rightarrow> any" where
  "tool_use_block u = (case u of (i, n, v) \<Rightarrow>
     AObj [(''type'', AStr ''tool_use''), (''id'', i), (''name'', n), (''input'', v)])"

fun plain_message :: "plain \<Rightarrow> any" where
  "plain_message (Plain role ts us) =
     AObj [(''role'', AStr role), (''content'', AArr (map text_block ts @ map tool_use_block us))]"
| "plain_message (Result i content) = AObj [(''role'', AStr ''user''), (''content'',
     AArr [AObj [(''type'', AStr ''tool_result''), (''tool_use_id'', i), (''content'', content)]])]"

fun plain_ok :: "plain \<Rightarrow> bool" where
  "plain_ok (Plain role ts us) \<longleftrightarrow>
     \<not> List.member [''system'', ''developer'', ''tool''] role \<and> (ts \<noteq> [] \<or> us \<noteq> []) \<and>
     list_all (\<lambda>t. trim_space t \<noteq> []) ts \<and> list_all (\<lambda>(i, n, v). jsonValue (AStr (jsonString v)) = v) us"
| "plain_ok (Result i content) = True"

definition call_of :: "any \<times> any \<times> any \<Rightarrow> any" where
  "call_of u = (case u of (i, n, v) \<Rightarrow> fn_call i n (AStr (jsonString v)))"

lemma blocks_texts:
  "fold_res (message_block role) (List.enumerate k (map text_block ts)) t =
     Inr (t\<lparr>textBlocks := textBlocks t @ map text_block ts\<rparr>)"
proof (induction ts arbitrary: k t)
  case (Cons x ts)
  have "message_block role (k, text_block x) t = Inr (t\<lparr>textBlocks := textBlocks t @ [text_block x]\<rparr>)"
    by (simp add: message_block_def text_block_def is_str_def Let_def)
  with Cons show ?case by simp
qed simp

lemma blocks_calls:
  "fold_res (message_block role) (List.enumerate k (map tool_use_block us)) t =
     Inr (t\<lparr>toolCalls := toolCalls t @ map call_of us\<rparr>)"
proof (induction us arbitrary: k t)
  case (Cons u us)
  obtain i n v where u: "u = (i, n, v)" by (cases u)
  have "message_block role (k, tool_use_block u) t = Inr (t\<lparr>toolCalls := toolCalls t @ [call_of u]\<rparr>)"
    by (simp add: message_block_def tool_use_block_def u is_str_def Let_def call_of_def)
  with Cons show ?case by simp
qed simp

lemma plain_content: "list_all (\<lambda>t. trim_space t \<noteq> []) ts \<Longrightarrow>
   chatContentToAnthropic (AArr (map text_block ts)) = Some (map text_block ts)"
  unfolding chatContentToAnthropic_def elems_def
  by (induction ts) (simp_all add: anthropic_block_def text_block_def is_str_def first_of_def Let_def)

lemma tool_use_call: "jsonValue (AStr (jsonString v)) = v \<Longrightarrow> tool_use (call_of (i, n, v)) = tool_use_block (i, n, v)"
  by (simp add: tool_use_def call_of_def fn_call_def tool_use_block_def Let_def)

lemma tool_uses: "list_all (\<lambda>(i, n, v). jsonValue (AStr (jsonString v)) = v) us \<Longrightarrow>
   map tool_use (map call_of us) = map tool_use_block us"
  by (induction us) (auto simp: tool_use_call)

lemma plain_turn_back:
  assumes "plain_ok (Plain role ts us)"
  shows "chat_turn (put_if (us \<noteq> []) ''tool_calls'' (AArr (map call_of us))
             [(''role'', AStr role), (''content'', AArr (map text_block ts))]) role s =
         s\<lparr>messages := messages s @ [plain_message (Plain role ts us)]\<rparr>"
proof -
  let ?m = "put_if (us \<noteq> []) ''tool_calls'' (AArr (map call_of us))
             [(''role'', AStr role), (''content'', AArr (map text_block ts))]"
  have calls: "elems (at ?m ''tool_calls'') = map call_of us" by (simp add: elems_def)
  have content: "chatContentToAnthropic (at ?m ''content'') = Some (map text_block ts)"
    using assms by (simp add: plain_content)
  have w: "with_reasoning ?m role (Some (map text_block ts)) = (Some (map text_block ts), False)"
    by (simp add: with_reasoning_def Let_def)
  have uses: "map (tool_use \<circ> call_of) us = map tool_use_block us" using assms tool_uses [of us] by (simp only: map_map) simp
  have "append_slice (Some (map text_block ts)) (map tool_use_block us) =
      Some (map text_block ts @ map tool_use_block us)" by (simp add: append_slice_def)
  then show ?thesis
    using assms unfolding chat_turn_def calls content w by (simp add: uses)
qed

lemma plain_to_chat:
  assumes "plain_ok p"
  shows "\<exists>c. (\<forall>out. message_to_chat (plain_message p) out = Inr (out @ [c])) \<and>
             (\<forall>s. chat_message c s = Inr (s\<lparr>messages := messages s @ [plain_message p]\<rparr>))"
proof (cases p)
  case (Plain role ts us)
  let ?c = "put_if (us \<noteq> []) ''tool_calls'' (AArr (map call_of us))
              [(''role'', AStr role), (''content'', AArr (map text_block ts))]"
  have "message_to_chat (plain_message p) out = Inr (out @ [AObj ?c])" for out
    using assms
    by (auto simp: message_to_chat_def Plain Let_def enumerate_append_eq fold_res_append blocks_texts blocks_calls
        turn_message_def put_if_def)
  moreover have "chat_message (AObj ?c) s = Inr (s\<lparr>messages := messages s @ [plain_message p]\<rparr>)" for s
    using assms plain_turn_back [of role ts us s] by (simp add: chat_message_def Plain Let_def)
  ultimately show ?thesis by blast
next
  case (Result i content)
  have "message_to_chat (plain_message p) out = Inr (out @ [tool_message i content])" for out
    by (simp add: message_to_chat_def Result Let_def message_block_def is_str_def turn_message_def)
  moreover have "chat_message (tool_message i content) s = Inr (s\<lparr>messages := messages s @ [plain_message p]\<rparr>)" for s
    by (simp add: chat_message_def Result Let_def tool_message_def tool_result_def)
  ultimately show ?thesis by blast
qed

lemma plain_conversation:
  assumes "list_all plain_ok ps"
  shows "\<exists>cs. (\<forall>out. fold_res message_to_chat (map plain_message ps) out = Inr (out @ cs)) \<and>
              (\<forall>s. fold_res chat_message cs s = Inr (s\<lparr>messages := messages s @ map plain_message ps\<rparr>))"
  using assms
proof (induction ps)
  case Nil
  show ?case by (intro exI [of _ "[]"]) simp
next
  case (Cons p ps)
  then obtain cs where cs: "\<And>out. fold_res message_to_chat (map plain_message ps) out = Inr (out @ cs)"
    "\<And>s. fold_res chat_message cs s = Inr (s\<lparr>messages := messages s @ map plain_message ps\<rparr>)" by auto
  from plain_to_chat [of p] Cons.prems obtain c where
    c: "\<And>out. message_to_chat (plain_message p) out = Inr (out @ [c])"
      "\<And>s. chat_message c s = Inr (s\<lparr>messages := messages s @ [plain_message p]\<rparr>)" by auto
  show ?case by (intro exI [of _ "c # cs"]) (simp add: c cs)
qed

lemma at_messages_document:
  "at (messages_document chat sys ms) ''messages'' = AArr ms"
  "at (messages_document chat sys ms) ''max_tokens'' = messages_limits chat"
  "at (messages_document chat sys ms) ''model'' = at chat ''model''"
proof -
  have rest: "at (anthropic_choice chat m) k = at m k" if "k \<noteq> ''tool_choice''" for m k
    using that by (auto simp: anthropic_choice_def split: any.split)
  show "at (messages_document chat sys ms) ''messages'' = AArr ms"
    "at (messages_document chat sys ms) ''max_tokens'' = messages_limits chat"
    "at (messages_document chat sys ms) ''model'' = at chat ''model''"
    by (auto simp: messages_document_def Let_def rest messages_base_def at_copy_keys split: option.split)
qed

text \<open>Rendered as a Messages request, read as Chat and written as Messages again, a plain conversation
  comes back, cache markers aside.\<close>

lemma plain_roundtrip:
  assumes "list_all plain_ok ps" "at source ''messages'' = AArr (map plain_message ps)" "\<not> has_key source ''system''"
  shows "\<exists>chat out. requestToChat source ProtocolMessages = Inr chat \<and>
     chatToMessagesRequest chat = Inr (out, False) \<and>
     (\<exists>ms. at out ''messages'' = AArr ms \<and> list_all2 same_message (map plain_message ps) ms)"
proof -
  obtain cs where cs: "\<And>out. fold_res message_to_chat (map plain_message ps) out = Inr (out @ cs)"
    "\<And>s. fold_res chat_message cs s = Inr (s\<lparr>messages := messages s @ map plain_message ps\<rparr>)"
    using plain_conversation [OF assms(1)] by auto
  obtain chat where chat: "requestToChat source ProtocolMessages = Inr chat" "at chat ''messages'' = nil_slice cs"
    using assms(2,3) by (simp add: requestToChat_def messagesRequestToChat_def elems_def cs(1))
  have "elems (nil_slice cs) = cs" by (simp add: elems_def nil_slice_def)
  then have e: "fold_res chat_message (elems (at chat ''messages'')) no_msgs =
      Inr (no_msgs\<lparr>messages := map plain_message ps\<rparr>)" by (simp add: chat(2) cs(2))
  obtain sys ms where br: "applyPromptCacheBreakpoints [] (map plain_message ps) = (sys, ms)" by fastforce
  show ?thesis
    using chat(1) breakpoints_same [OF br] by (simp add: chatToMessagesRequest_def e br at_messages_document)
qed

section \<open>Tools, limits and provider-only fields\<close>

lemma convertToolChoice_cases: "v = AStr ''auto'' \<or> v = AStr ''none'' \<or> (\<exists>e. convertToolChoice v = Inl e)"
proof (cases v)
  case (AStr s)
  then show ?thesis by (cases "s = ''auto''"; cases "s = ''none''") (simp_all add: convertToolChoice_def)
qed (simp_all add: convertToolChoice_def)

text \<open>A Responses target is never sent a weaker tool choice than the client made.\<close>

lemma responses_rest:
  "k \<notin> {''temperature'', ''top_p'', ''stream'', ''metadata'', ''max_output_tokens''} \<Longrightarrow>
   gm_get (responses_limits chat (copy_keys [''temperature'', ''top_p'', ''stream'', ''metadata''] chat out)) k = gm_get out k"
  by (simp add: responses_limits_def copy_keys_def put_if_def)

lemma chatToResponsesRequest_Inr:
  assumes "chatToResponsesRequest chat = Inr out"
  obtains base c where "responses_choice chat base = Inr c" "\<not> has_key base ''tools''" "\<not> has_key base ''tool_choice''"
    and "gm_get out ''tool_choice'' = gm_get (fst c) ''tool_choice''" "snd c \<Longrightarrow> gm_get out ''tools'' = gm_get (fst c) ''tools''"
proof -
  obtain s where s: "fold_res responses_step (elems (at chat ''messages'')) \<lparr>acc_input = [], systemParts = []\<rparr> = Inr s"
    using assms by (auto simp: chatToResponsesRequest_def bind_res_Inr)
  define base where "base = gm_set ''input'' (nil_slice (acc_input s)) (put_if (systemParts s \<noteq> []) ''instructions''
      (AStr (join_with [CHR 0x0A, CHR 0x0A] (systemParts s))) [(''model'', at chat ''model'')])"
  have "bind_res (responses_choice chat base)
      (\<lambda>c. let out = responses_limits chat (copy_keys [''temperature'', ''top_p'', ''stream'', ''metadata''] chat (fst c))
           in case (snd c, asSlice (at chat ''tools'')) of
                (False, Some ts) \<Rightarrow> bind_res (fold_res responses_tool_of ts []) (\<lambda>x. Inr (gm_set ''tools'' (AArr x) out))
              | _ \<Rightarrow> Inr out) = Inr out"
    using assms s by (simp add: chatToResponsesRequest_def base_def split_def Let_def)
  then obtain c where c: "responses_choice chat base = Inr c"
    and out: "(let out = responses_limits chat (copy_keys [''temperature'', ''top_p'', ''stream'', ''metadata''] chat (fst c))
               in case (snd c, asSlice (at chat ''tools'')) of
                    (False, Some ts) \<Rightarrow> bind_res (fold_res responses_tool_of ts []) (\<lambda>x. Inr (gm_set ''tools'' (AArr x) out))
                  | _ \<Rightarrow> Inr out) = Inr out"
    unfolding bind_res_Inr by blast
  show thesis
  proof (rule that [OF c])
    show "\<not> has_key base ''tools''" "\<not> has_key base ''tool_choice''" by (simp_all add: base_def)
    show "gm_get out ''tool_choice'' = gm_get (fst c) ''tool_choice''"
      using out responses_rest [of "''tool_choice''" chat "fst c"]
      by (auto simp: Let_def bind_res_Inr split: bool.splits option.splits)
    show "gm_get out ''tools'' = gm_get (fst c) ''tools''" if "snd c"
      using out that responses_rest [of "''tools''" chat "fst c"] by (auto simp: Let_def)
  qed
qed

lemma responses_choice_exact:
  assumes "chatToResponsesRequest chat = Inr out" "has_key chat ''tool_choice''"
  shows "at chat ''tool_choice'' = AStr ''auto'' \<and> at out ''tool_choice'' = AStr ''auto'' \<or>
         at chat ''tool_choice'' = AStr ''none'' \<and> \<not> has_key out ''tools'' \<and> \<not> has_key out ''tool_choice''"
proof -
  from chatToResponsesRequest_Inr [OF assms(1)] obtain base c
    where c: "responses_choice chat base = Inr c" "\<not> has_key base ''tools''" "\<not> has_key base ''tool_choice''"
      and o: "gm_get out ''tool_choice'' = gm_get (fst c) ''tool_choice''" "snd c \<Longrightarrow> gm_get out ''tools'' = gm_get (fst c) ''tools''" by blast
  consider "at chat ''tool_choice'' = AStr ''auto''" | "at chat ''tool_choice'' = AStr ''none''"
    | e where "convertToolChoice (at chat ''tool_choice'') = Inl e"
    using convertToolChoice_cases by blast
  then show ?thesis
  proof cases
    case 1
    then have "fst c = gm_set ''tool_choice'' (AStr ''auto'') base"
      using c(1) assms(2) by (auto simp: responses_choice_def convertToolChoice_def)
    with 1 o(1) show ?thesis by (simp add: at_def gm_get0_def)
  next
    case 2
    then have "c = (base, True)" using c(1) assms(2) by (auto simp: responses_choice_def convertToolChoice_def)
    with 2 o c(2,3) show ?thesis by (simp add: has_key_def)
  next
    case 3
    then show ?thesis using c(1) assms(2) by (simp add: responses_choice_def)
  qed
qed

lemma responses_fields_refused:
  assumes "translate_map src ProtocolResponses to model limit = Inr r"
    and "source = (case src of Some m \<Rightarrow> m | None \<Rightarrow> [])"
  shows "(\<forall>k \<in> set responses_only. \<not> used_field source k) \<and>
     (\<forall>t \<in> set (elems (at source ''tools'')). is_str (at (as_map t) ''type'') ''function'')"
  using assms
  by (auto simp: translate_map_def responses_guard_def find_None_iff list_ex_iff bind_res_Inr Let_def
      split: if_splits option.splits)

lemma claude_state_refused:
  assumes "translate_map (Some source) ProtocolChat ProtocolResponses model limit = Inr r"
  shows "\<not> list_ex has_claude_state (elems (at source ''messages''))"
  using assms by (auto simp: translate_map_def validateReasoningRepresentability_def split: if_splits)

lemma messages_limit_choice:
  "chatToMessagesRequest chat = Inr (out, st) \<Longrightarrow>
   at out ''max_tokens'' = messages_limits chat \<and> at out ''model'' = at chat ''model''"
  by (auto simp: chatToMessagesRequest_def bind_res_Inr at_messages_document split_def Let_def)

text \<open>A Responses message whose content is a plain string loses it.\<close>

lemma string_content_dropped:
  "responses_item (AObj [(''role'', AStr r), (''content'', AStr t)]) =
     [AObj [(''role'', AStr r), (''content'', AArr [])]]"
  by (simp add: responses_item_def Let_def responsesContentToChat_def elems_def)

end
