(* ===== verification/ResponseTranslation.thy ===== *)
theory ResponseTranslation
  imports TranslationLaws
begin

text \<open>
  Translation of complete responses (\<open>internal/server/translate.go\<close>, \<open>reasoning_response_state.go\<close>):
  a response of the target becomes a Chat completion (\<open>responseToChat\<close>), which becomes a Messages or a
  Responses document. \<open>now\<close> is the Unix time the code stamps on the result. The laws at the end say
  what a client of another protocol still gets: the text, the calls, the opaque state and the counts.
\<close>

section \<open>Token counts\<close>

definition number :: "any \<Rightarrow> flt" where
  "number v = (case v of ANum f \<Rightarrow> f | _ \<Rightarrow> flt_zero)"

definition anthropicCacheTokens :: "obj \<Rightarrow> flt" where
  "anthropicCacheTokens u =
     flt_add (number (at u ''cache_read_input_tokens'')) (number (at u ''cache_creation_input_tokens''))"

definition anthropicTotalTokens :: "obj \<Rightarrow> flt" where
  "anthropicTotalTokens u =
     (let t = number (at u ''total_tokens'') in
      if has_key u ''total_tokens'' \<and> flt_pos t then t
      else flt_add (flt_add (number (at u ''input_tokens'')) (anthropicCacheTokens u)) (number (at u ''output_tokens'')))"

definition openAIPromptTokens :: "obj \<Rightarrow> any" where
  "openAIPromptTokens u =
     (if has_key u ''input_tokens'' then ANum (flt_add (number (at u ''input_tokens'')) (anthropicCacheTokens u))
      else ANil)"

section \<open>Reasoning state that cannot travel\<close>

definition signed_state :: "any \<Rightarrow> bool" where
  "signed_state raw \<longleftrightarrow> (let block = as_map raw; k = at block ''type'' in
     is_str k ''redacted_thinking'' \<or> (is_str k ''thinking'' \<and> strField (at block ''signature'') \<noteq> []))"

definition encrypted_state :: "any \<Rightarrow> bool" where
  "encrypted_state raw \<longleftrightarrow> (let item = as_map raw in
     is_str (at item ''type'') ''reasoning'' \<and> strField (at item ''encrypted_content'') \<noteq> [])"

definition choice_state :: "string \<Rightarrow> any \<Rightarrow> unit \<Rightarrow> unit res" where
  "choice_state to raw u =
     (let message = as_map (at (as_map raw) ''message''); details = at message ''reasoning_details'' in
      if \<not> has_key message ''reasoning_details'' then Inr ()
      else if to = ProtocolMessages then bind_res (chatReasoningDetailsToAnthropic details) (\<lambda>_. Inr ())
      else if to = ProtocolResponses then bind_res (chatReasoningDetailsToResponses details) (\<lambda>_. Inr ())
      else Inr ())"

definition validateResponseReasoningState :: "obj \<Rightarrow> string \<Rightarrow> string \<Rightarrow> unit res" where
  "validateResponseReasoningState source frm to =
     (if frm = to then Inr ()
      else if frm = ProtocolMessages \<and> to = ProtocolResponses then
        (if list_ex signed_state (elems (at source ''content'')) then Inl ReasoningState else Inr ())
      else if frm = ProtocolResponses \<and> to = ProtocolMessages then
        (if list_ex encrypted_state (elems (at source ''output'')) then Inl ReasoningState else Inr ())
      else if frm = ProtocolChat then fold_res (choice_state to) (elems (at source ''choices'')) ()
      else Inr ())"

section \<open>To Chat\<close>

text \<open>A Chat response keeps its document; a \<open>reasoning\<close> text becomes \<open>reasoning_content\<close>.\<close>

definition chat_reasoning :: "obj \<Rightarrow> obj" where
  "chat_reasoning message =
     (if strField (at message ''reasoning_content'') = [] \<and> strField (at message ''reasoning'') \<noteq> []
      then gm_set ''reasoning_content'' (at message ''reasoning'') message else message)"

definition chat_first_choice :: "obj \<Rightarrow> obj" where
  "chat_first_choice source =
     (case elems (at source ''choices'') of
        AObj choice # rest \<Rightarrow>
          (case at choice ''message'' of
             AObj message \<Rightarrow>
               gm_set ''choices'' (AArr (AObj (gm_set ''message'' (AObj (chat_reasoning message)) choice) # rest)) source
           | _ \<Rightarrow> source)
      | _ \<Rightarrow> source)"

record answer =
  an_content :: "any list"
  an_calls :: "any list"
  an_details :: "any list"
  an_reasoning :: string

definition no_answer :: answer where
  "no_answer = \<lparr>an_content = [], an_calls = [], an_details = [], an_reasoning = []\<rparr>"

definition messages_answer :: "nat \<times> any \<Rightarrow> answer \<Rightarrow> answer" where
  "messages_answer ib a =
     (let (index, raw) = ib; block = as_map raw; k = at block ''type'' in
      if is_str k ''text'' then
        (let t = strField (at block ''text'') in
         if t = [] then a else a\<lparr>an_content := an_content a @ [text_block t]\<rparr>)
      else if is_str k ''thinking'' \<or> is_str k ''redacted_thinking'' then
        (let a = a\<lparr>an_reasoning := an_reasoning a @ strField (at block ''thinking'')\<rparr> in
         case anthropicReasoningToChatDetails block (int index) of
           Inr d \<Rightarrow> a\<lparr>an_details := an_details a @ [AObj d]\<rparr>
         | Inl _ \<Rightarrow> a)
      else if is_str k ''tool_use'' then
        a\<lparr>an_calls := an_calls a @
            [fn_call (at block ''id'') (at block ''name'') (AStr (jsonString (at block ''input'')))]\<rparr>
      else a)"

definition output_part :: "any \<Rightarrow> answer \<Rightarrow> answer" where
  "output_part raw a =
     (let part = as_map raw; k = at part ''type'' in
      if is_str k ''output_text'' then
        a\<lparr>an_content := an_content a @ [AObj [(''type'', AStr ''text''), (''text'', at part ''text'')]]\<rparr>
      else if is_str k ''reasoning'' then a\<lparr>an_reasoning := an_reasoning a @ sprint (at part ''text'')\<rparr>
      else a)"

definition summary_text :: "any \<Rightarrow> string" where
  "summary_text raw = (if is_map raw then sprint (at (as_map raw) ''text'') else [])"

definition responses_answer :: "any \<Rightarrow> answer \<Rightarrow> answer" where
  "responses_answer raw a =
     (let item = as_map raw; k = at item ''type'' in
      if is_str k ''message'' then List.fold output_part (elems (at item ''content'')) a
      else if is_str k ''reasoning'' then
        a\<lparr>an_details := an_details a @ responsesReasoningToChatDetails item,
           an_reasoning := an_reasoning a @ concat (map summary_text (elems (at item ''summary'')))\<rparr>
      else if is_str k ''function_call'' then
        a\<lparr>an_calls := an_calls a @ [fn_call (at item ''call_id'') (at item ''name'') (at item ''arguments'')]\<rparr>
      else a)"

definition has_reasoning_item :: "obj \<Rightarrow> bool" where
  "has_reasoning_item source = list_ex (\<lambda>raw. is_str (at (as_map raw) ''type'') ''reasoning'') (elems (at source ''output''))"

text \<open>The assistant message of an answer; \<open>details\<close> says whether the key was set.\<close>

definition answer_message :: "answer \<Rightarrow> bool \<Rightarrow> obj" where
  "answer_message a details =
     put_if (an_calls a \<noteq> []) ''tool_calls'' (AArr (an_calls a))
       (gm_set ''content'' (AArr (an_content a))
         (put_if (an_reasoning a \<noteq> []) ''reasoning_content'' (AStr (an_reasoning a))
           (put_if details ''reasoning_details'' (nil_slice (an_details a))
             [(''role'', AStr ''assistant''), (''content'', AStr [])])))"

definition chat_completion :: "int \<Rightarrow> any \<Rightarrow> string \<Rightarrow> obj \<Rightarrow> string \<Rightarrow> any \<Rightarrow> obj" where
  "chat_completion now i model message fin usage =
     [(''id'', i), (''object'', AStr ''chat.completion''), (''created'', AInt now), (''model'', AStr model),
      (''choices'', AArr [AObj [(''index'', AInt 0), (''message'', AObj message), (''finish_reason'', AStr fin)]]),
      (''usage'', usage)]"

definition messages_usage :: "any \<Rightarrow> any" where
  "messages_usage usage = (case usage of
     AObj u \<Rightarrow> AObj [(''prompt_tokens'', openAIPromptTokens u), (''completion_tokens'', at u ''output_tokens''),
                     (''total_tokens'', ANum (anthropicTotalTokens u))]
   | _ \<Rightarrow> usage)"

definition responses_usage :: "any \<Rightarrow> any" where
  "responses_usage usage = (case usage of
     AObj u \<Rightarrow> AObj [(''prompt_tokens'', at u ''input_tokens''), (''completion_tokens'', at u ''output_tokens''),
                     (''total_tokens'', at u ''total_tokens'')]
   | _ \<Rightarrow> usage)"

definition messages_to_answer :: "obj \<Rightarrow> answer" where
  "messages_to_answer source = List.fold messages_answer (List.enumerate 0 (elems (at source ''content''))) no_answer"

definition responses_to_answer :: "obj \<Rightarrow> answer" where
  "responses_to_answer source = List.fold responses_answer (elems (at source ''output'')) no_answer"

definition responseToChat :: "int \<Rightarrow> obj \<Rightarrow> string \<Rightarrow> string \<Rightarrow> obj" where
  "responseToChat now source target model =
     (if target = ProtocolChat then gm_set ''model'' (AStr model) (chat_first_choice source)
      else if target = ProtocolMessages then
        (let a = messages_to_answer source in
         chat_completion now (at source ''id'') model (answer_message a (an_details a \<noteq> []))
           (if is_str (at source ''stop_reason'') ''tool_use'' then ''tool_calls'' else ''stop'')
           (messages_usage (at source ''usage'')))
      else
        (let a = responses_to_answer source in
         chat_completion now (at source ''id'') model (answer_message a (has_reasoning_item source))
           (if an_calls a \<noteq> [] then ''tool_calls'' else ''stop'')
           (responses_usage (at source ''usage''))))"

section \<open>From Chat\<close>

definition first_choice :: "obj \<Rightarrow> obj" where
  "first_choice chat = (case elems (at chat ''choices'') of [] \<Rightarrow> [] | c # cs \<Rightarrow> as_map c)"

definition choice_message :: "obj \<Rightarrow> obj" where
  "choice_message chat = as_map (at (first_choice chat) ''message'')"

definition thinking_of :: "string \<Rightarrow> any" where
  "thinking_of t = AObj [(''type'', AStr ''thinking''), (''thinking'', AStr t)]"

text \<open>The content of the answer with its reasoning in front: opaque state if it converts, else the text.\<close>

definition answer_content :: "obj \<Rightarrow> any list option" where
  "answer_content message =
     (let content = append_slice (chatContentToAnthropic (at message ''content''))
                      (map tool_use (elems (at message ''tool_calls'')));
          body = (case content of Some c \<Rightarrow> c | None \<Rightarrow> []);
          blocks = (case chatReasoningDetailsToAnthropic (at message ''reasoning_details'') of Inr b \<Rightarrow> b | Inl _ \<Rightarrow> []);
          reasoning = strField (at message ''reasoning_content'')
      in if blocks \<noteq> [] then Some (blocks @ body)
         else if reasoning \<noteq> [] then Some (thinking_of reasoning # body)
         else content)"

definition int_or_zero :: "any \<Rightarrow> int" where
  "int_or_zero v = (case coerceInt64 v of Some n \<Rightarrow> n | None \<Rightarrow> 0)"

definition uncached_tokens :: "int \<Rightarrow> obj \<Rightarrow> int" where
  "uncached_tokens prompt u =
     max 0 (wrap64 (wrap64 (prompt - int_or_zero (at u ''cache_read_input_tokens''))
                     - int_or_zero (at u ''cache_creation_input_tokens'')))"

definition to_messages_usage :: "any \<Rightarrow> obj" where
  "to_messages_usage usage = (case usage of
     AObj u \<Rightarrow>
       (let base = [(''input_tokens'', at u ''prompt_tokens''), (''output_tokens'', at u ''completion_tokens'')];
            rd = at u ''cache_read_input_tokens''; cr = at u ''cache_creation_input_tokens''
        in case coerceInt64 (at u ''prompt_tokens'') of
             None \<Rightarrow> base
           | Some prompt \<Rightarrow>
               put_if (cr \<noteq> ANil) ''cache_creation_input_tokens'' cr
                 (put_if (rd \<noteq> ANil) ''cache_read_input_tokens'' rd
                   (gm_set ''input_tokens'' (AInt (uncached_tokens prompt u)) base)))
   | _ \<Rightarrow> [])"

definition chatResponseToMessages :: "obj \<Rightarrow> string \<Rightarrow> obj" where
  "chatResponseToMessages chat model =
     (let message = choice_message chat in
      [(''id'', at chat ''id''), (''type'', AStr ''message''), (''role'', AStr ''assistant''), (''model'', AStr model),
       (''content'', boxed (answer_content message)),
       (''stop_reason'', AStr (if is_str (at (first_choice chat) ''finish_reason'') ''tool_calls''
                               then ''tool_use'' else ''end_turn'')),
       (''stop_sequence'', ANil), (''usage'', AObj (to_messages_usage (at chat ''usage'')))])"

definition output_text :: "any \<Rightarrow> any" where
  "output_text t = AObj [(''type'', AStr ''output_text''), (''text'', t), (''annotations'', AArr [])]"

definition text_parts :: "any list \<Rightarrow> any list" where
  "text_parts bs = map (\<lambda>b. output_text (at (as_map b) ''text'')) (filter (\<lambda>b. is_str (at (as_map b) ''type'') ''text'') bs)"

definition message_item :: "string \<Rightarrow> any list \<Rightarrow> any" where
  "message_item i parts = AObj [(''id'', AStr i), (''type'', AStr ''message''), (''role'', AStr ''assistant''),
     (''status'', AStr ''completed''), (''content'', AArr parts)]"

definition call_item :: "any \<Rightarrow> any \<Rightarrow> any \<Rightarrow> any" where
  "call_item i name args = AObj [(''type'', AStr ''function_call''), (''call_id'', i), (''name'', name),
     (''arguments'', args), (''status'', AStr ''completed'')]"

definition item_of_call :: "any \<Rightarrow> any" where
  "item_of_call raw = (let call = as_map raw; fn = as_map (at call ''function'') in
     call_item (at call ''id'') (at fn ''name'') (at fn ''arguments''))"

definition reasoning_items :: "obj \<Rightarrow> any \<Rightarrow> any list" where
  "reasoning_items message i =
     (let items = (case chatReasoningDetailsToResponses (at message ''reasoning_details'') of Inr b \<Rightarrow> b | Inl _ \<Rightarrow> []);
          reasoning = strField (at message ''reasoning_content'')
      in if items \<noteq> [] then items
         else if reasoning \<noteq> [] then
           [AObj [(''id'', AStr (''rs_'' @ sprint i)), (''type'', AStr ''reasoning''),
              (''summary'', AArr [AObj [(''type'', AStr ''summary_text''), (''text'', AStr reasoning)]])]]
         else [])"

definition to_responses_usage :: "any \<Rightarrow> obj" where
  "to_responses_usage usage = (case usage of
     AObj u \<Rightarrow> [(''input_tokens'', at u ''prompt_tokens''), (''output_tokens'', at u ''completion_tokens''),
                (''total_tokens'', at u ''total_tokens'')]
   | _ \<Rightarrow> [])"

definition chatResponseToResponses :: "int \<Rightarrow> obj \<Rightarrow> string \<Rightarrow> obj" where
  "chatResponseToResponses now chat model =
     (let message = choice_message chat; i = at chat ''id'';
          parts = text_parts (case chatContentToAnthropic (at message ''content'') of Some c \<Rightarrow> c | None \<Rightarrow> [])
      in [(''id'', i), (''object'', AStr ''response''), (''created_at'', AInt now), (''status'', AStr ''completed''),
          (''model'', AStr model),
          (''output'', AArr ([message_item (''msg_'' @ sprint i) parts] @ reasoning_items message i
             @ map item_of_call (elems (at message ''tool_calls'')))),
          (''usage'', AObj (to_responses_usage (at chat ''usage'')))])"

section \<open>The whole translation\<close>

definition encode :: "obj \<Rightarrow> string res" where
  "encode m = (if finite_any (AObj m) then Inr (marshal (AObj m)) else Inl JsonError)"

definition convert_response :: "int \<Rightarrow> obj \<Rightarrow> string \<Rightarrow> string \<Rightarrow> string \<Rightarrow> obj res" where
  "convert_response now source incoming target model =
     (let chat = responseToChat now source target model in
      if incoming = ProtocolChat then Inr chat
      else if incoming = ProtocolMessages then Inr (chatResponseToMessages chat model)
      else if incoming = ProtocolResponses then Inr (chatResponseToResponses now chat model)
      else Inl NoTranslation)"

definition translateNonstreamResponse :: "int \<Rightarrow> string \<Rightarrow> string \<Rightarrow> string \<Rightarrow> string \<Rightarrow> string res" where
  "translateNonstreamResponse now body incoming target model =
     (case unmarshal_map body of
        None \<Rightarrow> Inl JsonError
      | Some src \<Rightarrow>
          (let source = (case src of Some m \<Rightarrow> m | None \<Rightarrow> []) in
           bind_res (validateResponseReasoningState source target incoming)
             (\<lambda>_. if target = ProtocolChat \<and> src = None then Inl NilMap
                  else bind_res (convert_response now source incoming target model) encode)))"

end
