(* ===== verification/ResponseLaws.thy ===== *)
theory ResponseLaws
  imports ResponseTranslation
begin

text \<open>
  What a client of another protocol gets of a complete response. The answer of a response, whatever its
  protocol, is a list of texts and a list of tool calls (\<open>answer_view\<close>); translation keeps it. Opaque
  reasoning state is either carried along or the response is refused.
\<close>

section \<open>The answer of a response\<close>

definition is_type :: "string \<Rightarrow> any \<Rightarrow> bool" where
  "is_type k raw \<longleftrightarrow> at (as_map raw) ''type'' = AStr k"

definition field :: "string \<Rightarrow> any \<Rightarrow> any" where
  "field k raw = at (as_map raw) k"

definition typed :: "string \<Rightarrow> any list \<Rightarrow> any list" where
  "typed k xs = filter (is_type k) xs"

type_synonym view = "any list \<times> (any \<times> any \<times> any) list"

definition part_text :: "any \<Rightarrow> any list" where
  "part_text p = (if is_type ''text'' p \<or> is_type ''input_text'' p
                  then [first_of (field ''text'' p) (field ''input_text'' p)] else [])"

definition content_texts :: "any \<Rightarrow> any list" where
  "content_texts content = (case as_str content of Some t \<Rightarrow> if t = [] then [] else [AStr t]
     | None \<Rightarrow> concat (map part_text (elems content)))"

definition call_view :: "any \<Rightarrow> any \<times> any \<times> any" where
  "call_view c = (field ''id'' c, field ''name'' (field ''function'' c), field ''arguments'' (field ''function'' c))"

definition chat_view :: "obj \<Rightarrow> view" where
  "chat_view doc =
     (let message = choice_message doc in
      (content_texts (at message ''content''), map call_view (elems (at message ''tool_calls''))))"

definition messages_view :: "obj \<Rightarrow> view" where
  "messages_view doc =
     (let content = elems (at doc ''content'') in
      (map (field ''text'') (typed ''text'' content),
       map (\<lambda>b. (field ''id'' b, field ''name'' b, AStr (jsonString (field ''input'' b)))) (typed ''tool_use'' content)))"

definition responses_view :: "obj \<Rightarrow> view" where
  "responses_view doc =
     (let out = elems (at doc ''output'') in
      (concat (map (\<lambda>m. map (field ''text'') (typed ''output_text'' (elems (field ''content'' m)))) (typed ''message'' out)),
       map (\<lambda>c. (field ''call_id'' c, field ''name'' c, field ''arguments'' c)) (typed ''function_call'' out)))"

definition answer_view :: "string \<Rightarrow> obj \<Rightarrow> view" where
  "answer_view protocol doc =
     (if protocol = ProtocolChat then chat_view doc
      else if protocol = ProtocolMessages then messages_view doc else responses_view doc)"

text \<open>Texts a translation keeps: strings that are not blank.\<close>

definition readable :: "any \<Rightarrow> bool" where
  "readable v \<longleftrightarrow> trim_space (strField v) \<noteq> []"

text \<open>Arguments that are the canonical encoding of a value, as a Messages client gets the value itself.\<close>

definition canonical_arguments :: "any \<Rightarrow> bool" where
  "canonical_arguments a \<longleftrightarrow> AStr (jsonString (jsonValue a)) = a"

lemma typed_simps [simp]: "typed k [] = []" "typed k (x # xs) = (if is_type k x then x # typed k xs else typed k xs)"
  "typed k (xs @ ys) = typed k xs @ typed k ys"
  by (simp_all add: typed_def)

lemma typed_type: "x \<in> set (typed k xs) \<Longrightarrow> is_type k x"
  by (simp add: typed_def)

lemma field_simps_obj [simp]: "field k (AObj m) = at m k" "is_type t (AObj m) \<longleftrightarrow> at m ''type'' = AStr t"
  by (simp_all add: field_def is_type_def)

lemma first_of_str [simp]: "first_of (AStr t) v = AStr t"
  by (simp add: first_of_def)

lemma trim_space_Nil: "trim_space [] = []"
  by (simp add: trim_space_def trim_pieces_def)

lemma readable_str: "readable v \<Longrightarrow> \<exists>t. v = AStr t \<and> t \<noteq> [] \<and> trim_space t \<noteq> []"
  by (cases v) (auto simp: readable_def trim_space_Nil)

section \<open>Into Chat\<close>

lemma messages_fold:
  "an_content (List.fold messages_answer (List.enumerate n bs) a) =
     an_content a @ map (\<lambda>b. text_block (strField (field ''text'' b)))
       (filter (\<lambda>b. strField (field ''text'' b) \<noteq> []) (typed ''text'' bs))"
  "an_calls (List.fold messages_answer (List.enumerate n bs) a) =
     an_calls a @ map (\<lambda>b. fn_call (field ''id'' b) (field ''name'' b) (AStr (jsonString (field ''input'' b))))
       (typed ''tool_use'' bs)"
proof (induction bs arbitrary: n a)
  case (Cons b bs)
  have c: "an_content (messages_answer (n, b) a) = an_content a @
      (if is_type ''text'' b \<and> strField (field ''text'' b) \<noteq> [] then [text_block (strField (field ''text'' b))] else [])" for n a
    by (simp add: messages_answer_def is_type_def is_str_def field_def Let_def split: sum.split)
  have d: "an_calls (messages_answer (n, b) a) = an_calls a @
      (if is_type ''tool_use'' b then [fn_call (field ''id'' b) (field ''name'' b) (AStr (jsonString (field ''input'' b)))] else [])" for n a
    by (simp add: messages_answer_def is_type_def is_str_def field_def Let_def split: sum.split)
  { case 1 show ?case by (simp add: Cons.IH(1) c) }
  { case 2 show ?case by (simp add: Cons.IH(2) d) }
qed simp_all

lemma parts_fold:
  "an_content (List.fold output_part ps a) =
     an_content a @ map (\<lambda>p. AObj [(''type'', AStr ''text''), (''text'', field ''text'' p)]) (typed ''output_text'' ps)"
  "an_calls (List.fold output_part ps a) = an_calls a"
  by (induction ps arbitrary: a) (simp_all add: output_part_def is_type_def is_str_def field_def Let_def)

lemma responses_fold:
  "an_content (List.fold responses_answer xs a) = an_content a @ concat (map (\<lambda>m.
      map (\<lambda>p. AObj [(''type'', AStr ''text''), (''text'', field ''text'' p)]) (typed ''output_text'' (elems (field ''content'' m))))
        (typed ''message'' xs))"
  "an_calls (List.fold responses_answer xs a) =
     an_calls a @ map (\<lambda>c. fn_call (field ''call_id'' c) (field ''name'' c) (field ''arguments'' c)) (typed ''function_call'' xs)"
proof (induction xs arbitrary: a)
  case (Cons x xs)
  have c: "an_content (responses_answer x a) = an_content a @ (if is_type ''message'' x then
      map (\<lambda>p. AObj [(''type'', AStr ''text''), (''text'', field ''text'' p)]) (typed ''output_text'' (elems (field ''content'' x))) else [])" for a
    by (simp add: responses_answer_def is_type_def is_str_def parts_fold Let_def) (simp add: field_def)
  have d: "an_calls (responses_answer x a) = an_calls a @
      (if is_type ''function_call'' x then [fn_call (field ''call_id'' x) (field ''name'' x) (field ''arguments'' x)] else [])" for a
    by (simp add: responses_answer_def is_type_def is_str_def parts_fold Let_def) (simp add: field_def)
  { case 1 show ?case by (simp add: Cons.IH(1) c) }
  { case 2 show ?case by (simp add: Cons.IH(2) d) }
qed simp_all

text \<open>A completion built by the translation has the answer it was built from.\<close>

lemma choice_completion: "choice_message (chat_completion now i model message fin usage) = message"
  by (simp add: choice_message_def first_choice_def chat_completion_def elems_def)

lemma at_answer_message:
  "at (answer_message a b) ''content'' = AArr (an_content a)"
  "at (answer_message a b) ''tool_calls'' = (if an_calls a = [] then ANil else AArr (an_calls a))"
  "at (answer_message a b) ''reasoning_content'' = (if an_reasoning a = [] then ANil else AStr (an_reasoning a))"
  by (simp_all add: answer_message_def)

lemma elems_simps [simp]: "elems ANil = []" "elems (AArr xs) = xs" "elems (AStr t) = []"
  by (simp_all add: elems_def)

text \<open>The answer of a translated Messages or Responses document, read back from the completion.\<close>

definition gathered :: "answer \<Rightarrow> view" where
  "gathered a = (concat (map part_text (an_content a)), map call_view (an_calls a))"

lemma completion_view: "chat_view (chat_completion now i model (answer_message a d) fin usage) = gathered a"
  by (simp add: chat_view_def choice_completion at_answer_message content_texts_def gathered_def)

lemma call_view_fn [simp]: "call_view (fn_call i n a) = (i, n, a)"
  by (simp add: call_view_def fn_call_def)

lemma part_text_block [simp]: "part_text (text_block t) = [AStr t]"
  by (simp add: part_text_def text_block_def)

lemma concat_singles: "concat (map (\<lambda>x. [f x]) xs) = map f xs"
  by (induction xs) simp_all

lemma readable_field: "\<forall>v \<in> set (map f xs). readable v \<Longrightarrow>
    map (\<lambda>x. AStr (strField (f x))) (filter (\<lambda>x. strField (f x) \<noteq> []) xs) = map f xs"
  by (induction xs) (auto dest!: readable_str)

lemma messages_gathered:
  assumes "\<forall>v \<in> set (fst (messages_view source)). readable v"
  shows "gathered (messages_to_answer source) = messages_view source"
proof -
  let ?bs = "elems (at source ''content'')"
  have "map (\<lambda>b. AStr (strField (field ''text'' b))) (filter (\<lambda>b. strField (field ''text'' b) \<noteq> []) (typed ''text'' ?bs))
      = map (field ''text'') (typed ''text'' ?bs)"
    using assms by (intro readable_field) (simp add: messages_view_def Let_def)
  then show ?thesis
    by (simp add: gathered_def messages_to_answer_def messages_fold no_answer_def messages_view_def Let_def o_def concat_singles)
qed

lemma part_text_output:
  "readable v \<Longrightarrow> part_text (AObj [(''type'', AStr ''text''), (''text'', v)]) = [v]"
  by (auto simp: part_text_def dest!: readable_str)

lemma output_texts:
  "\<forall>v \<in> set (map (field ''text'') ps). readable v \<Longrightarrow>
   concat (map (\<lambda>p. part_text (AObj [(''type'', AStr ''text''), (''text'', field ''text'' p)])) ps) = map (field ''text'') ps"
  by (induction ps) (simp_all add: part_text_output)

lemma message_texts:
  "\<forall>v \<in> set (concat (map (\<lambda>m. map (field ''text'') (f m)) ms)). readable v \<Longrightarrow>
   concat (map part_text (concat (map (\<lambda>m. map (\<lambda>p. AObj [(''type'', AStr ''text''), (''text'', field ''text'' p)]) (f m)) ms)))
     = concat (map (\<lambda>m. map (field ''text'') (f m)) ms)"
  by (induction ms) (simp_all add: o_def output_texts)

lemma responses_gathered:
  assumes "\<forall>v \<in> set (fst (responses_view source)). readable v"
  shows "gathered (responses_to_answer source) = responses_view source"
  using assms message_texts [of "\<lambda>m. typed ''output_text'' (elems (field ''content'' m))"]
  by (simp add: gathered_def responses_to_answer_def responses_fold no_answer_def responses_view_def Let_def o_def)

section \<open>Out of Chat\<close>

lemma choice_of_chat:
  "choice_message (gm_set ''model'' v m) = choice_message m"
  "choice_message (chat_first_choice source) = chat_reasoning (choice_message source) \<or>
   choice_message (chat_first_choice source) = choice_message source"
  by (auto simp: choice_message_def first_choice_def chat_first_choice_def elems_def split: list.split any.split)

lemma at_chat_reasoning: "k \<noteq> ''reasoning_content'' \<Longrightarrow> at (chat_reasoning m) k = at m k"
  by (simp add: chat_reasoning_def)

lemma chat_kept: "chat_view (gm_set ''model'' v (chat_first_choice source)) = chat_view source"
  using choice_of_chat(2) [of source]
  by (auto simp: chat_view_def choice_of_chat(1) at_chat_reasoning Let_def)

lemma typed_map: "\<forall>x \<in> set xs. is_type k (f x) \<Longrightarrow> typed k (map f xs) = map f xs"
  "\<forall>x \<in> set xs. \<not> is_type k (f x) \<Longrightarrow> typed k (map f xs) = []"
  by (induction xs) simp_all

lemma typed_none: "\<forall>x \<in> set xs. \<not> is_type k x \<Longrightarrow> typed k xs = []"
  by (simp add: typed_def)

text \<open>The text blocks of a content are its texts; blocks of opaque state are of other types.\<close>

lemma image_type: "at (as_map (openAIImageToAnthropic b)) ''type'' = AStr ''image''"
  by (simp add: openAIImageToAnthropic_def Let_def)

lemma block_texts:
  assumes "\<forall>v \<in> set (part_text p). readable v"
  shows "map (field ''text'') (typed ''text'' (anthropic_block p)) = part_text p"
proof (cases "is_type ''text'' p \<or> is_type ''input_text'' p")
  case True
  then obtain t where t: "first_of (field ''text'' p) (field ''input_text'' p) = AStr t" "trim_space t \<noteq> []"
    using assms by (auto simp: part_text_def dest!: readable_str)
  then have "anthropic_block p = [AObj [(''type'', AStr ''text''), (''text'', AStr t)]]"
    using True by (auto simp: anthropic_block_def is_type_def is_str_def field_def)
  then show ?thesis using True t by (simp add: part_text_def)
next
  case False
  then have "anthropic_block p = [] \<or> anthropic_block p = [openAIImageToAnthropic (as_map p)]"
    by (simp add: anthropic_block_def is_type_def is_str_def Let_def)
  then show ?thesis using False by (auto simp: part_text_def is_type_def image_type)
qed

lemma block_calls: "typed ''tool_use'' (anthropic_block p) = []"
  by (auto simp: anthropic_block_def is_type_def is_str_def image_type Let_def split: option.splits)

definition blocks_of :: "any \<Rightarrow> any list" where
  "blocks_of content = (case chatContentToAnthropic content of Some c \<Rightarrow> c | None \<Rightarrow> [])"

lemma texts_of_blocks:
  assumes "\<forall>v \<in> set (content_texts content). readable v"
  shows "map (field ''text'') (typed ''text'' (blocks_of content)) = content_texts content"
    and "typed ''tool_use'' (blocks_of content) = []"
proof -
  have l: "map (field ''text'') (typed ''text'' (concat (map anthropic_block ps))) = concat (map part_text ps)"
    if "\<forall>v \<in> set (concat (map part_text ps)). readable v" for ps
    using that by (induction ps) (simp_all add: block_texts)
  have n: "typed ''tool_use'' (concat (map anthropic_block ps)) = []" for ps
    by (induction ps) (simp_all add: block_calls)
  show "map (field ''text'') (typed ''text'' (blocks_of content)) = content_texts content"
  proof (cases "as_str content")
    case None
    then show ?thesis using assms l by (simp add: content_texts_def blocks_of_def chatContentToAnthropic_def)
  next
    case (Some t)
    then show ?thesis using assms
      by (simp add: content_texts_def blocks_of_def chatContentToAnthropic_def readable_def trim_space_Nil split: if_splits)
  qed
  show "typed ''tool_use'' (blocks_of content) = []"
    using n by (simp add: blocks_of_def chatContentToAnthropic_def split: option.split)
qed

lemma opaque_blocks:
  assumes "chatReasoningDetailsToAnthropic v = Inr bs" and k: "k \<noteq> ''thinking''" "k \<noteq> ''redacted_thinking''"
  shows "typed k bs = []"
proof -
  obtain ds where "fold_res (\<lambda>raw out. bind_res (detail_to_block raw) (\<lambda>b. Inr (out @ [b]))) ds [] = Inr bs"
    using assms(1) by (auto simp: chatReasoningDetailsToAnthropic_def split: option.splits)
  then show ?thesis
  proof (rule fold_res_inv)
    fix raw out out'
    assume "typed k out = []" "bind_res (detail_to_block raw) (\<lambda>b. Inr (out @ [b])) = Inr out'"
    then show "typed k out' = []" using k
      by (auto simp: bind_res_Inr detail_to_block_def Let_def at_with_signature split: if_splits option.splits)
  qed simp
qed

lemma extend_item_type:
  "extend_item d item = Inr item' \<Longrightarrow> at item' ''type'' = at item ''type''"
  by (auto simp: extend_item_def Let_def split: if_splits option.splits)

lemma update_at_set: "set (update_at i x out) \<subseteq> insert (i, x) (set out)"
  by (induction i x out rule: update_at.induct) auto

lemma opaque_reasoning:
  assumes "chatReasoningDetailsToResponses v = Inr bs" "b \<in> set bs"
  shows "is_type ''reasoning'' b"
proof -
  obtain ds out where out: "fold_res detail_to_item ds [] = Inr out" and bs: "bs = map (AObj \<circ> snd) out"
    using assms(1) by (auto simp: chatReasoningDetailsToResponses_def bind_res_Inr split: option.splits)
  from out have "\<forall>x \<in> set out. at (snd x) ''type'' = AStr ''reasoning''"
  proof (rule fold_res_inv)
    fix raw s s'
    assume s: "\<forall>x \<in> set s. at (snd x) ''type'' = AStr ''reasoning''" and step: "detail_to_item raw s = Inr s'"
    define i where "i = strField (at (as_map raw) ''id'')"
    define old where "old = (if i = [] then [(''type'', AStr ''reasoning'')]
        else case map_of s i of Some x \<Rightarrow> x | None \<Rightarrow> gm_set ''id'' (AStr i) [(''type'', AStr ''reasoning'')])"
    have old: "at old ''type'' = AStr ''reasoning''"
      using s by (auto simp: old_def dest!: map_of_SomeD split: option.split)
    have "bind_res (extend_item (as_map raw) old)
        (\<lambda>item. Inr (if i = [] then s @ [([], item)] else update_at i item s)) = Inr s'"
      using step unfolding old_def i_def by (simp add: detail_to_item_def Let_def split: if_splits)
    then obtain item where item: "extend_item (as_map raw) old = Inr item"
      and s': "s' = (if i = [] then s @ [([], item)] else update_at i item s)"
      by (auto simp: bind_res_Inr)
    have "at item ''type'' = AStr ''reasoning''" using extend_item_type [OF item] old by simp
    then show "\<forall>x \<in> set s'. at (snd x) ''type'' = AStr ''reasoning''"
      using s s' update_at_set [of i item s] by (auto split: if_splits)
  qed simp
  then show ?thesis using assms(2) by (auto simp: bs)
qed

lemma opaque_items:
  "chatReasoningDetailsToResponses v = Inr bs \<Longrightarrow> k \<noteq> ''reasoning'' \<Longrightarrow> typed k bs = []"
  using opaque_reasoning by (fastforce simp: is_type_def intro!: typed_none)

section \<open>The answer survives\<close>

lemma thinking_typed [simp]: "is_type k (thinking_of t) \<longleftrightarrow> k = ''thinking''"
  by (auto simp: thinking_of_def)

lemma answer_content_typed:
  assumes "k = ''text'' \<or> k = ''tool_use''"
  shows "typed k (elems (boxed (answer_content message))) =
    typed k (blocks_of (at message ''content'') @ map tool_use (elems (at message ''tool_calls'')))"
proof -
  define details where "details = (case chatReasoningDetailsToAnthropic (at message ''reasoning_details'') of Inr b \<Rightarrow> b | Inl _ \<Rightarrow> [])"
  define content where "content = append_slice (chatContentToAnthropic (at message ''content'')) (map tool_use (elems (at message ''tool_calls'')))"
  have d: "typed k details = []"
    using assms opaque_blocks [of "at message ''reasoning_details''" _ k] by (auto simp: details_def split: sum.split)
  have body: "(case content of Some c \<Rightarrow> c | None \<Rightarrow> []) =
      blocks_of (at message ''content'') @ map tool_use (elems (at message ''tool_calls''))"
    by (simp add: content_def append_slice_def blocks_of_def split: option.split)
  have boxed: "elems (boxed content) = (case content of Some c \<Rightarrow> c | None \<Rightarrow> [])"
    by (simp split: option.split)
  show ?thesis using assms d body boxed
    by (auto simp: answer_content_def Let_def details_def [symmetric] content_def [symmetric])
qed

lemma tool_use_typed: "typed ''tool_use'' (map tool_use cs) = map tool_use cs" "typed ''text'' (map tool_use cs) = []"
  by (auto intro!: typed_map simp: tool_use_def Let_def)

lemma messages_answer_view:
  assumes "\<forall>v \<in> set (fst (chat_view chat)). readable v" "\<forall>c \<in> set (snd (chat_view chat)). canonical_arguments (snd (snd c))"
  shows "messages_view (chatResponseToMessages chat model) = chat_view chat"
proof -
  let ?m = "choice_message chat"
  have texts: "map (field ''text'') (typed ''text'' (blocks_of (at ?m ''content''))) = content_texts (at ?m ''content'')"
    "typed ''tool_use'' (blocks_of (at ?m ''content'')) = []"
    using assms(1) by (auto intro!: texts_of_blocks simp: chat_view_def Let_def)
  have "map (\<lambda>b. (field ''id'' b, field ''name'' b, AStr (jsonString (field ''input'' b)))) (map tool_use (elems (at ?m ''tool_calls'')))
      = map call_view (elems (at ?m ''tool_calls''))"
    using assms(2) by (auto simp: chat_view_def Let_def canonical_arguments_def call_view_def tool_use_def field_def)
  then show ?thesis using texts
    by (simp add: messages_view_def chatResponseToMessages_def chat_view_def Let_def answer_content_typed tool_use_typed del: map_map)
qed

lemma responses_answer_view:
  assumes "\<forall>v \<in> set (fst (chat_view chat)). readable v"
  shows "responses_view (chatResponseToResponses now chat model) = chat_view chat"
proof -
  let ?m = "choice_message chat"
  let ?calls = "elems (at ?m ''tool_calls'')"
  have texts: "map (field ''text'') (typed ''text'' (blocks_of (at ?m ''content''))) = content_texts (at ?m ''content'')"
    using assms by (auto intro!: texts_of_blocks simp: chat_view_def Let_def)
  have parts: "map (field ''text'') (typed ''output_text'' (text_parts bs)) = map (field ''text'') (typed ''text'' bs)" for bs
    by (induction bs) (simp_all add: text_parts_def output_text_def is_str_def is_type_def field_def)
  have none: "typed ''message'' (reasoning_items ?m i) = []" "typed ''function_call'' (reasoning_items ?m i) = []" for i
    by (auto simp: reasoning_items_def Let_def opaque_items split: sum.splits)
  have calls: "typed ''message'' (map item_of_call ?calls) = []"
    "typed ''function_call'' (map item_of_call ?calls) = map item_of_call ?calls"
    by (auto intro!: typed_map simp: item_of_call_def call_item_def Let_def)
  have view: "(\<lambda>c. (field ''call_id'' c, field ''name'' c, field ''arguments'' c)) \<circ> item_of_call = call_view"
    by (auto simp: item_of_call_def call_item_def call_view_def field_def Let_def)
  show ?thesis using texts none calls view
    by (simp add: responses_view_def chatResponseToResponses_def chat_view_def Let_def message_item_def parts
          flip: blocks_of_def)
qed

text \<open>Any of the nine pairs: the view of the answer in the client's protocol is the view of the response.\<close>

lemma chat_of_response:
  assumes "\<forall>v \<in> set (fst (answer_view target source)). readable v" "target \<in> {ProtocolChat, ProtocolMessages, ProtocolResponses}"
  shows "chat_view (responseToChat now source target model) = answer_view target source"
  using assms
  by (auto simp: responseToChat_def answer_view_def chat_kept completion_view Let_def messages_gathered responses_gathered)

lemma answer_kept:
  assumes "convert_response now source incoming target model = Inr doc"
    and "target \<in> {ProtocolChat, ProtocolMessages, ProtocolResponses}"
    and "\<forall>v \<in> set (fst (answer_view target source)). readable v"
    and "incoming = ProtocolMessages \<Longrightarrow> \<forall>c \<in> set (snd (answer_view target source)). canonical_arguments (snd (snd c))"
  shows "answer_view incoming doc = answer_view target source"
proof -
  let ?chat = "responseToChat now source target model"
  have chat: "chat_view ?chat = answer_view target source" by (rule chat_of_response [OF assms(3,2)])
  consider "incoming = ProtocolChat" | "incoming = ProtocolMessages" | "incoming = ProtocolResponses"
    using assms(1) by (auto simp: convert_response_def Let_def split: if_splits)
  then show ?thesis
  proof cases
    case 1
    then show ?thesis using assms(1) chat by (simp add: convert_response_def answer_view_def [of ProtocolChat] Let_def)
  next
    case 2
    then have "doc = chatResponseToMessages ?chat model" using assms(1) by (simp add: convert_response_def Let_def)
    then show ?thesis using 2 messages_answer_view [of ?chat model] assms(3,4) chat
      by (simp add: answer_view_def [of ProtocolMessages])
  next
    case 3
    then have "doc = chatResponseToResponses now ?chat model" using assms(1) by (simp add: convert_response_def Let_def)
    then show ?thesis using 3 responses_answer_view [of ?chat now model] assms(3) chat
      by (simp add: answer_view_def [of ProtocolResponses])
  qed
qed

section \<open>Opaque state is carried or the response is refused\<close>

definition states_kept :: "obj \<Rightarrow> any list \<Rightarrow> bool" where
  "states_kept source blocks \<longleftrightarrow>
     (case chatReasoningDetailsToAnthropic (at (choice_message source) ''reasoning_details'') of
        Inr bs \<Rightarrow> (\<exists>rest. blocks = bs @ rest) | Inl _ \<Rightarrow> False)"

lemma opaque_state_to_messages:
  assumes "validateResponseReasoningState source ProtocolChat ProtocolMessages = Inr ()"
    and "has_key (choice_message source) ''reasoning_details''"
  shows "states_kept source (elems (at (chatResponseToMessages (responseToChat now source ProtocolChat model) model) ''content''))"
proof -
  let ?m = "choice_message source"
  let ?d = "at ?m ''reasoning_details''"
  have ne: "elems (at source ''choices'') \<noteq> []"
    using assms(2) by (auto simp: choice_message_def first_choice_def at_def gm_get0_def)
  then obtain c cs where cs: "elems (at source ''choices'') = c # cs" by (cases "elems (at source ''choices'')") auto
  then have "choice_state ProtocolMessages c () = Inr ()"
    using assms(1) by (cases "choice_state ProtocolMessages c ()") (auto simp: validateResponseReasoningState_def)
  moreover have "as_map (at (as_map c) ''message'') = ?m" by (simp add: choice_message_def first_choice_def cs)
  ultimately obtain bs where bs: "chatReasoningDetailsToAnthropic ?d = Inr bs"
    using assms(2) by (auto simp: choice_state_def Let_def bind_res_Inr)
  have "at (choice_message (responseToChat now source ProtocolChat model)) ''reasoning_details'' = ?d"
    using choice_of_chat(2) [of source] by (auto simp: responseToChat_def choice_of_chat(1) at_chat_reasoning)
  then have "\<exists>rest. elems (at (chatResponseToMessages (responseToChat now source ProtocolChat model) model) ''content'') = bs @ rest"
    using bs by (auto simp: chatResponseToMessages_def answer_content_def Let_def)
  then show ?thesis using bs by (simp add: states_kept_def)
qed

section \<open>The shape of a translated response\<close>

text \<open>A part, block or item: an object whose type is a string; a call of a Chat message is a function.\<close>

definition typed_object :: "any \<Rightarrow> bool" where
  "typed_object v \<longleftrightarrow> is_map v \<and> as_str (at (as_map v) ''type'') \<noteq> None"

definition chat_shape :: "obj \<Rightarrow> bool" where
  "chat_shape doc \<longleftrightarrow> at doc ''object'' = AStr ''chat.completion'' \<and>
     (\<exists>message fin. at doc ''choices'' = AArr [AObj [(''index'', AInt 0), (''message'', AObj message), (''finish_reason'', AStr fin)]] \<and>
        fin \<in> {''stop'', ''tool_calls''} \<and> at message ''role'' = AStr ''assistant'' \<and>
        list_all typed_object (elems (at message ''content'')) \<and>
        list_all (is_type ''function'') (elems (at message ''tool_calls'')))"

definition messages_shape :: "obj \<Rightarrow> bool" where
  "messages_shape doc \<longleftrightarrow> at doc ''type'' = AStr ''message'' \<and> at doc ''role'' = AStr ''assistant'' \<and>
     at doc ''stop_reason'' \<in> {AStr ''tool_use'', AStr ''end_turn''} \<and>
     list_all typed_object (elems (at doc ''content'')) \<and> is_map (at doc ''usage'')"

definition responses_shape :: "obj \<Rightarrow> bool" where
  "responses_shape doc \<longleftrightarrow> at doc ''object'' = AStr ''response'' \<and> at doc ''status'' = AStr ''completed'' \<and>
     list_all typed_object (elems (at doc ''output'')) \<and>
     length (typed ''message'' (elems (at doc ''output''))) = 1 \<and> is_map (at doc ''usage'')"

definition response_shape :: "string \<Rightarrow> obj \<Rightarrow> bool" where
  "response_shape protocol doc =
     (if protocol = ProtocolChat then chat_shape doc
      else if protocol = ProtocolMessages then messages_shape doc else responses_shape doc)"

lemma answer_chat_shape:
  assumes "list_all typed_object (an_content a)" "list_all (is_type ''function'') (an_calls a)"
    "fin \<in> {''stop'', ''tool_calls''}"
  shows "chat_shape (chat_completion now i model (answer_message a d) fin usage)"
  using assms
  by (auto simp: chat_shape_def chat_completion_def at_answer_message answer_message_def)

lemma answer_objects:
  "list_all typed_object (an_content (messages_to_answer source))"
  "list_all (is_type ''function'') (an_calls (messages_to_answer source))"
  "list_all typed_object (an_content (responses_to_answer source))"
  "list_all (is_type ''function'') (an_calls (responses_to_answer source))"
  by (auto simp: messages_to_answer_def responses_to_answer_def messages_fold responses_fold no_answer_def
      list_all_iff typed_object_def text_block_def fn_call_def)

lemma content_objects: "list_all typed_object (blocks_of content)"
  by (auto simp: blocks_of_def chatContentToAnthropic_def anthropic_block_def openAIImageToAnthropic_def typed_object_def
      list_all_iff Let_def split: option.splits if_splits)

lemma opaque_objects:
  "chatReasoningDetailsToAnthropic v = Inr bs \<Longrightarrow> list_all typed_object bs"
  "chatReasoningDetailsToResponses v = Inr items \<Longrightarrow> list_all typed_object items"
proof -
  assume "chatReasoningDetailsToAnthropic v = Inr bs"
  then obtain ds where "fold_res (\<lambda>raw out. bind_res (detail_to_block raw) (\<lambda>b. Inr (out @ [b]))) ds [] = Inr bs"
    by (auto simp: chatReasoningDetailsToAnthropic_def split: option.splits)
  then show "list_all typed_object bs"
    by (rule fold_res_inv)
       (auto simp: bind_res_Inr detail_to_block_def Let_def at_with_signature typed_object_def split: if_splits option.splits)
next
  assume i: "chatReasoningDetailsToResponses v = Inr items"
  show "list_all typed_object items"
    unfolding list_all_iff
  proof
    fix x assume x: "x \<in> set items"
    from i obtain m where m: "x = AObj m" using x by (auto simp: chatReasoningDetailsToResponses_def bind_res_Inr split: option.splits)
    have "\<exists>k. at m ''type'' = AStr k"
    proof (rule ccontr)
      assume "\<nexists>k. at m ''type'' = AStr k"
      then show False using opaque_reasoning [OF i x] by (simp add: m is_type_def)
    qed
    then show "typed_object x" by (auto simp: m typed_object_def)
  qed
qed

lemma calls_objects: "list_all typed_object (map tool_use cs)" "list_all typed_object (map item_of_call cs)"
  by (auto simp: list_all_iff typed_object_def tool_use_def item_of_call_def call_item_def Let_def)

lemma messages_shape_ok: "messages_shape (chatResponseToMessages chat model)"
proof -
  let ?m = "choice_message chat"
  have "list_all typed_object (elems (boxed (answer_content ?m)))"
    using content_objects [of "at ?m ''content''"] calls_objects(1) [of "elems (at ?m ''tool_calls'')"] opaque_objects(1)
    by (auto simp: answer_content_def append_slice_def blocks_of_def Let_def thinking_of_def typed_object_def
        split: sum.splits option.splits if_splits)
  then show ?thesis by (simp add: messages_shape_def chatResponseToMessages_def Let_def)
qed

lemma responses_shape_ok: "responses_shape (chatResponseToResponses now chat model)"
proof -
  let ?m = "choice_message chat"
  have "list_all typed_object (reasoning_items ?m i)" for i
    using opaque_objects(2) by (auto simp: reasoning_items_def typed_object_def Let_def split: sum.splits)
  moreover have "typed ''message'' (reasoning_items ?m i) = []" for i
    by (auto simp: reasoning_items_def Let_def opaque_items split: sum.splits)
  moreover have "typed ''message'' (map item_of_call cs) = []" for cs
    by (auto intro!: typed_map simp: item_of_call_def call_item_def Let_def)
  ultimately show ?thesis using calls_objects(2)
    by (simp add: responses_shape_def chatResponseToResponses_def Let_def message_item_def typed_object_def)
qed

lemma response_shape_ok:
  assumes "convert_response now source incoming target model = Inr doc" "target \<noteq> incoming \<or> incoming \<noteq> ProtocolChat"
  shows "response_shape incoming doc"
  using assms messages_shape_ok responses_shape_ok answer_objects
  by (auto simp: convert_response_def responseToChat_def response_shape_def Let_def intro!: answer_chat_shape split: if_splits)

end
