(* ===== verification/UsageCapture.thy ===== *)
theory UsageCapture
  imports ResponseTranslation
begin

text \<open>
  Token usage read from responses (\<open>internal/server/logging.go\<close>): the first count an upstream reports
  wins, cached tokens are taken from the four places providers put them, and \<open>promptTokens\<close> folds the
  cached input of Messages into the prompt. \<open>oor\<close> is what the platform makes of a double that does not
  fit \<open>int64\<close>, which Go leaves open.
\<close>

section \<open>Integers from doubles\<close>

definition magnitude :: "flt \<Rightarrow> int" where
  "magnitude f = (case f of Flt neg m e \<Rightarrow> if 0 \<le> e then m * 2 ^ nat e else m div 2 ^ nat (- e))"

definition sign_of :: "flt \<Rightarrow> bool" where
  "sign_of f = (case f of Flt neg m e \<Rightarrow> neg)"

definition in_int64 :: "(flt \<Rightarrow> int) \<Rightarrow> flt \<Rightarrow> int \<Rightarrow> int" where
  "in_int64 oor f n = (if - (2 ^ 63) \<le> n \<and> n < 2 ^ 63 then n else oor f)"

definition int64_of :: "(flt \<Rightarrow> int) \<Rightarrow> flt \<Rightarrow> int" where
  "int64_of oor f = in_int64 oor f (signed (sign_of f) (magnitude f))"

text \<open>\<open>math.Round\<close>: half away from zero.\<close>

definition rounded :: "flt \<Rightarrow> int" where
  "rounded f = (case f of Flt neg m e \<Rightarrow>
     signed neg (if 0 \<le> e then m * 2 ^ nat e else (2 * m + 2 ^ nat (- e)) div (2 * 2 ^ nat (- e))))"

definition flt_mul :: "flt \<Rightarrow> flt \<Rightarrow> flt" where
  "flt_mul a b = (case (a, b) of (Flt n1 m1 e1, Flt n2 m2 e2) \<Rightarrow>
     (let (x, y) = ratio_of (m1 * m2) (e1 + e2) in
      case round_ratio x y of Some (m, e) \<Rightarrow> Flt (n1 \<noteq> n2) m e | None \<Rightarrow> flt_inf (n1 \<noteq> n2)))"

section \<open>The capture\<close>

record usageCapture =
  uc_protocol :: string
  uc_inputTokens :: "int option"
  uc_outputTokens :: "int option"
  uc_cacheReadInputTokens :: "int option"
  uc_cacheCreationInputTokens :: "int option"
  uc_providerCostMicros :: "int option"
  uc_inputTokensSource :: "string option"
  uc_outputTokensSource :: "string option"

definition new_capture :: "string \<Rightarrow> usageCapture" where
  "new_capture protocol = \<lparr>uc_protocol = protocol, uc_inputTokens = None, uc_outputTokens = None,
     uc_cacheReadInputTokens = None, uc_cacheCreationInputTokens = None, uc_providerCostMicros = None,
     uc_inputTokensSource = None, uc_outputTokensSource = None\<rparr>"

definition intVal :: "(flt \<Rightarrow> int) \<Rightarrow> any \<Rightarrow> int option" where
  "intVal oor v = (case v of ANum f \<Rightarrow> Some (int64_of oor f) | _ \<Rightarrow> None)"

definition setUsage :: "(flt \<Rightarrow> int) \<Rightarrow> any \<Rightarrow> any \<Rightarrow> usageCapture \<Rightarrow> usageCapture" where
  "setUsage oor inp out u =
     (let u = (case intVal oor inp of
                 Some v \<Rightarrow> if uc_inputTokens u = None
                           then u\<lparr>uc_inputTokens := Some v, uc_inputTokensSource := Some ''provider''\<rparr> else u
               | None \<Rightarrow> u)
      in case intVal oor out of
           Some v \<Rightarrow> if uc_outputTokens u = None
                     then u\<lparr>uc_outputTokens := Some v, uc_outputTokensSource := Some ''provider''\<rparr> else u
         | None \<Rightarrow> u)"

text \<open>The first of several places that holds a number.\<close>

definition first_some :: "'a option \<Rightarrow> 'a option \<Rightarrow> 'a option" where
  "first_some a b = (case a of Some x \<Rightarrow> Some x | None \<Rightarrow> b)"

definition cached_of :: "(flt \<Rightarrow> int) \<Rightarrow> any \<Rightarrow> int option" where
  "cached_of oor d = intVal oor (at (as_map d) ''cached_tokens'')"

definition setCacheFromUsage :: "(flt \<Rightarrow> int) \<Rightarrow> obj \<Rightarrow> usageCapture \<Rightarrow> usageCapture" where
  "setCacheFromUsage oor u c =
     c\<lparr>uc_cacheReadInputTokens :=
         first_some (uc_cacheReadInputTokens c) (first_some (cached_of oor (at u ''prompt_tokens_details''))
           (first_some (cached_of oor (at u ''input_tokens_details''))
             (first_some (intVal oor (at u ''prompt_cache_hit_tokens''))
               (intVal oor (at u ''cache_read_input_tokens''))))),
       uc_cacheCreationInputTokens :=
         first_some (uc_cacheCreationInputTokens c) (intVal oor (at u ''cache_creation_input_tokens''))\<rparr>"

definition setProviderCostFromUsage :: "(flt \<Rightarrow> int) \<Rightarrow> obj \<Rightarrow> usageCapture \<Rightarrow> usageCapture" where
  "setProviderCostFromUsage oor u c =
     (case at u ''cost'' of
        ANum f \<Rightarrow>
          if uc_providerCostMicros c \<noteq> None \<or> flt_pos (case f of Flt neg m e \<Rightarrow> Flt (\<not> neg) m e) then c
          else (let micros = flt_mul f (Flt False 1000000 0) in
                c\<lparr>uc_providerCostMicros := Some (in_int64 oor micros (rounded micros))\<rparr>)
      | _ \<Rightarrow> c)"

definition extractUsage :: "(flt \<Rightarrow> int) \<Rightarrow> string \<Rightarrow> usageCapture \<Rightarrow> usageCapture" where
  "extractUsage oor body c =
     (case unmarshal_map body of
        Some (Some payload) \<Rightarrow>
          (case at payload ''usage'' of
             AObj u \<Rightarrow>
               setProviderCostFromUsage oor u (setCacheFromUsage oor u
                 (setUsage oor (at u ''input_tokens'') (at u ''output_tokens'')
                   (setUsage oor (at u ''prompt_tokens'') (at u ''completion_tokens'') c)))
           | _ \<Rightarrow> c)
      | _ \<Rightarrow> c)"

text \<open>One usage block of a stream: which counts it may set depends on the protocol.\<close>

definition take_usage :: "(flt \<Rightarrow> int) \<Rightarrow> any \<Rightarrow> (obj \<Rightarrow> any \<times> any) \<Rightarrow> usageCapture \<Rightarrow> usageCapture" where
  "take_usage oor v counts c =
     (case v of AObj u \<Rightarrow>
        setProviderCostFromUsage oor u (setCacheFromUsage oor u (case counts u of (a, b) \<Rightarrow> setUsage oor a b c))
      | _ \<Rightarrow> c)"

definition captureStreamUsage :: "(flt \<Rightarrow> int) \<Rightarrow> obj \<Rightarrow> string \<Rightarrow> usageCapture \<Rightarrow> usageCapture" where
  "captureStreamUsage oor payload target c =
     (if target = ProtocolChat then
        take_usage oor (at payload ''usage'') (\<lambda>u. (at u ''prompt_tokens'', at u ''completion_tokens'')) c
      else if target = ProtocolMessages then
        take_usage oor (at (as_map (at payload ''message'')) ''usage'') (\<lambda>u. (at u ''input_tokens'', ANil))
          (take_usage oor (at payload ''usage'') (\<lambda>u. (ANil, at u ''output_tokens'')) c)
      else if target = ProtocolResponses then
        take_usage oor (at (as_map (at payload ''response'')) ''usage'')
          (\<lambda>u. (at u ''input_tokens'', at u ''output_tokens'')) c
      else c)"

definition promptTokens :: "usageCapture \<Rightarrow> int option" where
  "promptTokens c =
     (case uc_inputTokens c of None \<Rightarrow> None
      | Some v \<Rightarrow>
          Some (if uc_protocol c = ProtocolMessages
                then wrap64 (wrap64 (v + (case uc_cacheReadInputTokens c of Some n \<Rightarrow> n | None \<Rightarrow> 0))
                              + (case uc_cacheCreationInputTokens c of Some n \<Rightarrow> n | None \<Rightarrow> 0))
                else v))"

section \<open>Counts are never replaced\<close>

text \<open>What a capture knows, a later one still knows: the first count of each kind wins.\<close>

definition keeps :: "usageCapture \<Rightarrow> usageCapture \<Rightarrow> bool" where
  "keeps c d \<longleftrightarrow> uc_protocol d = uc_protocol c \<and>
     (\<forall>n. uc_inputTokens c = Some n \<longrightarrow> uc_inputTokens d = Some n) \<and>
     (\<forall>n. uc_outputTokens c = Some n \<longrightarrow> uc_outputTokens d = Some n) \<and>
     (\<forall>n. uc_cacheReadInputTokens c = Some n \<longrightarrow> uc_cacheReadInputTokens d = Some n) \<and>
     (\<forall>n. uc_cacheCreationInputTokens c = Some n \<longrightarrow> uc_cacheCreationInputTokens d = Some n) \<and>
     (\<forall>n. uc_providerCostMicros c = Some n \<longrightarrow> uc_providerCostMicros d = Some n)"

lemma keeps_refl [simp]: "keeps c c"
  by (simp add: keeps_def)

lemma keeps_trans [trans]: "keeps c d \<Longrightarrow> keeps d e \<Longrightarrow> keeps c e"
  by (simp add: keeps_def)

lemma first_some_Some [simp]: "first_some (Some x) b = Some x"
  by (simp add: first_some_def)

lemma keeps_setUsage: "keeps c (setUsage oor a b c)"
  by (simp add: keeps_def setUsage_def Let_def split: option.split)

lemma keeps_setCache: "keeps c (setCacheFromUsage oor u c)"
  by (simp add: keeps_def setCacheFromUsage_def)

lemma keeps_setCost: "keeps c (setProviderCostFromUsage oor u c)"
  by (simp add: keeps_def setProviderCostFromUsage_def Let_def split: any.split)

lemma keeps_take: "keeps c (take_usage oor v counts c)"
  by (auto simp: take_usage_def split: any.split prod.split
      intro: keeps_trans [OF keeps_setUsage keeps_trans [OF keeps_setCache keeps_setCost]])

lemma keeps_captureStreamUsage: "keeps c (captureStreamUsage oor payload target c)"
  by (auto simp: captureStreamUsage_def intro: keeps_take keeps_trans [OF keeps_take keeps_take])

lemma keeps_extractUsage: "keeps c (extractUsage oor body c)"
  by (auto simp: extractUsage_def split: option.split any.split
      intro: keeps_trans [OF keeps_setUsage keeps_trans [OF keeps_setUsage keeps_trans [OF keeps_setCache keeps_setCost]]])

end
