(* ===== verification/EventStream.thy ===== *)
theory EventStream
  imports UsageCapture
begin

text \<open>
  Reading server-sent events (\<open>readSSEEvent\<close> in \<open>internal/server/translate.go\<close>) and passing them
  through unchanged but for the model name (\<open>rewriteSSEObserved\<close> in \<open>client.go\<close>). A body is the bytes
  the upstream sent before the reader's own error, which is end of file or another one. The buffered
  reader hands out a line in fragments and checks the length after each, so a line is refused exactly
  when it is longer than the limit.
\<close>

section \<open>Lines\<close>

definition newline_char :: char where
  "newline_char = CHR 0x0A"

text \<open>Lengths are integers, so that they are compared in binary.\<close>

definition len :: "'a list \<Rightarrow> int" where
  "len s = int (length s)"

definition maxSSELineBytes :: int where
  "maxSSELineBytes = 2 ^ 20"

definition maxAccumulatedTextBytes :: int where
  "maxAccumulatedTextBytes = 8 * 1024 * 1024"

text \<open>The bytes up to the first newline, which they include, and the rest.\<close>

definition take_line :: "string \<Rightarrow> string \<times> string" where
  "take_line s = (case dropWhile (\<lambda>c. c \<noteq> newline_char) s of
     [] \<Rightarrow> (s, []) | c # cs \<Rightarrow> (takeWhile (\<lambda>c. c \<noteq> newline_char) s @ [c], cs))"

lemma take_line_append: "take_line s = (l, r) \<Longrightarrow> s = l @ r"
  by (auto simp: take_line_def split: list.splits)
     (metis takeWhile_dropWhile_id)

lemma take_line_shorter: "s \<noteq> [] \<Longrightarrow> length (snd (take_line s)) < length s"
proof -
  assume "s \<noteq> []"
  obtain l r where lr: "take_line s = (l, r)" by fastforce
  then have "l \<noteq> []" using \<open>s \<noteq> []\<close> by (auto simp: take_line_def split: list.splits)
  then show ?thesis using take_line_append [OF lr] lr by simp
qed

lemma take_line_rest: "(l, r) = take_line s \<Longrightarrow> s \<noteq> [] \<Longrightarrow> length r < length s"
  using take_line_shorter [of s] by (metis snd_conv)

definition trim_right_crlf :: "string \<Rightarrow> string" where
  "trim_right_crlf s = rev (dropWhile (\<lambda>c. c = CHR 0x0D \<or> c = CHR 0x0A) (rev s))"

section \<open>Events\<close>

record sseEvent =
  sse_Name :: string
  sse_Data :: string
  sse_ID :: string
  sse_Retry :: "int option"

definition no_event :: sseEvent where
  "no_event = \<lparr>sse_Name = [], sse_Data = [], sse_ID = [], sse_Retry = None\<rparr>"

text \<open>The reader's own error, or a limit.\<close>

datatype sse_error = LineLimit | EventLimit | ReaderError

definition field_of :: "string \<Rightarrow> string" where
  "field_of trim = before (CHR '':'') trim"

definition value_of :: "string \<Rightarrow> string" where
  "value_of trim = trim_prefix (after (CHR '':'') trim) '' ''"

definition add_data :: "string \<Rightarrow> sseEvent \<Rightarrow> sseEvent \<times> bool" where
  "add_data value e =
     (let sep = (if sse_Data e = [] then [] else sse_Data e @ [newline_char]) in
      if maxAccumulatedTextBytes < len sep + len value then (e\<lparr>sse_Data := sep\<rparr>, False)
      else (e\<lparr>sse_Data := sep @ value\<rparr>, True))"

definition sse_field :: "string \<Rightarrow> sseEvent \<Rightarrow> sseEvent \<times> bool" where
  "sse_field trim e =
     (let field = field_of trim; value = value_of trim in
      if field = ''event'' then (e\<lparr>sse_Name := value\<rparr>, True)
      else if field = ''data'' then add_data value e
      else if field = ''id'' then (e\<lparr>sse_ID := value\<rparr>, True)
      else if field = ''retry'' then
        (case sscan_int value of
           Some n \<Rightarrow> if 0 \<le> n then (e\<lparr>sse_Retry := Some n\<rparr>, True) else (e, True)
         | None \<Rightarrow> (e, True))
      else (e, True))"

definition event_given :: "sseEvent \<Rightarrow> bool" where
  "event_given e \<longleftrightarrow> sse_Data e \<noteq> [] \<or> sse_Name e \<noteq> [] \<or> sse_ID e \<noteq> [] \<or> sse_Retry e \<noteq> None"

text \<open>The event, what is left of the body, and the error.\<close>

function read_event :: "sseEvent \<Rightarrow> string \<Rightarrow> sseEvent \<times> string \<times> sse_error option" where
  "read_event e s =
     (if s = [] then (e, [], Some ReaderError)
      else
        (case take_line s of (line, rest) \<Rightarrow>
           if maxSSELineBytes < len line then (e, rest, Some LineLimit)
           else
             (case sse_field (trim_right_crlf line) e of (e', ok) \<Rightarrow>
                if \<not> ok then (e', rest, Some EventLimit)
                else if trim_right_crlf line = [] \<and> event_given e' then (e', rest, None)
                else read_event e' rest)))"
  by pat_completeness auto
termination by (relation "measure (\<lambda>(e, s). length s)") (auto intro: take_line_rest)

declare read_event.simps [simp del]

definition readSSEEvent :: "string \<Rightarrow> sseEvent \<times> string \<times> sse_error option" where
  "readSSEEvent s = read_event no_event s"

lemma read_event_shorter: "read_event e s = (e', rest, None) \<Longrightarrow> length rest < length s"
proof (induction e s rule: read_event.induct)
  case (1 e s)
  show ?case
  proof (cases "s = []")
    case True
    then show ?thesis using 1(2) by (subst (asm) read_event.simps) simp
  next
    case False
    obtain line r where lr: "take_line s = (line, r)" by fastforce
    obtain f ok where f: "sse_field (trim_right_crlf line) e = (f, ok)" by fastforce
    have r: "length r < length s" using take_line_shorter [OF False] lr by simp
    show ?thesis
    proof (cases "\<not> maxSSELineBytes < len line \<and> ok \<and> \<not> (trim_right_crlf line = [] \<and> event_given f)")
      case True
      then have "read_event f r = (e', rest, None)"
        using 1(2) False lr f by (subst (asm) read_event.simps) (auto split: if_splits)
      then have "length rest < length r"
        using 1(1) [OF False lr [symmetric] _ f [symmetric]] True by simp
      with r show ?thesis by simp
    next
      case no: False
      then show ?thesis using 1(2) False lr f r by (subst (asm) read_event.simps) (auto split: if_splits)
    qed
  qed
qed

text \<open>What an event carries is bounded: one byte more than the limit when it is refused.\<close>

lemma sse_field_bound:
  "sse_field t e = (e', ok) \<Longrightarrow> len (sse_Data e) \<le> maxAccumulatedTextBytes \<Longrightarrow>
     len (sse_Data e') \<le> maxAccumulatedTextBytes + (if ok then 0 else 1)"
  by (auto simp: sse_field_def add_data_def Let_def len_def maxAccumulatedTextBytes_def
      split: if_splits option.splits)

lemma read_event_bound:
  "read_event e s = (e', rest, err) \<Longrightarrow> len (sse_Data e) \<le> maxAccumulatedTextBytes \<Longrightarrow>
     len (sse_Data e') \<le> maxAccumulatedTextBytes + (if err = Some EventLimit then 1 else 0)"
proof (induction e s rule: read_event.induct)
  case (1 e s)
  show ?case
  proof (cases "s = []")
    case True
    then show ?thesis using 1(2,3) by (subst (asm) read_event.simps) simp
  next
    case False
    obtain line r where lr: "take_line s = (line, r)" by fastforce
    obtain f ok where f: "sse_field (trim_right_crlf line) e = (f, ok)" by fastforce
    note bound = sse_field_bound [OF f 1(3)]
    show ?thesis
    proof (cases "\<not> maxSSELineBytes < len line \<and> ok \<and> \<not> (trim_right_crlf line = [] \<and> event_given f)")
      case True
      then have "read_event f r = (e', rest, err)"
        using 1(2) False lr f by (subst (asm) read_event.simps) (auto split: if_splits)
      then show ?thesis using 1(1) [OF False lr [symmetric] _ f [symmetric]] True bound by simp
    next
      case no: False
      then show ?thesis using 1(2,3) False lr f bound
        by (subst (asm) read_event.simps) (auto split: if_splits)
    qed
  qed
qed

end
