(* ===== verification/StreamTranslation.thy ===== *)
theory StreamTranslation
  imports EventStream
begin

text \<open>
  Translation of event streams (\<open>internal/server/translate.go\<close>): the events of the target become
  protocol-neutral deltas (\<open>canonicalDeltas\<close>), each of which is written in the client's protocol
  (\<open>writeTranslatedEvent\<close>) or folded into one response (\<open>applyDelta\<close>). The code keeps pointers to tool
  calls in several places; here a tool call is an index into the list \<open>ss_toolCalls\<close>, so that what is
  shared there is shared here. The frames written so far are part of the state (\<open>ss_frames\<close>).
  \<open>clock n\<close> is the Unix time read for the \<open>n\<close>-th frame. Keepalive comments are not frames.
\<close>

section \<open>State and deltas\<close>

datatype delta_kind = Text | Reasoning | ReasoningState | Tool | Finish | Usage | Error

record canonicalDelta =
  d_Kind :: delta_kind
  d_Text :: string
  d_CallID :: string
  d_Name :: string
  d_Arguments :: string
  d_Finish :: string
  d_ArgumentDelta :: bool
  d_ArgumentFinal :: bool
  d_UpstreamIndex :: int
  d_HasUpstreamIndex :: bool
  d_ItemID :: string
  d_Usage :: any
  d_Detail :: obj

definition delta :: "delta_kind \<Rightarrow> canonicalDelta" where
  "delta k = \<lparr>d_Kind = k, d_Text = [], d_CallID = [], d_Name = [], d_Arguments = [], d_Finish = [],
     d_ArgumentDelta = False, d_ArgumentFinal = False, d_UpstreamIndex = 0, d_HasUpstreamIndex = False,
     d_ItemID = [], d_Usage = ANil, d_Detail = []\<rparr>"

definition text_delta :: "delta_kind \<Rightarrow> string \<Rightarrow> canonicalDelta" where
  "text_delta k t = (delta k)\<lparr>d_Text := t\<rparr>"

definition state_delta :: "any list \<Rightarrow> canonicalDelta" where
  "state_delta details = (delta ReasoningState)\<lparr>d_Detail := [(''details'', AArr details)]\<rparr>"

definition finish_delta :: "string \<Rightarrow> canonicalDelta" where
  "finish_delta f = (delta Finish)\<lparr>d_Finish := f\<rparr>"

definition usage_delta :: "any \<Rightarrow> canonicalDelta" where
  "usage_delta u = (delta Usage)\<lparr>d_Usage := u\<rparr>"

definition error_delta :: canonicalDelta where
  "error_delta = text_delta Error ''upstream stream error''"

record toolCallState =
  tc_callID :: string
  tc_name :: string
  tc_arguments :: string
  tc_itemID :: string
  tc_index :: int
  tc_ordinal :: int
  tc_finalArguments :: bool
  tc_deltaArguments :: bool

datatype streamOutput = MessageOut | ReasoningOut | ToolOut nat

datatype frame = Frame string any | DoneFrame

record streamState =
  ss_id :: string
  ss_model :: string
  ss_started :: bool
  ss_contentStarted :: bool
  ss_reasoningStarted :: bool
  ss_done :: bool
  ss_completed :: bool
  ss_outputIndex :: int
  ss_accumulated :: string
  ss_accumulatedBytes :: int
  ss_reasoningAccumulated :: string
  ss_nextIndex :: int
  ss_reasoningIndex :: int
  ss_messageIndex :: int
  ss_outputOrder :: "streamOutput list"
  ss_activeKind :: "delta_kind option"
  ss_activeIndex :: int
  ss_toolCalls :: "toolCallState list"
  ss_toolAliases :: "(string, nat) gomap"
  ss_toolArgumentBytes :: int
  ss_hasCacheReadTokens :: bool
  ss_hasCacheCreationTokens :: bool
  ss_cacheReadTokens :: int
  ss_cacheCreationTokens :: int
  ss_messagesToolsWritten :: bool
  ss_inputTokens :: int
  ss_outputTokens :: int
  ss_hasInputTokens :: bool
  ss_hasOutputTokens :: bool
  ss_reasoningDetails :: "any list"
  ss_frames :: "frame list"

definition new_stream :: "string \<Rightarrow> string \<Rightarrow> streamState" where
  "new_stream i model =
     \<lparr>ss_id = i, ss_model = model, ss_started = False, ss_contentStarted = False, ss_reasoningStarted = False,
      ss_done = False, ss_completed = False, ss_outputIndex = 0, ss_accumulated = [], ss_accumulatedBytes = 0,
      ss_reasoningAccumulated = [], ss_nextIndex = 0, ss_reasoningIndex = - 1, ss_messageIndex = - 1,
      ss_outputOrder = [], ss_activeKind = None, ss_activeIndex = 0, ss_toolCalls = [], ss_toolAliases = [],
      ss_toolArgumentBytes = 0, ss_hasCacheReadTokens = False, ss_hasCacheCreationTokens = False,
      ss_cacheReadTokens = 0, ss_cacheCreationTokens = 0, ss_messagesToolsWritten = False, ss_inputTokens = 0,
      ss_outputTokens = 0, ss_hasInputTokens = False, ss_hasOutputTokens = False, ss_reasoningDetails = [],
      ss_frames = []\<rparr>"

section \<open>Errors\<close>

datatype stream_err = TextLimit | ReasoningLimit | ArgumentLimit | TooManyCalls | StreamFailed | StreamIncomplete
  | StreamEOF | StreamRead | StateError

definition translatedStreamFailureClass :: "stream_err \<Rightarrow> string" where
  "translatedStreamFailureClass e =
     (case e of StreamFailed \<Rightarrow> ''upstream_stream_error'' | StreamIncomplete \<Rightarrow> ''upstream_stream_incomplete''
      | StreamEOF \<Rightarrow> ''upstream_stream_eof'' | StreamRead \<Rightarrow> ''upstream_read_error'' | _ \<Rightarrow> ''translation_error'')"

section \<open>Deltas of a Chat stream\<close>

definition coerceOrDefault :: "any \<Rightarrow> int \<Rightarrow> int" where
  "coerceOrDefault v fallback = (case coerceInt64 v of Some n \<Rightarrow> n | None \<Rightarrow> fallback)"

definition chat_call_delta :: "nat \<times> any \<Rightarrow> canonicalDelta" where
  "chat_call_delta ic =
     (let (index, raw) = ic; call = as_map raw; fn = as_map (at call ''function'') in
      (delta Tool)\<lparr>d_UpstreamIndex := coerceOrDefault (at call ''index'') (int index), d_HasUpstreamIndex := True,
         d_CallID := strField (at call ''id''), d_Name := strField (at fn ''name''),
         d_Arguments := strField (at fn ''arguments'')\<rparr>)"

definition text_deltas :: "delta_kind \<Rightarrow> any \<Rightarrow> canonicalDelta list" where
  "text_deltas k v = (if strField v = [] then [] else [text_delta k (strField v)])"

definition chat_choice_deltas :: "any \<Rightarrow> canonicalDelta list" where
  "chat_choice_deltas raw =
     (let d = as_map (at (as_map raw) ''delta'') in
      text_deltas Text (at d ''content'')
      @ (if strField (at d ''reasoning_content'') \<noteq> [] then text_deltas Reasoning (at d ''reasoning_content'')
         else text_deltas Reasoning (at d ''reasoning''))
      @ (if elems (at d ''reasoning_details'') = [] then [] else [state_delta (elems (at d ''reasoning_details''))])
      @ map chat_call_delta (List.enumerate 0 (elems (at d ''tool_calls''))))"

text \<open>The choices in order; a finish reason \<open>error\<close> drops everything gathered so far (\<open>None\<close>).\<close>

fun chat_choices :: "any list \<Rightarrow> canonicalDelta list \<Rightarrow> canonicalDelta list option" where
  "chat_choices [] out = Some out"
| "chat_choices (raw # rs) out =
     (let out = out @ chat_choice_deltas raw; f = strField (at (as_map raw) ''finish_reason'') in
      if f = [] then chat_choices rs out
      else if f = ''error'' then None
      else chat_choices rs (out @ [finish_delta f]))"

definition set_id :: "any \<Rightarrow> streamState \<Rightarrow> streamState" where
  "set_id v st = (case as_str v of Some i \<Rightarrow> st\<lparr>ss_id := i\<rparr> | None \<Rightarrow> st)"

definition chat_deltas :: "obj \<Rightarrow> streamState \<Rightarrow> canonicalDelta list \<times> bool \<times> streamState" where
  "chat_deltas payload st =
     (if at payload ''error'' \<noteq> ANil then ([error_delta], False, st)
      else
        (let st = set_id (at payload ''id'') st in
         case chat_choices (elems (at payload ''choices'')) [] of
           None \<Rightarrow> ([error_delta], False, st)
         | Some out \<Rightarrow>
             (out @ (if at payload ''usage'' = ANil then [] else [usage_delta (at payload ''usage'')]), False, st)))"

section \<open>Deltas of a Messages stream\<close>

definition start_deltas :: "obj \<Rightarrow> any \<Rightarrow> canonicalDelta list" where
  "start_deltas block index =
     (let k = at block ''type'' in
      (if is_str k ''tool_use'' then
         [(delta Tool)\<lparr>d_UpstreamIndex := coerceOrDefault index 0, d_HasUpstreamIndex := True,
            d_CallID := strField (at block ''id''), d_Name := strField (at block ''name'')\<rparr>]
       else [])
      @ (if is_str k ''thinking'' \<or> is_str k ''redacted_thinking'' then
           (case anthropicReasoningToChatDetails block (coerceOrDefault index 0) of
              Inr d \<Rightarrow> [state_delta [AObj d]] | Inl _ \<Rightarrow> [])
         else []))"

definition signature_detail :: "string \<Rightarrow> int \<Rightarrow> any" where
  "signature_detail sig index =
     AObj [(''type'', AStr ''reasoning.text''), (''text'', AStr []), (''signature'', AStr sig),
       (''format'', AStr ''anthropic-claude-v1''), (''index'', AInt index)]"

definition block_deltas :: "obj \<Rightarrow> any \<Rightarrow> canonicalDelta list" where
  "block_deltas d index =
     (case as_str (at d ''text'') of Some t \<Rightarrow> [text_delta Text t] | None \<Rightarrow> [])
     @ text_deltas Reasoning (at d ''thinking'')
     @ (let sig = strField (at d ''signature'') in
        if sig = [] then [] else [state_delta [signature_detail sig (coerceOrDefault index 0)]])
     @ (case as_str (at d ''partial_json'') of
          Some p \<Rightarrow> [(delta Tool)\<lparr>d_UpstreamIndex := coerceOrDefault index 0, d_HasUpstreamIndex := True,
                       d_Arguments := p\<rparr>]
        | None \<Rightarrow> [])"

definition pick :: "string list \<Rightarrow> obj \<Rightarrow> any" where
  "pick ks u = AObj (map (\<lambda>k. (k, at u k)) ks)"

definition usage_deltas :: "string list \<Rightarrow> any \<Rightarrow> canonicalDelta list" where
  "usage_deltas ks v = (if is_map v then [usage_delta (pick ks (as_map v))] else [])"

definition finish_deltas :: "any \<Rightarrow> canonicalDelta list" where
  "finish_deltas v = (if strField v = [] then [] else [finish_delta (strField v)])"

definition messages_deltas :: "string \<Rightarrow> obj \<Rightarrow> streamState \<Rightarrow> canonicalDelta list \<times> bool \<times> streamState" where
  "messages_deltas event payload st =
     (let index = at payload ''index'' in
      if event = ''message_start'' then
        (let message = as_map (at payload ''message'') in
         (usage_deltas [''input_tokens'', ''cache_read_input_tokens'', ''cache_creation_input_tokens'']
            (at message ''usage''), False, set_id (at message ''id'') st))
      else if event = ''content_block_start'' then
        ((if is_map (at payload ''content_block'') then start_deltas (as_map (at payload ''content_block'')) index
          else []), False, st)
      else if event = ''content_block_delta'' then
        ((if is_map (at payload ''delta'') then block_deltas (as_map (at payload ''delta'')) index else []), False, st)
      else if event = ''message_delta'' then
        (usage_deltas [''output_tokens'', ''cache_read_input_tokens''] (at payload ''usage'')
           @ finish_deltas (at (as_map (at payload ''delta'')) ''stop_reason''), False, st)
      else if event = ''message_stop'' then ([], True, st\<lparr>ss_completed := True\<rparr>)
      else if event = ''message_error'' \<or> event = ''error'' then ([error_delta], False, st)
      else ([], False, st))"

section \<open>Deltas of a Responses stream\<close>

definition responses_call_delta :: "obj \<Rightarrow> canonicalDelta" where
  "responses_call_delta payload =
     (case coerceInt64 (at payload ''output_index'') of
        Some n \<Rightarrow> (delta Tool)\<lparr>d_UpstreamIndex := n, d_HasUpstreamIndex := True\<rparr> | None \<Rightarrow> delta Tool)"

definition item_deltas :: "bool \<Rightarrow> obj \<Rightarrow> obj \<Rightarrow> canonicalDelta list" where
  "item_deltas done payload item =
     (let k = at item ''type'' in
      (if is_str k ''function_call'' then
         [(responses_call_delta payload)\<lparr>d_CallID := strField (at item ''call_id''),
            d_ItemID := strField (at item ''id''), d_Name := strField (at item ''name''),
            d_Arguments := (if done then strField (at item ''arguments'') else []), d_ArgumentFinal := done\<rparr>]
       else [])
      @ (if is_str k ''reasoning'' then
           (let details = responsesReasoningToChatDetails item in if details = [] then [] else [state_delta details])
         else []))"

definition responses_deltas :: "string \<Rightarrow> obj \<Rightarrow> streamState \<Rightarrow> canonicalDelta list \<times> bool \<times> streamState" where
  "responses_deltas event payload st =
     (let d = at payload ''delta'';
          call = (responses_call_delta payload)\<lparr>d_CallID := strField (at payload ''call_id''),
                    d_ItemID := strField (at payload ''item_id'')\<rparr>
      in
      if event = ''response.created'' then
        ([], False, set_id (at (as_map (at payload ''response'')) ''id'') st)
      else if event = ''response.output_text.delta'' then
        ((case as_str d of Some t \<Rightarrow> [text_delta Text t] | None \<Rightarrow> []), False, st)
      else if event = ''response.reasoning_summary_text.delta'' \<or> event = ''response.reasoning_text.delta'' then
        ((case as_str d of Some t \<Rightarrow> [text_delta Reasoning t] | None \<Rightarrow> []), False, st)
      else if event = ''response.function_call_arguments.delta'' then
        ([call\<lparr>d_Arguments := strField d, d_ArgumentDelta := True\<rparr>], False, st)
      else if event = ''response.function_call_arguments.done'' then
        ([call\<lparr>d_Arguments := strField (at payload ''arguments''), d_ArgumentFinal := True\<rparr>], False, st)
      else if event = ''response.output_item.added'' \<or> event = ''response.output_item.done'' then
        ((if is_map (at payload ''item'')
          then item_deltas (event = ''response.output_item.done'') payload (as_map (at payload ''item'')) else []),
         False, st)
      else if event = ''response.failed'' \<or> event = ''response.incomplete'' \<or> event = ''error'' then
        ([error_delta], False, st)
      else if event = ''response.completed'' then
        (let u = at (as_map (at payload ''response'')) ''usage'' in
         ((if is_map u then [usage_delta u] else [])
            @ [finish_delta (if ss_toolCalls st = [] then ''stop'' else ''tool_calls'')],
          True, st\<lparr>ss_completed := True\<rparr>))
      else ([], False, st))"

definition canonicalDeltas ::
  "string \<Rightarrow> obj \<Rightarrow> string \<Rightarrow> streamState \<Rightarrow> canonicalDelta list \<times> bool \<times> streamState" where
  "canonicalDeltas event payload target st =
     (if target = ProtocolChat then chat_deltas payload st
      else if target = ProtocolMessages then messages_deltas event payload st
      else responses_deltas event payload st)"

section \<open>Tool calls\<close>

definition maxAccumulatedToolArgumentBytes :: int where
  "maxAccumulatedToolArgumentBytes = 8 * 1024 * 1024"

definition maxStreamToolCalls :: int where
  "maxStreamToolCalls = 128"

definition tool_aliases :: "canonicalDelta \<Rightarrow> string list" where
  "tool_aliases d =
     (if d_ItemID d = [] then [] else [''item:'' @ d_ItemID d])
     @ (if d_CallID d = [] then [] else [''call:'' @ d_CallID d])
     @ (if d_HasUpstreamIndex d then [''index:'' @ itoa (d_UpstreamIndex d)] else [])"

fun first_alias :: "(string, nat) gomap \<Rightarrow> string list \<Rightarrow> nat option" where
  "first_alias m [] = None"
| "first_alias m (a # as) = (case gm_get m a of Some i \<Rightarrow> Some i | None \<Rightarrow> first_alias m as)"

definition new_call :: "int \<Rightarrow> toolCallState" where
  "new_call ordinal = \<lparr>tc_callID = [], tc_name = [], tc_arguments = [], tc_itemID = [], tc_index = - 1,
     tc_ordinal = ordinal, tc_finalArguments = False, tc_deltaArguments = False\<rparr>"

text \<open>The names a delta brings; an item without an id is known by its call id.\<close>

definition named_call :: "canonicalDelta \<Rightarrow> toolCallState \<Rightarrow> toolCallState" where
  "named_call d call =
     (let call = (if d_CallID d = [] then call else call\<lparr>tc_callID := d_CallID d\<rparr>);
          call = (if d_ItemID d = [] then call else call\<lparr>tc_itemID := d_ItemID d\<rparr>);
          call = (if tc_itemID call = [] then call\<lparr>tc_itemID := tc_callID call\<rparr> else call)
      in if d_Name d = [] then call else call\<lparr>tc_name := d_Name d\<rparr>)"

definition set_call :: "nat \<Rightarrow> toolCallState \<Rightarrow> streamState \<Rightarrow> streamState" where
  "set_call i call st = st\<lparr>ss_toolCalls := (ss_toolCalls st)[i := call]\<rparr>"

text \<open>The call a delta is about: a known one, or a new one at the end of the list.\<close>

definition find_call :: "canonicalDelta \<Rightarrow> streamState \<Rightarrow> (stream_err + streamState \<times> nat)" where
  "find_call d st =
     (case first_alias (ss_toolAliases st) (tool_aliases d) of
        Some i \<Rightarrow> Inr (st, i)
      | None \<Rightarrow>
          if maxStreamToolCalls \<le> len (ss_toolCalls st) then Inl TooManyCalls
          else Inr (st\<lparr>ss_toolCalls := ss_toolCalls st @ [new_call (len (ss_toolCalls st))]\<rparr>,
                    length (ss_toolCalls st)))"

definition applyToolDelta :: "canonicalDelta \<Rightarrow> streamState \<Rightarrow> (stream_err + streamState \<times> nat)" where
  "applyToolDelta d st =
     (case find_call d st of
        Inl e \<Rightarrow> Inl e
      | Inr (st, i) \<Rightarrow>
          (let st = st\<lparr>ss_toolAliases := List.fold (\<lambda>a m. gm_set a i m) (tool_aliases d) (ss_toolAliases st)\<rparr>;
               call = named_call d (ss_toolCalls st ! i);
               st = (if d_ArgumentFinal d
                     then st\<lparr>ss_toolArgumentBytes := ss_toolArgumentBytes st - len (tc_arguments call)\<rparr> else st);
               call = (if d_ArgumentFinal d then call\<lparr>tc_arguments := []\<rparr> else call)
           in if maxAccumulatedToolArgumentBytes - ss_toolArgumentBytes st < len (d_Arguments d) then Inl ArgumentLimit
              else Inr (set_call i (call\<lparr>tc_arguments := tc_arguments call @ d_Arguments d\<rparr>)
                          (st\<lparr>ss_toolArgumentBytes := ss_toolArgumentBytes st + len (d_Arguments d)\<rparr>), i)))"

section \<open>Usage of a stream\<close>

definition accumulateUsage :: "any \<Rightarrow> streamState \<Rightarrow> streamState" where
  "accumulateUsage v st = (case v of
     AObj u \<Rightarrow>
       (let inp = first_some (coerceInt64 (at u ''input_tokens'')) (coerceInt64 (at u ''prompt_tokens''));
            out = first_some (coerceInt64 (at u ''output_tokens'')) (coerceInt64 (at u ''completion_tokens''));
            st = (case inp of Some n \<Rightarrow> if ss_hasInputTokens st then st
                    else st\<lparr>ss_inputTokens := n, ss_hasInputTokens := True\<rparr> | None \<Rightarrow> st);
            st = (case out of Some n \<Rightarrow> if ss_hasOutputTokens st then st
                    else st\<lparr>ss_outputTokens := n, ss_hasOutputTokens := True\<rparr> | None \<Rightarrow> st);
            st = (case coerceInt64 (at u ''cache_read_input_tokens'') of
                    Some n \<Rightarrow> if ss_hasCacheReadTokens st then st
                      else st\<lparr>ss_cacheReadTokens := n, ss_hasCacheReadTokens := True\<rparr> | None \<Rightarrow> st)
        in (case coerceInt64 (at u ''cache_creation_input_tokens'') of
              Some n \<Rightarrow> if ss_hasCacheCreationTokens st then st
                else st\<lparr>ss_cacheCreationTokens := n, ss_hasCacheCreationTokens := True\<rparr> | None \<Rightarrow> st))
   | _ \<Rightarrow> st)"

definition stream_prompt :: "streamState \<Rightarrow> int" where
  "stream_prompt st = wrap64 (wrap64 (ss_inputTokens st + ss_cacheReadTokens st) + ss_cacheCreationTokens st)"

definition chatUsageDelta :: "streamState \<Rightarrow> obj" where
  "chatUsageDelta st =
     put_if (ss_hasOutputTokens st) ''completion_tokens'' (AInt (ss_outputTokens st))
       (put_if (ss_hasCacheReadTokens st) ''prompt_tokens_details'' (AObj [(''cached_tokens'', AInt (ss_cacheReadTokens st))])
         (put_if (ss_hasInputTokens st \<and> ss_hasOutputTokens st) ''total_tokens''
             (AInt (wrap64 (stream_prompt st + ss_outputTokens st)))
           (put_if (ss_hasInputTokens st) ''prompt_tokens'' (AInt (stream_prompt st)) [])))"

definition chatUsage :: "obj \<Rightarrow> obj" where
  "chatUsage u =
     (if has_key u ''prompt_tokens'' then u
      else
        (let c = (if has_key u ''input_tokens'' then
                    gm_del ''cache_creation_input_tokens'' (gm_del ''cache_read_input_tokens''
                      (gm_del ''input_tokens'' (gm_set ''prompt_tokens'' (openAIPromptTokens u) u)))
                  else u)
         in if has_key c ''output_tokens''
            then gm_del ''output_tokens'' (gm_set ''completion_tokens'' (at c ''output_tokens'') c) else c))"

section \<open>Frames\<close>

definition emit :: "string \<Rightarrow> (string \<times> any) list \<Rightarrow> streamState \<Rightarrow> streamState" where
  "emit event payload st = st\<lparr>ss_frames := ss_frames st @ [Frame event (AObj payload)]\<rparr>"

text \<open>A frame whose payload carries its event name as \<open>type\<close>, as in Messages and Responses streams.\<close>

definition emit_typed :: "string \<Rightarrow> (string \<times> any) list \<Rightarrow> streamState \<Rightarrow> streamState" where
  "emit_typed event kvs st = emit event ((''type'', AStr event) # kvs) st"

text \<open>\<open>writeSSE\<close>: the bytes of a frame.\<close>

definition render :: "frame \<Rightarrow> string" where
  "render f = (case f of
     DoneFrame \<Rightarrow> ''data: [DONE]'' @ [newline_char, newline_char]
   | Frame event payload \<Rightarrow>
       (if event = [] then [] else ''event: '' @ event @ [newline_char])
       @ ''data: '' @ marshal payload @ [newline_char, newline_char])"

definition frame_time :: "(nat \<Rightarrow> int) \<Rightarrow> streamState \<Rightarrow> any" where
  "frame_time clock st = AInt (clock (length (ss_frames st)))"

definition normalizeFinish :: "string \<Rightarrow> string" where
  "normalizeFinish v =
     (if v \<in> {''end_turn'', ''stop_sequence'', ''stop''} then ''stop''
      else if v \<in> {''max_tokens'', ''length''} then ''length''
      else if v \<in> {''tool_use'', ''tool_calls''} then ''tool_calls'' else v)"

definition normalizeAnthropicFinish :: "string \<Rightarrow> string" where
  "normalizeAnthropicFinish v =
     (if v \<in> {''stop'', ''end_turn''} then ''end_turn''
      else if v \<in> {''length'', ''max_tokens''} then ''max_tokens''
      else if v \<in> {''tool_calls'', ''tool_use''} then ''tool_use'' else v)"

definition emptyNil :: "string \<Rightarrow> any" where
  "emptyNil v = (if v = [] \<or> v = ''<nil>'' then ANil else AStr v)"

section \<open>Writing Chat\<close>

type_synonym step = "streamState \<times> stream_err option"

definition details_of :: "canonicalDelta \<Rightarrow> any list" where
  "details_of d = elems (at (d_Detail d) ''details'')"

definition chat_call :: "toolCallState \<Rightarrow> canonicalDelta \<Rightarrow> any" where
  "chat_call call d = AArr [AObj [(''index'', AInt (tc_ordinal call)), (''id'', emptyNil (d_CallID d)),
     (''type'', AStr ''function''),
     (''function'', AObj [(''name'', emptyNil (d_Name d)), (''arguments'', AStr (d_Arguments d))])]]"

definition chat_frame :: "(nat \<Rightarrow> int) \<Rightarrow> (string \<times> any) list \<Rightarrow> any list \<Rightarrow> streamState \<Rightarrow> streamState" where
  "chat_frame clock extra choices st =
     emit [] ([(''id'', AStr (ss_id st)), (''object'', AStr ''chat.completion.chunk''), (''created'', frame_time clock st),
               (''model'', AStr (ss_model st)), (''choices'', AArr choices)] @ extra) st"

text \<open>A chunk with one choice; \<open>role\<close> is what the first chunk announces.\<close>

definition chat_chunk ::
  "(nat \<Rightarrow> int) \<Rightarrow> (string \<times> any) list \<Rightarrow> (string \<times> any) list \<Rightarrow> any \<Rightarrow> streamState \<Rightarrow> streamState" where
  "chat_chunk clock role kvs fin st =
     chat_frame clock [] [AObj [(''index'', AInt 0), (''delta'', AObj (role @ kvs)), (''finish_reason'', fin)]] st"

text \<open>Whether the arguments of a delta are new to the client, and the marks it leaves on the call.\<close>

definition chat_tool :: "(nat \<Rightarrow> int) \<Rightarrow> (string \<times> any) list \<Rightarrow> canonicalDelta \<Rightarrow> streamState \<Rightarrow> step" where
  "chat_tool clock role d st =
     (case applyToolDelta d st of
        Inl e \<Rightarrow> (st, Some e)
      | Inr (st, i) \<Rightarrow>
          (let call = ss_toolCalls st ! i;
               write = (\<lambda>call. (chat_chunk clock role [(''tool_calls'', chat_call call d)] ANil (set_call i call st), None))
           in if d_ArgumentFinal d then
                (if tc_finalArguments call \<or> tc_deltaArguments call then (st, None)
                 else write (call\<lparr>tc_finalArguments := True\<rparr>))
              else write (if d_Arguments d = [] then call else call\<lparr>tc_deltaArguments := True\<rparr>)))"

definition write_chat :: "(nat \<Rightarrow> int) \<Rightarrow> canonicalDelta \<Rightarrow> streamState \<Rightarrow> step" where
  "write_chat clock d st =
     (let role = (if ss_started st then [] else [(''role'', AStr ''assistant'')]);
          st = st\<lparr>ss_started := True\<rparr>
      in case d_Kind d of
           Text \<Rightarrow> (chat_chunk clock role [(''content'', AStr (d_Text d))] ANil st, None)
         | Reasoning \<Rightarrow> (chat_chunk clock role [(''reasoning_content'', AStr (d_Text d))] ANil st, None)
         | ReasoningState \<Rightarrow>
             (chat_chunk clock role
                (if details_of d = [] then [] else [(''reasoning_details'', AArr (details_of d))]) ANil st, None)
         | Tool \<Rightarrow> chat_tool clock role d st
         | Finish \<Rightarrow> (chat_chunk clock role [] (AStr (normalizeFinish (d_Finish d))) st, None)
         | Error \<Rightarrow> (st, Some StreamFailed)
         | Usage \<Rightarrow>
             (let st = accumulateUsage (d_Usage d) st in
              (chat_frame clock [(''usage'', AObj (chatUsage (chatUsageDelta st)))] [] st, None)))"

section \<open>Writing Messages\<close>

definition closeMessagesBlock :: "streamState \<Rightarrow> streamState" where
  "closeMessagesBlock st =
     (if ss_activeKind st = None then st
      else (emit_typed ''content_block_stop'' [(''index'', AInt (ss_activeIndex st))] st)\<lparr>ss_activeKind := None\<rparr>)"

text \<open>Close the open block and open the next.\<close>

definition open_block :: "delta_kind \<Rightarrow> any \<Rightarrow> streamState \<Rightarrow> streamState" where
  "open_block k block st =
     (let st = closeMessagesBlock st;
          st = st\<lparr>ss_activeIndex := ss_nextIndex st, ss_nextIndex := ss_nextIndex st + 1\<rparr>
      in (emit_typed ''content_block_start'' [(''index'', AInt (ss_activeIndex st)), (''content_block'', block)] st)
           \<lparr>ss_activeKind := Some k\<rparr>)"

definition block_delta :: "(string \<times> any) list \<Rightarrow> streamState \<Rightarrow> streamState" where
  "block_delta d st =
     emit_typed ''content_block_delta'' [(''index'', AInt (ss_activeIndex st)), (''delta'', AObj d)] st"

definition messages_text :: "canonicalDelta \<Rightarrow> streamState \<Rightarrow> streamState" where
  "messages_text d st =
     (let st = (if ss_activeKind st = Some Text then st
                else (open_block Text (text_block []) st)\<lparr>ss_contentStarted := True\<rparr>)
      in block_delta [(''type'', AStr ''text_delta''), (''text'', AStr (d_Text d))] st)"

definition messages_reasoning :: "canonicalDelta \<Rightarrow> streamState \<Rightarrow> streamState" where
  "messages_reasoning d st =
     (let st = (if ss_activeKind st = Some Reasoning then st
                else (open_block Reasoning (thinking_of []) st)\<lparr>ss_reasoningStarted := True\<rparr>)
      in block_delta [(''type'', AStr ''thinking_delta''), (''thinking'', AStr (d_Text d))] st)"

definition messages_state_block :: "any \<Rightarrow> streamState \<Rightarrow> streamState" where
  "messages_state_block raw st =
     (let sig = strField (at (as_map raw) ''signature'') in
      if sig \<noteq> [] \<and> ss_activeKind st = Some Reasoning
      then block_delta [(''type'', AStr ''signature_delta''), (''signature'', AStr sig)] st
      else (open_block Reasoning raw st)\<lparr>ss_reasoningStarted := True\<rparr>)"

definition messages_call :: "toolCallState \<Rightarrow> streamState \<Rightarrow> streamState" where
  "messages_call call st =
     (let index = AInt (ss_nextIndex st);
          st = st\<lparr>ss_nextIndex := ss_nextIndex st + 1\<rparr>;
          st = emit_typed ''content_block_start'' [(''index'', index), (''content_block'',
                 AObj [(''type'', AStr ''tool_use''), (''id'', AStr (tc_callID call)), (''name'', AStr (tc_name call)),
                       (''input'', AObj [])])] st;
          st = (if tc_arguments call = [] then st
                else emit_typed ''content_block_delta'' [(''index'', index), (''delta'',
                       AObj [(''type'', AStr ''input_json_delta''), (''partial_json'', AStr (tc_arguments call))])] st)
      in emit_typed ''content_block_stop'' [(''index'', index)] st)"

definition messages_usage_block :: "streamState \<Rightarrow> any" where
  "messages_usage_block st =
     AObj (put_if (ss_hasCacheCreationTokens st) ''cache_creation_input_tokens'' (AInt (ss_cacheCreationTokens st))
       (put_if (ss_hasCacheReadTokens st) ''cache_read_input_tokens'' (AInt (ss_cacheReadTokens st))
         [(''input_tokens'', AInt (if ss_hasInputTokens st then ss_inputTokens st else 0)),
          (''output_tokens'', AInt (if ss_hasOutputTokens st then ss_outputTokens st else 0))]))"

definition messages_finish :: "string \<Rightarrow> streamState \<Rightarrow> streamState" where
  "messages_finish fin st =
     (let st = closeMessagesBlock st;
          st = (if ss_messagesToolsWritten st then st
                else (List.fold messages_call (ss_toolCalls st) st)\<lparr>ss_messagesToolsWritten := True\<rparr>)
      in emit_typed ''message_delta''
           [(''delta'', AObj [(''stop_reason'', AStr (normalizeAnthropicFinish fin)), (''stop_sequence'', ANil)]),
            (''usage'', messages_usage_block st)] st)"

definition messages_start :: "streamState \<Rightarrow> streamState" where
  "messages_start st =
     (if ss_started st then st
      else (emit_typed ''message_start'' [(''message'', AObj [(''id'', AStr (ss_id st)), (''type'', AStr ''message''),
              (''role'', AStr ''assistant''), (''model'', AStr (ss_model st)), (''content'', AArr []),
              (''stop_reason'', ANil), (''usage'', AObj [(''input_tokens'', AInt 0), (''output_tokens'', AInt 0)])])] st)
             \<lparr>ss_started := True\<rparr>)"

definition write_messages :: "canonicalDelta \<Rightarrow> streamState \<Rightarrow> step" where
  "write_messages d st =
     (let st = messages_start st in
      case d_Kind d of
        Usage \<Rightarrow> (accumulateUsage (d_Usage d) st, None)
      | Text \<Rightarrow> (messages_text d st, None)
      | Reasoning \<Rightarrow> (messages_reasoning d st, None)
      | ReasoningState \<Rightarrow>
          (case chatReasoningDetailsToAnthropic (AArr (details_of d)) of
             Inl e \<Rightarrow> (st, Some StateError)
           | Inr blocks \<Rightarrow> (List.fold messages_state_block blocks st, None))
      | Tool \<Rightarrow> (case applyToolDelta d st of Inl e \<Rightarrow> (st, Some e) | Inr (st, i) \<Rightarrow> (st, None))
      | Finish \<Rightarrow> (messages_finish (d_Finish d) st, None)
      | Error \<Rightarrow> (st, Some StreamFailed))"

section \<open>Writing Responses\<close>

definition responses_start :: "(nat \<Rightarrow> int) \<Rightarrow> streamState \<Rightarrow> streamState" where
  "responses_start clock st =
     (if ss_started st then st
      else (emit_typed ''response.created'' [(''response'', AObj [(''id'', AStr (ss_id st)), (''object'', AStr ''response''),
              (''created_at'', frame_time clock st), (''status'', AStr ''in_progress''), (''model'', AStr (ss_model st)),
              (''output'', AArr [])])] st)\<lparr>ss_started := True\<rparr>)"

definition msg_id :: "streamState \<Rightarrow> any" where
  "msg_id st = AStr (''msg_'' @ ss_id st)"

definition rs_id :: "streamState \<Rightarrow> any" where
  "rs_id st = AStr (''rs_'' @ ss_id st)"

text \<open>The next output index is taken for an item.\<close>

definition take_index :: "streamOutput \<Rightarrow> streamState \<Rightarrow> streamState" where
  "take_index out st = st\<lparr>ss_outputIndex := ss_nextIndex st, ss_nextIndex := ss_nextIndex st + 1,
                          ss_outputOrder := ss_outputOrder st @ [out]\<rparr>"

definition item_added :: "(string \<times> any) list \<Rightarrow> streamState \<Rightarrow> streamState" where
  "item_added item st =
     emit_typed ''response.output_item.added'' [(''output_index'', AInt (ss_outputIndex st)), (''item'', AObj item)] st"

definition responses_text_start :: "streamState \<Rightarrow> streamState" where
  "responses_text_start st =
     (if ss_contentStarted st then st
      else
        (let st = take_index MessageOut st;
             st = st\<lparr>ss_messageIndex := ss_outputIndex st\<rparr>;
             st = item_added [(''id'', msg_id st), (''type'', AStr ''message''), (''role'', AStr ''assistant''),
                    (''status'', AStr ''in_progress''), (''content'', AArr [])] st
         in (emit_typed ''response.content_part.added'' [(''output_index'', AInt (ss_outputIndex st)),
               (''content_index'', AInt 0), (''part'', output_text (AStr []))] st)\<lparr>ss_contentStarted := True\<rparr>))"

definition responses_text :: "canonicalDelta \<Rightarrow> streamState \<Rightarrow> step" where
  "responses_text d st =
     (let st = responses_text_start st in
      if maxAccumulatedTextBytes - ss_accumulatedBytes st < len (d_Text d) then (st, Some TextLimit)
      else
        (let st = st\<lparr>ss_accumulated := ss_accumulated st @ d_Text d,
                     ss_accumulatedBytes := ss_accumulatedBytes st + len (d_Text d)\<rparr>
         in (emit_typed ''response.output_text.delta'' [(''output_index'', AInt (ss_messageIndex st)),
               (''item_id'', msg_id st), (''content_index'', AInt 0), (''delta'', AStr (d_Text d))] st, None)))"

definition summary_part :: "string \<Rightarrow> any" where
  "summary_part t = AObj [(''type'', AStr ''summary_text''), (''text'', AStr t)]"

definition responses_reasoning_start :: "streamState \<Rightarrow> streamState" where
  "responses_reasoning_start st =
     (if ss_reasoningStarted st then st
      else
        (let st = take_index ReasoningOut st;
             st = st\<lparr>ss_reasoningIndex := ss_outputIndex st\<rparr>;
             st = item_added [(''id'', rs_id st), (''type'', AStr ''reasoning''), (''status'', AStr ''in_progress''),
                    (''summary'', AArr [])] st
         in (emit_typed ''response.reasoning_summary_part.added'' [(''output_index'', AInt (ss_outputIndex st)),
               (''summary_index'', AInt 0), (''part'', summary_part [])] st)\<lparr>ss_reasoningStarted := True\<rparr>))"

definition responses_reasoning :: "canonicalDelta \<Rightarrow> streamState \<Rightarrow> step" where
  "responses_reasoning d st =
     (let st = responses_reasoning_start st in
      if maxAccumulatedTextBytes - len (ss_reasoningAccumulated st) < len (d_Text d) then (st, Some ReasoningLimit)
      else
        (let st = st\<lparr>ss_reasoningAccumulated := ss_reasoningAccumulated st @ d_Text d\<rparr> in
         (emit_typed ''response.reasoning_summary_text.delta'' [(''output_index'', AInt (ss_reasoningIndex st)),
            (''item_id'', rs_id st), (''summary_index'', AInt 0), (''delta'', AStr (d_Text d))] st, None)))"

definition write_tool_item :: "canonicalDelta \<Rightarrow> streamState \<Rightarrow> step" where
  "write_tool_item d st =
     (case applyToolDelta d st of
        Inl e \<Rightarrow> (st, Some e)
      | Inr (st, i) \<Rightarrow>
          (let st = (if 0 \<le> tc_index (ss_toolCalls st ! i) then st
                     else
                       (let st = take_index (ToolOut i) st;
                            st = set_call i ((ss_toolCalls st ! i)\<lparr>tc_index := ss_outputIndex st\<rparr>) st
                        in item_added [(''type'', AStr ''function_call''), (''call_id'', AStr (d_CallID d)),
                             (''name'', AStr (d_Name d)), (''arguments'', AStr [])] st));
               call = ss_toolCalls st ! i
           in if d_Arguments d = [] then (st, None)
              else (emit_typed ''response.function_call_arguments.delta'' [(''output_index'', AInt (tc_index call)),
                      (''item_id'', AStr (tc_itemID call)), (''call_id'', AStr (tc_callID call)),
                      (''delta'', AStr (d_Arguments d))] st, None)))"

definition write_responses :: "(nat \<Rightarrow> int) \<Rightarrow> canonicalDelta \<Rightarrow> streamState \<Rightarrow> step" where
  "write_responses clock d st =
     (let st = responses_start clock st in
      case d_Kind d of
        Error \<Rightarrow> (st, Some StreamFailed)
      | ReasoningState \<Rightarrow>
          (case chatReasoningDetailsToResponses (AArr (details_of d)) of
             Inl e \<Rightarrow> (st, Some StateError) | Inr items \<Rightarrow> (st, None))
      | Text \<Rightarrow> responses_text d st
      | Reasoning \<Rightarrow> responses_reasoning d st
      | Tool \<Rightarrow> write_tool_item d st
      | Finish \<Rightarrow> (st, None)
      | Usage \<Rightarrow> (st, None))"

text \<open>Opaque state is gathered whatever the client's protocol.\<close>

definition writeTranslatedEvent ::
  "(nat \<Rightarrow> int) \<Rightarrow> string \<Rightarrow> canonicalDelta \<Rightarrow> streamState \<Rightarrow> step" where
  "writeTranslatedEvent clock incoming d st =
     (let st = (if d_Kind d = ReasoningState then st\<lparr>ss_reasoningDetails := ss_reasoningDetails st @ details_of d\<rparr>
                else st)
      in if incoming = ProtocolChat then write_chat clock d st
         else if incoming = ProtocolMessages then write_messages d st
         else write_responses clock d st)"

end
