(* ===== verification/StreamRelay.thy ===== *)
theory StreamRelay
  imports StreamTranslation
begin

text \<open>
  The end of a translated stream (\<open>writeStreamDone\<close>), the loop that reads events and writes frames
  (\<open>translateSSEObserved\<close>), the one that folds a stream into one response for a client that did not ask
  for a stream (\<open>relayNonstreamFromSSE\<close>), and the reverse (\<open>writeNonstreamAsSSE\<close>), all of
  \<open>internal/server/translate.go\<close>. Both loops recurse on the rest of the body, which every event shortens.
\<close>

section \<open>The end of a stream\<close>

text \<open>The encrypted blob of the opaque state: the reasoning item takes the last one, the final object the first.\<close>

definition encrypted_blobs :: "any list \<Rightarrow> string list" where
  "encrypted_blobs details =
     (case chatReasoningDetailsToResponses (AArr details) of
        Inl e \<Rightarrow> []
      | Inr items \<Rightarrow> filter (\<lambda>s. s \<noteq> []) (map (\<lambda>raw. strField (at (as_map raw) ''encrypted_content'')) items))"

definition responsesEncryptedFromDetails :: "any list \<Rightarrow> string" where
  "responsesEncryptedFromDetails details = (case encrypted_blobs details of [] \<Rightarrow> [] | b # bs \<Rightarrow> b)"

definition reasoning_item :: "streamState \<Rightarrow> any list \<Rightarrow> string list \<Rightarrow> (string \<times> any) list" where
  "reasoning_item st summary blobs =
     [(''id'', rs_id st), (''type'', AStr ''reasoning''), (''status'', AStr ''completed''), (''summary'', AArr summary)]
     @ (if blobs = [] then [] else [(''encrypted_content'', AStr (last blobs))])"

definition done_reasoning :: "streamState \<Rightarrow> streamState" where
  "done_reasoning st =
     (let blobs = encrypted_blobs (ss_reasoningDetails st); text = ss_reasoningAccumulated st;
          index = (''output_index'', AInt (ss_reasoningIndex st))
      in if ss_reasoningStarted st then
           emit_typed ''response.output_item.done'' [index, (''item'', AObj (reasoning_item st [summary_part text] blobs))]
             (emit_typed ''response.content_part.done'' [index, (''part'', summary_part text)]
               (emit_typed ''response.reasoning_summary_text.done'' [index, (''summary_index'', AInt 0), (''text'', AStr text)] st))
         else if ss_reasoningDetails st \<noteq> [] \<and> blobs \<noteq> [] then
           emit_typed ''response.output_item.done''
             [(''output_index'', AInt (ss_nextIndex st)), (''item'', AObj (reasoning_item st [] blobs))] st
         else st)"

definition call_output :: "toolCallState \<Rightarrow> any" where
  "call_output call = call_item (AStr (tc_callID call)) (AStr (tc_name call)) (AStr (tc_arguments call))"

definition done_call :: "toolCallState \<Rightarrow> streamState \<Rightarrow> streamState" where
  "done_call call st =
     (let index = (''output_index'', AInt (tc_index call)) in
      emit_typed ''response.output_item.done'' [index, (''item'', call_output call)]
        (emit_typed ''response.function_call_arguments.done'' [index, (''item_id'', AStr (tc_itemID call)),
           (''call_id'', AStr (tc_callID call)), (''arguments'', AStr (tc_arguments call))] st))"

definition message_output :: "streamState \<Rightarrow> any" where
  "message_output st = message_item (''msg_'' @ ss_id st) [output_text (AStr (ss_accumulated st))]"

definition done_text :: "streamState \<Rightarrow> streamState" where
  "done_text st =
     (let index = (''output_index'', AInt (ss_messageIndex st)); text = AStr (ss_accumulated st) in
      if ss_messageIndex st < 0 then st
      else emit_typed ''response.output_item.done'' [index, (''item'', message_output st)]
             (emit_typed ''response.content_part.done'' [index, (''content_index'', AInt 0), (''part'', output_text text)]
               (emit_typed ''response.output_text.done'' [index, (''content_index'', AInt 0), (''text'', text)] st)))"

text \<open>The reasoning item of the final object.\<close>

definition final_reasoning :: "streamState \<Rightarrow> any" where
  "final_reasoning st =
     (let enc = responsesEncryptedFromDetails (ss_reasoningDetails st) in
      AObj (reasoning_item st [summary_part (ss_reasoningAccumulated st)] (if enc = [] then [] else [enc])))"

definition output_item :: "streamState \<Rightarrow> streamOutput \<Rightarrow> any" where
  "output_item st out = (case out of
     ReasoningOut \<Rightarrow> final_reasoning st | MessageOut \<Rightarrow> message_output st
   | ToolOut i \<Rightarrow> call_output (ss_toolCalls st ! i))"

definition final_output :: "streamState \<Rightarrow> any list" where
  "final_output st =
     (let output = (if ss_messageIndex st < 0 then [] else [message_output st]) in
      if ss_reasoningStarted st \<or> ss_toolCalls st \<noteq> [] then
        (if 1 < length (ss_outputOrder st) then map (output_item st) (ss_outputOrder st)
         else if ss_reasoningStarted st then final_reasoning st # output
         else output @ map call_output (ss_toolCalls st))
      else output)"

definition final_usage :: "streamState \<Rightarrow> (string \<times> any) list" where
  "final_usage st =
     (let usage = chatUsageDelta st in
      if has_key usage ''prompt_tokens'' then
        [(''usage'', AObj ([(''input_tokens'', at usage ''prompt_tokens''),
            (''input_tokens_details'', AObj [(''cached_tokens'', AInt (ss_cacheReadTokens st))])]
          @ (if has_key usage ''completion_tokens'' then [(''output_tokens'', at usage ''completion_tokens'')] else [])
          @ (if has_key usage ''total_tokens'' then [(''total_tokens'', at usage ''total_tokens'')] else [])))]
      else [])"

definition responses_done :: "(nat \<Rightarrow> int) \<Rightarrow> streamState \<Rightarrow> streamState" where
  "responses_done clock st =
     (let st = done_text (List.fold done_call (ss_toolCalls st) (done_reasoning st)) in
      emit_typed ''response.completed'' [(''response'', AObj ([(''id'', AStr (ss_id st)), (''object'', AStr ''response''),
        (''created_at'', frame_time clock st), (''status'', AStr ''completed''), (''model'', AStr (ss_model st)),
        (''output'', AArr (final_output st))] @ final_usage st))] st)"

definition writeStreamDone :: "(nat \<Rightarrow> int) \<Rightarrow> string \<Rightarrow> streamState \<Rightarrow> streamState" where
  "writeStreamDone clock incoming st =
     (if ss_done st then st
      else
        (let st = st\<lparr>ss_done := True\<rparr> in
         if incoming = ProtocolChat then st\<lparr>ss_frames := ss_frames st @ [DoneFrame]\<rparr>
         else if incoming = ProtocolMessages then
           emit_typed ''message_stop'' []
             (if \<not> ss_started st \<or> (\<not> ss_messagesToolsWritten st \<and> ss_toolCalls st \<noteq> [])
              then fst (writeTranslatedEvent clock incoming (finish_delta ''stop'') st)
              else closeMessagesBlock st)
         else responses_done clock st))"

section \<open>Translating a stream\<close>

datatype read_end = EndOfFile | UnexpectedEOF | ReadFailed

definition translatedStreamReadError :: "read_end \<Rightarrow> stream_err" where
  "translatedStreamReadError e = (case e of ReadFailed \<Rightarrow> StreamRead | _ \<Rightarrow> StreamEOF)"

text \<open>The deltas of one event, in order, up to the first error.\<close>

fun write_deltas ::
  "(nat \<Rightarrow> int) \<Rightarrow> string \<Rightarrow> stream_err \<Rightarrow> canonicalDelta list \<Rightarrow> streamState \<Rightarrow> step" where
  "write_deltas clock incoming failed [] st = (st, None)"
| "write_deltas clock incoming failed (d # ds) st =
     (if d_Kind d = Error then (st, Some failed)
      else (case writeTranslatedEvent clock incoming d st of
              (st, Some e) \<Rightarrow> (st, Some e)
            | (st, None) \<Rightarrow> write_deltas clock incoming failed ds st))"

datatype progress = Finished streamState | Failed streamState stream_err | More streamState

text \<open>One event of the loop; data that is not an object is skipped.\<close>

definition translate_event ::
  "(nat \<Rightarrow> int) \<Rightarrow> (flt \<Rightarrow> int) \<Rightarrow> string \<Rightarrow> string \<Rightarrow> sseEvent \<Rightarrow> streamState \<times> usageCapture \<Rightarrow> progress \<times> usageCapture" where
  "translate_event clock oor incoming target e su =
     (let (st, u) = su in
      if sse_Data e = ''[DONE]'' then (Finished (writeStreamDone clock incoming (st\<lparr>ss_completed := True\<rparr>)), u)
      else if sse_Data e = [] then (More st, u)
      else
        (case unmarshal_map (sse_Data e) of
           None \<Rightarrow> (More st, u)
         | Some payload \<Rightarrow>
             (let payload = (case payload of Some m \<Rightarrow> m | None \<Rightarrow> []);
                  u = captureStreamUsage oor payload target u;
                  (deltas, done, st) = canonicalDeltas (sse_Name e) payload target st;
                  failed = (if target = ProtocolResponses \<and> sse_Name e = ''response.incomplete''
                            then StreamIncomplete else StreamFailed)
              in case write_deltas clock incoming failed deltas st of
                   (st, Some err) \<Rightarrow> (Failed st err, u)
                 | (st, None) \<Rightarrow>
                     (if done then (Finished (writeStreamDone clock incoming (st\<lparr>ss_completed := True\<rparr>)), u)
                      else (More st, u)))))"

lemma readSSEEvent_shorter: "(e, rest, None) = readSSEEvent s \<Longrightarrow> length rest < length s"
  by (metis read_event_shorter readSSEEvent_def)

function translate_loop ::
  "(nat \<Rightarrow> int) \<Rightarrow> (flt \<Rightarrow> int) \<Rightarrow> string \<Rightarrow> string \<Rightarrow> read_end \<Rightarrow> string \<Rightarrow> streamState \<times> usageCapture
     \<Rightarrow> step \<times> usageCapture" where
  "translate_loop clock oor incoming target end s su =
     (case readSSEEvent s of
        (e, rest, err) \<Rightarrow>
          (case translate_event clock oor incoming target e su of
             (Finished st, u) \<Rightarrow> ((st, None), u)
           | (Failed st f, u) \<Rightarrow> ((st, Some f), u)
           | (More st, u) \<Rightarrow>
               (case err of
                  None \<Rightarrow> translate_loop clock oor incoming target end rest (st, u)
                | Some ReaderError \<Rightarrow>
                    (if end = EndOfFile \<and> ss_completed st then ((writeStreamDone clock incoming st, None), u)
                     else ((st, Some (translatedStreamReadError end)), u))
                | Some _ \<Rightarrow> ((st, Some StreamRead), u))))"
  by pat_completeness auto
termination
  by (relation "measure (\<lambda>(clock, oor, incoming, target, end, s, su). length s)")
     (auto intro: readSSEEvent_shorter)

declare translate_loop.simps [simp del]

definition translateSSEObserved ::
  "(nat \<Rightarrow> int) \<Rightarrow> (flt \<Rightarrow> int) \<Rightarrow> string \<Rightarrow> string \<Rightarrow> string \<Rightarrow> string \<Rightarrow> read_end \<Rightarrow> string \<Rightarrow> usageCapture
     \<Rightarrow> step \<times> usageCapture" where
  "translateSSEObserved clock oor i incoming target model end s u =
     translate_loop clock oor incoming target end s (new_stream i model, u)"

definition writeStreamFailure :: "string \<Rightarrow> string \<Rightarrow> string \<Rightarrow> string \<Rightarrow> frame" where
  "writeStreamFailure protocol code i model =
     (let message = AStr ''The upstream stream could not be completed.'' in
      if protocol = ProtocolMessages then
        Frame ''error'' (AObj [(''type'', AStr ''error''),
          (''error'', AObj [(''type'', AStr ''api_error''), (''message'', message)])])
      else if protocol = ProtocolResponses then
        Frame ''response.failed'' (AObj [(''type'', AStr ''response.failed''), (''response'', AObj [(''id'', AStr i),
          (''object'', AStr ''response''), (''status'', AStr ''failed''), (''model'', AStr model), (''output'', AArr []),
          (''error'', AObj [(''code'', AStr code), (''message'', message)])])])
      else Frame [] (AObj [(''error'', AObj [(''type'', AStr ''server_error''), (''code'', AStr code),
             (''message'', message)])]))"

section \<open>Folding a stream into a response\<close>

definition applyDelta :: "canonicalDelta \<Rightarrow> streamState \<Rightarrow> step" where
  "applyDelta d st =
     (case d_Kind d of
        Text \<Rightarrow>
          (if maxAccumulatedTextBytes - ss_accumulatedBytes st < len (d_Text d) then (st, Some TextLimit)
           else (st\<lparr>ss_accumulated := ss_accumulated st @ d_Text d,
                    ss_accumulatedBytes := ss_accumulatedBytes st + len (d_Text d)\<rparr>, None))
      | Reasoning \<Rightarrow>
          (if maxAccumulatedTextBytes - len (ss_reasoningAccumulated st) < len (d_Text d) then (st, Some ReasoningLimit)
           else (st\<lparr>ss_reasoningAccumulated := ss_reasoningAccumulated st @ d_Text d\<rparr>, None))
      | ReasoningState \<Rightarrow> (st\<lparr>ss_reasoningDetails := ss_reasoningDetails st @ details_of d\<rparr>, None)
      | Tool \<Rightarrow> (case applyToolDelta d st of Inl e \<Rightarrow> (st, Some e) | Inr (st, i) \<Rightarrow> (st, None))
      | _ \<Rightarrow> (st, None))"

fun fold_deltas :: "canonicalDelta list \<Rightarrow> streamState \<times> string \<Rightarrow> (streamState \<times> string) \<times> stream_err option" where
  "fold_deltas [] sf = (sf, None)"
| "fold_deltas (d # ds) (st, fin) =
     (if d_Kind d = Error then ((st, fin), Some StreamFailed)
      else if d_Kind d = Usage then fold_deltas ds (st, fin)
      else if d_Kind d = Finish \<and> d_Finish d \<noteq> [] then fold_deltas ds (st, d_Finish d)
      else (case applyDelta d st of
              (st, Some e) \<Rightarrow> ((st, fin), Some e) | (st, None) \<Rightarrow> fold_deltas ds (st, fin)))"

definition call_value :: "toolCallState \<Rightarrow> any" where
  "call_value call = fn_call (AStr (tc_callID call)) (AStr (tc_name call)) (AStr (tc_arguments call))"

definition aggregated_message :: "streamState \<Rightarrow> obj" where
  "aggregated_message st =
     put_if (ss_toolCalls st \<noteq> []) ''tool_calls'' (AArr (map call_value (ss_toolCalls st)))
       (put_if (ss_reasoningDetails st \<noteq> []) ''reasoning_details'' (AArr (ss_reasoningDetails st))
         (put_if (ss_reasoningAccumulated st \<noteq> []) ''reasoning_content'' (AStr (ss_reasoningAccumulated st))
           [(''role'', AStr ''assistant''), (''content'', AStr (ss_accumulated st))]))"

definition put_count :: "string list \<Rightarrow> int option \<Rightarrow> obj \<Rightarrow> obj" where
  "put_count ks n m = (case n of Some v \<Rightarrow> List.fold (\<lambda>k. gm_set k (AInt v)) ks m | None \<Rightarrow> m)"

definition aggregated_usage :: "usageCapture \<Rightarrow> obj" where
  "aggregated_usage u =
     (let prompt = promptTokens u; out = uc_outputTokens u in
      put_count [''cache_creation_input_tokens''] (uc_cacheCreationInputTokens u)
        (put_count [''cache_read_input_tokens''] (uc_cacheReadInputTokens u)
          (put_count [''total_tokens'']
             (case prompt of Some p \<Rightarrow> map_option (\<lambda>n. wrap64 (p + n)) out | None \<Rightarrow> None)
            (put_count [''completion_tokens'', ''output_tokens''] out
              (put_count [''prompt_tokens'', ''input_tokens''] prompt [])))))"

definition aggregatedNonstreamChat :: "int \<Rightarrow> string \<Rightarrow> string \<Rightarrow> string \<Rightarrow> usageCapture \<Rightarrow> streamState \<Rightarrow> obj" where
  "aggregatedNonstreamChat now incoming model fin u st =
     (let fin = (if ss_toolCalls st \<noteq> [] \<and> (fin = ''stop'' \<or> fin = []) then ''tool_calls'' else fin);
          chat = chat_completion now (AStr (ss_id st)) model (aggregated_message st) (normalizeFinish fin)
                   (AObj (aggregated_usage u))
      in if incoming = ProtocolMessages then chatResponseToMessages chat model
         else if incoming = ProtocolResponses then chatResponseToResponses now chat model
         else chat)"

text \<open>The events of the body up to the end of the stream; a stream that just ends is accepted.\<close>

function aggregate_loop ::
  "(flt \<Rightarrow> int) \<Rightarrow> string \<Rightarrow> read_end \<Rightarrow> string \<Rightarrow> (streamState \<times> string) \<times> usageCapture
     \<Rightarrow> stream_err + (streamState \<times> string) \<times> usageCapture" where
  "aggregate_loop oor target end s acc =
     (case readSSEEvent s of
        (e, rest, err) \<Rightarrow>
          (let ((st, fin), u) = acc;
               stop = (\<lambda>acc. case err of
                 None \<Rightarrow> aggregate_loop oor target end rest acc
               | Some ReaderError \<Rightarrow> if end = EndOfFile then Inr acc else Inl StreamRead
               | Some _ \<Rightarrow> Inl StreamRead)
           in if sse_Data e = ''[DONE]'' then Inr acc
              else if sse_Data e = [] then stop acc
              else
                (case unmarshal_map (sse_Data e) of
                   None \<Rightarrow> stop acc
                 | Some payload \<Rightarrow>
                     (let payload = (case payload of Some m \<Rightarrow> m | None \<Rightarrow> []);
                          u = captureStreamUsage oor payload target u;
                          (deltas, done, st) = canonicalDeltas (sse_Name e) payload target st
                      in case fold_deltas deltas (st, fin) of
                           (sf, Some f) \<Rightarrow> Inl f
                         | (sf, None) \<Rightarrow> if done then Inr (sf, u) else stop (sf, u)))))"
  by pat_completeness auto
termination
  by (relation "measure (\<lambda>(oor, target, end, s, acc). length s)") (auto intro: readSSEEvent_shorter)

declare aggregate_loop.simps [simp del]

definition relayNonstreamFromSSE ::
  "int \<Rightarrow> (flt \<Rightarrow> int) \<Rightarrow> string \<Rightarrow> string \<Rightarrow> string \<Rightarrow> string \<Rightarrow> read_end \<Rightarrow> string \<Rightarrow> usageCapture
     \<Rightarrow> stream_err + obj" where
  "relayNonstreamFromSSE now oor i incoming target model end s u =
     (case aggregate_loop oor target end s ((new_stream i model, ''stop''), u) of
        Inl e \<Rightarrow> Inl e
      | Inr ((st, fin), u) \<Rightarrow> Inr (aggregatedNonstreamChat now incoming model fin u st))"

section \<open>A complete response as a stream\<close>

definition messageText :: "any \<Rightarrow> string" where
  "messageText v = (case as_str v of Some t \<Rightarrow> t
     | None \<Rightarrow> concat (map (\<lambda>raw. strField (at (as_map raw) ''text'')) (elems v)))"

definition call_delta :: "nat \<times> any \<Rightarrow> canonicalDelta" where
  "call_delta ic =
     (let (index, raw) = ic; call = as_map raw; fn = as_map (at call ''function'') in
      (delta Tool)\<lparr>d_UpstreamIndex := int index, d_HasUpstreamIndex := True, d_CallID := strField (at call ''id''),
         d_Name := strField (at fn ''name''), d_Arguments := strField (at fn ''arguments'')\<rparr>)"

text \<open>The deltas of a completion: reasoning, text, calls, finish. Their errors are ignored.\<close>

definition completion_deltas :: "obj \<Rightarrow> canonicalDelta list" where
  "completion_deltas chat =
     (let message = choice_message chat; fin = strField (at (first_choice chat) ''finish_reason'') in
      text_deltas Reasoning (at message ''reasoning_content'')
      @ (if messageText (at message ''content'') = [] then [] else [text_delta Text (messageText (at message ''content''))])
      @ map call_delta (List.enumerate 0 (elems (at message ''tool_calls'')))
      @ [finish_delta (if fin = [] then ''stop'' else fin)])"

definition write_ignoring :: "(nat \<Rightarrow> int) \<Rightarrow> string \<Rightarrow> canonicalDelta \<Rightarrow> streamState \<Rightarrow> streamState" where
  "write_ignoring clock incoming d st = fst (writeTranslatedEvent clock incoming d st)"

text \<open>\<open>None\<close> is the panic of assigning to the nil map that a body \<open>null\<close> decodes to.\<close>

definition writeNonstreamAsSSE ::
  "(nat \<Rightarrow> int) \<Rightarrow> int \<Rightarrow> string \<Rightarrow> string \<Rightarrow> string \<Rightarrow> string \<Rightarrow> streamState option" where
  "writeNonstreamAsSSE clock now i incoming model body =
     (case unmarshal_map body of
        None \<Rightarrow> Some (writeStreamDone clock incoming ((new_stream i model)\<lparr>ss_completed := True\<rparr>))
      | Some src \<Rightarrow>
          if src = None \<and> incoming = ProtocolChat then None
          else
            (let chat = responseToChat now (case src of Some m \<Rightarrow> m | None \<Rightarrow> []) incoming model;
                 st = (new_stream i model)
                        \<lparr>ss_id := (if strField (at chat ''id'') = [] then i else strField (at chat ''id''))\<rparr>;
                 st = List.fold (write_ignoring clock incoming) (completion_deltas chat) st
             in Some (writeStreamDone clock incoming (st\<lparr>ss_completed := True\<rparr>))))"

end
