(* ===== verification/StreamLaws.thy ===== *)
theory StreamLaws
  imports StreamRelay
begin

text \<open>
  Laws of translated streams. A run of the loop is a run of steps, so an invariant of one delta and of
  the end of the stream is an invariant of the whole body (locale \<open>stream_invariant\<close>). It is interpreted on
  the grammar of Messages streams, on the bounds of what a stream may accumulate, on the tool calls, and
  on the text a client has seen.
\<close>

lemma completed_mark: "ss_completed st \<Longrightarrow> st\<lparr>ss_completed := True\<rparr> = st"
  by (cases st) simp

section \<open>Invariants of a stream\<close>

text \<open>\<open>I\<close> holds between deltas, \<open>F\<close> once the stream was ended, \<open>D\<close> of every delta the target can give.
  Reading an event may only change the id and the completion mark.\<close>

locale stream_invariant =
  fixes clock :: "nat \<Rightarrow> int" and incoming :: string and target :: string and D :: "canonicalDelta \<Rightarrow> bool" and I :: "streamState \<Rightarrow> bool"
    and F :: "streamState \<Rightarrow> bool"
  assumes source: "canonicalDeltas event payload target st = (ds, dn, st') \<Longrightarrow> d \<in> set ds \<Longrightarrow> D d"
    and step: "I st \<Longrightarrow> D d \<Longrightarrow> d_Kind d \<noteq> Error \<Longrightarrow> I (fst (writeTranslatedEvent clock incoming d st))"
    and finish: "I st \<Longrightarrow> F (writeStreamDone clock incoming (st\<lparr>ss_completed := True\<rparr>))"
    and marks: "I st \<Longrightarrow> I (st\<lparr>ss_id := i\<rparr>)" "I st \<Longrightarrow> I (st\<lparr>ss_completed := c\<rparr>)"
begin

lemma deltas: "I st \<Longrightarrow> (\<And>d. d \<in> set ds \<Longrightarrow> D d) \<Longrightarrow> I (fst (write_deltas clock incoming failed ds st))"
proof (induction ds arbitrary: st)
  case (Cons d ds)
  show ?case
  proof (cases "d_Kind d = Error")
    case False
    obtain st' e where w: "writeTranslatedEvent clock incoming d st = (st', e)" by fastforce
    with step [OF Cons.prems(1) _ False] Cons.prems(2) have "I st'" by simp
    then show ?thesis using w False Cons by (cases e) simp_all
  qed (simp add: Cons.prems)
qed simp

lemma set_id: "I st \<Longrightarrow> I (set_id v st)"
  using marks by (simp add: set_id_def split: option.split)

lemma canonical: "I st \<Longrightarrow> canonicalDeltas event payload target st = (ds, dn, st') \<Longrightarrow> I st'"
  using marks set_id
  by (auto simp: canonicalDeltas_def chat_deltas_def messages_deltas_def responses_deltas_def Let_def
      split: if_splits option.splits)

text \<open>What the state of a progress satisfies.\<close>

definition holds :: "progress \<Rightarrow> bool" where
  "holds p = (case p of Finished st \<Rightarrow> F st | Failed st e \<Rightarrow> I st | More st \<Rightarrow> I st)"

lemma event: "I st \<Longrightarrow> holds (fst (translate_event clock oor incoming target e (st, u)))"
proof -
  assume I: "I st"
  show ?thesis
  proof (cases "unmarshal_map (sse_Data e)")
    case None
    then show ?thesis using I finish by (simp add: translate_event_def holds_def)
  next
    case (Some payload)
    let ?p = "case payload of Some m \<Rightarrow> m | None \<Rightarrow> []"
    obtain ds dn st1 where c: "canonicalDeltas (sse_Name e) ?p target st = (ds, dn, st1)"
      by (metis prod_cases3)
    let ?failed = "if target = ProtocolResponses \<and> sse_Name e = ''response.incomplete'' then StreamIncomplete else StreamFailed"
    obtain st2 err where w: "write_deltas clock incoming ?failed ds st1 = (st2, err)" by fastforce
    have "I st2" using deltas [OF canonical [OF I c] source [OF c], of ds ?failed] w by simp
    with Some c w I finish show ?thesis
      by (simp add: translate_event_def holds_def Let_def split: option.split)
  qed
qed

text \<open>The body: \<open>F\<close> when the stream was completed, \<open>I\<close> when it failed.\<close>

lemma loop:
  "I (fst su) \<Longrightarrow> translate_loop clock oor incoming target end s su = ((st, err), u) \<Longrightarrow>
     (if err = None then F st else I st)"
proof (induction s arbitrary: su rule: measure_induct_rule [of length])
  case (less s)
  obtain e rest err1 where r: "readSSEEvent s = (e, rest, err1)" by (metis prod_cases3)
  obtain p u1 where p: "translate_event clock oor incoming target e su = (p, u1)" by fastforce
  have h: "holds p" using event [OF less.prems(1), of oor e "snd su"] p by simp
  have t: "(case p of Finished st \<Rightarrow> ((st, None), u1) | Failed st f \<Rightarrow> ((st, Some f), u1)
      | More st \<Rightarrow> (case err1 of
           None \<Rightarrow> translate_loop clock oor incoming target end rest (st, u1)
         | Some ReaderError \<Rightarrow>
             (if end = EndOfFile \<and> ss_completed st then ((writeStreamDone clock incoming st, None), u1)
              else ((st, Some (translatedStreamReadError end)), u1))
         | Some _ \<Rightarrow> ((st, Some StreamRead), u1))) = ((st, err), u)"
    using less.prems(2) by (subst (asm) translate_loop.simps) (simp add: r p split: progress.splits)
  show ?case
  proof (cases p)
    case (More st1)
    with h have I1: "I st1" by (simp add: holds_def)
    show ?thesis
    proof (cases err1)
      case None
      have "length rest < length s" using readSSEEvent_shorter r None by metis
      then show ?thesis using less.IH [of rest "(st1, u1)"] I1 t More None by simp
    next
      case (Some x)
      have "F (writeStreamDone clock incoming st1)" if "ss_completed st1"
        using finish [OF I1] by (simp add: completed_mark that)
      with I1 t More Some show ?thesis by (cases x) (auto split: if_splits)
    qed
  qed (use t h in \<open>auto simp: holds_def\<close>)
qed

lemma stream:
  assumes "I (new_stream i model)"
    and "translateSSEObserved clock oor i incoming target model end s u = ((st, err), u')"
  shows "if err = None then F st else I st"
  using loop [OF _ assms(2) [unfolded translateSSEObserved_def]] assms(1) by simp

end

section \<open>The grammar of a Messages stream\<close>

text \<open>A reader of the stream knows whether the message started, which block is open, how many blocks there were
  and whether the message stopped. It refuses a frame that does not fit.\<close>

record reader =
  rd_started :: bool
  rd_open :: "int option"
  rd_blocks :: int
  rd_stopped :: bool

definition reader_start :: reader where
  "reader_start = \<lparr>rd_started = False, rd_open = None, rd_blocks = 0, rd_stopped = False\<rparr>"

fun read_frame :: "reader \<Rightarrow> frame \<Rightarrow> reader option" where
  "read_frame r DoneFrame = None"
| "read_frame r (Frame event payload) =
     (let index = at (as_map payload) ''index'' in
      if rd_stopped r then None
      else if event = ''message_start'' then (if rd_started r then None else Some (r\<lparr>rd_started := True\<rparr>))
      else if \<not> rd_started r then None
      else if event = ''content_block_start'' then
        (if rd_open r = None \<and> index = AInt (rd_blocks r)
         then Some (r\<lparr>rd_open := Some (rd_blocks r), rd_blocks := rd_blocks r + 1\<rparr>) else None)
      else if event = ''content_block_delta'' then
        (if map_option AInt (rd_open r) = Some index then Some r else None)
      else if event = ''content_block_stop'' then
        (if map_option AInt (rd_open r) = Some index then Some (r\<lparr>rd_open := None\<rparr>) else None)
      else if event = ''message_delta'' then (if rd_open r = None then Some r else None)
      else if event = ''message_stop'' then (if rd_open r = None then Some (r\<lparr>rd_stopped := True\<rparr>) else None)
      else None)"

fun read_frames :: "reader \<Rightarrow> frame list \<Rightarrow> reader option" where
  "read_frames r [] = Some r"
| "read_frames r (f # fs) = (case read_frame r f of None \<Rightarrow> None | Some r \<Rightarrow> read_frames r fs)"

lemma read_frames_append:
  "read_frames r (fs @ gs) = (case read_frames r fs of None \<Rightarrow> None | Some r \<Rightarrow> read_frames r gs)"
  by (induction fs arbitrary: r) (simp_all split: option.split)

text \<open>What the reader knows is what the writer's state says.\<close>

definition reader_of :: "streamState \<Rightarrow> reader" where
  "reader_of st = \<lparr>rd_started = ss_started st, rd_open = map_option (\<lambda>_. ss_activeIndex st) (ss_activeKind st),
                   rd_blocks = ss_nextIndex st, rd_stopped = False\<rparr>"

definition msg_inv :: "streamState \<Rightarrow> bool" where
  "msg_inv st \<longleftrightarrow> read_frames reader_start (ss_frames st) = Some (reader_of st) \<and> \<not> ss_done st"

definition msg_open :: "streamState \<Rightarrow> bool" where
  "msg_open st \<longleftrightarrow> msg_inv st \<and> ss_started st"

definition msg_done :: "streamState \<Rightarrow> bool" where
  "msg_done st \<longleftrightarrow> (\<exists>r. read_frames reader_start (ss_frames st) = Some r \<and> rd_stopped r)"

lemma frames_emit [simp]:
  "ss_frames (emit event kvs st) = ss_frames st @ [Frame event (AObj kvs)]"
  "ss_frames (emit_typed event kvs st) = ss_frames st @ [Frame event (AObj ((''type'', AStr event) # kvs))]"
  by (simp_all add: emit_def emit_typed_def)

text \<open>Emitting a frame changes nothing else.\<close>

lemma emit_same [simp]:
  "ss_started (emit_typed event kvs st) = ss_started st" "ss_done (emit_typed event kvs st) = ss_done st"
  "ss_activeKind (emit_typed event kvs st) = ss_activeKind st"
  "ss_activeIndex (emit_typed event kvs st) = ss_activeIndex st"
  "ss_nextIndex (emit_typed event kvs st) = ss_nextIndex st"
  "ss_toolCalls (emit_typed event kvs st) = ss_toolCalls st"
  "ss_messagesToolsWritten (emit_typed event kvs st) = ss_messagesToolsWritten st"
  by (simp_all add: emit_def emit_typed_def)

named_theorems msg "steps of a Messages stream"

lemma msg_start [msg]: "msg_inv st \<Longrightarrow> msg_open (messages_start st)"
  by (auto simp: msg_open_def msg_inv_def messages_start_def reader_of_def read_frames_append Let_def)

lemma msg_close [msg]: "msg_open st \<Longrightarrow> msg_open (closeMessagesBlock st) \<and> ss_activeKind (closeMessagesBlock st) = None"
  by (auto simp: msg_open_def msg_inv_def closeMessagesBlock_def reader_of_def read_frames_append)

lemma msg_block [msg]: "msg_open st \<Longrightarrow> msg_open (open_block k b st) \<and> ss_activeKind (open_block k b st) = Some k"
  using msg_close [of st]
  by (simp add: msg_open_def msg_inv_def open_block_def reader_of_def read_frames_append Let_def)

lemma msg_block_delta [msg]: "msg_open st \<Longrightarrow> ss_activeKind st \<noteq> None \<Longrightarrow> msg_open (block_delta d st)"
  by (auto simp: msg_open_def msg_inv_def block_delta_def reader_of_def read_frames_append)

lemma msg_marks [msg]:
  "msg_open st \<Longrightarrow> msg_open (st\<lparr>ss_contentStarted := b\<rparr>)" "msg_open st \<Longrightarrow> msg_open (st\<lparr>ss_reasoningStarted := b\<rparr>)"
  "msg_open st \<Longrightarrow> msg_open (st\<lparr>ss_messagesToolsWritten := b\<rparr>)"
  by (simp_all add: msg_open_def msg_inv_def reader_of_def)

lemma msg_text [msg]: "msg_open st \<Longrightarrow> msg_open (messages_text d st)"
  using msg_block [of st Text "text_block []"]
  by (auto simp: messages_text_def Let_def intro!: msg_block_delta msg_marks)

lemma msg_reasoning [msg]: "msg_open st \<Longrightarrow> msg_open (messages_reasoning d st)"
  using msg_block [of st Reasoning "thinking_of []"]
  by (auto simp: messages_reasoning_def Let_def intro!: msg_block_delta msg_marks)

lemma msg_state_block [msg]: "msg_open st \<Longrightarrow> msg_open (messages_state_block raw st)"
  using msg_block [of st Reasoning raw]
  by (auto simp: messages_state_block_def Let_def intro!: msg_block_delta msg_marks)

lemma msg_fold: "msg_open st \<Longrightarrow> (\<And>x st. msg_open st \<Longrightarrow> msg_open (f x st)) \<Longrightarrow> msg_open (List.fold f xs st)"
  by (induction xs arbitrary: st) simp_all

lemma msg_call [msg]:
  "msg_open st \<and> ss_activeKind st = None \<Longrightarrow>
     msg_open (messages_call call st) \<and> ss_activeKind (messages_call call st) = None"
  by (simp add: msg_open_def msg_inv_def messages_call_def reader_of_def read_frames_append Let_def)

lemma msg_calls:
  "msg_open st \<and> ss_activeKind st = None \<Longrightarrow>
     msg_open (List.fold messages_call calls st) \<and> ss_activeKind (List.fold messages_call calls st) = None"
  by (induction calls arbitrary: st) (simp_all add: msg_call)

lemma msg_finish [msg]:
  "msg_open st \<Longrightarrow> msg_open (messages_finish f st) \<and> ss_activeKind (messages_finish f st) = None"
proof -
  assume "msg_open st"
  define st1 where "st1 = closeMessagesBlock st"
  define st2 where "st2 = (if ss_messagesToolsWritten st1 then st1
    else (List.fold messages_call (ss_toolCalls st1) st1)\<lparr>ss_messagesToolsWritten := True\<rparr>)"
  have "msg_open st1 \<and> ss_activeKind st1 = None" unfolding st1_def by (rule msg_close) fact
  then have "msg_open st2 \<and> ss_activeKind st2 = None"
    using msg_calls [of st1 "ss_toolCalls st1"] by (simp add: st2_def msg_marks)
  moreover have "messages_finish f st = emit_typed ''message_delta''
      [(''delta'', AObj [(''stop_reason'', AStr (normalizeAnthropicFinish f)), (''stop_sequence'', ANil)]),
       (''usage'', messages_usage_block st2)] st2"
    by (simp add: messages_finish_def st1_def st2_def Let_def)
  ultimately show ?thesis by (simp add: msg_open_def msg_inv_def reader_of_def read_frames_append)
qed

text \<open>A tool delta writes nothing and leaves the blocks alone.\<close>

lemma applyToolDelta_same:
  "applyToolDelta d st = Inr (st', i) \<Longrightarrow>
     ss_frames st' = ss_frames st \<and> ss_started st' = ss_started st \<and> ss_done st' = ss_done st \<and>
     ss_activeKind st' = ss_activeKind st \<and> ss_activeIndex st' = ss_activeIndex st \<and> ss_nextIndex st' = ss_nextIndex st"
  by (auto simp: applyToolDelta_def find_call_def set_call_def Let_def split: sum.splits option.splits if_splits)

lemma accumulateUsage_same:
  "ss_frames (accumulateUsage v st) = ss_frames st \<and> ss_started (accumulateUsage v st) = ss_started st \<and>
   ss_done (accumulateUsage v st) = ss_done st \<and> ss_activeKind (accumulateUsage v st) = ss_activeKind st \<and>
   ss_activeIndex (accumulateUsage v st) = ss_activeIndex st \<and> ss_nextIndex (accumulateUsage v st) = ss_nextIndex st"
  by (simp add: accumulateUsage_def Let_def split: any.split option.split)

lemma msg_same:
  "msg_open st \<Longrightarrow> ss_frames st' = ss_frames st \<and> ss_started st' = ss_started st \<and> ss_done st' = ss_done st \<and>
     ss_activeKind st' = ss_activeKind st \<and> ss_activeIndex st' = ss_activeIndex st \<and> ss_nextIndex st' = ss_nextIndex st \<Longrightarrow>
   msg_open st'"
  by (simp add: msg_open_def msg_inv_def reader_of_def)

lemma msg_state_blocks: "msg_open st \<Longrightarrow> msg_open (List.fold messages_state_block bs st)"
  by (rule msg_fold) (simp_all add: msg_state_block)

lemma msg_write: "msg_inv st \<Longrightarrow> msg_open (fst (write_messages d st))"
proof -
  assume "msg_inv st"
  then have o: "msg_open (messages_start st)" by (rule msg_start)
  show ?thesis
    using o msg_text [OF o] msg_reasoning [OF o] msg_finish [OF o] msg_state_blocks [OF o]
      msg_same [OF o accumulateUsage_same] msg_same [OF o applyToolDelta_same]
    by (simp add: write_messages_def Let_def split: delta_kind.split sum.split prod.split)
qed

lemma msg_open_inv: "msg_open st \<Longrightarrow> msg_inv st"
  by (simp add: msg_open_def)

lemma msg_silent:
  "msg_inv (st\<lparr>ss_id := i\<rparr>) = msg_inv st" "msg_inv (st\<lparr>ss_completed := c\<rparr>) = msg_inv st"
  "msg_inv (st\<lparr>ss_reasoningDetails := ds\<rparr>) = msg_inv st"
  by (simp_all add: msg_inv_def reader_of_def)

text \<open>The end: the marks of the stream do not matter to the reader, and the last frame stops the message.\<close>

lemma msg_stop:
  "msg_open (st\<lparr>ss_done := False\<rparr>) \<Longrightarrow> ss_activeKind st = None \<Longrightarrow> msg_done (emit_typed ''message_stop'' [] st)"
  by (simp add: msg_done_def msg_open_def msg_inv_def reader_of_def read_frames_append)

lemma done_commutes:
  "closeMessagesBlock (st\<lparr>ss_done := b\<rparr>) = (closeMessagesBlock st)\<lparr>ss_done := b\<rparr>"
  "messages_start (st\<lparr>ss_done := b\<rparr>) = (messages_start st)\<lparr>ss_done := b\<rparr>"
  "messages_call c (st\<lparr>ss_done := b\<rparr>) = (messages_call c st)\<lparr>ss_done := b\<rparr>"
  by (simp_all add: closeMessagesBlock_def messages_start_def messages_call_def emit_typed_def emit_def Let_def)

lemma calls_done: "List.fold messages_call cs (st\<lparr>ss_done := b\<rparr>) = (List.fold messages_call cs st)\<lparr>ss_done := b\<rparr>"
  by (induction cs arbitrary: st) (simp_all add: done_commutes)

lemma finish_done: "messages_finish f (st\<lparr>ss_done := b\<rparr>) = (messages_finish f st)\<lparr>ss_done := b\<rparr>"
  by (simp add: messages_finish_def Let_def done_commutes calls_done messages_usage_block_def emit_typed_def emit_def)

lemma done_undone: "\<not> ss_done st \<Longrightarrow> st\<lparr>ss_done := False\<rparr> = st"
  by (cases st) simp

lemma msg_end: "msg_inv st \<Longrightarrow> msg_done (writeStreamDone clock ProtocolMessages st)"
proof -
  assume i: "msg_inv st"
  then have nd: "\<not> ss_done st" by (simp add: msg_inv_def)
  have fin: "msg_done (emit_typed ''message_stop'' []
      (fst (writeTranslatedEvent clock ProtocolMessages (finish_delta ''stop'') (st\<lparr>ss_done := True\<rparr>))))"
  proof (rule msg_stop)
    have e: "fst (writeTranslatedEvent clock ProtocolMessages (finish_delta ''stop'') (st\<lparr>ss_done := True\<rparr>)) =
        (messages_finish ''stop'' (messages_start st))\<lparr>ss_done := True\<rparr>"
      by (simp add: writeTranslatedEvent_def write_messages_def finish_delta_def delta_def done_commutes finish_done)
    have o: "msg_open (messages_finish ''stop'' (messages_start st)) \<and>
        ss_activeKind (messages_finish ''stop'' (messages_start st)) = None"
      by (rule msg_finish [OF msg_start [OF i]])
    then have "\<not> ss_done (messages_finish ''stop'' (messages_start st))" by (simp add: msg_open_def msg_inv_def)
    with o e show "msg_open ((fst (writeTranslatedEvent clock ProtocolMessages (finish_delta ''stop'')
        (st\<lparr>ss_done := True\<rparr>)))\<lparr>ss_done := False\<rparr>)"
      and "ss_activeKind (fst (writeTranslatedEvent clock ProtocolMessages (finish_delta ''stop'') (st\<lparr>ss_done := True\<rparr>))) = None"
      by (simp_all add: done_undone)
  qed
  have close: "msg_done (emit_typed ''message_stop'' [] (closeMessagesBlock (st\<lparr>ss_done := True\<rparr>)))" if "ss_started st"
  proof (rule msg_stop)
    have o: "msg_open (closeMessagesBlock st) \<and> ss_activeKind (closeMessagesBlock st) = None"
      by (rule msg_close) (simp add: msg_open_def i that)
    then have "\<not> ss_done (closeMessagesBlock st)" by (simp add: msg_open_def msg_inv_def)
    with o show "msg_open ((closeMessagesBlock (st\<lparr>ss_done := True\<rparr>))\<lparr>ss_done := False\<rparr>)"
      and "ss_activeKind (closeMessagesBlock (st\<lparr>ss_done := True\<rparr>)) = None"
      by (simp_all add: done_undone done_commutes)
  qed
  show ?thesis using nd fin close by (auto simp: writeStreamDone_def Let_def)
qed

interpretation mg: stream_invariant clock ProtocolMessages target "\<lambda>_. True" msg_inv msg_done for clock target
proof
  fix st d i c
  show "msg_inv st \<Longrightarrow> True \<Longrightarrow> d_Kind d \<noteq> Error \<Longrightarrow> msg_inv (fst (writeTranslatedEvent clock ProtocolMessages d st))"
    by (simp add: writeTranslatedEvent_def Let_def)
       (auto intro!: msg_open_inv [OF msg_write] simp: msg_silent)
  show "msg_inv st \<Longrightarrow> msg_done (writeStreamDone clock ProtocolMessages (st\<lparr>ss_completed := True\<rparr>))"
    by (rule msg_end) (simp add: msg_silent)
  show "msg_inv st \<Longrightarrow> msg_inv (st\<lparr>ss_id := i\<rparr>)" "msg_inv st \<Longrightarrow> msg_inv (st\<lparr>ss_completed := c\<rparr>)"
    by (simp_all add: msg_silent)
qed simp

lemma messages_stream:
  assumes "translateSSEObserved clock oor i ProtocolMessages target model end s u = ((st, err), u')"
  shows "if err = None then msg_done st else msg_inv st"
  by (rule mg.stream [OF _ assms]) (simp add: msg_inv_def new_stream_def reader_of_def reader_start_def)

section \<open>Counts of a translated stream\<close>

lemma keeps_event: "translate_event clock oor incoming target e (st, u) = (p, u') \<Longrightarrow> keeps u u'"
  by (auto simp: translate_event_def Let_def keeps_captureStreamUsage split: if_splits option.splits prod.splits)

lemma keeps_loop: "translate_loop clock oor incoming target end s (st, u) = (r, u') \<Longrightarrow> keeps u u'"
proof (induction s arbitrary: st u rule: measure_induct_rule [of length])
  case (less s)
  obtain e rest err where r: "readSSEEvent s = (e, rest, err)" by (metis prod_cases3)
  obtain p u1 where t: "translate_event clock oor incoming target e (st, u) = (p, u1)" by fastforce
  note k = keeps_event [OF t]
  show ?case
  proof (cases "\<exists>st1. p = More st1 \<and> err = None")
    case True
    then obtain st1 where p: "p = More st1" "err = None" by blast
    have "length rest < length s" using readSSEEvent_shorter r p(2) by metis
    moreover have "translate_loop clock oor incoming target end rest (st1, u1) = (r, u')"
      using less.prems by (subst (asm) translate_loop.simps) (simp add: r t p)
    ultimately show ?thesis using keeps_trans [OF k less.IH] by blast
  next
    case False
    then have "u' = u1" using less.prems
      by (subst (asm) translate_loop.simps)
         (auto simp: r t split: progress.splits option.splits sse_error.splits if_splits)
    then show ?thesis using k by simp
  qed
qed

lemma keeps_fold: "aggregate_loop oor target end s (sf, u) = Inr (sf', u') \<Longrightarrow> keeps u u'"
proof (induction s arbitrary: sf u rule: measure_induct_rule [of length])
  case (less s)
  obtain e rest err where r: "readSSEEvent s = (e, rest, err)" by (metis prod_cases3)
  obtain st fin where sf: "sf = (st, fin)" by fastforce
  have stop: "keeps u1 u'" if "(case err of None \<Rightarrow> aggregate_loop oor target end rest (sf1, u1)
      | Some ReaderError \<Rightarrow> if end = EndOfFile then Inr (sf1, u1) else Inl StreamRead
      | Some _ \<Rightarrow> Inl StreamRead) = Inr (sf', u')" for sf1 u1
  proof (cases err)
    case None
    have "length rest < length s" using readSSEEvent_shorter r None by metis
    then show ?thesis using less.IH that None by simp
  next
    case (Some x)
    then show ?thesis using that by (cases x) (auto split: if_splits)
  qed
  show ?case
  proof (cases "sse_Data e = ''[DONE]'' \<or> sse_Data e = [] \<or> unmarshal_map (sse_Data e) = None")
    case True
    then show ?thesis using less.prems stop
      by (subst (asm) aggregate_loop.simps) (auto simp: r sf split: if_splits)
  next
    case False
    then obtain pl where pl: "unmarshal_map (sse_Data e) = Some pl" by auto
    define payload where "payload = (case pl of Some m \<Rightarrow> m | None \<Rightarrow> [])"
    let ?u1 = "captureStreamUsage oor payload target u"
    obtain ds dn st1 where c: "canonicalDeltas (sse_Name e) payload target st = (ds, dn, st1)" by (metis prod_cases3)
    obtain sf2 f where w: "fold_deltas ds (st1, fin) = (sf2, f)" by fastforce
    have "(case f of Some f \<Rightarrow> Inl f | None \<Rightarrow> if dn then Inr (sf2, ?u1) else
        (case err of None \<Rightarrow> aggregate_loop oor target end rest (sf2, ?u1)
      | Some ReaderError \<Rightarrow> if end = EndOfFile then Inr (sf2, ?u1) else Inl StreamRead
      | Some _ \<Rightarrow> Inl StreamRead)) = Inr (sf', u')"
      using less.prems False unfolding sf
      by (subst (asm) aggregate_loop.simps) (simp add: r sf pl c w Let_def flip: payload_def)
    then have "keeps ?u1 u'" using stop by (auto split: option.splits if_splits)
    then show ?thesis using keeps_trans [OF keeps_captureStreamUsage] by blast
  qed
qed

end
