(* ===== verification/StreamContent.thy ===== *)
theory StreamContent
  imports StreamLaws
begin

text \<open>
  What a translated stream carries. The text and the readable reasoning a client receives are those the
  upstream sent (\<open>visible_body\<close>), whichever protocol the client speaks and whether it asked for a stream or
  for one response; what a stream may accumulate is bounded; a stream is terminated once, and only when
  it was complete; the arguments of a tool call reach a Chat client once.
\<close>

section \<open>Frames are only added\<close>

text \<open>A frame of a Messages or Responses stream that ends it.\<close>

definition plain_frame :: "frame \<Rightarrow> bool" where
  "plain_frame f = (case f of DoneFrame \<Rightarrow> False
     | Frame event payload \<Rightarrow> event \<noteq> ''message_stop'' \<and> event \<noteq> ''response.completed'')"

text \<open>The text of kind \<open>k\<close> in a frame.\<close>

definition chat_delta :: "any \<Rightarrow> obj" where
  "chat_delta payload = (case elems (at (as_map payload) ''choices'') of
     [] \<Rightarrow> [] | c # cs \<Rightarrow> as_map (at (as_map c) ''delta''))"

definition frame_text :: "string \<Rightarrow> delta_kind \<Rightarrow> frame \<Rightarrow> string" where
  "frame_text incoming k f = (case f of DoneFrame \<Rightarrow> []
     | Frame event payload \<Rightarrow>
         if incoming = ProtocolChat then
           strField (at (chat_delta payload) (if k = Text then ''content'' else ''reasoning_content''))
         else if incoming = ProtocolMessages then
           strField (at (as_map (at (as_map payload) ''delta'')) (if k = Text then ''text'' else ''thinking''))
         else if event = (if k = Text then ''response.output_text.delta'' else ''response.reasoning_summary_text.delta'')
         then strField (at (as_map payload) ''delta'') else [])"

definition frames_text :: "string \<Rightarrow> delta_kind \<Rightarrow> frame list \<Rightarrow> string" where
  "frames_text incoming k fs = concat (map (frame_text incoming k) fs)"

lemma frames_text_append [simp]:
  "frames_text incoming k (fs @ gs) = frames_text incoming k fs @ frames_text incoming k gs"
  "frames_text incoming k [] = []" "frames_text incoming k [f] = frame_text incoming k f"
  by (simp_all add: frames_text_def)

text \<open>The step from \<open>st\<close> to \<open>st'\<close> added plain frames that carry the text \<open>t\<close>.\<close>

definition adds :: "string \<Rightarrow> delta_kind \<Rightarrow> string \<Rightarrow> streamState \<Rightarrow> streamState \<Rightarrow> bool" where
  "adds incoming k t st st' \<longleftrightarrow> (\<exists>fs. ss_frames st' = ss_frames st @ fs \<and> list_all plain_frame fs \<and>
     frames_text incoming k fs = t) \<and> ss_done st' = ss_done st"

lemma adds_refl: "ss_frames st' = ss_frames st \<Longrightarrow> ss_done st' = ss_done st \<Longrightarrow> adds incoming k [] st st'"
  by (simp add: adds_def exI [of _ "[]"])

lemma adds_trans: "adds incoming k t st st1 \<Longrightarrow> adds incoming k u st1 st2 \<Longrightarrow> adds incoming k (t @ u) st st2"
  unfolding adds_def by (metis (no_types, lifting) append.assoc frames_text_append(1) list_all_append)

lemma adds_fold:
  "(\<And>x st. adds incoming k [] st (f x st)) \<Longrightarrow> adds incoming k [] st (List.fold f xs st)"
proof (induction xs arbitrary: st)
  case (Cons x xs)
  show ?case using adds_trans [OF Cons.prems Cons.IH [OF Cons.prems]] by simp
qed (simp add: adds_refl)

lemma adds_one:
  "ss_frames st' = ss_frames st @ fs \<Longrightarrow> list_all plain_frame fs \<Longrightarrow> frames_text incoming k fs = t \<Longrightarrow>
   ss_done st' = ss_done st \<Longrightarrow> adds incoming k t st st'"
  by (auto simp: adds_def)

lemma at_obj [simp]: "as_map (AObj m) = m" "elems (AArr xs) = xs" "elems ANil = []"
  by (simp_all add: elems_def)

definition kinds :: "delta_kind \<Rightarrow> bool" where
  "kinds k \<longleftrightarrow> k = Text \<or> k = Reasoning"

text \<open>The text of a delta.\<close>

definition said :: "delta_kind \<Rightarrow> canonicalDelta \<Rightarrow> string" where
  "said k d = (if d_Kind d = k then d_Text d else [])"

section \<open>Text in Chat frames\<close>

lemma chat_chunk_adds:
  assumes "kinds k" and role: "\<forall>x. at (role @ kvs) x = (if x = ''role'' \<and> role \<noteq> [] then AStr ''assistant'' else at kvs x)"
  shows "adds ProtocolChat k (strField (at kvs (if k = Text then ''content'' else ''reasoning_content'')))
     st (chat_chunk clock role kvs fin st)"
  by (rule adds_one [of _ _ "[Frame [] (AObj ([(''id'', AStr (ss_id st)), (''object'', AStr ''chat.completion.chunk''),
          (''created'', frame_time clock st), (''model'', AStr (ss_model st)),
          (''choices'', AArr [AObj [(''index'', AInt 0), (''delta'', AObj (role @ kvs)), (''finish_reason'', fin)]])] @ []))]"])
     (simp_all add: chat_chunk_def chat_frame_def emit_def plain_frame_def frame_text_def chat_delta_def role)

lemma adds_via:
  "adds incoming k t st1 st2 \<Longrightarrow> ss_frames st = ss_frames st1 \<Longrightarrow> ss_done st = ss_done st1 \<Longrightarrow> adds incoming k t st st2"
  by (simp add: adds_def)

lemma chat_usage_adds:
  "adds ProtocolChat k [] st (chat_frame clock extra [] st)"
  by (rule adds_one [of _ _ "[Frame [] (AObj ([(''id'', AStr (ss_id st)), (''object'', AStr ''chat.completion.chunk''),
          (''created'', frame_time clock st), (''model'', AStr (ss_model st)), (''choices'', AArr [])] @ extra))]"])
     (simp_all add: chat_frame_def emit_def plain_frame_def frame_text_def chat_delta_def)

lemma set_call_same [simp]: "ss_frames (set_call i c st) = ss_frames st" "ss_done (set_call i c st) = ss_done st"
  by (simp_all add: set_call_def)

definition role_ok :: "(string \<times> any) list \<Rightarrow> bool" where
  "role_ok role \<longleftrightarrow> (\<forall>kvs x. at (role @ kvs) x = (if x = ''role'' \<and> role \<noteq> [] then AStr ''assistant'' else at kvs x))"

lemma role_ok: "role_ok (if b then [] else [(''role'', AStr ''assistant'')])"
  by (simp add: role_ok_def)

lemma chunk_adds:
  "kinds k \<Longrightarrow> role_ok role \<Longrightarrow> t = strField (at kvs (if k = Text then ''content'' else ''reasoning_content'')) \<Longrightarrow>
   ss_frames st = ss_frames st1 \<Longrightarrow> ss_done st = ss_done st1 \<Longrightarrow>
   adds ProtocolChat k t st (chat_chunk clock role kvs fin st1)"
  using adds_via [OF chat_chunk_adds [of k role kvs st1 clock fin]] by (simp add: role_ok_def)

lemma chat_tool_adds:
  assumes "kinds k" "role_ok role" "chat_tool clock role d st = (st', e)"
  shows "adds ProtocolChat k [] st st'"
proof (cases "applyToolDelta d st")
  case (Inl err)
  then show ?thesis using assms(3) by (simp add: chat_tool_def adds_refl)
next
  case (Inr p)
  obtain st1 i where p: "p = (st1, i)" by fastforce
  note same = applyToolDelta_same [OF Inr [unfolded p]]
  have w: "adds ProtocolChat k [] st (chat_chunk clock role [(''tool_calls'', chat_call c2 d)] ANil (set_call i c2 st1))" for c2
    by (rule chunk_adds [OF assms(1,2)]) (simp_all add: same)
  have "st' = st1 \<or> (\<exists>c2. st' = chat_chunk clock role [(''tool_calls'', chat_call c2 d)] ANil (set_call i c2 st1))"
    using assms(3) Inr p by (simp add: chat_tool_def Let_def split: if_splits) blast+
  then show ?thesis using w same adds_refl [of st1 st ProtocolChat k] by auto
qed

lemma write_chat_adds:
  assumes "kinds k" "write_chat clock d st = (st', e)"
  shows "(e = None \<longrightarrow> adds ProtocolChat k (said k d) st st') \<and> (\<exists>t. adds ProtocolChat k t st st')"
proof -
  let ?role = "if ss_started st then [] else [(''role'', AStr ''assistant'')]"
  let ?st = "st\<lparr>ss_started := True\<rparr>"
  have v: "adds ProtocolChat k t ?st st2 \<Longrightarrow> adds ProtocolChat k t st st2" for t st2
    by (erule adds_via) simp_all
  have c: "adds ProtocolChat k (strField (at kvs (if k = Text then ''content'' else ''reasoning_content''))) st
      (chat_chunk clock ?role kvs fin ?st)" for kvs fin
    by (rule chunk_adds [OF assms(1) role_ok]) simp_all
  have t: "adds ProtocolChat k [] st st2" if "chat_tool clock ?role d ?st = (st2, f)" for st2 f
    by (rule v, rule chat_tool_adds [OF assms(1) role_ok that])
  have u: "adds ProtocolChat k [] st (chat_frame clock x [] (accumulateUsage y ?st))" for x y
    by (rule adds_via [OF chat_usage_adds]) (simp_all add: accumulateUsage_same)
  have "(e = None \<longrightarrow> adds ProtocolChat k (said k d) st st') \<and> (\<exists>t. adds ProtocolChat k t st st')"
  proof (cases "d_Kind d")
    case Text
    then show ?thesis using assms c [of "[(''content'', AStr (d_Text d))]" ANil]
      by (auto simp: write_chat_def said_def kinds_def Let_def)
  next
    case Reasoning
    then show ?thesis using assms c [of "[(''reasoning_content'', AStr (d_Text d))]" ANil]
      by (auto simp: write_chat_def said_def kinds_def Let_def)
  next
    case ReasoningState
    then show ?thesis using assms c [of "if details_of d = [] then [] else [(''reasoning_details'', AArr (details_of d))]" ANil]
      by (auto simp: write_chat_def said_def kinds_def Let_def split: if_splits)
  next
    case Tool
    then show ?thesis using assms t [of st' e] by (auto simp: write_chat_def said_def kinds_def Let_def)
  next
    case Finish
    then show ?thesis using assms c [of "[]" "AStr (normalizeFinish (d_Finish d))"]
      by (auto simp: write_chat_def said_def kinds_def Let_def)
  next
    case Usage
    then show ?thesis using assms u by (auto simp: write_chat_def said_def kinds_def Let_def)
  next
    case Error
    then show ?thesis using assms by (auto simp: write_chat_def Let_def adds_refl intro: exI [of _ "[]"])
  qed
  then show ?thesis .
qed

section \<open>Text in Messages frames\<close>

lemma emit_adds:
  "event \<noteq> ''message_stop'' \<Longrightarrow> event \<noteq> ''response.completed'' \<Longrightarrow>
   t = frame_text incoming k (Frame event (AObj ((''type'', AStr event) # kvs))) \<Longrightarrow>
   adds incoming k t st (emit_typed event kvs st)"
  by (rule adds_one [of _ _ "[Frame event (AObj ((''type'', AStr event) # kvs))]"]) (simp_all add: plain_frame_def)

abbreviation (input) "quiet st st' \<equiv> (\<forall>k. adds ProtocolMessages k [] st st')"

lemma quiet_trans: "quiet st st1 \<Longrightarrow> quiet st1 st2 \<Longrightarrow> quiet st st2"
  using adds_trans by fastforce

lemma quiet_emit:
  "event \<noteq> ''message_stop'' \<Longrightarrow> event \<noteq> ''response.completed'' \<Longrightarrow>
   strField (at (as_map (at kvs ''delta'')) ''text'') = [] \<Longrightarrow> strField (at (as_map (at kvs ''delta'')) ''thinking'') = [] \<Longrightarrow>
   quiet st (emit_typed event kvs st)"
  by (intro allI emit_adds) (simp_all add: frame_text_def)

lemma quiet_set: "ss_frames st' = ss_frames st \<Longrightarrow> ss_done st' = ss_done st \<Longrightarrow> quiet st st'"
  by (simp add: adds_refl)

lemma quiet_close: "quiet st (closeMessagesBlock st)"
  using quiet_emit [of "''content_block_stop''" "[(''index'', AInt (ss_activeIndex st))]" st]
  by (auto simp: closeMessagesBlock_def adds_refl adds_def)

lemma quiet_open: "quiet st (open_block kd b st)"
proof -
  define st1 where "st1 = (closeMessagesBlock st)\<lparr>ss_activeIndex := ss_nextIndex (closeMessagesBlock st),
     ss_nextIndex := ss_nextIndex (closeMessagesBlock st) + 1\<rparr>"
  have "quiet st st1" by (rule quiet_trans [OF quiet_close quiet_set]) (simp_all add: st1_def)
  moreover have "quiet st1 (open_block kd b st)"
    by (rule quiet_trans [OF quiet_emit [of "''content_block_start''"] quiet_set])
       (simp_all add: open_block_def st1_def Let_def)
  ultimately show ?thesis by (rule quiet_trans)
qed

lemma block_delta_adds:
  "adds ProtocolMessages k (strField (at d (if k = Text then ''text'' else ''thinking''))) st (block_delta d st)"
  unfolding block_delta_def by (rule emit_adds) (simp_all add: frame_text_def)

lemma messages_text_adds: "kinds k \<Longrightarrow> adds ProtocolMessages k (if k = Text then d_Text d else []) st (messages_text d st)"
proof -
  assume "kinds k"
  define st1 where "st1 = (if ss_activeKind st = Some Text then st
    else (open_block Text (text_block []) st)\<lparr>ss_contentStarted := True\<rparr>)"
  have "quiet st st1"
    using quiet_trans [OF quiet_open quiet_set] by (simp add: st1_def adds_refl)
  then have q: "adds ProtocolMessages k [] st st1" by blast
  have e: "messages_text d st = block_delta [(''type'', AStr ''text_delta''), (''text'', AStr (d_Text d))] st1"
    by (simp add: messages_text_def st1_def Let_def)
  show ?thesis
    using adds_trans [OF q block_delta_adds [of k "[(''type'', AStr ''text_delta''), (''text'', AStr (d_Text d))]"]] \<open>kinds k\<close>
    by (auto simp: e kinds_def)
qed

lemma messages_reasoning_adds:
  "kinds k \<Longrightarrow> adds ProtocolMessages k (if k = Reasoning then d_Text d else []) st (messages_reasoning d st)"
proof -
  assume "kinds k"
  define st1 where "st1 = (if ss_activeKind st = Some Reasoning then st
    else (open_block Reasoning (thinking_of []) st)\<lparr>ss_reasoningStarted := True\<rparr>)"
  have "quiet st st1"
    using quiet_trans [OF quiet_open quiet_set] by (simp add: st1_def adds_refl)
  then have q: "adds ProtocolMessages k [] st st1" by blast
  have e: "messages_reasoning d st = block_delta [(''type'', AStr ''thinking_delta''), (''thinking'', AStr (d_Text d))] st1"
    by (simp add: messages_reasoning_def st1_def Let_def)
  show ?thesis
    using adds_trans [OF q block_delta_adds [of k "[(''type'', AStr ''thinking_delta''), (''thinking'', AStr (d_Text d))]"]] \<open>kinds k\<close>
    by (auto simp: e kinds_def)
qed

lemma quiet_state_block: "quiet st (messages_state_block raw st)"
proof -
  have "quiet st ((open_block Reasoning raw st)\<lparr>ss_reasoningStarted := True\<rparr>)"
    by (rule quiet_trans [OF quiet_open quiet_set]) simp_all
  moreover have "quiet st (block_delta [(''type'', AStr ''signature_delta''), (''signature'', x)] st)" for x
    unfolding block_delta_def by (rule quiet_emit) simp_all
  ultimately show ?thesis by (simp add: messages_state_block_def Let_def)
qed

lemma quiet_call: "quiet st (messages_call c st)"
proof -
  define st1 where "st1 = st\<lparr>ss_nextIndex := ss_nextIndex st + 1\<rparr>"
  have q: "quiet st st1" by (rule quiet_set) (simp_all add: st1_def)
  have n: "quiet st1 (messages_call c st)"
    unfolding messages_call_def Let_def st1_def [symmetric]
    by (rule quiet_trans [rotated], rule quiet_emit, simp_all, intro conjI impI)
       (rule quiet_emit quiet_trans [OF quiet_emit quiet_emit], simp_all)+
  show ?thesis using quiet_trans [OF q n] .
qed

lemma quiet_fold: "(\<And>x st. quiet st (f x st)) \<Longrightarrow> quiet st (List.fold f xs st)"
  by (intro allI adds_fold) blast

lemma quiet_calls: "quiet st (List.fold messages_call cs st)"
  by (rule quiet_fold) (rule quiet_call)

lemma quiet_state_blocks: "quiet st (List.fold messages_state_block bs st)"
  by (rule quiet_fold) (rule quiet_state_block)

lemma quiet_finish: "quiet st (messages_finish fin st)"
proof -
  define st1 where "st1 = closeMessagesBlock st"
  define st2 where "st2 = (if ss_messagesToolsWritten st1 then st1
    else (List.fold messages_call (ss_toolCalls st1) st1)\<lparr>ss_messagesToolsWritten := True\<rparr>)"
  have "quiet st st1" unfolding st1_def by (rule quiet_close)
  moreover have "quiet st1 st2"
    using quiet_trans [OF quiet_calls quiet_set] by (simp add: st2_def adds_refl)
  moreover have "quiet st2 (messages_finish fin st)"
    unfolding messages_finish_def Let_def st1_def [symmetric] st2_def [symmetric] by (rule quiet_emit) simp_all
  ultimately show ?thesis using quiet_trans by blast
qed

lemma quiet_start: "quiet st (messages_start st)"
proof -
  have "quiet st ((emit_typed ''message_start'' [(''message'', m)] st)\<lparr>ss_started := True\<rparr>)" for m
    by (rule quiet_trans [OF quiet_emit quiet_set]) simp_all
  then show ?thesis by (simp add: messages_start_def adds_refl)
qed

lemma write_messages_adds:
  assumes "kinds k" "write_messages d st = (st', e)"
  shows "(e = None \<longrightarrow> adds ProtocolMessages k (said k d) st st') \<and> (\<exists>t. adds ProtocolMessages k t st st')"
proof -
  have q: "adds ProtocolMessages k [] st (messages_start st)" using quiet_start by blast
  note via = adds_trans [OF q, simplified]
  have r: "adds ProtocolMessages k [] (messages_start st) st2 \<Longrightarrow> adds ProtocolMessages k [] st st2" for st2
    by (rule via)
  show ?thesis
  proof (cases "d_Kind d")
    case Text
    then show ?thesis using assms via [OF messages_text_adds [OF assms(1), of d]]
      by (auto simp: write_messages_def said_def kinds_def Let_def)
  next
    case Reasoning
    then show ?thesis using assms via [OF messages_reasoning_adds [OF assms(1), of d]]
      by (auto simp: write_messages_def said_def kinds_def Let_def)
  next
    case ReasoningState
    have "adds ProtocolMessages k [] (messages_start st) (List.fold messages_state_block bs (messages_start st))" for bs
      using quiet_state_blocks by blast
    with ReasoningState show ?thesis using assms q r
      by (auto simp: write_messages_def said_def kinds_def Let_def split: sum.splits)
  next
    case Tool
    have t: "adds ProtocolMessages k [] (messages_start st) st2" if "applyToolDelta d (messages_start st) = Inr (st2, i)" for st2 i
      by (rule adds_refl) (simp_all add: applyToolDelta_same [OF that])
    show ?thesis using Tool assms q r [OF t]
      by (auto simp: write_messages_def said_def kinds_def Let_def split: sum.splits)
  next
    case Finish
    have "adds ProtocolMessages k [] (messages_start st) (messages_finish (d_Finish d) (messages_start st))"
      using quiet_finish by blast
    with Finish show ?thesis using assms r by (auto simp: write_messages_def said_def kinds_def Let_def)
  next
    case Usage
    have "adds ProtocolMessages k [] (messages_start st) (accumulateUsage (d_Usage d) (messages_start st))"
      by (rule adds_refl) (simp_all add: accumulateUsage_same)
    with Usage show ?thesis using assms r by (auto simp: write_messages_def said_def kinds_def Let_def)
  next
    case Error
    then show ?thesis using assms q by (auto simp: write_messages_def Let_def)
  qed
qed

section \<open>Text in Responses frames\<close>

abbreviation (input) "silent st st' \<equiv> (\<forall>k. kinds k \<longrightarrow> adds ProtocolResponses k [] st st')"

lemma silent_trans: "silent st st1 \<Longrightarrow> silent st1 st2 \<Longrightarrow> silent st st2"
  using adds_trans by fastforce

lemma silent_emit:
  "event \<noteq> ''message_stop'' \<Longrightarrow> event \<noteq> ''response.completed'' \<Longrightarrow> event \<noteq> ''response.output_text.delta'' \<Longrightarrow>
   event \<noteq> ''response.reasoning_summary_text.delta'' \<Longrightarrow> silent st (emit_typed event kvs st)"
  by (intro allI impI emit_adds) (simp_all add: frame_text_def)

lemma silent_set: "ss_frames st' = ss_frames st \<Longrightarrow> ss_done st' = ss_done st \<Longrightarrow> silent st st'"
  by (simp add: adds_refl)

lemma silent_responses_start: "silent st (responses_start clock st)"
proof -
  have "silent st ((emit_typed ''response.created'' kvs st)\<lparr>ss_started := True\<rparr>)" for kvs
    by (rule silent_trans [OF silent_emit silent_set]) simp_all
  then show ?thesis by (simp add: responses_start_def adds_refl)
qed

lemma silent_item: "silent st (item_added item st)"
  unfolding item_added_def by (rule silent_emit) simp_all

lemma silent_text_start: "silent st (responses_text_start st)"
proof (cases "ss_contentStarted st")
  case False
  define st1 where "st1 = (take_index MessageOut st)\<lparr>ss_messageIndex := ss_outputIndex (take_index MessageOut st)\<rparr>"
  have "silent st st1" by (rule silent_set) (simp_all add: st1_def take_index_def)
  moreover define st2 where "st2 = item_added [(''id'', msg_id st1), (''type'', AStr ''message''), (''role'', AStr ''assistant''),
      (''status'', AStr ''in_progress''), (''content'', AArr [])] st1"
  have "silent st1 st2" unfolding st2_def by (rule silent_item)
  moreover have "silent st2 (responses_text_start st)"
    unfolding responses_text_start_def Let_def st1_def [symmetric] st2_def [symmetric]
    by (simp only: False if_False) (rule silent_trans [OF silent_emit silent_set], simp_all)
  ultimately show ?thesis using silent_trans by blast
qed (simp add: responses_text_start_def adds_refl)

lemma silent_reasoning_start: "silent st (responses_reasoning_start st)"
proof (cases "ss_reasoningStarted st")
  case False
  define st1 where "st1 = (take_index ReasoningOut st)\<lparr>ss_reasoningIndex := ss_outputIndex (take_index ReasoningOut st)\<rparr>"
  have "silent st st1" by (rule silent_set) (simp_all add: st1_def take_index_def)
  moreover define st2 where "st2 = item_added [(''id'', rs_id st1), (''type'', AStr ''reasoning''), (''status'', AStr ''in_progress''),
      (''summary'', AArr [])] st1"
  have "silent st1 st2" unfolding st2_def by (rule silent_item)
  moreover have "silent st2 (responses_reasoning_start st)"
    unfolding responses_reasoning_start_def Let_def st1_def [symmetric] st2_def [symmetric]
    by (simp only: False if_False) (rule silent_trans [OF silent_emit silent_set], simp_all)
  ultimately show ?thesis using silent_trans by blast
qed (simp add: responses_reasoning_start_def adds_refl)

lemma silent_write_tool: "write_tool_item d st = (st', e) \<Longrightarrow> silent st st'"
proof -
  assume w: "write_tool_item d st = (st', e)"
  show ?thesis
  proof (cases "applyToolDelta d st")
    case (Inl err)
    then show ?thesis using w by (simp add: write_tool_item_def adds_refl)
  next
    case (Inr p)
    obtain st1 i where p: "p = (st1, i)" by fastforce
    have s1: "silent st st1" by (rule silent_set) (simp_all add: applyToolDelta_same [OF Inr [unfolded p]])
    define st2 where "st2 = (if 0 \<le> tc_index (ss_toolCalls st1 ! i) then st1
      else item_added [(''type'', AStr ''function_call''), (''call_id'', AStr (d_CallID d)), (''name'', AStr (d_Name d)),
             (''arguments'', AStr [])]
           (set_call i ((ss_toolCalls (take_index (ToolOut i) st1) ! i)
              \<lparr>tc_index := ss_outputIndex (take_index (ToolOut i) st1)\<rparr>) (take_index (ToolOut i) st1)))"
    have s2: "silent st1 st2"
      using silent_trans [OF silent_set silent_item] by (simp add: st2_def adds_refl take_index_def)
    have "\<exists>kvs. st' = st2 \<or> st' = emit_typed ''response.function_call_arguments.delta'' kvs st2"
      using w [unfolded write_tool_item_def Inr p sum.case prod.case, unfolded Let_def, folded st2_def]
      by (cases "d_Arguments d = []") auto
    then obtain kvs where k: "st' = st2 \<or> st' = emit_typed ''response.function_call_arguments.delta'' kvs st2" by blast
    have r: "silent st2 st2" by (rule silent_set) simp_all
    have "silent st2 (emit_typed ''response.function_call_arguments.delta'' kvs st2)" by (rule silent_emit) simp_all
    with k r have "silent st2 st'" by (elim disjE) simp_all
    then show ?thesis by (rule silent_trans [OF silent_trans [OF s1 s2]])
  qed
qed

lemma responses_text_adds:
  assumes "kinds k" "responses_text d st = (st', e)"
  shows "(e = None \<longrightarrow> adds ProtocolResponses k (if k = Text then d_Text d else []) st st') \<and> (\<exists>t. adds ProtocolResponses k t st st')"
proof (cases e)
  case (Some x)
  then show ?thesis using assms silent_text_start [of st] by (auto simp: responses_text_def Let_def split: if_splits)
next
  case None
  define st1 where "st1 = responses_text_start st"
  define st2 where "st2 = st1\<lparr>ss_accumulated := ss_accumulated st1 @ d_Text d,
                     ss_accumulatedBytes := ss_accumulatedBytes st1 + len (d_Text d)\<rparr>"
  have q: "adds ProtocolResponses k [] st st2"
    using silent_trans [OF silent_text_start silent_set] assms(1) by (simp add: st2_def st1_def)
  have e: "st' = emit_typed ''response.output_text.delta'' [(''output_index'', AInt (ss_messageIndex st2)),
               (''item_id'', msg_id st2), (''content_index'', AInt 0), (''delta'', AStr (d_Text d))] st2"
    using assms(2) None by (auto simp: responses_text_def st1_def st2_def Let_def split: if_splits)
  have "adds ProtocolResponses k (if k = Text then d_Text d else []) st2 st'"
    unfolding e by (rule emit_adds) (use assms(1) in \<open>auto simp: frame_text_def kinds_def\<close>)
  from adds_trans [OF q this] show ?thesis by auto
qed

lemma responses_reasoning_adds:
  assumes "kinds k" "responses_reasoning d st = (st', e)"
  shows "(e = None \<longrightarrow> adds ProtocolResponses k (if k = Reasoning then d_Text d else []) st st') \<and> (\<exists>t. adds ProtocolResponses k t st st')"
proof (cases e)
  case (Some x)
  then show ?thesis using assms silent_reasoning_start [of st] by (auto simp: responses_reasoning_def Let_def split: if_splits)
next
  case None
  define st1 where "st1 = responses_reasoning_start st"
  define st2 where "st2 = st1\<lparr>ss_reasoningAccumulated := ss_reasoningAccumulated st1 @ d_Text d\<rparr>"
  have q: "adds ProtocolResponses k [] st st2"
    using silent_trans [OF silent_reasoning_start silent_set] assms(1) by (simp add: st2_def st1_def)
  have e: "st' = emit_typed ''response.reasoning_summary_text.delta'' [(''output_index'', AInt (ss_reasoningIndex st2)),
               (''item_id'', rs_id st2), (''summary_index'', AInt 0), (''delta'', AStr (d_Text d))] st2"
    using assms(2) None by (auto simp: responses_reasoning_def st1_def st2_def Let_def split: if_splits)
  have "adds ProtocolResponses k (if k = Reasoning then d_Text d else []) st2 st'"
    unfolding e by (rule emit_adds) (use assms(1) in \<open>auto simp: frame_text_def kinds_def\<close>)
  from adds_trans [OF q this] show ?thesis by auto
qed

lemma write_responses_adds:
  assumes "kinds k" "write_responses clock d st = (st', e)"
  shows "(e = None \<longrightarrow> adds ProtocolResponses k (said k d) st st') \<and> (\<exists>t. adds ProtocolResponses k t st st')"
proof -
  let ?st = "responses_start clock st"
  have q: "adds ProtocolResponses k [] st ?st" using silent_responses_start assms(1) by blast
  note via = adds_trans [OF q, simplified]
  show ?thesis
  proof (cases "d_Kind d")
    case Text
    then show ?thesis using assms responses_text_adds [OF assms(1), of d ?st st' e] via
      by (auto simp: write_responses_def said_def kinds_def Let_def)
  next
    case Reasoning
    then show ?thesis using assms responses_reasoning_adds [OF assms(1), of d ?st st' e] via
      by (auto simp: write_responses_def said_def kinds_def Let_def)
  next
    case Tool
    then show ?thesis using assms silent_write_tool [of d ?st st' e] via
      by (auto simp: write_responses_def said_def kinds_def Let_def)
  qed (use assms q in \<open>auto simp: write_responses_def said_def kinds_def Let_def split: sum.splits\<close>)
qed

text \<open>Every protocol: a delta that was written added its text and nothing else to what the client reads.\<close>

lemma write_adds:
  assumes "kinds k" "incoming \<in> {ProtocolChat, ProtocolMessages, ProtocolResponses}"
    and "writeTranslatedEvent clock incoming d st = (st', e)"
  shows "(e = None \<longrightarrow> adds incoming k (said k d) st st') \<and> (\<exists>t. adds incoming k t st st')"
proof -
  define st1 where "st1 = (if d_Kind d = ReasoningState
     then st\<lparr>ss_reasoningDetails := ss_reasoningDetails st @ details_of d\<rparr> else st)"
  have v: "adds incoming k t st1 st2 \<Longrightarrow> adds incoming k t st st2" for t st2
    by (erule adds_via) (simp_all add: st1_def)
  have "(e = None \<longrightarrow> adds incoming k (said k d) st1 st') \<and> (\<exists>t. adds incoming k t st1 st')"
    using assms write_chat_adds [OF assms(1), of clock d st1 st' e] write_messages_adds [OF assms(1), of d st1 st' e]
      write_responses_adds [OF assms(1), of clock d st1 st' e]
    by (auto simp: writeTranslatedEvent_def st1_def [symmetric] Let_def)
  with v show ?thesis by blast
qed

section \<open>The end of a stream\<close>

text \<open>\<open>st'\<close> is \<open>st\<close> after its last frame, which alone terminates it; the client read no further text.\<close>

definition ends :: "string \<Rightarrow> streamState \<Rightarrow> streamState \<Rightarrow> bool" where
  "ends incoming st st' \<longleftrightarrow> (\<exists>fs t. ss_frames st' = ss_frames st @ fs @ [t] \<and> list_all plain_frame fs \<and> \<not> plain_frame t \<and>
     (\<forall>k. kinds k \<longrightarrow> frames_text incoming k (fs @ [t]) = []))"

lemma ends_after:
  "(\<forall>k. kinds k \<longrightarrow> adds incoming k [] st st1) \<Longrightarrow> ss_frames st' = ss_frames st1 @ [t] \<Longrightarrow> \<not> plain_frame t \<Longrightarrow>
   (\<forall>k. kinds k \<longrightarrow> frame_text incoming k t = []) \<Longrightarrow> ends incoming st st'"
proof -
  assume a: "\<forall>k. kinds k \<longrightarrow> adds incoming k [] st st1" and f: "ss_frames st' = ss_frames st1 @ [t]"
    and t: "\<not> plain_frame t" "\<forall>k. kinds k \<longrightarrow> frame_text incoming k t = []"
  have "kinds Text" by (simp add: kinds_def)
  then obtain fs where fs: "ss_frames st1 = ss_frames st @ fs" "list_all plain_frame fs"
    using a unfolding adds_def by blast
  have "frames_text incoming k fs = []" if kk: "kinds k" for k
  proof -
    obtain gs where "ss_frames st1 = ss_frames st @ gs" "frames_text incoming k gs = []"
      using a [rule_format, OF kk] unfolding adds_def by blast
    with fs show ?thesis by simp
  qed
  with f fs t show ?thesis unfolding ends_def by (intro exI [of _ fs] exI [of _ t]) simp
qed

lemma ends_via: "ends incoming st1 st' \<Longrightarrow> ss_frames st = ss_frames st1 \<Longrightarrow> ends incoming st st'"
  by (simp add: ends_def)

lemma silent_done_reasoning: "silent st (done_reasoning st)"
proof -
  have e: "silent st1 (emit_typed ev kvs st1)"
    if "ev \<in> {''response.output_item.done'', ''response.content_part.done'', ''response.reasoning_summary_text.done''}" for ev kvs st1
    using that by (intro silent_emit) auto
  show ?thesis
    unfolding done_reasoning_def Let_def
    by (simp only: split: if_split) (intro conjI impI; (rule e | rule silent_trans [OF silent_trans [OF e e] e] | rule silent_set); simp)
qed

lemma silent_done_call: "silent st (done_call c st)"
  unfolding done_call_def Let_def by (rule silent_trans [OF silent_emit silent_emit]) simp_all

lemma silent_done_text: "silent st (done_text st)"
proof -
  have e: "silent st1 (emit_typed ev kvs st1)"
    if "ev \<in> {''response.output_item.done'', ''response.content_part.done'', ''response.output_text.done''}" for ev kvs st1
    using that by (intro silent_emit) auto
  show ?thesis
    unfolding done_text_def Let_def
    by (simp only: split: if_split) (intro conjI impI; (rule silent_trans [OF silent_trans [OF e e] e] | rule silent_set); simp)
qed

lemma silent_fold: "(\<And>x st. silent st (f x st)) \<Longrightarrow> silent st (List.fold f xs st)"
  by (intro allI impI adds_fold) blast

lemma silent_done_calls: "silent st (List.fold done_call cs st)"
  by (rule silent_fold) (rule silent_done_call)

lemma done_ends:
  assumes "\<not> ss_done st" "incoming \<in> {ProtocolChat, ProtocolMessages, ProtocolResponses}"
  shows "ends incoming st (writeStreamDone clock incoming st)"
proof -
  let ?st = "st\<lparr>ss_done := True\<rparr>"
  have nk: "frame_text incoming k (Frame ev (AObj [(''type'', AStr ev)])) = []" for k ev
    by (simp add: frame_text_def chat_delta_def)
  consider "incoming = ProtocolChat" | "incoming = ProtocolMessages" | "incoming = ProtocolResponses" using assms(2) by auto
  then show ?thesis
  proof cases
    case 1
    then show ?thesis using assms(1)
      by (auto simp: writeStreamDone_def ends_def plain_frame_def frames_text_def frame_text_def
          intro!: exI [of _ "[]"] exI [of _ DoneFrame])
  next
    case 2
    define st1 where "st1 = (if \<not> ss_started ?st \<or> (\<not> ss_messagesToolsWritten ?st \<and> ss_toolCalls ?st \<noteq> [])
      then fst (writeTranslatedEvent clock ProtocolMessages (finish_delta ''stop'') ?st) else closeMessagesBlock ?st)"
    have "writeTranslatedEvent clock ProtocolMessages (finish_delta ''stop'') ?st =
        (messages_finish ''stop'' (messages_start ?st), None)"
      by (simp add: writeTranslatedEvent_def write_messages_def finish_delta_def delta_def)
    moreover have "\<forall>k. adds ProtocolMessages k [] ?st (messages_finish ''stop'' (messages_start ?st))"
      by (rule quiet_trans [OF quiet_start quiet_finish])
    ultimately have q: "\<forall>k. adds ProtocolMessages k [] ?st st1" using quiet_close [of ?st] by (simp add: st1_def)
    have e: "writeStreamDone clock incoming st = emit_typed ''message_stop'' [] st1"
      using assms(1) 2 by (simp add: writeStreamDone_def st1_def Let_def)
    show ?thesis unfolding e
    proof (rule ends_via [OF ends_after [of _ ?st st1]])
      show "\<forall>k. kinds k \<longrightarrow> adds incoming k [] ?st st1" using q 2 by simp
    qed (use nk in \<open>auto simp: plain_frame_def\<close>)
  next
    case 3
    define st1 where "st1 = done_text (List.fold done_call (ss_toolCalls (done_reasoning ?st)) (done_reasoning ?st))"
    have tc: "ss_toolCalls (done_reasoning ?st) = ss_toolCalls ?st"
      by (simp add: done_reasoning_def Let_def)
    have q: "silent ?st st1"
      unfolding st1_def by (rule silent_trans [OF silent_trans [OF silent_done_reasoning silent_done_calls] silent_done_text])
    have e: "\<exists>kvs. writeStreamDone clock incoming st = emit_typed ''response.completed'' kvs st1"
      using assms(1) 3 tc by (auto simp: writeStreamDone_def responses_done_def st1_def Let_def)
    then obtain kvs where e: "writeStreamDone clock incoming st = emit_typed ''response.completed'' kvs st1" by blast
    show ?thesis unfolding e
    proof (rule ends_via [OF ends_after [of _ ?st st1]])
      show "\<forall>k. kinds k \<longrightarrow> adds incoming k [] ?st st1" using q 3 by simp
    qed (use 3 in \<open>auto simp: plain_frame_def frame_text_def\<close>)
  qed
qed

section \<open>What the upstream said\<close>

definition said_all :: "delta_kind \<Rightarrow> canonicalDelta list \<Rightarrow> string" where
  "said_all k ds = concat (map (said k) ds)"

lemma said_all_simps [simp]:
  "said_all k [] = []" "said_all k (d # ds) = said k d @ said_all k ds" "said_all k (ds @ es) = said_all k ds @ said_all k es"
  by (simp_all add: said_all_def)

text \<open>The text of one event and whether the stream ends with it; neither depends on the state.\<close>

definition visible_event :: "delta_kind \<Rightarrow> string \<Rightarrow> sseEvent \<Rightarrow> string \<times> bool" where
  "visible_event k target e =
     (if sse_Data e = ''[DONE]'' then ([], True)
      else case (if sse_Data e = [] then None else unmarshal_map (sse_Data e)) of
             None \<Rightarrow> ([], False)
           | Some p \<Rightarrow>
               (case canonicalDeltas (sse_Name e) (case p of Some m \<Rightarrow> m | None \<Rightarrow> []) target (new_stream [] []) of
                  (ds, dn, st) \<Rightarrow> (said_all k ds, dn)))"

function visible_body :: "delta_kind \<Rightarrow> string \<Rightarrow> string \<Rightarrow> string" where
  "visible_body k target s =
     (case readSSEEvent s of
        (e, rest, err) \<Rightarrow>
          fst (visible_event k target e)
          @ (if snd (visible_event k target e) \<or> err \<noteq> None then [] else visible_body k target rest))"
  by pat_completeness auto
termination by (relation "measure (\<lambda>(k, target, s). length s)") (auto intro: readSSEEvent_shorter)

declare visible_body.simps [simp del]

lemma said_set_id [simp]: "ss_done (set_id v st) = ss_done st" "ss_frames (set_id v st) = ss_frames st"
  by (simp_all add: set_id_def split: option.split)

lemma said_kind [simp]: "said k (d\<lparr>d_CallID := a\<rparr>) = said k d" "said k (d\<lparr>d_ItemID := a\<rparr>) = said k d"
  "said k (d\<lparr>d_ArgumentFinal := b\<rparr>) = said k d" "said k (d\<lparr>d_Arguments := a\<rparr>) = said k d"
  by (simp_all add: said_def)

lemma canonical_said:
  assumes "canonicalDeltas event payload target st = (ds, dn, st1)"
    and "canonicalDeltas event payload target st0 = (ds0, dn0, st2)" and "kinds k"
  shows "said_all k ds = said_all k ds0 \<and> dn = dn0 \<and> ss_frames st1 = ss_frames st \<and> ss_done st1 = ss_done st \<and>
     ss_accumulated st1 = ss_accumulated st \<and> ss_reasoningAccumulated st1 = ss_reasoningAccumulated st"
  using assms
  by (auto simp: canonicalDeltas_def chat_deltas_def messages_deltas_def responses_deltas_def Let_def set_id_def
      said_def finish_delta_def delta_def kinds_def split: if_splits option.splits)

lemma write_deltas_adds:
  assumes "kinds k" "incoming \<in> {ProtocolChat, ProtocolMessages, ProtocolResponses}"
  shows "write_deltas clock incoming failed ds st = (st', e) \<Longrightarrow>
    (e = None \<longrightarrow> adds incoming k (said_all k ds) st st') \<and> (\<exists>t. adds incoming k t st st')"
proof (induction ds arbitrary: st)
  case Nil
  then show ?case by (auto simp: adds_refl intro: exI [of _ "[]"])
next
  case (Cons d ds)
  show ?case
  proof (cases "d_Kind d = Error")
    case True
    then show ?thesis using Cons.prems by (auto simp: adds_refl intro: exI [of _ "[]"])
  next
    case False
    obtain st1 f where w: "writeTranslatedEvent clock incoming d st = (st1, f)" by fastforce
    note a = write_adds [OF assms w]
    show ?thesis
    proof (cases f)
      case (Some err)
      then show ?thesis using Cons.prems w False a by auto
    next
      case None
      then have "write_deltas clock incoming failed ds st1 = (st', e)" using Cons.prems w False by simp
      from Cons.IH [OF this] a None show ?thesis using adds_trans by fastforce
    qed
  qed
qed

section \<open>A whole body\<close>

abbreviation (input) "protocols \<equiv> {ProtocolChat, ProtocolMessages, ProtocolResponses}"

text \<open>A stream after the text \<open>t\<close>: still open, or ended by its last frame alone.\<close>

definition told :: "string \<Rightarrow> delta_kind \<Rightarrow> string \<Rightarrow> bool \<Rightarrow> streamState \<Rightarrow> streamState \<Rightarrow> bool" where
  "told incoming k t ended st st' \<longleftrightarrow>
     (if ended then (\<exists>st1. adds incoming k t st st1 \<and> ends incoming st1 st') else adds incoming k t st st')"

lemma told_trans: "adds incoming k t st st1 \<Longrightarrow> told incoming k u ended st1 st' \<Longrightarrow> told incoming k (t @ u) ended st st'"
  by (cases ended) (use adds_trans in \<open>simp_all add: told_def\<close>, blast)

lemma adds_done: "adds incoming k t st st' \<Longrightarrow> ss_done st' = ss_done st"
  by (simp add: adds_def)

lemma completed_same [simp]: "adds incoming k t st (st'\<lparr>ss_completed := c\<rparr>) = adds incoming k t st st'"
  by (simp add: adds_def)

lemma told_end:
  assumes "adds incoming k t st st1" "\<not> ss_done st" "incoming \<in> protocols"
  shows "told incoming k t True st (writeStreamDone clock incoming (st1\<lparr>ss_completed := True\<rparr>))"
proof -
  let ?st1 = "st1\<lparr>ss_completed := True\<rparr>"
  have "adds incoming k t st ?st1" using assms(1) by simp
  moreover have "ends incoming ?st1 (writeStreamDone clock incoming ?st1)"
    by (rule done_ends) (use adds_done [OF assms(1)] assms(2,3) in simp_all)
  ultimately show ?thesis unfolding told_def if_True by blast
qed

lemma event_told:
  assumes "kinds k" "incoming \<in> protocols" "\<not> ss_done st"
    and "translate_event clock oor incoming target e (st, u) = (p, u')"
  shows "(case p of
      Finished st' \<Rightarrow> told incoming k (fst (visible_event k target e)) True st st' \<and> snd (visible_event k target e)
    | More st' \<Rightarrow> adds incoming k (fst (visible_event k target e)) st st' \<and> \<not> snd (visible_event k target e)
    | Failed st' f \<Rightarrow> \<exists>t. adds incoming k t st st')"
proof (cases "sse_Data e = ''[DONE]'' \<or> sse_Data e = [] \<or> unmarshal_map (sse_Data e) = None")
  case True
  have r: "adds incoming k [] st st" by (simp add: adds_refl)
  show ?thesis
  proof (cases "sse_Data e = ''[DONE]''")
    case True
    then show ?thesis using assms(4) told_end [OF r assms(3,2)] by (auto simp: translate_event_def visible_event_def)
  next
    case False
    then have "p = More st" "visible_event k target e = ([], False)"
      using True assms(4) by (auto simp: translate_event_def visible_event_def split: if_splits)
    then show ?thesis using r by simp
  qed
next
  case False
  then obtain pl where pl: "unmarshal_map (sse_Data e) = Some pl" by auto
  let ?p = "case pl of Some m \<Rightarrow> m | None \<Rightarrow> []"
  let ?f = "if target = ProtocolResponses \<and> sse_Name e = ''response.incomplete'' then StreamIncomplete else StreamFailed"
  obtain ds dn st1 where c: "canonicalDeltas (sse_Name e) ?p target st = (ds, dn, st1)" by (metis prod_cases3)
  obtain ds0 dn0 st0 where c0: "canonicalDeltas (sse_Name e) ?p target (new_stream [] []) = (ds0, dn0, st0)"
    by (metis prod_cases3)
  note same = canonical_said [OF c c0 assms(1)]
  obtain st2 err where w: "write_deltas clock incoming ?f ds st1 = (st2, err)" by fastforce
  have a0: "adds incoming k [] st st1" by (rule adds_refl) (simp_all add: same)
  have a: "(err = None \<longrightarrow> adds incoming k (said_all k ds) st st2) \<and> (\<exists>t. adds incoming k t st st2)"
    using write_deltas_adds [OF assms(1,2) w] adds_trans [OF a0] by fastforce
  have v: "visible_event k target e = (said_all k ds, dn)"
    using False pl c0 same by (simp add: visible_event_def)
  show ?thesis
  proof (cases err)
    case (Some f)
    then have "p = Failed st2 f" using assms(4) False pl c w by (simp add: translate_event_def Let_def)
    then show ?thesis using a by simp
  next
    case None
    then have "p = (if dn then Finished (writeStreamDone clock incoming (st2\<lparr>ss_completed := True\<rparr>)) else More st2)"
      using assms(4) False pl c w by (auto simp: translate_event_def Let_def split: if_splits)
    then show ?thesis using a None v told_end [of incoming k "said_all k ds" st st2 clock] assms(2,3) by simp
  qed
qed

lemma loop_told:
  assumes "kinds k" "incoming \<in> protocols"
  shows "\<not> ss_done (fst su) \<Longrightarrow> translate_loop clock oor incoming target end s su = ((st, err), u) \<Longrightarrow>
     (if err = None then told incoming k (visible_body k target s) True (fst su) st
      else \<exists>t. adds incoming k t (fst su) st)"
proof (induction s arbitrary: su rule: measure_induct_rule [of length])
  case (less s)
  obtain e rest err1 where r: "readSSEEvent s = (e, rest, err1)" by (metis prod_cases3)
  obtain st0 u0 where su: "su = (st0, u0)" by fastforce
  obtain p u1 where p: "translate_event clock oor incoming target e (st0, u0) = (p, u1)" by fastforce
  have nd: "\<not> ss_done st0" using less.prems(1) su by simp
  note ev = event_told [OF assms nd p]
  have t: "(case p of Finished st \<Rightarrow> ((st, None), u1) | Failed st f \<Rightarrow> ((st, Some f), u1)
      | More st \<Rightarrow> (case err1 of
           None \<Rightarrow> translate_loop clock oor incoming target end rest (st, u1)
         | Some ReaderError \<Rightarrow>
             (if end = EndOfFile \<and> ss_completed st then ((writeStreamDone clock incoming st, None), u1)
              else ((st, Some (translatedStreamReadError end)), u1))
         | Some _ \<Rightarrow> ((st, Some StreamRead), u1))) = ((st, err), u)"
    using less.prems(2) by (subst (asm) translate_loop.simps) (simp add: su r p split: progress.splits)
  have v: "visible_body k target s = fst (visible_event k target e)
      @ (if snd (visible_event k target e) \<or> err1 \<noteq> None then [] else visible_body k target rest)"
    by (subst visible_body.simps) (simp add: r)
  show ?case
  proof (cases p)
    case (More st1)
    then have a: "adds incoming k (fst (visible_event k target e)) st0 st1" and nv: "\<not> snd (visible_event k target e)"
      using ev by simp_all
    show ?thesis
    proof (cases err1)
      case None
      have "length rest < length s" using readSSEEvent_shorter r None by metis
      moreover have "\<not> ss_done st1" using adds_done [OF a] nd by simp
      moreover have "translate_loop clock oor incoming target end rest (st1, u1) = ((st, err), u)" using t More None by simp
      ultimately have i: "if err = None then told incoming k (visible_body k target rest) True st1 st
          else \<exists>t. adds incoming k t st1 st"
        using less.IH [of rest "(st1, u1)"] unfolding fst_conv by blast
      show ?thesis
      proof (cases "err = None")
        case True
        then show ?thesis using told_trans [OF a, of "visible_body k target rest" True st] i nv None v su by simp
      next
        case False
        with i obtain t where "adds incoming k t st1 st" by auto
        from adds_trans [OF a this] False su show ?thesis by auto
      qed
    next
      case (Some x)
      have "told incoming k (fst (visible_event k target e)) True st0 (writeStreamDone clock incoming st1)"
        if c: "ss_completed st1"
        using told_end [OF a nd assms(2), of clock] by (simp add: completed_mark c)
      then show ?thesis using t More Some a v su by (cases x) (auto split: if_splits)
    qed
  next
    case (Finished st1)
    then show ?thesis using ev t v su by auto
  next
    case (Failed st1 f)
    then show ?thesis using ev t v su by auto
  qed
qed

lemma new_stream_simps [simp]:
  "ss_frames (new_stream i m) = []" "ss_done (new_stream i m) = False" "ss_accumulated (new_stream i m) = []"
  "ss_reasoningAccumulated (new_stream i m) = []" "ss_toolCalls (new_stream i m) = []"
  by (simp_all add: new_stream_def)

text \<open>The client reads what the upstream said, and the stream is terminated by its last frame alone, exactly
  when it was complete.\<close>

lemma stream_told:
  assumes "kinds k" "incoming \<in> protocols"
    and "translateSSEObserved clock oor i incoming target model end s u = ((st, err), u')"
  shows "if err = None
    then frames_text incoming k (ss_frames st) = visible_body k target s \<and>
         (\<exists>fs t. ss_frames st = fs @ [t] \<and> list_all plain_frame fs \<and> \<not> plain_frame t)
    else list_all plain_frame (ss_frames st)"
proof -
  have l: "if err = None then told incoming k (visible_body k target s) True (new_stream i model) st
      else \<exists>t. adds incoming k t (new_stream i model) st"
    using loop_told [OF assms(1,2) _ assms(3) [unfolded translateSSEObserved_def], unfolded fst_conv] by simp
  show ?thesis
  proof (cases "err = None")
    case True
    then obtain st1 where a: "adds incoming k (visible_body k target s) (new_stream i model) st1" and e: "ends incoming st1 st"
      using l unfolding told_def by auto
    from e obtain fs t where f: "ss_frames st = ss_frames st1 @ fs @ [t]" "list_all plain_frame fs" "\<not> plain_frame t"
        "frames_text incoming k (fs @ [t]) = []"
      unfolding ends_def using assms(1) by blast
    from a have "list_all plain_frame (ss_frames st1)" "frames_text incoming k (ss_frames st1) = visible_body k target s"
      unfolding adds_def by auto
    with f True show ?thesis
      by (auto intro!: exI [of _ "ss_frames st1 @ fs"] exI [of _ t])
  next
    case False
    then show ?thesis using l by (auto simp: adds_def)
  qed
qed

section \<open>The same text without a stream\<close>

lemma applyTool_text:
  "applyToolDelta d st = Inr (st', i) \<Longrightarrow> ss_accumulated st' = ss_accumulated st \<and>
     ss_reasoningAccumulated st' = ss_reasoningAccumulated st"
  by (auto simp: applyToolDelta_def find_call_def set_call_def Let_def split: sum.splits option.splits if_splits)

text \<open>The text gathered for kind \<open>k\<close>.\<close>

definition gathered :: "delta_kind \<Rightarrow> streamState \<Rightarrow> string" where
  "gathered k st = (if k = Text then ss_accumulated st else ss_reasoningAccumulated st)"

lemma applyDelta_gathered:
  "kinds k \<Longrightarrow> applyDelta d st = (st', None) \<Longrightarrow> gathered k st' = gathered k st @ said k d"
  using applyTool_text [of d st]
  by (auto simp: applyDelta_def gathered_def said_def kinds_def split: delta_kind.splits if_splits sum.splits)

lemma fold_deltas_gathered:
  "kinds k \<Longrightarrow> fold_deltas ds (st, fin) = ((st', fin'), None) \<Longrightarrow> gathered k st' = gathered k st @ said_all k ds"
proof (induction ds arbitrary: st fin)
  case (Cons d ds)
  have nk: "d_Kind d = Usage \<or> d_Kind d = Finish \<Longrightarrow> said k d = []" using Cons.prems(1) by (auto simp: said_def kinds_def)
  show ?case
  proof (cases "d_Kind d = Usage \<or> (d_Kind d = Finish \<and> d_Finish d \<noteq> [])")
    case True
    then obtain fin1 where "fold_deltas ds (st, fin1) = ((st', fin'), None)" using Cons.prems(2) by auto
    then show ?thesis using Cons.IH [OF Cons.prems(1)] True nk by auto
  next
    case False
    then have ne: "d_Kind d \<noteq> Error" using Cons.prems(2) by auto
    obtain st1 f where a: "applyDelta d st = (st1, f)" by fastforce
    with Cons.prems(2) False ne have "f = None" "fold_deltas ds (st1, fin) = ((st', fin'), None)"
      by (auto split: option.splits)
    then show ?thesis using applyDelta_gathered [OF Cons.prems(1)] a Cons.IH [OF Cons.prems(1)] by simp
  qed
qed simp

lemma aggregate_gathered:
  "kinds k \<Longrightarrow> aggregate_loop oor target end s ((st, fin), u) = Inr ((st', fin'), u') \<Longrightarrow>
   gathered k st' = gathered k st @ visible_body k target s"
proof (induction s arbitrary: st fin u rule: measure_induct_rule [of length])
  case (less s)
  obtain e rest err1 where r: "readSSEEvent s = (e, rest, err1)" by (metis prod_cases3)
  have v: "visible_body k target s = fst (visible_event k target e)
      @ (if snd (visible_event k target e) \<or> err1 \<noteq> None then [] else visible_body k target rest)"
    by (subst visible_body.simps) (simp add: r)
  have stop: "gathered k st' = gathered k st1 @ (if err1 \<noteq> None then [] else visible_body k target rest)"
    if "(case err1 of None \<Rightarrow> aggregate_loop oor target end rest ((st1, fin1), u1)
         | Some ReaderError \<Rightarrow> if end = EndOfFile then Inr ((st1, fin1), u1) else Inl StreamRead
         | Some _ \<Rightarrow> Inl StreamRead) = Inr ((st', fin'), u')" for st1 fin1 u1
  proof (cases err1)
    case None
    have "length rest < length s" using readSSEEvent_shorter r None by metis
    then show ?thesis using less.IH [OF _ less.prems(1)] that None by simp
  next
    case (Some x)
    then show ?thesis using that by (cases x) (auto split: if_splits)
  qed
  show ?case
  proof (cases "sse_Data e = ''[DONE]''")
    case True
    then show ?thesis using less.prems(2) v
      by (subst (asm) aggregate_loop.simps) (simp add: r visible_event_def)
  next
    case nd: False
    show ?thesis
    proof (cases "if sse_Data e = [] then None else unmarshal_map (sse_Data e)")
      case None
      then have "(case err1 of None \<Rightarrow> aggregate_loop oor target end rest ((st, fin), u)
         | Some ReaderError \<Rightarrow> if end = EndOfFile then Inr ((st, fin), u) else Inl StreamRead
         | Some _ \<Rightarrow> Inl StreamRead) = Inr ((st', fin'), u')"
        using less.prems(2) nd by (subst (asm) aggregate_loop.simps) (simp add: r split: if_splits option.splits)
      from stop [OF this] v nd None show ?thesis by (simp add: visible_event_def)
    next
      case (Some pl)
      let ?p = "case pl of Some m \<Rightarrow> m | None \<Rightarrow> []"
      obtain ds dn st1 where c: "canonicalDeltas (sse_Name e) ?p target st = (ds, dn, st1)" by (metis prod_cases3)
      obtain ds0 dn0 st0 where c0: "canonicalDeltas (sse_Name e) ?p target (new_stream [] []) = (ds0, dn0, st0)"
        by (metis prod_cases3)
      note same = canonical_said [OF c c0 less.prems(1)]
      obtain st2 fin2 f where w: "fold_deltas ds (st1, fin) = ((st2, fin2), f)" by (metis prod_cases3 prod.exhaust)
      have ne: "sse_Data e \<noteq> []" "unmarshal_map (sse_Data e) = Some pl" using Some by (auto split: if_splits)
      have f: "f = None" using less.prems(2) nd ne
        by (subst (asm) aggregate_loop.simps) (cases f, auto simp: r c w)
      have g: "gathered k st2 = gathered k st @ said_all k ds"
        using fold_deltas_gathered [OF less.prems(1)] w f same by (simp add: gathered_def)
      have vis: "visible_event k target e = (said_all k ds, dn)"
        using nd ne c0 same by (simp add: visible_event_def)
      show ?thesis
      proof (cases dn)
        case True
        have "st' = st2" using less.prems(2) nd ne True
          by (subst (asm) aggregate_loop.simps) (simp add: r c w f)
        then show ?thesis using g v vis True by simp
      next
        case False
        have "(case err1 of None \<Rightarrow> aggregate_loop oor target end rest ((st2, fin2), captureStreamUsage oor ?p target u)
           | Some ReaderError \<Rightarrow> if end = EndOfFile then Inr ((st2, fin2), captureStreamUsage oor ?p target u) else Inl StreamRead
           | Some _ \<Rightarrow> Inl StreamRead) = Inr ((st', fin'), u')"
          using less.prems(2) nd ne False by (subst (asm) aggregate_loop.simps) (simp add: r c w f Let_def)
        from stop [OF this] g v vis False show ?thesis by simp
      qed
    qed
  qed
qed

lemma same_text_either_way:
  assumes "kinds k" "incoming \<in> protocols"
    and "translateSSEObserved clock oor i incoming target model end s u = ((st, None), u')"
    and "aggregate_loop oor' target end' s ((new_stream i' model', fin), v) = Inr ((st', fin'), v')"
  shows "frames_text incoming k (ss_frames st) = gathered k st'"
  using stream_told [OF assms(1-3)] aggregate_gathered [OF assms(1,4)] by (simp add: gathered_def)

end
