(* ===== verification/StreamTools.thy ===== *)
theory StreamTools
  imports StreamContent
begin

text \<open>
  The tool calls of a translated stream: what is accumulated stays within the limits and the books agree
  (\<open>tools_ok\<close>), in every protocol; a Chat client receives the arguments of a call piece by piece
  (\<open>call_text\<close>), and a terminal payload is never added to what it already has.
\<close>

section \<open>Limits\<close>

definition argument_bytes :: "toolCallState list \<Rightarrow> int" where
  "argument_bytes cs = sum_list (map (\<lambda>c. len (tc_arguments c)) cs)"

definition tools_ok :: "streamState \<Rightarrow> bool" where
  "tools_ok st \<longleftrightarrow> len (ss_toolCalls st) \<le> maxStreamToolCalls \<and>
     ss_toolArgumentBytes st = argument_bytes (ss_toolCalls st) \<and>
     argument_bytes (ss_toolCalls st) \<le> maxAccumulatedToolArgumentBytes \<and>
     (\<forall>a i. gm_get (ss_toolAliases st) a = Some i \<longrightarrow> i < length (ss_toolCalls st)) \<and>
     (\<forall>i < length (ss_toolCalls st). tc_ordinal (ss_toolCalls st ! i) = int i) \<and>
     ss_accumulatedBytes st = len (ss_accumulated st) \<and> len (ss_accumulated st) \<le> maxAccumulatedTextBytes \<and>
     len (ss_reasoningAccumulated st) \<le> maxAccumulatedTextBytes"

lemma len_simps [simp]: "len [] = 0" "len (xs @ ys) = len xs + len ys" "0 \<le> len xs" "len (x # xs) = 1 + len xs"
  by (simp_all add: len_def)

lemma len_update [simp]: "len (xs[i := x]) = len xs"
  by (simp add: len_def)

lemma argument_bytes_simps [simp]:
  "argument_bytes [] = 0" "argument_bytes (c # cs) = len (tc_arguments c) + argument_bytes cs"
  "argument_bytes (cs @ ds) = argument_bytes cs + argument_bytes ds"
  by (simp_all add: argument_bytes_def)

lemma argument_bytes_update:
  "i < length cs \<Longrightarrow> argument_bytes (cs[i := c]) = argument_bytes cs - len (tc_arguments (cs ! i)) + len (tc_arguments c)"
  by (induction cs arbitrary: i) (auto simp: nth_Cons split: nat.split)

lemma first_alias_known: "first_alias m as = Some i \<Longrightarrow> \<exists>a. gm_get m a = Some i"
  by (induction as) (auto split: option.splits)

lemma fold_aliases:
  "gm_get (List.fold (\<lambda>a m. gm_set a i m) as m) a = (if a \<in> set as then Some i else gm_get m a)"
  by (induction as arbitrary: m) auto

lemma named_call_same [simp]:
  "tc_arguments (named_call d c) = tc_arguments c" "tc_ordinal (named_call d c) = tc_ordinal c"
  "tc_finalArguments (named_call d c) = tc_finalArguments c" "tc_deltaArguments (named_call d c) = tc_deltaArguments c"
  by (simp_all add: named_call_def Let_def)

lemma find_call_ok:
  "tools_ok st \<Longrightarrow> find_call d st = Inr (st', i) \<Longrightarrow> tools_ok st' \<and> i < length (ss_toolCalls st')"
proof -
  assume ok: "tools_ok st" and f: "find_call d st = Inr (st', i)"
  show ?thesis
  proof (cases "first_alias (ss_toolAliases st) (tool_aliases d)")
    case None
    with f have st': "st' = st\<lparr>ss_toolCalls := ss_toolCalls st @ [new_call (len (ss_toolCalls st))]\<rparr>"
      "i = length (ss_toolCalls st)" "len (ss_toolCalls st) < maxStreamToolCalls"
      by (auto simp: find_call_def split: if_splits)
    then show ?thesis using ok
      by (auto simp: tools_ok_def new_call_def nth_append len_def less_Suc_eq)
  next
    case (Some j)
    with f have "st' = st" "i = j" by (simp_all add: find_call_def)
    with first_alias_known [OF Some] ok show ?thesis by (auto simp: tools_ok_def)
  qed
qed

text \<open>What a tool delta does to its call.\<close>

definition with_arguments :: "canonicalDelta \<Rightarrow> toolCallState \<Rightarrow> toolCallState" where
  "with_arguments d c = (named_call d c)
     \<lparr>tc_arguments := (if d_ArgumentFinal d then [] else tc_arguments c) @ d_Arguments d\<rparr>"

lemma applyToolDelta_Inr:
  assumes "applyToolDelta d st = Inr (st', i)"
  obtains st1 where "find_call d st = Inr (st1, i)"
    and "ss_toolCalls st' = (ss_toolCalls st1)[i := with_arguments d (ss_toolCalls st1 ! i)]"
    and "ss_toolAliases st' = List.fold (\<lambda>a m. gm_set a i m) (tool_aliases d) (ss_toolAliases st1)"
    and "ss_toolArgumentBytes st' = ss_toolArgumentBytes st1 + len (d_Arguments d)
           - (if d_ArgumentFinal d then len (tc_arguments (ss_toolCalls st1 ! i)) else 0)"
    and "ss_toolArgumentBytes st' \<le> maxAccumulatedToolArgumentBytes"
    and "ss_accumulated st' = ss_accumulated st" "ss_accumulatedBytes st' = ss_accumulatedBytes st"
    and "ss_reasoningAccumulated st' = ss_reasoningAccumulated st" "ss_frames st' = ss_frames st"
proof -
  obtain st1 j where f: "find_call d st = Inr (st1, j)"
    using assms by (auto simp: applyToolDelta_def split: sum.splits)
  have same: "ss_accumulated st1 = ss_accumulated st" "ss_accumulatedBytes st1 = ss_accumulatedBytes st"
    "ss_reasoningAccumulated st1 = ss_reasoningAccumulated st" "ss_frames st1 = ss_frames st"
    using f by (auto simp: find_call_def split: option.splits if_splits)
  from assms f have j: "j = i" by (auto simp: applyToolDelta_def Let_def split: if_splits)
  show thesis
    by (rule that [of st1]; use assms f j same in
      \<open>auto simp: applyToolDelta_def with_arguments_def set_call_def Let_def split: if_splits\<close>)
qed

lemma with_arguments_same [simp]: "tc_ordinal (with_arguments d c) = tc_ordinal c"
  "tc_finalArguments (with_arguments d c) = tc_finalArguments c"
  "tc_deltaArguments (with_arguments d c) = tc_deltaArguments c"
  by (simp_all add: with_arguments_def)

lemma applyToolDelta_ok:
  assumes "tools_ok st" "applyToolDelta d st = Inr (st', i)"
  shows "tools_ok st' \<and> i < length (ss_toolCalls st')"
proof -
  from applyToolDelta_Inr [OF assms(2)] obtain st1 where f: "find_call d st = Inr (st1, i)"
    and c: "ss_toolCalls st' = (ss_toolCalls st1)[i := with_arguments d (ss_toolCalls st1 ! i)]"
    and a: "ss_toolAliases st' = List.fold (\<lambda>a m. gm_set a i m) (tool_aliases d) (ss_toolAliases st1)"
    and b: "ss_toolArgumentBytes st' = ss_toolArgumentBytes st1 + len (d_Arguments d)
           - (if d_ArgumentFinal d then len (tc_arguments (ss_toolCalls st1 ! i)) else 0)"
    and m: "ss_toolArgumentBytes st' \<le> maxAccumulatedToolArgumentBytes"
    and t: "ss_accumulated st' = ss_accumulated st" "ss_accumulatedBytes st' = ss_accumulatedBytes st"
      "ss_reasoningAccumulated st' = ss_reasoningAccumulated st" by metis
  from find_call_ok [OF assms(1) f] have ok: "tools_ok st1" and i: "i < length (ss_toolCalls st1)" by simp_all
  have "argument_bytes (ss_toolCalls st') = ss_toolArgumentBytes st'"
    using ok i by (simp add: c b argument_bytes_update tools_ok_def with_arguments_def)
  then show ?thesis
    using ok assms(1) i m t unfolding tools_ok_def
    by (auto simp: c a fold_aliases nth_list_update split: if_splits)
qed

lemma tools_same:
  "tools_ok st \<Longrightarrow> ss_toolCalls st' = ss_toolCalls st \<Longrightarrow> ss_toolAliases st' = ss_toolAliases st \<Longrightarrow>
   ss_toolArgumentBytes st' = ss_toolArgumentBytes st \<Longrightarrow> ss_accumulated st' = ss_accumulated st \<Longrightarrow>
   ss_accumulatedBytes st' = ss_accumulatedBytes st \<Longrightarrow> ss_reasoningAccumulated st' = ss_reasoningAccumulated st \<Longrightarrow>
   tools_ok st'"
  by (simp add: tools_ok_def)

text \<open>Everything \<open>tools_ok\<close> looks at.\<close>

definition call_books :: "streamState \<Rightarrow> toolCallState list \<times> (string, nat) gomap \<times> int \<times> string \<times> int \<times> string" where
  "call_books st = (ss_toolCalls st, ss_toolAliases st, ss_toolArgumentBytes st, ss_accumulated st, ss_accumulatedBytes st,
               ss_reasoningAccumulated st)"

lemma tools_books: "tools_ok st \<Longrightarrow> call_books st' = call_books st \<Longrightarrow> tools_ok st'"
  by (rule tools_same) (simp_all add: call_books_def)

lemma books_emit [simp]: "call_books (emit event kvs st) = call_books st" "call_books (emit_typed event kvs st) = call_books st"
  by (simp_all add: call_books_def emit_def emit_typed_def)

lemma books_update [simp]:
  "call_books (st\<lparr>ss_started := b\<rparr>) = call_books st" "call_books (st\<lparr>ss_done := b\<rparr>) = call_books st" "call_books (st\<lparr>ss_completed := b\<rparr>) = call_books st"
  "call_books (st\<lparr>ss_contentStarted := b\<rparr>) = call_books st" "call_books (st\<lparr>ss_reasoningStarted := b\<rparr>) = call_books st"
  "call_books (st\<lparr>ss_messagesToolsWritten := b\<rparr>) = call_books st" "call_books (st\<lparr>ss_activeKind := k\<rparr>) = call_books st"
  "call_books (st\<lparr>ss_activeIndex := n\<rparr>) = call_books st" "call_books (st\<lparr>ss_nextIndex := n\<rparr>) = call_books st"
  "call_books (st\<lparr>ss_outputIndex := n\<rparr>) = call_books st" "call_books (st\<lparr>ss_outputOrder := os\<rparr>) = call_books st"
  "call_books (st\<lparr>ss_messageIndex := n\<rparr>) = call_books st" "call_books (st\<lparr>ss_reasoningIndex := n\<rparr>) = call_books st"
  "call_books (st\<lparr>ss_reasoningDetails := ds\<rparr>) = call_books st" "call_books (st\<lparr>ss_id := i\<rparr>) = call_books st"
  "call_books (st\<lparr>ss_frames := fs\<rparr>) = call_books st"
  by (simp_all add: call_books_def)

lemma books_chunk [simp]: "call_books (chat_chunk clock role kvs fin st) = call_books st" "call_books (chat_frame clock extra cs st) = call_books st"
  by (simp_all add: chat_chunk_def chat_frame_def)

lemma books_usage [simp]: "call_books (accumulateUsage v st) = call_books st"
  by (simp add: call_books_def accumulateUsage_def Let_def split: any.split option.split)

lemma books_close [simp]: "call_books (closeMessagesBlock st) = call_books st"
  by (simp add: closeMessagesBlock_def)

lemma books_messages [simp]:
  "call_books (open_block k b st) = call_books st" "call_books (block_delta kvs st) = call_books st" "call_books (messages_text d st) = call_books st"
  "call_books (messages_reasoning d st) = call_books st" "call_books (messages_state_block raw st) = call_books st"
  "call_books (messages_call c st) = call_books st" "call_books (messages_start st) = call_books st"
  by (simp_all add: open_block_def block_delta_def messages_text_def messages_reasoning_def messages_state_block_def
      messages_call_def messages_start_def Let_def)

lemma books_fold: "(\<And>x st. call_books (f x st) = call_books st) \<Longrightarrow> call_books (List.fold f xs st) = call_books st"
  by (induction xs arbitrary: st) simp_all

lemma books_finish [simp]: "call_books (messages_finish fin st) = call_books st"
  by (simp add: messages_finish_def Let_def books_fold)

lemma tools_set_call:
  "tools_ok st \<Longrightarrow> i < length (ss_toolCalls st) \<Longrightarrow> tc_arguments c = tc_arguments (ss_toolCalls st ! i) \<Longrightarrow>
   tc_ordinal c = tc_ordinal (ss_toolCalls st ! i) \<Longrightarrow> tools_ok (set_call i c st)"
  by (auto simp: tools_ok_def set_call_def argument_bytes_update nth_list_update)

lemma chat_tool_ok: "tools_ok st \<Longrightarrow> tools_ok (fst (chat_tool clock role d st))"
proof (cases "applyToolDelta d st")
  case (Inr p)
  assume ok: "tools_ok st"
  obtain st1 i where p: "p = (st1, i)" by fastforce
  note a = applyToolDelta_ok [OF ok Inr [unfolded p]]
  have "tools_ok (chat_chunk clock role kvs fin (set_call i c st1))"
    if "tc_arguments c = tc_arguments (ss_toolCalls st1 ! i)" "tc_ordinal c = tc_ordinal (ss_toolCalls st1 ! i)" for c kvs fin
    by (rule tools_books [OF tools_set_call]) (use that a in auto)
  then show ?thesis using Inr p a by (simp add: chat_tool_def Let_def)
qed (simp add: chat_tool_def)

lemma write_chat_ok: "tools_ok st \<Longrightarrow> tools_ok (fst (write_chat clock d st))"
proof -
  assume "tools_ok st"
  then have ok: "tools_ok (st\<lparr>ss_started := True\<rparr>)" by (rule tools_books) simp
  show ?thesis
    using ok chat_tool_ok [OF ok] tools_books [OF ok]
    by (simp add: write_chat_def Let_def split: delta_kind.split)
qed

lemma write_messages_ok: "tools_ok st \<Longrightarrow> tools_ok (fst (write_messages d st))"
proof -
  assume "tools_ok st"
  then have ok: "tools_ok (messages_start st)" by (rule tools_books) simp
  have b: "tools_ok (List.fold messages_state_block bs (messages_start st))" for bs
    by (rule tools_books [OF ok]) (simp add: books_fold)
  have m: "tools_ok (messages_text d (messages_start st))" "tools_ok (messages_reasoning d (messages_start st))"
    "tools_ok (messages_finish f (messages_start st))" "tools_ok (accumulateUsage v (messages_start st))" for f v
    by (rule tools_books [OF ok], simp)+
  show ?thesis
    using ok applyToolDelta_ok [OF ok] b m
    by (simp add: write_messages_def Let_def split: delta_kind.split sum.split prod.split)
qed

lemma books_responses [simp]:
  "call_books (responses_start clock st) = call_books st" "call_books (item_added item st) = call_books st"
  "call_books (take_index out st) = call_books st" "call_books (responses_text_start st) = call_books st"
  "call_books (responses_reasoning_start st) = call_books st"
proof -
  show t: "call_books (take_index out st) = call_books st" for out st by (simp add: take_index_def call_books_def)
  show i: "call_books (item_added item st) = call_books st" for item st by (simp add: item_added_def)
  show "call_books (responses_start clock st) = call_books st" "call_books (responses_text_start st) = call_books st"
    "call_books (responses_reasoning_start st) = call_books st"
    by (simp_all add: responses_start_def responses_text_start_def responses_reasoning_start_def Let_def t i)
qed

lemma calls_of_books: "call_books st = call_books st1 \<Longrightarrow> ss_toolCalls st = ss_toolCalls st1"
  by (simp add: call_books_def)

lemma write_tool_item_ok: "tools_ok st \<Longrightarrow> tools_ok (fst (write_tool_item d st))"
proof (cases "applyToolDelta d st")
  case (Inr p)
  assume ok: "tools_ok st"
  obtain st1 i where p: "p = (st1, i)" by fastforce
  note a = applyToolDelta_ok [OF ok Inr [unfolded p]]
  define st2 where "st2 = take_index (ToolOut i) st1"
  have ok2: "tools_ok st2 \<and> i < length (ss_toolCalls st2)"
    using a tools_books [of st1 st2] calls_of_books [of st2 st1] by (simp add: st2_def)
  have ok3: "tools_ok (item_added kvs (set_call i ((ss_toolCalls st2 ! i)\<lparr>tc_index := n\<rparr>) st2))" for kvs n
    by (rule tools_books [OF tools_set_call]) (use ok2 in auto)
  have e: "fst (write_tool_item d st) = st3 \<or> (\<exists>kvs. fst (write_tool_item d st) = emit_typed ''response.function_call_arguments.delta'' kvs st3)"
    if "st3 = (if 0 \<le> tc_index (ss_toolCalls st1 ! i) then st1
      else item_added [(''type'', AStr ''function_call''), (''call_id'', AStr (d_CallID d)), (''name'', AStr (d_Name d)),
             (''arguments'', AStr [])]
           (set_call i ((ss_toolCalls st2 ! i)\<lparr>tc_index := ss_outputIndex st2\<rparr>) st2))" for st3
    unfolding write_tool_item_def Inr p sum.case prod.case Let_def st2_def [symmetric] that [symmetric]
    by (cases "d_Arguments d = []") auto
  define st3 where "st3 = (if 0 \<le> tc_index (ss_toolCalls st1 ! i) then st1
      else item_added [(''type'', AStr ''function_call''), (''call_id'', AStr (d_CallID d)), (''name'', AStr (d_Name d)),
             (''arguments'', AStr [])]
           (set_call i ((ss_toolCalls st2 ! i)\<lparr>tc_index := ss_outputIndex st2\<rparr>) st2))"
  have o: "tools_ok st3" using a ok3 by (simp add: st3_def)
  have "tools_ok (emit_typed ev kvs st3)" for ev kvs by (rule tools_books [OF o]) simp
  with e [OF st3_def] o show ?thesis by (elim disjE exE) simp_all
qed (simp add: write_tool_item_def)

lemma responses_text_ok: "tools_ok (responses_text_start st) \<Longrightarrow> tools_ok (fst (responses_text d st))"
proof -
  define st1 where "st1 = responses_text_start st"
  define st2 where "st2 = st1\<lparr>ss_accumulated := ss_accumulated st1 @ d_Text d,
                     ss_accumulatedBytes := ss_accumulatedBytes st1 + len (d_Text d)\<rparr>"
  assume "tools_ok (responses_text_start st)"
  then have ok: "tools_ok st1" by (simp add: st1_def)
  show ?thesis
  proof (cases "maxAccumulatedTextBytes - ss_accumulatedBytes st1 < len (d_Text d)")
    case False
    have ok2: "tools_ok st2" using ok False by (simp add: tools_ok_def st2_def)
    have "tools_ok (emit_typed ev kvs st2)" for ev kvs by (rule tools_books [OF ok2]) simp
    then show ?thesis using False
      unfolding responses_text_def Let_def st1_def [symmetric] st2_def [symmetric] by simp
  qed (use ok in \<open>simp add: responses_text_def Let_def st1_def\<close>)
qed

lemma responses_reasoning_ok: "tools_ok (responses_reasoning_start st) \<Longrightarrow> tools_ok (fst (responses_reasoning d st))"
proof -
  define st1 where "st1 = responses_reasoning_start st"
  define st2 where "st2 = st1\<lparr>ss_reasoningAccumulated := ss_reasoningAccumulated st1 @ d_Text d\<rparr>"
  assume "tools_ok (responses_reasoning_start st)"
  then have ok: "tools_ok st1" by (simp add: st1_def)
  show ?thesis
  proof (cases "maxAccumulatedTextBytes - len (ss_reasoningAccumulated st1) < len (d_Text d)")
    case False
    have ok2: "tools_ok st2" using ok False by (simp add: tools_ok_def st2_def)
    have "tools_ok (emit_typed ev kvs st2)" for ev kvs by (rule tools_books [OF ok2]) simp
    then show ?thesis using False
      unfolding responses_reasoning_def Let_def st1_def [symmetric] st2_def [symmetric] by simp
  qed (use ok in \<open>simp add: responses_reasoning_def Let_def st1_def\<close>)
qed

lemma write_responses_ok: "tools_ok st \<Longrightarrow> tools_ok (fst (write_responses clock d st))"
proof -
  assume "tools_ok st"
  then have ok: "tools_ok (responses_start clock st)" by (rule tools_books) simp
  have t: "tools_ok (fst (responses_text d (responses_start clock st)))"
    by (rule responses_text_ok) (rule tools_books [OF ok], simp)
  have r: "tools_ok (fst (responses_reasoning d (responses_start clock st)))"
    by (rule responses_reasoning_ok) (rule tools_books [OF ok], simp)
  show ?thesis using ok t r write_tool_item_ok [OF ok]
    by (simp add: write_responses_def Let_def split: delta_kind.split sum.split)
qed

lemma write_ok: "tools_ok st \<Longrightarrow> tools_ok (fst (writeTranslatedEvent clock incoming d st))"
proof -
  assume ok: "tools_ok st"
  have "tools_ok (if d_Kind d = ReasoningState then st\<lparr>ss_reasoningDetails := ss_reasoningDetails st @ details_of d\<rparr> else st)"
    by (rule tools_books [OF ok]) simp
  then show ?thesis
    by (simp add: writeTranslatedEvent_def Let_def write_chat_ok write_messages_ok write_responses_ok)
qed

lemma books_done [simp]: "call_books (done_reasoning st) = call_books st" "call_books (done_call c st) = call_books st" "call_books (done_text st) = call_books st"
  by (simp_all add: done_reasoning_def done_call_def done_text_def Let_def)

lemma done_ok: "tools_ok st \<Longrightarrow> tools_ok (writeStreamDone clock incoming st)"
proof -
  assume ok: "tools_ok st"
  have ok2: "tools_ok (st\<lparr>ss_done := True\<rparr>)" by (rule tools_books [OF ok]) simp
  have r: "call_books (responses_done clock st1) = call_books st1" for st1
    by (simp add: responses_done_def Let_def books_fold)
  show ?thesis
    using ok tools_books [OF ok2] tools_books [OF write_ok [OF ok2, of clock incoming "finish_delta ''stop''"]] r
    by (simp add: writeStreamDone_def Let_def)
qed

interpretation bounded: stream_invariant clock incoming target "\<lambda>_. True" tools_ok tools_ok for clock incoming target
proof
  fix st i c
  show "tools_ok st \<Longrightarrow> tools_ok (writeStreamDone clock incoming (st\<lparr>ss_completed := True\<rparr>))"
    by (rule done_ok) (erule tools_books, simp)
  show "tools_ok st \<Longrightarrow> tools_ok (st\<lparr>ss_id := i\<rparr>)" "tools_ok st \<Longrightarrow> tools_ok (st\<lparr>ss_completed := c\<rparr>)"
    by (erule tools_books, simp)+
qed (simp_all add: write_ok)

lemma new_stream_ok: "tools_ok (new_stream i model)"
  by (simp add: tools_ok_def new_stream_def maxStreamToolCalls_def maxAccumulatedToolArgumentBytes_def
      maxAccumulatedTextBytes_def gm_get_def)

section \<open>Arguments a Chat client receives\<close>

definition call_piece :: "nat \<Rightarrow> any \<Rightarrow> string" where
  "call_piece i raw = (let c = as_map raw in
     if at c ''index'' = AInt (int i) then strField (at (as_map (at c ''function'')) ''arguments'') else [])"

text \<open>The arguments in a frame for the call of index \<open>i\<close>, and in all frames.\<close>

definition frame_call :: "nat \<Rightarrow> frame \<Rightarrow> string" where
  "frame_call i f = (case f of DoneFrame \<Rightarrow> []
     | Frame event payload \<Rightarrow> concat (map (call_piece i) (elems (at (chat_delta payload) ''tool_calls''))))"

definition call_text :: "nat \<Rightarrow> streamState \<Rightarrow> string" where
  "call_text i st = concat (map (frame_call i) (ss_frames st))"

lemma call_text_same: "ss_frames st' = ss_frames st \<Longrightarrow> call_text i st' = call_text i st"
  by (simp add: call_text_def)

lemma call_text_chunk:
  "role_ok role \<Longrightarrow> call_text i (chat_chunk clock role kvs fin st) =
     call_text i st @ concat (map (call_piece i) (elems (at kvs ''tool_calls'')))"
  by (simp add: call_text_def chat_chunk_def chat_frame_def frame_call_def chat_delta_def role_ok_def emit_def)

lemma call_text_usage: "call_text i (chat_frame clock extra [] st) = call_text i st"
  by (simp add: call_text_def chat_frame_def frame_call_def chat_delta_def emit_def)

text \<open>A delta that is not a tool delta says nothing about calls.\<close>

lemma write_chat_other:
  assumes "d_Kind d \<noteq> Tool"
  shows "call_text i (fst (writeTranslatedEvent clock ProtocolChat d st)) = call_text i st \<and>
     call_books (fst (writeTranslatedEvent clock ProtocolChat d st)) = call_books st"
proof -
  define st0 where "st0 = (if d_Kind d = ReasoningState
    then st\<lparr>ss_reasoningDetails := ss_reasoningDetails st @ details_of d\<rparr> else st)"
  have s: "call_text i st0 = call_text i st" "call_books st0 = call_books st" by (simp_all add: st0_def call_text_def)
  have w: "writeTranslatedEvent clock ProtocolChat d st = write_chat clock d st0"
    by (simp add: writeTranslatedEvent_def st0_def Let_def)
  have u: "call_text i (st0\<lparr>ss_started := True\<rparr>) = call_text i st0" by (simp add: call_text_def)
  have a: "call_text i (accumulateUsage v (st0\<lparr>ss_started := True\<rparr>)) = call_text i st0" for v
    by (simp add: call_text_def accumulateUsage_same)
  show ?thesis using assms unfolding w
    by (cases "d_Kind d") (simp_all add: write_chat_def Let_def call_text_chunk [OF role_ok] call_text_usage s u a)
qed

text \<open>A tool delta adds its arguments to its call, unless they are a terminal payload of a call that
  already has some.\<close>

lemma write_chat_tool:
  fixes clock :: "nat \<Rightarrow> int"
  assumes "d_Kind d = Tool" "tools_ok st" "applyToolDelta d (st\<lparr>ss_started := True\<rparr>) = Inr (st1, i)"
  defines "st' \<equiv> fst (writeTranslatedEvent clock ProtocolChat d st)" and "c \<equiv> ss_toolCalls st1 ! i"
  defines "held \<equiv> d_ArgumentFinal d \<and> (tc_finalArguments c \<or> tc_deltaArguments c)"
  shows "call_text j st' = call_text j st @ (if j = i \<and> \<not> held then d_Arguments d else [])"
    and "ss_toolCalls st' = (if held then ss_toolCalls st1 else (ss_toolCalls st1)[i :=
           if d_ArgumentFinal d then c\<lparr>tc_finalArguments := True\<rparr>
           else if d_Arguments d = [] then c else c\<lparr>tc_deltaArguments := True\<rparr>])"
proof -
  define role where "role = (if ss_started st then [] else [(''role'', AStr ''assistant'')])"
  have rk: "role_ok role" by (simp add: role_def role_ok)
  have ok: "tools_ok (st\<lparr>ss_started := True\<rparr>)" by (rule tools_books [OF assms(2)]) simp
  from applyToolDelta_ok [OF ok assms(3)] have i: "i < length (ss_toolCalls st1)" and o: "tc_ordinal c = int i"
    by (simp_all add: tools_ok_def c_def)
  have f: "ss_frames st1 = ss_frames st" using applyToolDelta_same [OF assms(3)] by simp
  have e: "st' = fst (chat_tool clock role d (st\<lparr>ss_started := True\<rparr>))"
    using assms(1) by (simp add: st'_def writeTranslatedEvent_def write_chat_def role_def Let_def)
  have t: "call_text j (chat_chunk clock role [(''tool_calls'', chat_call c2 d)] ANil (set_call i c2 st1)) =
      call_text j st @ (if j = i then d_Arguments d else [])" if "tc_ordinal c2 = int i" for c2 j
  proof -
    have "call_text j (set_call i c2 st1) = call_text j st" by (simp add: call_text_def f)
    then show ?thesis using that by (simp add: call_text_chunk [OF rk] chat_call_def call_piece_def Let_def)
  qed
  show "call_text j st' = call_text j st @ (if j = i \<and> \<not> held then d_Arguments d else [])"
    unfolding e chat_tool_def assms(3) held_def
    using t o call_text_same [OF f] by (simp add: Let_def c_def [symmetric])
  show "ss_toolCalls st' = (if held then ss_toolCalls st1 else (ss_toolCalls st1)[i :=
           if d_ArgumentFinal d then c\<lparr>tc_finalArguments := True\<rparr>
           else if d_Arguments d = [] then c else c\<lparr>tc_deltaArguments := True\<rparr>])"
    unfolding e chat_tool_def assms(3) held_def
    by (simp add: Let_def c_def [symmetric] calls_of_books [OF books_chunk(1)] set_call_def)
qed

definition arguments_of :: "nat \<Rightarrow> streamState \<Rightarrow> string" where
  "arguments_of i st = (if i < length (ss_toolCalls st) then tc_arguments (ss_toolCalls st ! i) else [])"

definition flagged :: "nat \<Rightarrow> streamState \<Rightarrow> bool" where
  "flagged i st \<longleftrightarrow> i < length (ss_toolCalls st) \<and>
     (tc_finalArguments (ss_toolCalls st ! i) \<or> tc_deltaArguments (ss_toolCalls st ! i))"

lemma find_call_calls:
  "find_call d st = Inr (st1, i) \<Longrightarrow> arguments_of j st1 = arguments_of j st \<and> (flagged j st1 \<longleftrightarrow> flagged j st)"
  by (auto simp: find_call_def arguments_of_def flagged_def new_call_def nth_append less_Suc_eq
      split: option.splits if_splits)

lemma applied_call:
  assumes "tools_ok st" "applyToolDelta d st = Inr (st', i)"
  shows "arguments_of j st' = (if j = i then (if d_ArgumentFinal d then [] else arguments_of j st) @ d_Arguments d
                               else arguments_of j st)"
    and "flagged j st' \<longleftrightarrow> flagged j st"
proof -
  from applyToolDelta_Inr [OF assms(2)] obtain st1 where f: "find_call d st = Inr (st1, i)"
    and c: "ss_toolCalls st' = (ss_toolCalls st1)[i := with_arguments d (ss_toolCalls st1 ! i)]" by metis
  have i: "i < length (ss_toolCalls st1)" using find_call_ok [OF assms(1) f] by simp
  show "arguments_of j st' = (if j = i then (if d_ArgumentFinal d then [] else arguments_of j st) @ d_Arguments d
                               else arguments_of j st)"
    using find_call_calls [OF f, of j] i by (auto simp: arguments_of_def c with_arguments_def)
  show "flagged j st' \<longleftrightarrow> flagged j st"
    using find_call_calls [OF f, of j] i by (auto simp: flagged_def c nth_list_update)
qed

lemma books_call:
  "call_books st' = call_books st \<Longrightarrow> arguments_of i st' = arguments_of i st"
  "call_books st' = call_books st \<Longrightarrow> flagged i st' = flagged i st"
  using calls_of_books [of st' st] by (simp_all add: arguments_of_def flagged_def)

text \<open>Both invariants: without terminal payloads a client has exactly what was accumulated; in general, a call of
  which the client has anything is marked.\<close>

definition pieces_inv :: "streamState \<Rightarrow> bool" where
  "pieces_inv st \<longleftrightarrow> tools_ok st \<and> (\<forall>i. call_text i st = arguments_of i st)"

definition marked_inv :: "streamState \<Rightarrow> bool" where
  "marked_inv st \<longleftrightarrow> tools_ok st \<and> (\<forall>i. call_text i st \<noteq> [] \<longrightarrow> flagged i st)"

lemma write_chat_failed:
  assumes "d_Kind d = Tool" "applyToolDelta d (st\<lparr>ss_started := True\<rparr>) = Inl e"
  shows "writeTranslatedEvent clock ProtocolChat d st = (st\<lparr>ss_started := True\<rparr>, Some e)"
  using assms by (simp add: writeTranslatedEvent_def write_chat_def chat_tool_def)

text \<open>The effect of one written delta on a call of the client.\<close>

lemma write_chat_call:
  fixes clock :: "nat \<Rightarrow> int" and d :: canonicalDelta
  assumes "tools_ok st"
  defines "st' \<equiv> fst (writeTranslatedEvent clock ProtocolChat d st)"
  shows "(d_ArgumentFinal d = False \<and> call_text j st = arguments_of j st \<longrightarrow> call_text j st' = arguments_of j st') \<and>
     ((call_text j st \<noteq> [] \<longrightarrow> flagged j st) \<longrightarrow>
        (call_text j st' \<noteq> [] \<longrightarrow> flagged j st') \<and>
        (d_ArgumentFinal d \<longrightarrow> call_text j st' = call_text j st \<or> call_text j st = [] \<and> call_text j st' = d_Arguments d))"
proof (cases "d_Kind d = Tool")
  case False
  from write_chat_other [OF this, of j clock st] have b: "call_books st' = call_books st" "call_text j st' = call_text j st"
    by (simp_all add: st'_def)
  show ?thesis using b(2) books_call [OF b(1), of j] by simp
next
  case True
  define st0 where "st0 = st\<lparr>ss_started := True\<rparr>"
  have s: "call_text j st0 = call_text j st" "arguments_of j st0 = arguments_of j st" "flagged j st0 = flagged j st"
    by (simp_all add: st0_def call_text_def arguments_of_def flagged_def)
  have ok0: "tools_ok st0" unfolding st0_def by (rule tools_books [OF assms(1)]) simp
  show ?thesis
  proof (cases "applyToolDelta d st0")
    case (Inl e)
    then have "st' = st0" using write_chat_failed [OF True, of st e clock] by (simp add: st'_def st0_def)
    then show ?thesis using s by simp
  next
    case (Inr p)
    obtain st1 i where p: "p = (st1, i)" by fastforce
    have a: "applyToolDelta d st0 = Inr (st1, i)" using Inr p by simp
    let ?c = "ss_toolCalls st1 ! i"
    let ?held = "d_ArgumentFinal d \<and> (tc_finalArguments ?c \<or> tc_deltaArguments ?c)"
    note w = write_chat_tool(1) [OF True assms(1) a [unfolded st0_def], of j clock, folded st'_def]
      write_chat_tool(2) [OF True assms(1) a [unfolded st0_def], of clock, folded st'_def]
    note ac = applied_call [OF ok0 a, of j]
    have i: "i < length (ss_toolCalls st1)" using applyToolDelta_ok [OF ok0 a] by simp
    have held: "?held \<longleftrightarrow> d_ArgumentFinal d \<and> flagged i st" 
      using applied_call(2) [OF ok0 a, of i] i by (simp add: flagged_def st0_def)
    have ar: "arguments_of j st' = arguments_of j st1"
      using w(2) i by (auto simp: arguments_of_def nth_list_update)
    have fl: "flagged j st' \<longleftrightarrow> flagged j st \<or> (j = i \<and> (d_ArgumentFinal d \<or> d_Arguments d \<noteq> []))"
      using w(2) i ac(2) s(3) by (auto simp: flagged_def nth_list_update)
    show ?thesis using w(1) ac(1) s ar fl held by (auto split: if_splits)
  qed
qed

lemma pieces_step: "pieces_inv st \<Longrightarrow> \<not> d_ArgumentFinal d \<Longrightarrow> pieces_inv (fst (writeTranslatedEvent clock ProtocolChat d st))"
  using write_chat_call [of st d _ clock] write_ok [of st clock ProtocolChat d] by (auto simp: pieces_inv_def)

lemma marked_step: "marked_inv st \<Longrightarrow> marked_inv (fst (writeTranslatedEvent clock ProtocolChat d st))"
  using write_chat_call [of st d _ clock] write_ok [of st clock ProtocolChat d] by (auto simp: marked_inv_def)

lemma chat_inv_same:
  assumes "call_books st' = call_books st" "call_text i st' = call_text i st"
  shows "call_text i st' = arguments_of i st' \<longleftrightarrow> call_text i st = arguments_of i st"
    and "(call_text i st' \<noteq> [] \<longrightarrow> flagged i st') \<longleftrightarrow> (call_text i st \<noteq> [] \<longrightarrow> flagged i st)"
  using assms books_call [OF assms(1), of i] by simp_all

lemma chat_end_same:
  "call_books (writeStreamDone clock ProtocolChat st) = call_books st" "call_text i (writeStreamDone clock ProtocolChat st) = call_text i st"
  by (simp_all add: writeStreamDone_def Let_def call_text_def frame_call_def)

lemma chat_mark_same:
  "call_books (st\<lparr>ss_id := x\<rparr>) = call_books st" "call_text i (st\<lparr>ss_id := x\<rparr>) = call_text i st"
  "call_books (st\<lparr>ss_completed := c\<rparr>) = call_books st" "call_text i (st\<lparr>ss_completed := c\<rparr>) = call_text i st"
  by (simp_all add: call_text_def)

lemma pieces_same: "pieces_inv st \<Longrightarrow> call_books st' = call_books st \<Longrightarrow> (\<And>i. call_text i st' = call_text i st) \<Longrightarrow> pieces_inv st'"
  using chat_inv_same(1) [of st' st] tools_books [of st st'] by (simp add: pieces_inv_def)

lemma marked_same: "marked_inv st \<Longrightarrow> call_books st' = call_books st \<Longrightarrow> (\<And>i. call_text i st' = call_text i st) \<Longrightarrow> marked_inv st'"
  using chat_inv_same(2) [of st' st] tools_books [of st st'] by (simp add: marked_inv_def)

lemma not_terminal [simp]:
  "\<not> d_ArgumentFinal (delta k)" "\<not> d_ArgumentFinal (text_delta k t)" "\<not> d_ArgumentFinal (state_delta ds)"
  "\<not> d_ArgumentFinal (finish_delta f)" "\<not> d_ArgumentFinal (usage_delta v)" "\<not> d_ArgumentFinal error_delta"
  by (simp_all add: text_delta_def state_delta_def finish_delta_def usage_delta_def error_delta_def delta_def)

lemma fragments_lists:
  "list_all (\<lambda>d. \<not> d_ArgumentFinal d) (usage_deltas ks v)" "list_all (\<lambda>d. \<not> d_ArgumentFinal d) (finish_deltas v)"
  "list_all (\<lambda>d. \<not> d_ArgumentFinal d) (text_deltas k v)"
  by (simp_all add: usage_deltas_def finish_deltas_def text_deltas_def)

lemma fragments_start: "list_all (\<lambda>d. \<not> d_ArgumentFinal d) (start_deltas block index)"
  by (cases "anthropicReasoningToChatDetails block (coerceOrDefault index 0)") (simp_all add: start_deltas_def Let_def)

lemma fragments_block: "list_all (\<lambda>d. \<not> d_ArgumentFinal d) (block_deltas kvs index)"
  by (cases "as_str (at kvs ''text'')"; cases "as_str (at kvs ''partial_json'')")
     (simp_all add: block_deltas_def Let_def fragments_lists)

lemma fragments_all: "list_all (\<lambda>d. \<not> d_ArgumentFinal d) (fst (canonicalDeltas event payload ProtocolMessages st))"
  by (simp add: canonicalDeltas_def messages_deltas_def Let_def fragments_lists fragments_start fragments_block)

lemma fragments_only: "canonicalDeltas event payload ProtocolMessages st = (ds, dn, st') \<Longrightarrow> d \<in> set ds \<Longrightarrow> \<not> d_ArgumentFinal d"
  using fragments_all [of event payload st] by (simp add: list_all_iff)

interpretation pieces: stream_invariant clock ProtocolChat ProtocolMessages "\<lambda>d. \<not> d_ArgumentFinal d" pieces_inv pieces_inv
  for clock
proof
  fix st i c
  show "pieces_inv st \<Longrightarrow> pieces_inv (writeStreamDone clock ProtocolChat (st\<lparr>ss_completed := True\<rparr>))"
    by (erule pieces_same) (simp_all add: chat_end_same chat_mark_same)
  show "pieces_inv st \<Longrightarrow> pieces_inv (st\<lparr>ss_id := i\<rparr>)" "pieces_inv st \<Longrightarrow> pieces_inv (st\<lparr>ss_completed := c\<rparr>)"
    by (erule pieces_same, simp_all add: chat_mark_same)+
qed (auto intro: pieces_step dest: fragments_only)

interpretation marks: stream_invariant clock ProtocolChat target "\<lambda>d. True" marked_inv marked_inv for clock target
proof
  fix st i c
  show "marked_inv st \<Longrightarrow> marked_inv (writeStreamDone clock ProtocolChat (st\<lparr>ss_completed := True\<rparr>))"
    by (erule marked_same) (simp_all add: chat_end_same chat_mark_same)
  show "marked_inv st \<Longrightarrow> marked_inv (st\<lparr>ss_id := i\<rparr>)" "marked_inv st \<Longrightarrow> marked_inv (st\<lparr>ss_completed := c\<rparr>)"
    by (erule marked_same, simp_all add: chat_mark_same)+
qed (auto intro: marked_step)

lemma new_stream_calls: "pieces_inv (new_stream i model)" "marked_inv (new_stream i model)"
  by (simp_all add: pieces_inv_def marked_inv_def new_stream_ok call_text_def arguments_of_def)

lemma terminal_once:
  assumes "write_deltas clock ProtocolChat failed ds (new_stream i model) = (st, e)"
    and "d_ArgumentFinal d" "writeTranslatedEvent clock ProtocolChat d st = (st', e')"
  shows "call_text j st' = call_text j st \<or> call_text j st = [] \<and> call_text j st' = d_Arguments d"
proof -
  have "marked_inv st" using marks.deltas [OF new_stream_calls(2), of ds clock failed i model] assms(1) by simp
  then show ?thesis using write_chat_call [of st d j clock] assms(2,3) by (simp add: marked_inv_def)
qed

end
