(* ===== verification/Cipher.thy ===== *)
theory Cipher
  imports Text
begin

text \<open>
  The recoverable-secret cipher (\<open>internal/crypto/cipher.go\<close>) and the master key
  (\<open>internal/crypto/keyfile.go\<close>): base64, the versioned storage form, associated data, and where the key
  comes from. AES-GCM is a pair of functions \<open>seal\<close> and \<open>unseal\<close> of key, nonce, text and associated
  data; \<open>aead_ok\<close> states what is documented of them. Bytes are characters.
\<close>

section \<open>Base64\<close>

definition b64_char :: "int \<Rightarrow> char" where
  "b64_char i = (if i < 26 then char_of (i + 65) else if i < 52 then char_of (i + 71)
     else if i < 62 then char_of (i - 4) else if i = 62 then CHR ''+'' else CHR ''/'')"

definition b64_val :: "char \<Rightarrow> int option" where
  "b64_val c = (let n = of_char c in
     if 65 \<le> n \<and> n \<le> 90 then Some (n - 65) else if 97 \<le> n \<and> n \<le> 122 then Some (n - 71)
     else if 48 \<le> n \<and> n \<le> 57 then Some (n + 4) else if n = 43 then Some 62 else if n = 47 then Some 63 else None)"

definition b64_pad :: char where
  "b64_pad = CHR ''=''"

fun b64_encode :: "string \<Rightarrow> string" where
  "b64_encode [] = []"
| "b64_encode [x] = (let n = of_char x :: int in [b64_char (n div 4), b64_char (n mod 4 * 16), b64_pad, b64_pad])"
| "b64_encode [x, y] = (let n = of_char x :: int; m = of_char y in
     [b64_char (n div 4), b64_char (n mod 4 * 16 + m div 16), b64_char (m mod 16 * 4), b64_pad])"
| "b64_encode (x # y # z # s) = (let n = of_char x :: int; m = of_char y; k = of_char z in
     b64_char (n div 4) # b64_char (n mod 4 * 16 + m div 16) # b64_char (m mod 16 * 4 + k div 64) # b64_char (k mod 64)
       # b64_encode s)"

text \<open>Groups of four; padding only at the end; spare bits of a padded group are ignored, line breaks skipped.\<close>

fun b64_groups :: "string \<Rightarrow> string option" where
  "b64_groups [] = Some []"
| "b64_groups (a # b # c # d # s) =
     (case (b64_val a, b64_val b) of
        (Some i, Some j) \<Rightarrow>
          if c = b64_pad then (if d = b64_pad \<and> s = [] then Some [char_of (i * 4 + j div 16)] else None)
          else (case b64_val c of None \<Rightarrow> None
                | Some k \<Rightarrow>
                    if d = b64_pad then
                      (if s = [] then Some [char_of (i * 4 + j div 16), char_of (j mod 16 * 16 + k div 4)] else None)
                    else (case (b64_val d, b64_groups s) of
                            (Some l, Some r) \<Rightarrow>
                              Some (char_of (i * 4 + j div 16) # char_of (j mod 16 * 16 + k div 4) # char_of (k mod 4 * 64 + l) # r)
                          | _ \<Rightarrow> None))
      | _ \<Rightarrow> None)"
| "b64_groups _ = None"

definition b64_decode :: "string \<Rightarrow> string option" where
  "b64_decode s = b64_groups (filter (\<lambda>c. c \<noteq> CHR 0x0A \<and> c \<noteq> CHR 0x0D) s)"

lemma byte_range: "0 \<le> (of_char c :: int)" "(of_char c :: int) < 256"
proof -
  have "(of_char c :: int) = int (of_char c)" by (simp only: of_nat_of_char)
  moreover have "(of_char c :: nat) < 256" by (rule nat_of_char_less_256)
  ultimately show "0 \<le> (of_char c :: int)" "(of_char c :: int) < 256" by simp_all
qed

lemma b64_inverse [simp]: "0 \<le> i \<Longrightarrow> i < 64 \<Longrightarrow> b64_val (b64_char i) = Some i"
  by (auto simp: b64_val_def b64_char_def Let_def)

lemma b64_not_pad [simp]: "0 \<le> i \<Longrightarrow> i < 64 \<Longrightarrow> b64_char i \<noteq> b64_pad"
proof
  assume i: "0 \<le> i" "i < 64" and "b64_char i = b64_pad"
  then have "b64_val b64_pad = Some i" using b64_inverse [OF i] by simp
  then show False by (simp add: b64_val_def b64_pad_def)
qed

definition plain_digit :: "char \<Rightarrow> bool" where
  "plain_digit c \<longleftrightarrow> b64_val c \<noteq> None \<or> c = b64_pad"

lemma b64_plain [simp]: "0 \<le> i \<Longrightarrow> i < 64 \<Longrightarrow> plain_digit (b64_char i)" "plain_digit b64_pad"
  by (simp_all add: plain_digit_def)

lemma plain_digit_not: "plain_digit c \<Longrightarrow> c \<noteq> CHR 0x0A \<and> c \<noteq> CHR 0x0D \<and> c \<noteq> CHR '':''"
  by (auto simp: plain_digit_def b64_val_def b64_pad_def)

lemma plain_digit_graphic: "plain_digit c \<Longrightarrow> 33 \<le> byte c \<and> byte c < 127"
proof -
  assume "plain_digit c"
  then have "33 \<le> (of_char c :: int) \<and> (of_char c :: int) < 127"
    by (auto simp: plain_digit_def b64_val_def b64_pad_def Let_def split: if_splits)
  moreover have "(of_char c :: int) = int (byte c)" by (simp only: of_nat_of_char)
  ultimately show ?thesis by simp
qed

text \<open>The digits of a group and the bytes they carry.\<close>

lemma packed:
  fixes a b k :: int
  shows "0 \<le> b \<Longrightarrow> b < k \<Longrightarrow> (a * k + b) div k = a" "0 \<le> b \<Longrightarrow> b < k \<Longrightarrow> (a * k + b) mod k = b"
  by (simp_all add: div_pos_pos_trivial mod_pos_pos_trivial)

lemma byte_parts:
  fixes n :: int
  assumes "0 \<le> n" "n < 256"
  shows "0 \<le> n div 4" "n div 4 < 64" "0 \<le> n mod 4" "n mod 4 < 4" "0 \<le> n div 16" "n div 16 < 16" "0 \<le> n mod 16"
    "n mod 16 < 16" "0 \<le> n div 64" "n div 64 < 4" "0 \<le> n mod 64" "n mod 64 < 64"
  using assms by auto

lemma sextets:
  fixes n m k :: int
  assumes "0 \<le> n" "n < 256" "0 \<le> m" "m < 256" "0 \<le> k" "k < 256"
  shows "0 \<le> n div 4" "n div 4 < 64" "0 \<le> n mod 4 * 16 + m div 16" "n mod 4 * 16 + m div 16 < 64"
    "0 \<le> m mod 16 * 4 + k div 64" "m mod 16 * 4 + k div 64 < 64" "0 \<le> k mod 64" "k mod 64 < 64"
    "n div 4 * 4 + (n mod 4 * 16 + m div 16) div 16 = n"
    "(n mod 4 * 16 + m div 16) mod 16 * 16 + (m mod 16 * 4 + k div 64) div 4 = m"
    "(m mod 16 * 4 + k div 64) mod 4 * 64 + k mod 64 = k"
proof -
  note n = byte_parts [OF assms(1,2)] and m = byte_parts [OF assms(3,4)] and k = byte_parts [OF assms(5,6)]
  show "0 \<le> n div 4" "n div 4 < 64" "0 \<le> k mod 64" "k mod 64 < 64" by (rule n(1) n(2) k(11) k(12))+
  show "0 \<le> n mod 4 * 16 + m div 16" "n mod 4 * 16 + m div 16 < 64" using n m by linarith+
  show "0 \<le> m mod 16 * 4 + k div 64" "m mod 16 * 4 + k div 64 < 64" using m k by linarith+
  show "n div 4 * 4 + (n mod 4 * 16 + m div 16) div 16 = n"
    using packed(1) [OF m(5,6)] by simp
  show "(n mod 4 * 16 + m div 16) mod 16 * 16 + (m mod 16 * 4 + k div 64) div 4 = m"
    using packed(2) [OF m(5,6)] packed(1) [OF k(9,10)] by simp
  show "(m mod 16 * 4 + k div 64) mod 4 * 64 + k mod 64 = k"
    using packed(2) [OF k(9,10)] by simp
qed

lemma group_decode:
  assumes "0 \<le> i" "i < 64" "0 \<le> j" "j < 64" "0 \<le> k" "k < 64" "0 \<le> l" "l < 64"
  shows "b64_groups [b64_char i, b64_char j, b64_pad, b64_pad] = Some [char_of (i * 4 + j div 16)]"
    "b64_groups [b64_char i, b64_char j, b64_char k, b64_pad] =
       Some [char_of (i * 4 + j div 16), char_of (j mod 16 * 16 + k div 4)]"
    "b64_groups (b64_char i # b64_char j # b64_char k # b64_char l # s) =
       (case b64_groups s of None \<Rightarrow> None | Some r \<Rightarrow>
          Some (char_of (i * 4 + j div 16) # char_of (j mod 16 * 16 + k div 4) # char_of (k mod 4 * 64 + l) # r))"
  using b64_inverse [OF assms(1,2)] b64_inverse [OF assms(3,4)] b64_inverse [OF assms(5,6)] b64_inverse [OF assms(7,8)]
    b64_not_pad [OF assms(5,6)] b64_not_pad [OF assms(7,8)]
  by (simp_all split: option.split)

lemma sextets_short:
  fixes n m :: int
  assumes "0 \<le> n" "n < 256" "0 \<le> m" "m < 256"
  shows "0 \<le> n mod 4 * 16" "n mod 4 * 16 < 64" "0 \<le> m mod 16 * 4" "m mod 16 * 4 < 64"
    "n div 4 * 4 + n mod 4 * 16 div 16 = n" "(n mod 4 * 16 + m div 16) mod 16 * 16 + m mod 16 * 4 div 4 = m"
proof -
  note n = byte_parts [OF assms(1,2)] and m = byte_parts [OF assms(3,4)]
  show "0 \<le> n mod 4 * 16" "n mod 4 * 16 < 64" "0 \<le> m mod 16 * 4" "m mod 16 * 4 < 64" using n m by linarith+
  show "n div 4 * 4 + n mod 4 * 16 div 16 = n" by simp
  show "(n mod 4 * 16 + m div 16) mod 16 * 16 + m mod 16 * 4 div 4 = m"
    using packed(2) [OF m(5,6)] by simp
qed

lemma b64_groups_encode: "b64_groups (b64_encode s) = Some s"
proof (induction s rule: b64_encode.induct)
  case (2 x)
  note r = sextets [OF byte_range [of x] byte_range [of x] byte_range [of x]]
  note q = sextets_short [OF byte_range [of x] byte_range [of x]]
  show ?case unfolding b64_encode.simps Let_def
    by (subst group_decode(1) [OF r(1,2) q(1,2) r(1,2) r(1,2)]) (simp only: q(5) char_of_char)
next
  case (3 x y)
  note r = sextets [OF byte_range [of x] byte_range [of y] byte_range [of y]]
  note q = sextets_short [OF byte_range [of x] byte_range [of y]]
  show ?case unfolding b64_encode.simps Let_def
    by (subst group_decode(2) [OF r(1-4) q(3,4) r(1,2)]) (simp only: r(9) q(6) char_of_char)
next
  case (4 x y z s)
  note r = sextets [OF byte_range [of x] byte_range [of y] byte_range [of z]]
  show ?case unfolding b64_encode.simps Let_def
    by (subst group_decode(3) [OF r(1-8)]) (simp only: r(9-11) 4 option.case char_of_char)
qed simp

lemma b64_encode_plain: "list_all plain_digit (b64_encode s)"
proof (induction s rule: b64_encode.induct)
  case (2 x)
  note r = sextets [OF byte_range [of x] byte_range [of x] byte_range [of x]]
  note q = sextets_short [OF byte_range [of x] byte_range [of x]]
  show ?case unfolding b64_encode.simps Let_def list.pred_inject
    by (intro conjI b64_plain list.pred_inject(1) r(1,2) q(1,2))
next
  case (3 x y)
  note r = sextets [OF byte_range [of x] byte_range [of y] byte_range [of y]]
  note q = sextets_short [OF byte_range [of x] byte_range [of y]]
  show ?case unfolding b64_encode.simps Let_def list.pred_inject
    by (intro conjI b64_plain list.pred_inject(1) r(1-4) q(3,4))
next
  case (4 x y z s)
  note r = sextets [OF byte_range [of x] byte_range [of y] byte_range [of z]]
  show ?case unfolding b64_encode.simps Let_def list.pred_inject
    by (intro conjI b64_plain(1) [OF r(1,2)] b64_plain(1) [OF r(3,4)] b64_plain(1) [OF r(5,6)] b64_plain(1) [OF r(7,8)] 4 [OF refl refl refl])
qed simp

lemma b64_roundtrip: "b64_decode (b64_encode s) = Some s"
proof -
  have "filter (\<lambda>c. c \<noteq> CHR 0x0A \<and> c \<noteq> CHR 0x0D) (b64_encode s) = b64_encode s"
    using b64_encode_plain [of s] plain_digit_not by (intro filter_True) (auto simp: list_all_iff)
  then show ?thesis by (simp add: b64_decode_def b64_groups_encode)
qed

section \<open>Associated data\<close>

text \<open>Every part with its length in four bytes in front, as \<open>uint32\<close> truncates it.\<close>

definition u32_bytes :: "int \<Rightarrow> string" where
  "u32_bytes n = [char_of (n div 16777216 mod 256), char_of (n div 65536 mod 256), char_of (n div 256 mod 256), char_of (n mod 256)]"

definition AAD :: "string list \<Rightarrow> string" where
  "AAD parts = concat (map (\<lambda>p. u32_bytes (int (length p) mod 2 ^ 32) @ p) parts)"

section \<open>Ciphers\<close>

type_synonym aead = "(string \<Rightarrow> string \<Rightarrow> string \<Rightarrow> string \<Rightarrow> string) \<times> (string \<Rightarrow> string \<Rightarrow> string \<Rightarrow> string \<Rightarrow> string option)"

text \<open>What \<open>Seal\<close> made with a nonce of the standard length, \<open>Open\<close> undoes with the same key, nonce and associated data.\<close>

definition aead_ok :: "aead \<Rightarrow> bool" where
  "aead_ok g \<longleftrightarrow> (\<forall>key nonce text aad. snd g key nonce (fst g key nonce text aad) aad = Some text)"

datatype cerr = NoKey | Malformed | CipherLocked | RandomFailed | BadKeySize | EmptyKey | NotBase64

definition KeySize :: nat where
  "KeySize = 32"

definition enc_prefix :: string where
  "enc_prefix = ''enc:v1:''"

definition nonceSize :: nat where
  "nonceSize = 12"

text \<open>A cipher is its keys: the first encrypts, every one may decrypt; none is the locked state.\<close>

type_synonym cipher = "string list"

definition new_cipher :: "string list \<Rightarrow> cerr + cipher" where
  "new_cipher keys =
     (if keys = [] then Inl NoKey
      else if list_all (\<lambda>k. length k = KeySize) keys then Inr keys else Inl BadKeySize)"

definition CipherEnabled :: "cipher \<Rightarrow> bool" where
  "CipherEnabled c \<longleftrightarrow> c \<noteq> []"

definition Locked :: "cipher \<Rightarrow> bool" where
  "Locked c \<longleftrightarrow> c = []"

definition Encrypted :: "string \<Rightarrow> bool" where
  "Encrypted s \<longleftrightarrow> has_prefix s enc_prefix"

text \<open>\<open>nonce\<close> is what the random source gives, if it does.\<close>

definition Encrypt :: "aead \<Rightarrow> string option \<Rightarrow> cipher \<Rightarrow> string \<Rightarrow> string \<Rightarrow> cerr + string" where
  "Encrypt g nonce c aad text =
     (case c of
        [] \<Rightarrow> Inl NoKey
      | key # ks \<Rightarrow>
          (case nonce of
             None \<Rightarrow> Inl RandomFailed
           | Some n \<Rightarrow> Inr (enc_prefix @ b64_encode n @ '':'' @ b64_encode (fst g key n text aad))))"

fun open_any :: "aead \<Rightarrow> cipher \<Rightarrow> string \<Rightarrow> string \<Rightarrow> string \<Rightarrow> cerr + string" where
  "open_any g [] n sealed aad = Inl CipherLocked"
| "open_any g (key # ks) n sealed aad =
     (case snd g key n sealed aad of Some text \<Rightarrow> Inr text | None \<Rightarrow> open_any g ks n sealed aad)"

definition Decrypt :: "aead \<Rightarrow> cipher \<Rightarrow> string \<Rightarrow> string \<Rightarrow> cerr + string" where
  "Decrypt g c aad stored =
     (if \<not> Encrypted stored then Inr stored
      else
        (let rest = trim_prefix stored enc_prefix in
         if CHR '':'' \<notin> set rest then Inl Malformed
         else
           (case b64_decode (before (CHR '':'') rest) of
              None \<Rightarrow> Inl Malformed
            | Some n \<Rightarrow>
                if length n \<noteq> nonceSize then Inl Malformed
                else (case b64_decode (after (CHR '':'') rest) of
                        None \<Rightarrow> Inl Malformed
                      | Some sealed \<Rightarrow> open_any g c n sealed aad))))"

section \<open>The master key\<close>

definition ParseKey :: "string \<Rightarrow> cerr + string" where
  "ParseKey raw =
     (let v = trim_space (trim_prefix (trim_space raw) ''base64:'') in
      if v = [] then Inl EmptyKey
      else (case b64_decode v of
              None \<Rightarrow> Inl NotBase64
            | Some key \<Rightarrow> if length key \<noteq> KeySize then Inl BadKeySize else Inr key))"

definition EncodeKey :: "string \<Rightarrow> string" where
  "EncodeKey key = ''base64:'' @ b64_encode key"

datatype keySource = SourceNone | SourceEnv | SourceEnvFile | SourceDataFile | SourceGenerated

datatype key_file = FileText string | FileMissing | FileError

datatype kerr = KeyRead | KeyBad cerr | KeyWrite

definition parsed :: "keySource \<Rightarrow> string \<Rightarrow> kerr + (string option \<times> keySource)" where
  "parsed source raw = (case ParseKey raw of Inl e \<Rightarrow> Inl (KeyBad e) | Inr k \<Rightarrow> Inr (Some k, source))"

text \<open>\<open>files\<close> reads a file, \<open>fresh\<close> is a generated key and \<open>written\<close> whether it could be made durable.\<close>

definition ResolveKey ::
  "(string \<Rightarrow> key_file) \<Rightarrow> string option \<Rightarrow> bool \<Rightarrow> string \<Rightarrow> string \<Rightarrow> string \<Rightarrow> bool \<Rightarrow> kerr + (string option \<times> keySource)" where
  "ResolveKey files fresh written keyFile envKey envKeyFile hasEncryptedRows =
     (if trim_space envKeyFile \<noteq> [] then
        (case files (trim_space envKeyFile) of FileText raw \<Rightarrow> parsed SourceEnvFile raw | _ \<Rightarrow> Inl KeyRead)
      else if trim_space envKey \<noteq> [] then parsed SourceEnv envKey
      else
        (case files keyFile of
           FileText raw \<Rightarrow> parsed SourceDataFile raw
         | FileError \<Rightarrow> Inl KeyRead
         | FileMissing \<Rightarrow>
             if hasEncryptedRows then Inr (None, SourceNone)
             else (case fresh of
                     None \<Rightarrow> Inl (KeyBad RandomFailed)
                   | Some k \<Rightarrow> if written then Inr (Some k, SourceGenerated) else Inl KeyWrite)))"

section \<open>Laws\<close>

lemma colon_free: "CHR '':'' \<notin> set (b64_encode s)"
  using b64_encode_plain [of s] plain_digit_not by (auto simp: list_all_iff)

lemma cut_at:
  assumes "CHR '':'' \<notin> set a"
  shows "before (CHR '':'') (a @ CHR '':'' # b) = a" "after (CHR '':'') (a @ CHR '':'' # b) = b"
proof -
  have all: "\<And>x. x \<in> set a \<Longrightarrow> x \<noteq> CHR '':''" using assms by blast
  show "before (CHR '':'') (a @ CHR '':'' # b) = a"
    unfolding before_def using all by (simp add: takeWhile_append2)
  show "after (CHR '':'') (a @ CHR '':'' # b) = b"
    unfolding after_def using all by (simp add: dropWhile_append2)
qed

lemma trim_prefix_append [simp]: "trim_prefix (p @ s) p = s"
  by (simp add: trim_prefix_def)

lemma Decrypt_stored:
  assumes "length n = nonceSize"
  shows "Decrypt g c aad (enc_prefix @ b64_encode n @ '':'' @ b64_encode sealed) = open_any g c n sealed aad"
proof -
  have "Encrypted (enc_prefix @ b64_encode n @ '':'' @ b64_encode sealed)" by (simp add: Encrypted_def)
  then show ?thesis using assms cut_at [OF colon_free, of n "b64_encode sealed"]
    by (simp add: Decrypt_def b64_roundtrip Let_def)
qed

lemma Encrypt_Decrypt:
  assumes "aead_ok g" "length n = nonceSize" "Encrypt g (Some n) (key # ks) aad text = Inr stored"
  shows "Decrypt g (key # old) aad stored = Inr text" "Encrypted stored"
  using assms Decrypt_stored [OF assms(2), of g "key # old" aad "fst g key n text aad"]
  by (auto simp: Encrypt_def aead_ok_def Encrypted_def)

text \<open>The associated data tells its parts.\<close>

lemma u32_length [simp]: "length (u32_bytes n) = 4"
  by (simp add: u32_bytes_def)

lemma char_of_eq: "0 \<le> n \<Longrightarrow> n < 256 \<Longrightarrow> 0 \<le> m \<Longrightarrow> m < 256 \<Longrightarrow> char_of (n :: int) = char_of m \<Longrightarrow> n = m"
  by (metis mod_pos_pos_trivial of_char_of)

lemma u32_inject:
  assumes "u32_bytes n = u32_bytes m" "0 \<le> n" "n < 2 ^ 32" "0 \<le> m" "m < 2 ^ 32"
  shows "n = m"
proof -
  have r: "0 \<le> k mod 256" "k mod 256 < 256" for k :: int by simp_all
  have "n div 16777216 mod 256 = m div 16777216 mod 256" "n div 65536 mod 256 = m div 65536 mod 256"
    "n div 256 mod 256 = m div 256 mod 256" "n mod 256 = m mod 256"
    using assms(1) char_of_eq [OF r r] unfolding u32_bytes_def by (simp_all only: list.inject)
  moreover have "k = (k div 16777216 mod 256) * 16777216 + (k div 65536 mod 256) * 65536 + (k div 256 mod 256) * 256 + k mod 256"
    if k: "0 \<le> k" "k < 2 ^ 32" for k :: int
  proof -
    have d: "k div 65536 = k div 256 div 256" "k div 16777216 = k div 256 div 256 div 256"
      by (simp_all add: zdiv_zmult2_eq [symmetric])
    have "k div 16777216 < 256" using k by auto
    moreover have "0 \<le> k div 16777216" using k by auto
    ultimately have "k div 16777216 mod 256 = k div 256 div 256 div 256" unfolding d(2) by (rule mod_pos_pos_trivial [rotated])
    then show ?thesis unfolding d(1)
      using div_mult_mod_eq [of k 256] div_mult_mod_eq [of "k div 256" 256] div_mult_mod_eq [of "k div 256 div 256" 256] by linarith
  qed
  ultimately show ?thesis using assms by metis
qed

lemma AAD_Cons: "length p < 2 ^ 32 \<Longrightarrow> AAD (p # ps) = u32_bytes (int (length p)) @ p @ AAD ps"
  by (simp add: AAD_def mod_pos_pos_trivial)

lemma AAD_inject:
  "list_all (\<lambda>p. length p < 2 ^ 32) ps \<Longrightarrow> list_all (\<lambda>p. length p < 2 ^ 32) qs \<Longrightarrow> AAD ps = AAD qs \<Longrightarrow> ps = qs"
proof (induction ps arbitrary: qs)
  case Nil
  then show ?case by (cases qs) (auto simp: AAD_def u32_bytes_def)
next
  case (Cons p ps)
  then obtain q qs' where qs: "qs = q # qs'" by (cases qs) (auto simp: AAD_def u32_bytes_def)
  have e: "u32_bytes (int (length p)) @ p @ AAD ps = u32_bytes (int (length q)) @ q @ AAD qs'"
    using Cons.prems qs by (simp only: list.pred_inject AAD_Cons)
  then have "u32_bytes (int (length p)) = u32_bytes (int (length q))" by (simp add: append_eq_append_conv)
  then have "int (length p) = int (length q)"
    by (rule u32_inject) (use Cons.prems(1,2) qs in simp_all)
  then have "p = q" "AAD ps = AAD qs'" using e by (simp_all add: append_eq_append_conv)
  then show ?case using Cons qs by simp
qed

lemma generated_only_when_unused:
  "ResolveKey files fresh written keyFile envKey envKeyFile rows = Inr (k, source) \<Longrightarrow> rows \<Longrightarrow> source \<noteq> SourceGenerated"
  by (auto simp: ResolveKey_def parsed_def split: if_splits key_file.splits sum.splits)

text \<open>A text of graphic ASCII characters has nothing to trim; an encoded key is one.\<close>

lemma graphic_pieces: "list_all (\<lambda>c. byte c < 127) s \<Longrightarrow> pieces s = map (\<lambda>c. [c]) s"
  using pieces_concat [of "map (\<lambda>c. [c]) s"] valid_ascii by (fastforce simp: list_all_iff)

lemma ascii_spaces: "is_space [c] \<Longrightarrow> byte c \<le> 32"
proof -
  have all: "list_all (\<lambda>r. length r = 1 \<longrightarrow> byte (hd r) \<le> 32) space_runes"
    unfolding space_runes_def by code_simp
  assume "is_space [c]"
  then have "[c] \<in> set space_runes" by (simp only: is_space_def List.member_iff)
  then show ?thesis using all unfolding list_all_iff by (metis length_Cons list.size(3) One_nat_def list.sel(1))
qed

lemma graphic_not_space: "33 \<le> byte c \<Longrightarrow> byte c < 127 \<Longrightarrow> \<not> is_space [c]"
proof
  assume "33 \<le> byte c" "is_space [c]"
  then have "(33 :: nat) \<le> 32" using order_trans [OF _ ascii_spaces] by blast
  then show False by simp
qed

lemma graphic_trim:
  assumes "list_all (\<lambda>c. 33 \<le> byte c \<and> byte c < 127) s"
  shows "trim_space s = s"
proof -
  have p: "pieces s = map (\<lambda>c. [c]) s" using assms by (intro graphic_pieces) (simp add: list_all_iff)
  have d: "dropWhile is_space (map (\<lambda>c. [c]) t) = map (\<lambda>c. [c]) t" if "list_all (\<lambda>c. 33 \<le> byte c \<and> byte c < 127) t" for t
    using that graphic_not_space by (cases t) auto
  have r: "list_all (\<lambda>c. 33 \<le> byte c \<and> byte c < 127) (rev s)" using assms by (simp add: list_all_iff)
  show ?thesis using d [OF assms] d [OF r] by (simp add: trim_space_def trim_pieces_def p rev_map)
qed

lemma key_roundtrip:
  assumes "length key = KeySize"
  shows "ParseKey (EncodeKey key) = Inr key"
proof -
  have g: "list_all (\<lambda>c. 33 \<le> byte c \<and> byte c < 127) (b64_encode key)"
    using b64_encode_plain [of key] plain_digit_graphic by (auto simp: list_all_iff)
  then have "list_all (\<lambda>c. 33 \<le> byte c \<and> byte c < 127) (''base64:'' @ b64_encode key)" by simp
  then have "trim_space (''base64:'' @ b64_encode key) = ''base64:'' @ b64_encode key" by (rule graphic_trim)
  moreover have "b64_encode key \<noteq> []" using assms by (cases key rule: b64_encode.cases) (auto simp: KeySize_def Let_def)
  moreover note graphic_trim [OF g] trim_prefix_append [of "''base64:''" "b64_encode key"]
  ultimately show ?thesis using assms
    unfolding ParseKey_def EncodeKey_def by (simp only: Let_def b64_roundtrip) simp
qed

end
