(* ===== verification/Cooldown.thy ===== *)
theory Cooldown
  imports Prelude
begin

text \<open>
  The fallback cooldown store of \<open>internal/server/cooldown.go\<close>: which targets of a tenant
  are left out of ordered fallback, until when, and because of which failure. Every
  operation of the Go type runs under its mutex, so each is one function of the map.
\<close>

section \<open>State and operations\<close>

record cooldownEntry =
  providerModelID :: string
  until :: time
  startedAt :: time
  e_provider :: string
  e_model :: string
  originRequestLogID :: string
  originErrorClass :: string
  originErrorMessage :: string

type_synonym cooldownStore = "(string, cooldownEntry) gomap"

definition newCooldownStore :: cooldownStore where
  "newCooldownStore = []"

definition cooled :: "cooldownStore \<Rightarrow> string \<Rightarrow> string \<Rightarrow> time \<Rightarrow> bool" where
  "cooled c accountID i now =
     (case gm_get c (tenantKey accountID i) of
        None \<Rightarrow> False
      | Some e \<Rightarrow> now < until e)"

definition pruneExpiredLocked :: "time \<Rightarrow> cooldownStore \<Rightarrow> cooldownStore" where
  "pruneExpiredLocked now c = gm_keep (\<lambda>_ e. now < until e) c"

definition cooldown_set ::
  "cooldownStore \<Rightarrow> string \<Rightarrow> string \<Rightarrow> time \<Rightarrow> time \<Rightarrow> string \<Rightarrow> string \<Rightarrow> string \<Rightarrow> string \<Rightarrow> string
    \<Rightarrow> cooldownStore" where
  "cooldown_set c accountID i started til provider model reqLogID errorClass errorMessage =
     (let c = pruneExpiredLocked started c;
          key = tenantKey accountID i;
          entry = \<lparr>providerModelID = i, until = til, startedAt = started, e_provider = provider,
                   e_model = model, originRequestLogID = reqLogID, originErrorClass = errorClass,
                   originErrorMessage = errorMessage\<rparr>
      in case gm_get c key of
           Some existing \<Rightarrow> if until existing > til then c else gm_set key entry c
         | None \<Rightarrow> gm_set key entry c)"

definition deleteLocked :: "cooldownStore \<Rightarrow> string \<Rightarrow> cooldownStore" where
  "deleteLocked c key = gm_del key c"

definition cooldown_remove :: "cooldownStore \<Rightarrow> string \<Rightarrow> string \<Rightarrow> cooldownStore" where
  "cooldown_remove c accountID i = deleteLocked c (tenantKey accountID i)"

definition clearFor :: "cooldownStore \<Rightarrow> string \<Rightarrow> cooldownStore" where
  "clearFor c accountID = gm_keep (\<lambda>key _. \<not> has_prefix key (scope_prefix accountID)) c"

text \<open>
  \<open>statusByName\<close> scans the map in the runtime's order and keeps the best entry so far.
  String comparison is Go's, bytewise.
\<close>

fun str_less :: "string \<Rightarrow> string \<Rightarrow> bool" where
  "str_less _ [] = False"
| "str_less [] (_ # _) = True"
| "str_less (a # s) (b # t) =
     (of_char a < (of_char b :: nat) \<or> a = b \<and> str_less s t)"

definition name_match :: "string \<Rightarrow> string \<Rightarrow> string \<Rightarrow> string \<Rightarrow> cooldownEntry \<Rightarrow> bool" where
  "name_match accountID provider model key e \<longleftrightarrow>
     has_prefix key (scope_prefix accountID) \<and> e_provider e = provider \<and> e_model e = model"

definition better_entry :: "cooldownEntry \<Rightarrow> cooldownEntry \<Rightarrow> bool" where
  "better_entry e best \<longleftrightarrow>
     until e < until best \<or> until e = until best \<and> str_less (providerModelID e) (providerModelID best)"

fun status_scan ::
  "string \<Rightarrow> string \<Rightarrow> string \<Rightarrow> time \<Rightarrow> cooldownStore \<Rightarrow> cooldownEntry option \<Rightarrow> cooldownEntry option" where
  "status_scan accountID provider model now [] best = best"
| "status_scan accountID provider model now ((key, e) # c) best =
     (if \<not> name_match accountID provider model key e \<or> \<not> now < until e
      then status_scan accountID provider model now c best
      else if (case best of None \<Rightarrow> True | Some b \<Rightarrow> better_entry e b)
      then status_scan accountID provider model now c (Some e)
      else status_scan accountID provider model now c best)"

definition statusByName ::
  "cooldownStore \<Rightarrow> string \<Rightarrow> string \<Rightarrow> string \<Rightarrow> time \<Rightarrow> cooldownEntry option" where
  "statusByName c accountID provider model now = status_scan accountID provider model now c None"

definition removeByName ::
  "cooldownStore \<Rightarrow> string \<Rightarrow> string \<Rightarrow> string \<Rightarrow> cooldownStore \<times> bool" where
  "removeByName c accountID provider model =
     (gm_keep (\<lambda>key e. \<not> name_match accountID provider model key e) c,
      list_ex (\<lambda>(key, e). name_match accountID provider model key e) c)"

record cooldownView =
  v_providerModelID :: string
  v_provider :: string
  v_model :: string
  v_untilAt :: time
  v_originErrorClass :: string
  v_originErrorMessage :: string

definition view_of :: "cooldownEntry \<Rightarrow> cooldownView" where
  "view_of e = \<lparr>v_providerModelID = providerModelID e, v_provider = e_provider e, v_model = e_model e,
                v_untilAt = until e, v_originErrorClass = originErrorClass e,
                v_originErrorMessage = originErrorMessage e\<rparr>"

text \<open>\<open>snapshot\<close> also drops expired entries from the store; the view is keyed by target id.\<close>

definition cooldown_snapshot ::
  "cooldownStore \<Rightarrow> string \<Rightarrow> time \<Rightarrow> cooldownStore \<times> (string, cooldownView) gomap" where
  "cooldown_snapshot c accountID now =
     (let c = pruneExpiredLocked now c
      in (c, fold (\<lambda>(key, e) out.
                if \<not> has_prefix key (scope_prefix accountID) then out
                else if \<not> now < until e then out
                else gm_set (providerModelID e) (view_of e) out) c []))"

section \<open>The store's invariant\<close>

text \<open>Keys are distinct and each names its account and the target id stored in the entry.\<close>

definition cooldown_inv :: "cooldownStore \<Rightarrow> bool" where
  "cooldown_inv c \<longleftrightarrow> gm_wf c \<and>
     (\<forall>(key, e) \<in> set c. \<exists>a. nul_free a \<and> key = tenantKey a (providerModelID e))"

lemma cooldown_inv_wf [simp]: "cooldown_inv c \<Longrightarrow> gm_wf c"
  by (simp add: cooldown_inv_def)

lemma cooldown_inv_keep: "cooldown_inv c \<Longrightarrow> cooldown_inv (gm_keep P c)"
  by (auto simp: cooldown_inv_def set_gm_keep)

lemma cooldown_inv_del: "cooldown_inv c \<Longrightarrow> cooldown_inv (gm_del k c)"
  by (auto simp: cooldown_inv_def set_gm_del)

lemma cooldown_inv_set:
  "cooldown_inv c \<Longrightarrow> nul_free a \<Longrightarrow> providerModelID e = i \<Longrightarrow>
   cooldown_inv (gm_set (tenantKey a i) e c)"
  by (auto simp: cooldown_inv_def set_gm_set)

lemma cooldown_inv_entry:
  assumes "cooldown_inv c" "gm_get c (tenantKey a i) = Some e" "nul_free a"
  shows "providerModelID e = i"
proof -
  from assms(1) gm_get_SomeD [OF assms(2)] obtain b
    where "nul_free b" "tenantKey a i = tenantKey b (providerModelID e)"
    by (fastforce simp: cooldown_inv_def)
  with assms(3) show ?thesis by simp
qed

lemma cooldown_inv_mem:
  assumes "cooldown_inv c" "(key, e) \<in> set c" "has_prefix key (scope_prefix a)" "nul_free a"
  shows "key = tenantKey a (providerModelID e) \<and> gm_get c (tenantKey a (providerModelID e)) = Some e"
proof -
  from assms(1,2) obtain b where "nul_free b" "key = tenantKey b (providerModelID e)"
    by (fastforce simp: cooldown_inv_def)
  with assms show ?thesis by (auto simp: gm_get_SomeI)
qed

lemma cooldown_inv_new: "cooldown_inv newCooldownStore"
  by (simp add: cooldown_inv_def newCooldownStore_def)

lemma cooldown_inv_prune: "cooldown_inv c \<Longrightarrow> cooldown_inv (pruneExpiredLocked now c)"
  by (simp add: pruneExpiredLocked_def cooldown_inv_keep)

lemma cooldown_inv_cooldown_set:
  "cooldown_inv c \<Longrightarrow> nul_free a \<Longrightarrow> cooldown_inv (cooldown_set c a i st til p m r ec em)"
  by (auto simp: cooldown_set_def Let_def cooldown_inv_prune intro!: cooldown_inv_set split: option.splits)

lemma cooldown_inv_remove: "cooldown_inv c \<Longrightarrow> cooldown_inv (cooldown_remove c a i)"
  by (simp add: cooldown_remove_def deleteLocked_def cooldown_inv_del)

lemma cooldown_inv_removeByName: "cooldown_inv c \<Longrightarrow> cooldown_inv (fst (removeByName c a p m))"
  by (simp add: removeByName_def cooldown_inv_keep)

lemma cooldown_inv_clearFor: "cooldown_inv c \<Longrightarrow> cooldown_inv (clearFor c a)"
  by (simp add: clearFor_def cooldown_inv_keep)

lemma cooldown_inv_snapshot: "cooldown_inv c \<Longrightarrow> cooldown_inv (fst (cooldown_snapshot c a now))"
  by (simp add: cooldown_snapshot_def Let_def cooldown_inv_prune)

lemmas cooldown_inv_ops =
  cooldown_inv_new cooldown_inv_prune cooldown_inv_cooldown_set cooldown_inv_remove
  cooldown_inv_removeByName cooldown_inv_clearFor cooldown_inv_snapshot

section \<open>What the operations do to the cooled targets\<close>

lemma get_prune:
  "gm_wf c \<Longrightarrow> gm_get (pruneExpiredLocked now c) k =
     (case gm_get c k of None \<Rightarrow> None | Some e \<Rightarrow> if now < until e then Some e else None)"
  by (simp add: pruneExpiredLocked_def gm_get_keep)

lemma cooled_prune:
  "gm_wf c \<Longrightarrow> now \<le> later \<Longrightarrow> cooled (pruneExpiredLocked now c) a i later = cooled c a i later"
  by (auto simp: cooled_def get_prune split: option.splits)

lemma cooled_set_iff:
  assumes "cooldown_inv c" "nul_free a" "nul_free b" "started \<le> now"
  shows "cooled (cooldown_set c a i started til p m r ec em) b j now \<longleftrightarrow>
           cooled c b j now \<or> a = b \<and> i = j \<and> now < til"
  using assms
  by (auto simp: cooldown_set_def Let_def cooled_def get_prune split: option.splits if_splits)

lemma cooled_remove_iff:
  assumes "nul_free a" "nul_free b"
  shows "cooled (cooldown_remove c a i) b j now \<longleftrightarrow> cooled c b j now \<and> \<not> (a = b \<and> i = j)"
  using assms by (auto simp: cooldown_remove_def deleteLocked_def cooled_def)

lemma cooled_clearFor_iff:
  assumes "cooldown_inv c" "nul_free a" "nul_free b"
  shows "cooled (clearFor c a) b j now \<longleftrightarrow> cooled c b j now \<and> a \<noteq> b"
  using assms by (auto simp: clearFor_def cooled_def gm_get_keep split: option.splits)

section \<open>Status by name\<close>

lemma str_less_irrefl [simp]: "\<not> str_less s s"
  by (induction s) auto

lemma str_less_Nil [simp]: "str_less [] t \<longleftrightarrow> t \<noteq> []"
  by (cases t) auto

lemma str_less_linear: "s \<noteq> t \<Longrightarrow> str_less s t \<or> str_less t s"
proof (induction s t rule: str_less.induct)
  case (3 a s b t)
  then show ?case by (metis linorder_cases of_char_eq_iff str_less.simps(3))
qed auto

lemma str_less_trans: "str_less s t \<Longrightarrow> str_less t u \<Longrightarrow> str_less s u"
proof (induction s t arbitrary: u rule: str_less.induct)
  case (3 a s b t)
  then show ?case by (cases u) auto
next
  case (2 b t)
  then show ?case by (cases u) auto
qed auto

lemma better_entry_trans: "better_entry x y \<Longrightarrow> better_entry y z \<Longrightarrow> better_entry x z"
  by (auto simp: better_entry_def intro: str_less_trans)

lemma better_entry_irrefl [simp]: "\<not> better_entry e e"
  by (simp add: better_entry_def)

lemma better_entry_linear:
  "providerModelID x \<noteq> providerModelID y \<Longrightarrow> better_entry x y \<or> better_entry y x"
  using str_less_linear by (fastforce simp: better_entry_def)

lemma better_entry_negtrans: "better_entry x z \<Longrightarrow> better_entry x y \<or> better_entry y z"
  using str_less_linear [of "providerModelID x" "providerModelID y"]
  by (cases "providerModelID x = providerModelID y")
    (auto simp: better_entry_def intro: str_less_trans)

text \<open>The entries a query ranges over.\<close>

definition live_named :: "string \<Rightarrow> string \<Rightarrow> string \<Rightarrow> time \<Rightarrow> cooldownStore \<Rightarrow> cooldownEntry set" where
  "live_named a p m now c = {e. \<exists>key. (key, e) \<in> set c \<and> name_match a p m key e \<and> now < until e}"

lemma live_named_Cons:
  "live_named a p m now ((key, e) # c) =
     (if name_match a p m key e \<and> now < until e then insert e (live_named a p m now c)
      else live_named a p m now c)"
  by (auto simp: live_named_def)

lemma status_scan_spec:
  "(case status_scan a p m now c best of
      None \<Rightarrow> best = None \<and> live_named a p m now c = {}
    | Some e \<Rightarrow> e \<in> set_option best \<union> live_named a p m now c \<and>
        (\<forall>x \<in> set_option best \<union> live_named a p m now c. \<not> better_entry x e))"
proof (induction a p m now c best rule: status_scan.induct)
  case (1 a p m now best)
  then show ?case by (auto simp: live_named_def split: option.splits)
next
  case (2 a p m now key e c best)
  show ?case
  proof (cases "\<not> name_match a p m key e \<or> \<not> now < until e")
    case True
    with 2 show ?thesis by (auto simp: live_named_Cons split: option.splits)
  next
    case live: False
    show ?thesis
    proof (cases "case best of None \<Rightarrow> True | Some b \<Rightarrow> better_entry e b")
      case True
      with live 2 show ?thesis
        by (auto simp: live_named_Cons split: option.splits dest: better_entry_trans)
    next
      case False
      with live 2 show ?thesis
        by (auto simp: live_named_Cons split: option.splits dest: better_entry_negtrans)
    qed
  qed
qed

lemma statusByName_None_iff:
  "statusByName c a p m now = None \<longleftrightarrow> live_named a p m now c = {}"
  using status_scan_spec [where a = a and p = p and m = m and now = now and c = c and best = None] by (auto simp: statusByName_def split: option.splits)

lemma statusByName_SomeD:
  assumes "statusByName c a p m now = Some e"
  shows "e \<in> live_named a p m now c \<and> (\<forall>x \<in> live_named a p m now c. \<not> better_entry x e)"
  using status_scan_spec [where a = a and p = p and m = m and now = now and c = c and best = None] assms by (auto simp: statusByName_def)

lemma live_named_inj:
  assumes "cooldown_inv c" "nul_free a" "x \<in> live_named a p m now c" "y \<in> live_named a p m now c"
    and "providerModelID x = providerModelID y"
  shows "x = y"
proof -
  from assms(3,4) obtain kx ky where
    "(kx, x) \<in> set c" "has_prefix kx (scope_prefix a)"
    "(ky, y) \<in> set c" "has_prefix ky (scope_prefix a)"
    by (auto simp: live_named_def name_match_def)
  with cooldown_inv_mem [OF assms(1) _ _ assms(2)] assms(5) show ?thesis
    by (metis option.inject)
qed

lemma statusByName_least:
  assumes "cooldown_inv c" "nul_free a"
  shows "statusByName c a p m now = Some e \<longleftrightarrow>
     e \<in> live_named a p m now c \<and> (\<forall>x \<in> live_named a p m now c. x = e \<or> better_entry e x)"
proof
  assume s: "statusByName c a p m now = Some e"
  note e = statusByName_SomeD [OF s]
  then show "e \<in> live_named a p m now c \<and> (\<forall>x \<in> live_named a p m now c. x = e \<or> better_entry e x)"
    using live_named_inj [OF assms] better_entry_linear by metis
next
  assume e: "e \<in> live_named a p m now c \<and> (\<forall>x \<in> live_named a p m now c. x = e \<or> better_entry e x)"
  then obtain f where f: "statusByName c a p m now = Some f"
    using statusByName_None_iff [of c a p m now] by (cases "statusByName c a p m now") auto
  from statusByName_SomeD [OF f] e have "f = e" by blast
  with f show "statusByName c a p m now = Some e" by simp
qed

lemma removeByName_live:
  "live_named a p m now (fst (removeByName c a p m)) = {}"
  by (auto simp: removeByName_def live_named_def set_gm_keep)

lemma removeByName_flag:
  "snd (removeByName c a p m) \<longleftrightarrow> fst (removeByName c a p m) \<noteq> c"
  unfolding removeByName_def gm_keep_def
  by (simp add: list_ex_iff filter_id_conv split_def)

section \<open>Snapshot\<close>

lemma snapshot_fold:
  assumes "cooldown_inv c" "nul_free a"
  shows "gm_get (fold (\<lambda>(key, e) out.
             if \<not> has_prefix key (scope_prefix a) then out
             else if \<not> now < until e then out
             else gm_set (providerModelID e) (view_of e) out) c out) i =
         (case gm_get c (tenantKey a i) of
            None \<Rightarrow> gm_get out i
          | Some e \<Rightarrow> if now < until e then Some (view_of e) else gm_get out i)"
  using assms
proof (induction c arbitrary: out)
  case Nil
  then show ?case by simp
next
  case (Cons ke c)
  obtain key e where ke: "ke = (key, e)" by (cases ke)
  from Cons.prems(1) ke obtain b where b: "nul_free b" "key = tenantKey b (providerModelID e)"
    by (auto simp: cooldown_inv_def)
  from Cons.prems(1) have inv: "cooldown_inv c" by (auto simp: cooldown_inv_def gm_wf_def)
  from Cons.prems(1) ke have notin: "gm_get c key = None"
    by (force simp: cooldown_inv_def gm_wf_def gm_get_None_iff)
  note IH = Cons.IH [OF inv Cons.prems(2)]
  show ?case
  proof (cases "a = b \<and> now < until e")
    case True
    with b have key: "key = tenantKey a (providerModelID e)" and live: "now < until e" by auto
    show ?thesis
    proof (cases "i = providerModelID e")
      case i: True
      with notin key have "gm_get c (tenantKey a i) = None" by simp
      with live key show ?thesis by (simp add: ke IH i [symmetric])
    next
      case False
      with live key show ?thesis by (simp add: ke IH split: option.split)
    qed
  next
    case False
    with b notin Cons.prems(2) IH [of out] show ?thesis
      by (cases "a = b \<and> i = providerModelID e") (auto simp: ke)
  qed
qed

lemma snapshot_view:
  assumes "cooldown_inv c" "nul_free a"
  shows "gm_get (snd (cooldown_snapshot c a now)) i =
           (if cooled c a i now then map_option view_of (gm_get c (tenantKey a i)) else None)"
  using snapshot_fold [OF cooldown_inv_prune [OF assms(1)] assms(2), where out = "[]"] assms
  by (auto simp: cooldown_snapshot_def Let_def get_prune cooled_def split: option.splits)

section \<open>The admin handlers\<close>

text \<open>
  \<open>GET\<close> and \<open>DELETE\<close> of a target's cooldown. Times stay instants where the code formats
  them; a duration is reported in whole seconds, truncated towards zero
  (\<open>Duration.Seconds\<close> is exact far beyond any cooldown window the settings allow).
\<close>

definition whole_seconds :: "duration \<Rightarrow> int" where
  "whole_seconds d = (if 0 \<le> d then d div 1000000000 else - ((- d) div 1000000000))"

datatype cooldown_reply =
    CooldownBadRequest
  | NotCooling string string
  | Cooling string string time time int int string string string
  | CooldownNoContent

definition cooldownStatus :: "cooldownStore \<Rightarrow> string \<Rightarrow> string \<Rightarrow> string \<Rightarrow> time \<Rightarrow> cooldown_reply" where
  "cooldownStatus c accountID provider model now =
     (if provider = [] \<or> model = [] then CooldownBadRequest
      else case statusByName c accountID provider model now of
          None \<Rightarrow> NotCooling provider model
        | Some e \<Rightarrow> Cooling (e_provider e) (e_model e) (startedAt e) (until e)
                     (whole_seconds (time_sub now (startedAt e)))
                     (whole_seconds (time_sub (until e) now))
                     (originRequestLogID e) (originErrorClass e) (originErrorMessage e))"

definition clearCooldown ::
  "cooldownStore \<Rightarrow> string \<Rightarrow> string \<Rightarrow> string \<Rightarrow> cooldownStore \<times> cooldown_reply" where
  "clearCooldown c accountID provider model =
     (if provider = [] \<or> model = [] then (c, CooldownBadRequest)
      else (fst (removeByName c accountID provider model), CooldownNoContent))"

section \<open>The interface the routing loop relies on\<close>

locale cooldown_gate =
  fixes cooled_at :: "'s \<Rightarrow> string \<Rightarrow> string \<Rightarrow> time \<Rightarrow> bool"
    and open_at :: "'s \<Rightarrow> string \<Rightarrow> string \<Rightarrow> time \<Rightarrow> time \<Rightarrow> 'd \<Rightarrow> 's"
    and release :: "'s \<Rightarrow> string \<Rightarrow> string \<Rightarrow> 's"
    and ok :: "'s \<Rightarrow> bool"
  assumes open_ok: "ok s \<Longrightarrow> nul_free a \<Longrightarrow> ok (open_at s a i st til d)"
    and release_ok: "ok s \<Longrightarrow> ok (release s a i)"
    and open_iff: "ok s \<Longrightarrow> nul_free a \<Longrightarrow> nul_free b \<Longrightarrow> st \<le> now \<Longrightarrow>
      cooled_at (open_at s a i st til d) b j now \<longleftrightarrow> cooled_at s b j now \<or> a = b \<and> i = j \<and> now < til"
    and release_iff: "nul_free a \<Longrightarrow> nul_free b \<Longrightarrow>
      cooled_at (release s a i) b j now \<longleftrightarrow> cooled_at s b j now \<and> \<not> (a = b \<and> i = j)"
begin

fun opens :: "'s \<Rightarrow> string \<Rightarrow> (string \<times> time \<times> time \<times> 'd) list \<Rightarrow> 's" where
  "opens s a [] = s"
| "opens s a ((i, st, til, d) # os) = opens (open_at s a i st til d) a os"

lemma opens_ok: "ok s \<Longrightarrow> nul_free a \<Longrightarrow> ok (opens s a os)"
  by (induction s a os rule: opens.induct) (auto intro: open_ok)

lemma opens_append: "opens s a (os @ [(i, st, til, d)]) = open_at (opens s a os) a i st til d"
  by (induction s a os rule: opens.induct) simp_all

lemma opens_iff:
  assumes "ok s" "nul_free a" "nul_free b" "\<forall>(i, st, til, d) \<in> set os. st \<le> now"
  shows "cooled_at (opens s a os) b j now \<longleftrightarrow>
     cooled_at s b j now \<or> a = b \<and> (\<exists>(i, st, til, d) \<in> set os. i = j \<and> now < til)"
  using assms
proof (induction s a os rule: opens.induct)
  case (2 s a i st til d os)
  then show ?case by (auto simp: open_iff open_ok)
qed simp

lemma opens_other_tenant:
  assumes "ok s" "nul_free a" "nul_free b" "a \<noteq> b" "\<forall>(i, st, til, d) \<in> set os. st \<le> now"
  shows "cooled_at (opens s a os) b j now = cooled_at s b j now"
  using opens_iff [OF assms(1-3,5)] assms(4) by simp

end

interpretation cg: cooldown_gate cooled
  "\<lambda>c a i st til (p, m, r, ec, em). cooldown_set c a i st til p m r ec em"
  cooldown_remove cooldown_inv
  by unfold_locales
    (auto simp: cooled_set_iff cooled_remove_iff cooldown_inv_ops)

end
