(* ===== verification/Inflight.thy ===== *)
theory Inflight
  imports Prelude
begin

text \<open>
  The liveness tracker of \<open>internal/server/inflight.go\<close>: one ticket per (account, client key,
  route) with the number of active and streaming requests, one leg per (account, route,
  target), and the deltas published to live consumers. The maps change under the mutex; the
  delta is published after the lock is released, so every operation returns the new
  tracker together with what it publishes, and the step relation below lets the
  publications of different requests be reordered.
\<close>

section \<open>State and operations\<close>

record inflightState =
  Active :: int
  Streaming :: int
  RequestedModel :: string
  ResolvedModel :: string
  ClientID :: string
  RouteID :: string

definition zero_state :: inflightState where
  "zero_state = \<lparr>Active = 0, Streaming = 0, RequestedModel = [], ResolvedModel = [],
                 ClientID = [], RouteID = []\<rparr>"

lemma zero_state_simps [simp]:
  "Active zero_state = 0" "Streaming zero_state = 0" "ClientID zero_state = []"
  by (simp_all add: zero_state_def)

record inflightDelta =
  d_ID :: string
  d_ClientID :: string
  d_TargetID :: string
  d_Active :: int
  d_Streaming :: int
  d_RequestedModel :: string
  d_ResolvedModel :: string
  d_Result :: string
  d_FailureClass :: string

definition zero_delta :: inflightDelta where
  "zero_delta = \<lparr>d_ID = [], d_ClientID = [], d_TargetID = [], d_Active = 0, d_Streaming = 0,
                 d_RequestedModel = [], d_ResolvedModel = [], d_Result = [], d_FailureClass = []\<rparr>"

record inflightTracker =
  clientStates :: "(string, inflightState) gomap"
  targetStates :: "(string, inflightState) gomap"

type_synonym emission = "string \<times> inflightDelta"

definition new_tracker :: inflightTracker where
  "new_tracker = \<lparr>clientStates = [], targetStates = []\<rparr>"

definition inflightClientKey :: "string \<Rightarrow> string \<Rightarrow> string \<Rightarrow> string" where
  "inflightClientKey accountID i routeID = accountID @ [NUL] @ i @ [NUL] @ routeID"

definition inflightTargetKey :: "string \<Rightarrow> string \<Rightarrow> string \<Rightarrow> string" where
  "inflightTargetKey accountID routeID targetID = accountID @ [NUL] @ routeID @ [NUL] @ targetID"

definition clientStartLocked ::
  "inflightTracker \<Rightarrow> string \<Rightarrow> string \<Rightarrow> string \<Rightarrow> string \<Rightarrow> inflightTracker" where
  "clientStartLocked t accountID i routeID requestedModel =
     (let key = inflightClientKey accountID i routeID;
          state = gm_get0 zero_state (clientStates t) key
      in t\<lparr>clientStates := gm_set key
             (state\<lparr>Active := Active state + 1, RequestedModel := requestedModel,
                    ClientID := i, RouteID := routeID\<rparr>) (clientStates t)\<rparr>)"

definition start_delta :: "string \<Rightarrow> string \<Rightarrow> string \<Rightarrow> inflightDelta" where
  "start_delta i routeID requestedModel =
     zero_delta\<lparr>d_ID := routeID, d_ClientID := i, d_Active := 1, d_RequestedModel := requestedModel\<rparr>"

definition clientStart ::
  "inflightTracker \<Rightarrow> string \<Rightarrow> string \<Rightarrow> string \<Rightarrow> string \<Rightarrow> inflightTracker \<times> emission list" where
  "clientStart t accountID i routeID requestedModel =
     (clientStartLocked t accountID i routeID requestedModel,
      [(accountID, start_delta i routeID requestedModel)])"

definition activeClientRequestsLocked :: "inflightTracker \<Rightarrow> string \<Rightarrow> int" where
  "activeClientRequestsLocked t accountID =
     gm_sum (\<lambda>key state. if has_prefix key (scope_prefix accountID) then Active state else 0)
       (clientStates t)"

definition tryAcquire ::
  "inflightTracker \<Rightarrow> string \<Rightarrow> int \<Rightarrow> string \<Rightarrow> string \<Rightarrow> string
    \<Rightarrow> inflightTracker \<times> emission list \<times> bool" where
  "tryAcquire t accountID limit i routeID requestedModel =
     (if limit \<ge> 0 \<and> activeClientRequestsLocked t accountID \<ge> limit then (t, [], False)
      else (clientStartLocked t accountID i routeID requestedModel,
            [(accountID, start_delta i routeID requestedModel)], True))"

definition clientStreaming ::
  "inflightTracker \<Rightarrow> string \<Rightarrow> string \<Rightarrow> string \<Rightarrow> inflightTracker \<times> emission list" where
  "clientStreaming t accountID i routeID =
     (let key = inflightClientKey accountID i routeID;
          state = gm_get0 zero_state (clientStates t) key
      in (t\<lparr>clientStates := gm_set key
             (state\<lparr>Streaming := Streaming state + 1, ClientID := i, RouteID := routeID\<rparr>)
             (clientStates t)\<rparr>,
          [(accountID, zero_delta\<lparr>d_ID := routeID, d_ClientID := i, d_Streaming := 1\<rparr>)]))"

definition clientResolved ::
  "inflightTracker \<Rightarrow> string \<Rightarrow> string \<Rightarrow> string \<Rightarrow> string \<Rightarrow> inflightTracker \<times> emission list" where
  "clientResolved t accountID i routeID resolvedModel =
     (if resolvedModel = [] then (t, [])
      else let key = inflightClientKey accountID i routeID;
               state = gm_get0 zero_state (clientStates t) key
           in (t\<lparr>clientStates := gm_set key
                  (state\<lparr>ResolvedModel := resolvedModel, ClientID := i, RouteID := routeID\<rparr>)
                  (clientStates t)\<rparr>,
               [(accountID, zero_delta\<lparr>d_ID := routeID, d_ClientID := i,
                                        d_ResolvedModel := resolvedModel\<rparr>)]))"

definition clientEnd ::
  "inflightTracker \<Rightarrow> string \<Rightarrow> string \<Rightarrow> string \<Rightarrow> bool \<Rightarrow> inflightTracker \<times> emission list" where
  "clientEnd t accountID i routeID streamed =
     (let key = inflightClientKey accountID i routeID;
          state = gm_get0 zero_state (clientStates t) key
      in if Active state = 0 \<and> Streaming state = 0 then (t, [])
         else let released = Active state > 0;
                  state = (if released then state\<lparr>Active := Active state - 1\<rparr> else state);
                  streamReleased = (streamed \<and> Streaming state > 0);
                  state = (if streamReleased then state\<lparr>Streaming := Streaming state - 1\<rparr> else state);
                  states = (if Active state = 0 \<and> Streaming state = 0
                            then gm_del key (clientStates t)
                            else gm_set key state (clientStates t));
                  delta = zero_delta\<lparr>d_ID := routeID, d_ClientID := i,
                             d_Active := (if released then -1 else 0),
                             d_Streaming := (if streamReleased then -1 else 0)\<rparr>
              in (t\<lparr>clientStates := states\<rparr>, [(accountID, delta)]))"

definition clientRouteSnapshot :: "inflightTracker \<Rightarrow> string \<Rightarrow> (string, inflightState) gomap" where
  "clientRouteSnapshot t accountID = scoped_copy accountID (clientStates t)"

definition clientSnapshot :: "inflightTracker \<Rightarrow> string \<Rightarrow> (string, inflightState) gomap" where
  "clientSnapshot t accountID =
     fold (\<lambda>(key, state) out.
             if \<not> has_prefix key (scope_prefix accountID) then out
             else if ClientID state = [] then out
             else let agg = gm_get0 zero_state out (ClientID state)
                  in gm_set (ClientID state)
                       (agg\<lparr>Active := Active agg + Active state,
                            Streaming := Streaming agg + Streaming state\<rparr>) out)
       (clientStates t) []"

definition targetStart ::
  "inflightTracker \<Rightarrow> string \<Rightarrow> string \<Rightarrow> string \<Rightarrow> inflightTracker \<times> emission list" where
  "targetStart t accountID routeID targetID =
     (let key = inflightTargetKey accountID routeID targetID;
          state = gm_get0 zero_state (targetStates t) key
      in (t\<lparr>targetStates := gm_set key (state\<lparr>Active := Active state + 1\<rparr>) (targetStates t)\<rparr>,
          [(accountID, zero_delta\<lparr>d_ID := routeID, d_TargetID := targetID, d_Active := 1\<rparr>)]))"

definition targetEnd ::
  "inflightTracker \<Rightarrow> string \<Rightarrow> string \<Rightarrow> string \<Rightarrow> inflightTracker \<times> emission list" where
  "targetEnd t accountID routeID targetID =
     (let key = inflightTargetKey accountID routeID targetID;
          state = gm_get0 zero_state (targetStates t) key
      in if Active state = 0 then (t, [])
         else let state = state\<lparr>Active := Active state - 1\<rparr>;
                  states = (if Active state = 0 then gm_del key (targetStates t)
                            else gm_set key state (targetStates t))
              in (t\<lparr>targetStates := states\<rparr>,
                  [(accountID, zero_delta\<lparr>d_ID := routeID, d_TargetID := targetID, d_Active := -1\<rparr>)]))"

definition targetSkipped ::
  "inflightTracker \<Rightarrow> string \<Rightarrow> string \<Rightarrow> string \<Rightarrow> string \<Rightarrow> string \<Rightarrow> inflightTracker \<times> emission list" where
  "targetSkipped t accountID routeID clientID targetID failureClass =
     (if routeID = [] \<or> targetID = [] then (t, [])
      else (t, [(accountID, zero_delta\<lparr>d_ID := routeID, d_ClientID := clientID, d_TargetID := targetID,
                                        d_Result := ''skipped'', d_FailureClass := failureClass\<rparr>)]))"

definition targetSnapshot :: "inflightTracker \<Rightarrow> string \<Rightarrow> (string, inflightState) gomap" where
  "targetSnapshot t accountID = scoped_copy accountID (targetStates t)"

section \<open>The tracker's invariant\<close>

definition ticket :: "inflightTracker \<Rightarrow> string \<Rightarrow> string \<Rightarrow> string \<Rightarrow> inflightState" where
  "ticket t a i r = gm_get0 zero_state (clientStates t) (inflightClientKey a i r)"

definition leg :: "inflightTracker \<Rightarrow> string \<Rightarrow> string \<Rightarrow> string \<Rightarrow> inflightState" where
  "leg t a r x = gm_get0 zero_state (targetStates t) (inflightTargetKey a r x)"

text \<open>
  Counters are never negative, and a client entry is stored under the key its own
  \<open>ClientID\<close> and \<open>RouteID\<close> spell.
\<close>

definition client_entry_ok :: "string \<Rightarrow> inflightState \<Rightarrow> bool" where
  "client_entry_ok key state \<longleftrightarrow> 0 \<le> Active state \<and> 0 \<le> Streaming state \<and>
     (\<exists>a. nul_free a \<and> nul_free (ClientID state) \<and> key = inflightClientKey a (ClientID state) (RouteID state))"

definition target_entry_ok :: "string \<Rightarrow> inflightState \<Rightarrow> bool" where
  "target_entry_ok key state \<longleftrightarrow> 0 < Active state \<and>
     (\<exists>a r x. nul_free a \<and> nul_free r \<and> key = inflightTargetKey a r x)"

definition inflight_inv :: "inflightTracker \<Rightarrow> bool" where
  "inflight_inv t \<longleftrightarrow> gm_wf (clientStates t) \<and> gm_wf (targetStates t) \<and>
     (\<forall>(key, state) \<in> set (clientStates t). client_entry_ok key state) \<and>
     (\<forall>(key, state) \<in> set (targetStates t). target_entry_ok key state)"

lemma clientKey_inject [simp]:
  "nul_free a \<Longrightarrow> nul_free b \<Longrightarrow> nul_free i \<Longrightarrow> nul_free j \<Longrightarrow>
   inflightClientKey a i r = inflightClientKey b j q \<longleftrightarrow> a = b \<and> i = j \<and> r = q"
  by (auto simp: inflightClientKey_def nul_split_unique)

lemma targetKey_inject [simp]:
  "nul_free a \<Longrightarrow> nul_free b \<Longrightarrow> nul_free r \<Longrightarrow> nul_free q \<Longrightarrow>
   inflightTargetKey a r x = inflightTargetKey b q y \<longleftrightarrow> a = b \<and> r = q \<and> x = y"
  by (auto simp: inflightTargetKey_def nul_split_unique)

lemma clientKey_tenant: "inflightClientKey a i r = tenantKey a (i @ NUL # r)"
  by (simp add: inflightClientKey_def tenantKey_def)

lemma inflight_inv_new: "inflight_inv new_tracker"
  by (simp add: inflight_inv_def new_tracker_def)

lemma ticket_nonneg:
  assumes "inflight_inv t"
  shows "0 \<le> Active (ticket t a i r) \<and> 0 \<le> Streaming (ticket t a i r)"
proof (cases "gm_get (clientStates t) (inflightClientKey a i r)")
  case None
  then show ?thesis by (simp add: ticket_def gm_get0_def zero_state_def)
next
  case (Some state)
  with gm_get_SomeD [OF Some] assms show ?thesis
    by (auto simp: ticket_def gm_get0_def inflight_inv_def client_entry_ok_def)
qed

lemma leg_nonneg:
  assumes "inflight_inv t"
  shows "0 \<le> Active (leg t a r x)"
proof (cases "gm_get (targetStates t) (inflightTargetKey a r x)")
  case None
  then show ?thesis by (simp add: leg_def gm_get0_def zero_state_def)
next
  case (Some state)
  with gm_get_SomeD [OF Some] assms show ?thesis
    by (auto simp: leg_def gm_get0_def inflight_inv_def target_entry_ok_def)
qed

lemma gm_get0_set [simp]: "gm_get0 d (gm_set k v m) k' = (if k' = k then v else gm_get0 d m k')"
  by (simp add: gm_get0_def)

lemma gm_get0_del [simp]: "gm_get0 d (gm_del k m) k' = (if k' = k then d else gm_get0 d m k')"
  by (simp add: gm_get0_def)

text \<open>The two ways an operation writes a client entry.\<close>

lemma inflight_inv_set_client:
  assumes "inflight_inv t" "nul_free a" "nul_free i" "0 \<le> Active s" "0 \<le> Streaming s"
    "ClientID s = i" "RouteID s = r"
  shows "inflight_inv (t\<lparr>clientStates := gm_set (inflightClientKey a i r) s (clientStates t)\<rparr>)"
  using assms by (auto simp: inflight_inv_def set_gm_set client_entry_ok_def)

lemma inflight_inv_del_client:
  "inflight_inv t \<Longrightarrow> inflight_inv (t\<lparr>clientStates := gm_del k (clientStates t)\<rparr>)"
  by (auto simp: inflight_inv_def set_gm_del)

lemma inflight_inv_set_target:
  "inflight_inv t \<Longrightarrow> nul_free a \<Longrightarrow> nul_free r \<Longrightarrow> 0 < Active s \<Longrightarrow>
   inflight_inv (t\<lparr>targetStates := gm_set (inflightTargetKey a r x) s (targetStates t)\<rparr>)"
  by (auto simp: inflight_inv_def set_gm_set target_entry_ok_def)

lemma inflight_inv_del_target:
  "inflight_inv t \<Longrightarrow> inflight_inv (t\<lparr>targetStates := gm_del k (targetStates t)\<rparr>)"
  by (auto simp: inflight_inv_def set_gm_del)

lemmas inflight_inv_writes =
  inflight_inv_set_client inflight_inv_del_client inflight_inv_set_target inflight_inv_del_target

lemma ticket_ids:
  assumes "inflight_inv t" "nul_free a" "nul_free i"
    "\<not> (Active (ticket t a i r) = 0 \<and> Streaming (ticket t a i r) = 0)"
  shows "ClientID (ticket t a i r) = i \<and> RouteID (ticket t a i r) = r"
proof (cases "gm_get (clientStates t) (inflightClientKey a i r)")
  case None
  with assms(4) show ?thesis by (simp add: ticket_def gm_get0_def zero_state_def)
next
  case (Some state)
  with gm_get_SomeD [OF Some] assms(1) have "client_entry_ok (inflightClientKey a i r) state"
    by (auto simp: inflight_inv_def)
  with Some assms(2,3) show ?thesis by (auto simp: client_entry_ok_def ticket_def gm_get0_def)
qed

section \<open>Operations as a datatype, and what they publish\<close>

datatype inflight_op =
    Start string string string string
  | Acquire string int string string string
  | Stream string string string
  | Resolve string string string string
  | End string string string bool
  | TargetStart string string string
  | TargetEnd string string string
  | TargetSkip string string string string string

fun inflight_apply :: "inflight_op \<Rightarrow> inflightTracker \<Rightarrow> inflightTracker \<times> emission list" where
  "inflight_apply (Start a i r m) t = clientStart t a i r m"
| "inflight_apply (Acquire a l i r m) t = (let (t', es, _) = tryAcquire t a l i r m in (t', es))"
| "inflight_apply (Stream a i r) t = clientStreaming t a i r"
| "inflight_apply (Resolve a i r m) t = clientResolved t a i r m"
| "inflight_apply (End a i r b) t = clientEnd t a i r b"
| "inflight_apply (TargetStart a r x) t = targetStart t a r x"
| "inflight_apply (TargetEnd a r x) t = targetEnd t a r x"
| "inflight_apply (TargetSkip a r c x f) t = targetSkipped t a r c x f"

text \<open>Identifiers of requests: account, client and route ids without NUL, a client and a target named.\<close>

fun op_ids_ok :: "inflight_op \<Rightarrow> bool" where
  "op_ids_ok (Start a i r m) = (nul_free a \<and> nul_free i \<and> i \<noteq> [])"
| "op_ids_ok (Acquire a l i r m) = (nul_free a \<and> nul_free i \<and> i \<noteq> [])"
| "op_ids_ok (Stream a i r) = (nul_free a \<and> nul_free i \<and> i \<noteq> [])"
| "op_ids_ok (Resolve a i r m) = (nul_free a \<and> nul_free i \<and> i \<noteq> [])"
| "op_ids_ok (End a i r b) = (nul_free a \<and> nul_free i \<and> i \<noteq> [])"
| "op_ids_ok (TargetStart a r x) = (nul_free a \<and> nul_free r \<and> x \<noteq> [])"
| "op_ids_ok (TargetEnd a r x) = (nul_free a \<and> nul_free r \<and> x \<noteq> [])"
| "op_ids_ok (TargetSkip a r c x f) = True"

lemmas inflight_op_defs =
  clientStart_def tryAcquire_def clientStreaming_def clientResolved_def clientEnd_def
  targetStart_def targetEnd_def targetSkipped_def clientStartLocked_def start_delta_def Let_def

lemmas ticket_bounds = ticket_nonneg [THEN conjunct1] ticket_nonneg [THEN conjunct2] leg_nonneg

lemma leg_ne_pos: "inflight_inv t \<Longrightarrow> Active (leg t a r x) \<noteq> 1 \<Longrightarrow> Active (leg t a r x) \<noteq> 0 \<Longrightarrow>
  1 < Active (leg t a r x)"
  using leg_nonneg [of t a r x] by linarith

lemma inflight_apply_inv:
  assumes "inflight_inv t" "op_ids_ok oper"
  shows "inflight_inv (fst (inflight_apply oper t))"
  using assms ticket_ids [OF assms(1)]
  by (cases oper)
    (auto simp: inflight_op_defs ticket_def [symmetric] leg_def [symmetric] ticket_bounds
      leg_ne_pos add_nonneg_pos intro!: inflight_inv_writes)

section \<open>Published deltas add up to the tracker's counters\<close>

definition client_part :: "(inflightDelta \<Rightarrow> int) \<Rightarrow> string \<Rightarrow> string \<Rightarrow> string \<Rightarrow> emission \<Rightarrow> int" where
  "client_part f a i r em = (case em of (b, d) \<Rightarrow>
     if b = a \<and> d_ClientID d = i \<and> d_ID d = r \<and> d_TargetID d = [] then f d else 0)"

definition target_part :: "string \<Rightarrow> string \<Rightarrow> string \<Rightarrow> emission \<Rightarrow> int" where
  "target_part a r x em = (case em of (b, d) \<Rightarrow>
     if b = a \<and> d_ID d = r \<and> d_TargetID d = x then d_Active d else 0)"

text \<open>What a live consumer that adds up the deltas it has seen shows for a ticket or a leg.\<close>

definition consumer_active :: "emission list \<Rightarrow> string \<Rightarrow> string \<Rightarrow> string \<Rightarrow> int" where
  "consumer_active es a i r = sum_list (map (client_part d_Active a i r) es)"

definition consumer_streaming :: "emission list \<Rightarrow> string \<Rightarrow> string \<Rightarrow> string \<Rightarrow> int" where
  "consumer_streaming es a i r = sum_list (map (client_part d_Streaming a i r) es)"

definition consumer_leg :: "emission list \<Rightarrow> string \<Rightarrow> string \<Rightarrow> string \<Rightarrow> int" where
  "consumer_leg es a r x = sum_list (map (target_part a r x) es)"

lemmas consumer_defs = consumer_active_def consumer_streaming_def consumer_leg_def
  client_part_def target_part_def

lemma consumer_append:
  "consumer_active (es @ fs) a i r = consumer_active es a i r + consumer_active fs a i r"
  "consumer_streaming (es @ fs) a i r = consumer_streaming es a i r + consumer_streaming fs a i r"
  "consumer_leg (es @ fs) a r x = consumer_leg es a r x + consumer_leg fs a r x"
  by (simp_all add: consumer_defs)

definition agrees :: "inflightTracker \<Rightarrow> emission list \<Rightarrow> bool" where
  "agrees t es \<longleftrightarrow>
     (\<forall>a i r. nul_free a \<longrightarrow> nul_free i \<longrightarrow> i \<noteq> [] \<longrightarrow>
        consumer_active es a i r = Active (ticket t a i r) \<and>
        consumer_streaming es a i r = Streaming (ticket t a i r)) \<and>
     (\<forall>a r x. nul_free a \<longrightarrow> nul_free r \<longrightarrow> x \<noteq> [] \<longrightarrow> consumer_leg es a r x = Active (leg t a r x))"

lemma ticket_set:
  "nul_free a \<Longrightarrow> nul_free b \<Longrightarrow> nul_free i \<Longrightarrow> nul_free j \<Longrightarrow>
   ticket (t\<lparr>clientStates := gm_set (inflightClientKey a i r) s (clientStates t)\<rparr>) b j q =
     (if a = b \<and> i = j \<and> r = q then s else ticket t b j q)"
  by (auto simp: ticket_def)

lemma ticket_del:
  "nul_free a \<Longrightarrow> nul_free b \<Longrightarrow> nul_free i \<Longrightarrow> nul_free j \<Longrightarrow>
   ticket (t\<lparr>clientStates := gm_del (inflightClientKey a i r) (clientStates t)\<rparr>) b j q =
     (if a = b \<and> i = j \<and> r = q then zero_state else ticket t b j q)"
  by (auto simp: ticket_def)

lemma ticket_targets [simp]: "ticket (t\<lparr>targetStates := x\<rparr>) a i r = ticket t a i r"
  by (simp add: ticket_def)

lemma leg_clients [simp]: "leg (t\<lparr>clientStates := x\<rparr>) a r y = leg t a r y"
  by (simp add: leg_def)

text \<open>One operation moves a ticket by exactly what it publishes for it.\<close>

lemma apply_ticket:
  assumes "inflight_inv t" "op_ids_ok oper" "nul_free a" "nul_free i" "i \<noteq> []"
  shows "Active (ticket (fst (inflight_apply oper t)) a i r) =
           Active (ticket t a i r) + consumer_active (snd (inflight_apply oper t)) a i r \<and>
         Streaming (ticket (fst (inflight_apply oper t)) a i r) =
           Streaming (ticket t a i r) + consumer_streaming (snd (inflight_apply oper t)) a i r"
  using assms ticket_nonneg [OF assms(1), of a i r]
  by (cases oper)
    (auto simp: inflight_op_defs ticket_def [symmetric] ticket_set ticket_del consumer_defs zero_delta_def)

lemma apply_leg:
  assumes "inflight_inv t" "op_ids_ok oper" "nul_free a" "nul_free r" "x \<noteq> []"
  shows "Active (leg (fst (inflight_apply oper t)) a r x) =
           Active (leg t a r x) + consumer_leg (snd (inflight_apply oper t)) a r x"
  using assms leg_nonneg [OF assms(1), of a r x]
  by (cases oper; auto simp: inflight_op_defs leg_def consumer_defs zero_delta_def)

section \<open>Interleaved requests\<close>

text \<open>
  A world holds the tracker, the deltas computed under the lock but not yet published and
  the deltas consumers have seen. Any pending delta may be published next: the code gives
  no order between the \<open>emit\<close> calls of different requests.
\<close>

record live_world =
  w_tracker :: inflightTracker
  w_pending :: "emission list"
  w_seen :: "emission list"

definition init_world :: live_world where
  "init_world = \<lparr>w_tracker = new_tracker, w_pending = [], w_seen = []\<rparr>"

inductive live_step :: "live_world \<Rightarrow> live_world \<Rightarrow> bool" where
  call: "op_ids_ok oper \<Longrightarrow> inflight_apply oper (w_tracker w) = (t, es) \<Longrightarrow>
         live_step w (w\<lparr>w_tracker := t, w_pending := w_pending w @ es\<rparr>)"
| publish: "w_pending w = xs @ e # ys \<Longrightarrow>
         live_step w (w\<lparr>w_pending := xs @ ys, w_seen := w_seen w @ [e]\<rparr>)"

inductive live_reach :: "live_world \<Rightarrow> bool" where
  start: "live_reach init_world"
| step: "live_reach w \<Longrightarrow> live_step w w' \<Longrightarrow> live_reach w'"

inductive_cases live_stepE: "live_step w w'"

definition live_inv :: "live_world \<Rightarrow> bool" where
  "live_inv w \<longleftrightarrow> inflight_inv (w_tracker w) \<and> agrees (w_tracker w) (w_pending w @ w_seen w)"

lemma agrees_perm:
  assumes "agrees t (xs @ e # ys @ zs)" shows "agrees t (xs @ ys @ zs @ [e])"
proof -
  have "consumer_active (xs @ e # ys @ zs) a i r = consumer_active (xs @ ys @ zs @ [e]) a i r"
    "consumer_streaming (xs @ e # ys @ zs) a i r = consumer_streaming (xs @ ys @ zs @ [e]) a i r"
    "consumer_leg (xs @ e # ys @ zs) a i r = consumer_leg (xs @ ys @ zs @ [e]) a i r" for a i r
    by (simp_all add: consumer_defs)
  with assms show ?thesis unfolding agrees_def by metis
qed

lemma agrees_apply:
  assumes "inflight_inv t" "op_ids_ok oper" "agrees t (ps @ ss)"
  shows "agrees (fst (inflight_apply oper t)) ((ps @ snd (inflight_apply oper t)) @ ss)"
  using assms by (simp add: agrees_def consumer_append apply_ticket apply_leg)

lemma live_step_inv: "live_step w w' \<Longrightarrow> live_inv w \<Longrightarrow> live_inv w'"
proof (induction rule: live_step.induct)
  case (call oper w t es)
  then show ?case
    using inflight_apply_inv [of "w_tracker w" oper] agrees_apply [of "w_tracker w" oper]
    by (simp add: live_inv_def)
next
  case (publish w xs e ys)
  then show ?case
    using agrees_perm [of "w_tracker w" xs e ys "w_seen w"] by (simp add: live_inv_def)
qed

lemma live_inv_init: "live_inv init_world"
  by (simp add: live_inv_def init_world_def inflight_inv_new agrees_def consumer_defs)
    (simp add: new_tracker_def ticket_def leg_def gm_get0_def zero_state_def)

lemma live_reach_inv: "live_reach w \<Longrightarrow> live_inv w"
  by (induction rule: live_reach.induct) (auto intro: live_inv_init live_step_inv)

section \<open>Counting an account's live requests\<close>

definition account_part :: "string \<Rightarrow> emission \<Rightarrow> int" where
  "account_part a em = (case em of (b, d) \<Rightarrow> if b = a \<and> d_TargetID d = [] then d_Active d else 0)"

lemma at_key_ticket:
  "nul_free a \<Longrightarrow> nul_free b \<Longrightarrow>
   at_key (\<lambda>key state. if has_prefix key (scope_prefix b) then Active state else 0)
     (clientStates t) (inflightClientKey a i r) = (if a = b then Active (ticket t a i r) else 0)"
  by (auto simp: at_key_def ticket_def gm_get0_def zero_state_def clientKey_tenant split: option.splits)

lemma clientKey_prefix [simp]:
  "nul_free a \<Longrightarrow> nul_free b \<Longrightarrow> has_prefix (inflightClientKey a i r) (scope_prefix b) \<longleftrightarrow> a = b"
  by (auto simp: clientKey_tenant)

lemma count_set:
  assumes "nul_free a" "nul_free b"
  shows "activeClientRequestsLocked (t\<lparr>clientStates := gm_set (inflightClientKey a i r) s (clientStates t)\<rparr>) b =
     activeClientRequestsLocked t b + (if a = b then Active s - Active (ticket t a i r) else 0)"
  using assms by (simp add: activeClientRequestsLocked_def gm_sum_set at_key_ticket)

lemma count_del:
  assumes "inflight_inv t" "nul_free a" "nul_free b"
  shows "activeClientRequestsLocked (t\<lparr>clientStates := gm_del (inflightClientKey a i r) (clientStates t)\<rparr>) b =
     activeClientRequestsLocked t b - (if a = b then Active (ticket t a i r) else 0)"
  using assms by (simp add: activeClientRequestsLocked_def gm_sum_del inflight_inv_def at_key_ticket)

lemma count_targets [simp]:
  "activeClientRequestsLocked (t\<lparr>targetStates := x\<rparr>) b = activeClientRequestsLocked t b"
  by (simp add: activeClientRequestsLocked_def)

lemma count_apply:
  assumes "inflight_inv t" "op_ids_ok oper" "nul_free b"
  shows "activeClientRequestsLocked (fst (inflight_apply oper t)) b =
     activeClientRequestsLocked t b + sum_list (map (account_part b) (snd (inflight_apply oper t)))"
proof (cases oper)
  case (End a i r s)
  with assms have ids: "nul_free a" "nul_free i" by auto
  have nonneg: "0 \<le> Active (ticket t a i r)" using ticket_nonneg [OF assms(1)] by simp
  show ?thesis
    using ids nonneg
    by (cases "a = b")
      (auto simp: End clientEnd_def Let_def ticket_def [symmetric] account_part_def zero_delta_def count_set
        count_del [OF assms(1)] assms(3))
qed (use assms in \<open>simp_all add: inflight_op_defs account_part_def zero_delta_def count_set
       ticket_def [symmetric]\<close>)

text \<open>
  The account's requests stay within the cap when every ticket is taken through
  \<open>tryAcquire\<close> with a limit of at most the cap.
\<close>

fun capped :: "string \<Rightarrow> int \<Rightarrow> inflight_op \<Rightarrow> bool" where
  "capped b cap (Start a i r m) = (a \<noteq> b)"
| "capped b cap (Acquire a l i r m) = (a = b \<longrightarrow> 0 \<le> l \<and> l \<le> cap)"
| "capped b cap _ = True"

definition inflight_run :: "inflight_op list \<Rightarrow> inflightTracker \<Rightarrow> inflightTracker" where
  "inflight_run ops t = fold (\<lambda>oper t. fst (inflight_apply oper t)) ops t"

lemma count_capped_step:
  assumes "op_ids_ok oper" "capped b cap oper" "activeClientRequestsLocked t b \<le> cap"
  shows "activeClientRequestsLocked t b + sum_list (map (account_part b) (snd (inflight_apply oper t))) \<le> cap"
  using assms
  by (cases oper) (auto simp: inflight_op_defs account_part_def zero_delta_def)

lemma count_capped_run:
  assumes "inflight_inv t" "nul_free b" "\<forall>oper \<in> set ops. op_ids_ok oper \<and> capped b cap oper"
    "activeClientRequestsLocked t b \<le> cap"
  shows "inflight_inv (inflight_run ops t) \<and> activeClientRequestsLocked (inflight_run ops t) b \<le> cap"
  using assms
proof (induction ops arbitrary: t)
  case Nil
  then show ?case by (simp add: inflight_run_def)
next
  case (Cons oper ops)
  from Cons.prems have "op_ids_ok oper" "capped b cap oper" by auto
  with Cons.prems have "inflight_inv (fst (inflight_apply oper t))"
    "activeClientRequestsLocked (fst (inflight_apply oper t)) b \<le> cap"
    by (auto simp: count_apply count_capped_step intro: inflight_apply_inv)
  with Cons.IH [of "fst (inflight_apply oper t)"] Cons.prems show ?case
    by (simp add: inflight_run_def)
qed

section \<open>Snapshots\<close>

lemma inflight_scoped:
  assumes "inflight_inv t"
  shows "scoped_keys (clientStates t)" "scoped_keys (targetStates t)"
  using assms
  by (fastforce simp: inflight_inv_def scoped_keys_def client_entry_ok_def target_entry_ok_def
      clientKey_tenant inflightTargetKey_def tenantKey_def)+

lemma clientRouteSnapshot_get:
  "inflight_inv t \<Longrightarrow> nul_free a \<Longrightarrow>
   gm_get (clientRouteSnapshot t a) (i @ NUL # r) = gm_get (clientStates t) (inflightClientKey a i r)"
  using inflight_scoped [of t]
  by (simp add: clientRouteSnapshot_def scoped_copy_get inflight_inv_def clientKey_tenant)

lemma clientSnapshot_fold:
  assumes "j \<noteq> []"
  shows "Active (gm_get0 zero_state (fold (\<lambda>(key, state) out.
             if \<not> has_prefix key (scope_prefix a) then out
             else if ClientID state = [] then out
             else let agg = gm_get0 zero_state out (ClientID state)
                  in gm_set (ClientID state)
                       (agg\<lparr>Active := Active agg + Active state,
                            Streaming := Streaming agg + Streaming state\<rparr>) out) m out) j) =
         Active (gm_get0 zero_state out j) +
         gm_sum (\<lambda>key s. if has_prefix key (scope_prefix a) \<and> ClientID s = j then Active s else 0) m"
  using assms by (induction m arbitrary: out) (auto simp: Let_def)

lemma clientSnapshot_active:
  "j \<noteq> [] \<Longrightarrow> Active (gm_get0 zero_state (clientSnapshot t a) j) =
     gm_sum (\<lambda>key s. if has_prefix key (scope_prefix a) \<and> ClientID s = j then Active s else 0)
       (clientStates t)"
  using clientSnapshot_fold [of j a "clientStates t" "[]"]
  by (simp add: clientSnapshot_def gm_get0_def)

section \<open>The interface admission relies on\<close>

text \<open>
  A pool of request slots per account: taking one fails exactly when the account is at its
  (non-negative) limit, and giving one back undoes a taken slot.
\<close>

locale slot_pool =
  fixes acquire :: "'t \<Rightarrow> string \<Rightarrow> int \<Rightarrow> 'k \<Rightarrow> 't option"
    and release :: "'t \<Rightarrow> string \<Rightarrow> 'k \<Rightarrow> 't"
    and total :: "'t \<Rightarrow> string \<Rightarrow> int"
    and held :: "'t \<Rightarrow> string \<Rightarrow> 'k \<Rightarrow> int"
    and ok :: "'t \<Rightarrow> bool"
    and good :: "string \<Rightarrow> 'k \<Rightarrow> bool"
  assumes acquire_None: "acquire t a l k = None \<longleftrightarrow> 0 \<le> l \<and> l \<le> total t a"
    and acquire_ok: "ok t \<Longrightarrow> good a k \<Longrightarrow> acquire t a l k = Some t' \<Longrightarrow> ok t'"
    and release_ok: "ok t \<Longrightarrow> good a k \<Longrightarrow> ok (release t a k)"
    and acquire_total: "ok t \<Longrightarrow> good a k \<Longrightarrow> good b k' \<Longrightarrow> acquire t a l k = Some t' \<Longrightarrow>
      total t' b = total t b + (if a = b then 1 else 0)"
    and release_total: "ok t \<Longrightarrow> good a k \<Longrightarrow> good b k' \<Longrightarrow>
      total (release t a k) b = total t b - (if a = b \<and> 0 < held t a k then 1 else 0)"
    and acquire_held: "ok t \<Longrightarrow> good a k \<Longrightarrow> acquire t a l k = Some t' \<Longrightarrow> 0 < held t' a k"
begin

lemma acquire_release_total:
  assumes "ok t" "good a k" "good b k'" "acquire t a l k = Some t'"
  shows "total (release t' a k) b = total t b"
  using assms by (simp add: release_total acquire_ok acquire_total acquire_held)

lemma acquire_bound:
  assumes "ok t" "good a k" "acquire t a l k = Some t'" "0 \<le> l"
  shows "total t' a \<le> l"
proof -
  from assms(3,4) acquire_None [of t a l k] have "total t a < l" by auto
  with acquire_total [OF assms(1,2,2,3)] show ?thesis by simp
qed

lemma unlimited_acquires: "l < 0 \<Longrightarrow> \<exists>t'. acquire t a l k = Some t'"
  using acquire_None [of t a l k] by (cases "acquire t a l k") auto

end

definition slot_acquire ::
  "inflightTracker \<Rightarrow> string \<Rightarrow> int \<Rightarrow> string \<times> string \<times> string \<Rightarrow> inflightTracker option" where
  "slot_acquire t a l k = (case k of (i, r, m) \<Rightarrow>
     (case tryAcquire t a l i r m of (t', es, got) \<Rightarrow> if got then Some t' else None))"

definition slot_release :: "inflightTracker \<Rightarrow> string \<Rightarrow> string \<times> string \<times> string \<Rightarrow> inflightTracker" where
  "slot_release t a k = (case k of (i, r, m) \<Rightarrow> fst (clientEnd t a i r False))"

definition slot_held :: "inflightTracker \<Rightarrow> string \<Rightarrow> string \<times> string \<times> string \<Rightarrow> int" where
  "slot_held t a k = (case k of (i, r, m) \<Rightarrow> Active (ticket t a i r))"

definition slot_good :: "string \<Rightarrow> string \<times> string \<times> string \<Rightarrow> bool" where
  "slot_good a k = (case k of (i, r, m) \<Rightarrow> nul_free a \<and> nul_free i \<and> i \<noteq> [])"

lemma slot_acquire_apply:
  "slot_acquire t a l (i, r, m) = Some t' \<Longrightarrow> t' = fst (inflight_apply (Acquire a l i r m) t) \<and>
     snd (inflight_apply (Acquire a l i r m) t) = [(a, start_delta i r m)]"
  by (auto simp: slot_acquire_def tryAcquire_def split: if_splits)

lemma slot_release_apply: "slot_release t a (i, r, m) = fst (inflight_apply (End a i r False) t)"
  by (simp add: slot_release_def)

interpretation slots: slot_pool slot_acquire slot_release activeClientRequestsLocked slot_held
  inflight_inv slot_good
proof (unfold_locales, goal_cases)
  case (1 t a l k)
  then show ?case by (cases k) (auto simp: slot_acquire_def tryAcquire_def)
next
  case (2 t a k l t')
  then show ?case
    by (cases k) (auto simp: slot_good_def dest!: slot_acquire_apply simp del: inflight_apply.simps
        intro!: inflight_apply_inv)
next
  case (3 t a k)
  then show ?case
    by (cases k) (auto simp: slot_good_def slot_release_apply simp del: inflight_apply.simps
        intro!: inflight_apply_inv)
next
  case (4 t a k b k' l t')
  then show ?case
    by (cases k; cases k') (auto simp: slot_good_def count_apply account_part_def start_delta_def
        zero_delta_def dest!: slot_acquire_apply simp del: inflight_apply.simps)
next
  case (5 t a k b k')
  then show ?case
    using ticket_nonneg [OF 5(1), of a "fst k" "fst (snd k)"]
    by (cases k; cases k') (auto simp: slot_good_def slot_release_apply count_apply slot_held_def
        simp del: inflight_apply.simps,
        auto simp: account_part_def clientEnd_def Let_def zero_delta_def ticket_def [symmetric])
next
  case (6 t a k l t')
  then show ?case
    using ticket_nonneg [OF 6(1), of a "fst k" "fst (snd k)"]
    by (cases k) (auto simp: slot_good_def slot_held_def apply_ticket consumer_defs start_delta_def
        zero_delta_def dest!: slot_acquire_apply simp del: inflight_apply.simps)
qed

end
