(* ===== verification/LoginLimiter.thy ===== *)
theory LoginLimiter
  imports Prelude "HOL-Library.Word"
begin

unbundle bit_operations_syntax

text \<open>
  The authentication throttle of \<open>internal/server/login_limiter.go\<close>: consecutive failures
  with a lockout, fixed-window request budgets, a hard bound on both tables and a shared
  overflow budget while a table is full of active lockouts. Each operation runs under the
  mutex and reads the clock once per path, so it is a function of the limiter and of
  \<open>now\<close>. Where the code ranges over a map and stops at the first match, the order is the
  runtime's: it is the parameter \<open>ord\<close>, any rearrangement of the table.
\<close>

section \<open>Keys\<close>

text \<open>
  \<open>limiterKey\<close> reads an address with \<open>netip.ParseAddr\<close> and prints it back; the textual
  formats are the standard library's and stay parameters (\<open>parse\<close>, \<open>show_addr\<close>,
  \<open>show_prefix\<close>), while unmapping and masking are modelled on the bits.
\<close>

datatype ipaddr = V4 "32 word" | V6 "128 word" string

definition unmap :: "ipaddr \<Rightarrow> ipaddr" where
  "unmap addr = (case addr of
     V4 w \<Rightarrow> V4 w
   | V6 w zone \<Rightarrow> if drop_bit 32 w = 0xFFFF then V4 (ucast w) else V6 w zone)"

definition prefix64 :: "128 word \<Rightarrow> 128 word" where
  "prefix64 w = push_bit 64 (drop_bit 64 w)"

definition limiterKey ::
  "(string \<Rightarrow> ipaddr option) \<Rightarrow> (ipaddr \<Rightarrow> string) \<Rightarrow> (128 word \<Rightarrow> string) \<Rightarrow> string \<Rightarrow> string" where
  "limiterKey parse show_addr show_prefix key =
     (case parse key of
        None \<Rightarrow> key
      | Some addr \<Rightarrow> (case unmap addr of
            V4 w \<Rightarrow> show_addr (V4 w)
          | V6 w zone \<Rightarrow> show_prefix (prefix64 w)))"

section \<open>State and operations\<close>

record loginFailure =
  cnt :: int
  firstAt :: time
  lockedUntil :: time

type_synonym ftable = "(string, loginFailure) gomap"

record loginLimiter =
  failures :: ftable
  attempts :: ftable
  lim_max :: int
  window :: duration
  lockout :: duration
  overflow :: loginFailure

definition zero_failure :: loginFailure where
  "zero_failure = \<lparr>cnt = 0, firstAt = zero_time, lockedUntil = zero_time\<rparr>"

definition newLoginLimiter :: "int \<Rightarrow> duration \<Rightarrow> duration \<Rightarrow> loginLimiter" where
  "newLoginLimiter mx win lock =
     \<lparr>failures = [], attempts = [], lim_max = mx, window = win, lockout = lock, overflow = zero_failure\<rparr>"

definition maxLimiterEntries :: nat where
  "maxLimiterEntries = 4096"

text \<open>\<open>purge\<close> and \<open>purgeAttempts\<close> keep the same entries of their tables.\<close>

definition stale :: "duration \<Rightarrow> time \<Rightarrow> loginFailure \<Rightarrow> bool" where
  "stale win now f =
     (if \<not> is_zero (lockedUntil f) then \<not> now < lockedUntil f
      else time_sub now (firstAt f) > win)"

definition purge :: "loginLimiter \<Rightarrow> time \<Rightarrow> loginLimiter" where
  "purge l now = l\<lparr>failures := gm_keep (\<lambda>_ f. \<not> stale (window l) now f) (failures l)\<rparr>"

definition purgeAttempts :: "loginLimiter \<Rightarrow> time \<Rightarrow> loginLimiter" where
  "purgeAttempts l now = l\<lparr>attempts := gm_keep (\<lambda>_ f. \<not> stale (window l) now f) (attempts l)\<rparr>"

definition overflowAllow :: "loginLimiter \<Rightarrow> time \<Rightarrow> loginLimiter \<times> bool" where
  "overflowAllow l now =
     (let ov = overflow l in
      if \<not> is_zero (lockedUntil ov) \<and> now < lockedUntil ov then (l, False)
      else let ov = (if \<not> is_zero (lockedUntil ov) then zero_failure else ov);
               ov = (if cnt ov = 0 \<or> time_sub now (firstAt ov) > window l
                     then ov\<lparr>cnt := 0, firstAt := now\<rparr> else ov);
               ov = ov\<lparr>cnt := cnt ov + 1\<rparr>
           in if cnt ov > lim_max l
              then (l\<lparr>overflow := ov\<lparr>lockedUntil := time_add now (lockout l)\<rparr>\<rparr>, False)
              else (l\<lparr>overflow := ov\<rparr>, True))"

definition locked :: "loginLimiter \<Rightarrow> string \<Rightarrow> time \<Rightarrow> loginLimiter \<times> bool" where
  "locked l key now =
     (case gm_get (failures l) key of
        None \<Rightarrow> (l, length (failures l) \<ge> maxLimiterEntries \<and> now < lockedUntil (overflow l))
      | Some f \<Rightarrow>
          if is_zero (lockedUntil f) then (l, False)
          else if now < lockedUntil f then (l, True)
          else (l\<lparr>failures := gm_del key (failures l)\<rparr>, False))"

text \<open>The first entry without a lockout in the runtime's order.\<close>

definition evictable :: "ftable \<Rightarrow> string option" where
  "evictable fs = map_option fst (find (\<lambda>(k, f). is_zero (lockedUntil f)) fs)"

definition recordFailure ::
  "(ftable \<Rightarrow> ftable) \<Rightarrow> loginLimiter \<Rightarrow> string \<Rightarrow> time \<Rightarrow> loginLimiter \<times> bool" where
  "recordFailure ord l key now =
     (let fresh = \<lparr>cnt = 1, firstAt = now, lockedUntil = zero_time\<rparr>;
          insert = (\<lambda>l. (l\<lparr>failures := gm_set key fresh (failures l)\<rparr>, False))
      in case gm_get (failures l) key of
           None \<Rightarrow>
             if length (failures l) \<ge> maxLimiterEntries then
               let l = purge l now in
               if length (failures l) \<ge> maxLimiterEntries then
                 (case evictable (ord (failures l)) of
                    Some k \<Rightarrow> insert (l\<lparr>failures := gm_del k (failures l)\<rparr>)
                  | None \<Rightarrow> (let (l, allowed) = overflowAllow l now in (l, \<not> allowed)))
               else insert l
             else insert l
         | Some f \<Rightarrow>
             if now < lockedUntil f then (l, True)
             else if time_sub now (firstAt f) > window l
             then (l\<lparr>failures := gm_set key (f\<lparr>cnt := 1, firstAt := now\<rparr>) (failures l)\<rparr>, False)
             else let f = f\<lparr>cnt := cnt f + 1\<rparr> in
               if cnt f \<ge> lim_max l
               then (l\<lparr>failures := gm_set key (f\<lparr>lockedUntil := time_add now (lockout l)\<rparr>) (failures l)\<rparr>, True)
               else (l\<lparr>failures := gm_set key f (failures l)\<rparr>, False))"

text \<open>
  \<open>allowAttempt\<close>: \<open>attempt_entry\<close> is the entry after the first block of the code dropped an
  expired one; \<open>attempt_new\<close> is the \<open>!ok\<close> block.
\<close>

definition attempt_entry :: "loginLimiter \<Rightarrow> string \<Rightarrow> time \<Rightarrow> loginLimiter \<times> loginFailure option \<times> bool" where
  "attempt_entry l key now =
     (let drop = l\<lparr>attempts := gm_del key (attempts l)\<rparr> in
      case gm_get (attempts l) key of
        None \<Rightarrow> (l, None, False)
      | Some f \<Rightarrow>
          if \<not> is_zero (lockedUntil f) then
            if now < lockedUntil f then (l, Some f, True) else (drop, None, False)
          else if time_sub now (firstAt f) > window l then (drop, None, False)
          else (l, Some f, False))"

definition attempt_new ::
  "(ftable \<Rightarrow> ftable) \<Rightarrow> loginLimiter \<Rightarrow> string \<Rightarrow> time \<Rightarrow> loginLimiter \<times> bool" where
  "attempt_new ord l key now =
     (let insert = (\<lambda>l. (l\<lparr>attempts :=
              gm_set key \<lparr>cnt = 1, firstAt = now, lockedUntil = zero_time\<rparr> (attempts l)\<rparr>, True))
      in if length (attempts l) \<ge> maxLimiterEntries then
           let l = purgeAttempts l now;
               l = (if length (attempts l) \<ge> maxLimiterEntries
                    then (case evictable (ord (attempts l)) of
                            Some k \<Rightarrow> l\<lparr>attempts := gm_del k (attempts l)\<rparr>
                          | None \<Rightarrow> l)
                    else l)
           in if length (attempts l) \<ge> maxLimiterEntries then overflowAllow l now else insert l
         else insert l)"

definition allowAttempt ::
  "(ftable \<Rightarrow> ftable) \<Rightarrow> loginLimiter \<Rightarrow> string \<Rightarrow> time \<Rightarrow> loginLimiter \<times> bool" where
  "allowAttempt ord l key now =
     (case attempt_entry l key now of
        (l, e, refused) \<Rightarrow>
          if refused then (l, False)
          else (case e of
                  None \<Rightarrow> attempt_new ord l key now
                | Some f \<Rightarrow>
                    if cnt f \<ge> lim_max l
                    then (l\<lparr>attempts := gm_set key (f\<lparr>lockedUntil := time_add now (lockout l)\<rparr>) (attempts l)\<rparr>, False)
                    else (l\<lparr>attempts := gm_set key (f\<lparr>cnt := cnt f + 1\<rparr>) (attempts l)\<rparr>, True)))"

definition limiter_success :: "loginLimiter \<Rightarrow> string \<Rightarrow> loginLimiter" where
  "limiter_success l key = l\<lparr>failures := gm_del key (failures l)\<rparr>"

section \<open>Keys collapse to one /64\<close>

lemma limiterKey_same_64:
  assumes "parse k1 = Some (V6 w1 z1)" "parse k2 = Some (V6 w2 z2)"
    and "drop_bit 64 w1 = drop_bit 64 w2"
    and "drop_bit 32 w1 \<noteq> 0xFFFF" "drop_bit 32 w2 \<noteq> 0xFFFF"
  shows "limiterKey parse sa sp k1 = limiterKey parse sa sp k2"
  using assms by (simp add: limiterKey_def unmap_def prefix64_def)

section \<open>Bounds on the tables\<close>

definition limiter_inv :: "loginLimiter \<Rightarrow> bool" where
  "limiter_inv l \<longleftrightarrow> gm_wf (failures l) \<and> gm_wf (attempts l) \<and>
     length (failures l) \<le> maxLimiterEntries \<and> length (attempts l) \<le> maxLimiterEntries"

definition arrangement :: "(ftable \<Rightarrow> ftable) \<Rightarrow> bool" where
  "arrangement ord \<longleftrightarrow> (\<forall>m. set (ord m) = set m)"

lemma evictable_SomeD:
  assumes "arrangement ord" "evictable (ord fs) = Some k"
  shows "\<exists>f. (k, f) \<in> set fs \<and> is_zero (lockedUntil f)"
proof -
  from assms(2) obtain f where "find (\<lambda>(k, f). is_zero (lockedUntil f)) (ord fs) = Some (k, f)"
    by (auto simp: evictable_def)
  then have "(k, f) \<in> set (ord fs) \<and> is_zero (lockedUntil f)"
    by (auto simp: find_Some_iff in_set_conv_nth)
  with assms(1) show ?thesis by (auto simp: arrangement_def)
qed

lemma evictable_None_iff:
  "arrangement ord \<Longrightarrow> evictable (ord fs) = None \<longleftrightarrow> (\<forall>(k, f) \<in> set fs. \<not> is_zero (lockedUntil f))"
  by (auto simp: evictable_def find_None_iff arrangement_def)

lemma evict_shorter:
  assumes "arrangement ord" "evictable (ord fs) = Some k"
  shows "length (gm_del k fs) < length fs"
  using evictable_SomeD [OF assms] by (intro length_gm_del_less) force

lemma limiter_inv_set_failures:
  "limiter_inv l \<Longrightarrow> length (failures l) < maxLimiterEntries \<or> gm_get (failures l) k \<noteq> None \<Longrightarrow>
   limiter_inv (l\<lparr>failures := gm_set k f (failures l)\<rparr>)"
  by (auto simp: limiter_inv_def length_gm_set)

lemma limiter_inv_set_attempts:
  "limiter_inv l \<Longrightarrow> length (attempts l) < maxLimiterEntries \<or> gm_get (attempts l) k \<noteq> None \<Longrightarrow>
   limiter_inv (l\<lparr>attempts := gm_set k f (attempts l)\<rparr>)"
  by (auto simp: limiter_inv_def length_gm_set)

lemma limiter_inv_del:
  "limiter_inv l \<Longrightarrow> limiter_inv (l\<lparr>failures := gm_del k (failures l)\<rparr>)"
  "limiter_inv l \<Longrightarrow> limiter_inv (l\<lparr>attempts := gm_del k (attempts l)\<rparr>)"
  using length_gm_del [of k "failures l"] length_gm_del [of k "attempts l"]
  by (auto simp: limiter_inv_def)

lemma limiter_inv_keep:
  "limiter_inv l \<Longrightarrow> limiter_inv (l\<lparr>failures := gm_keep P (failures l)\<rparr>)"
  "limiter_inv l \<Longrightarrow> limiter_inv (l\<lparr>attempts := gm_keep P (attempts l)\<rparr>)"
  using length_gm_keep [of P "failures l"] length_gm_keep [of P "attempts l"]
  by (auto simp: limiter_inv_def)

lemma limiter_inv_overflow: "limiter_inv (l\<lparr>overflow := x\<rparr>) = limiter_inv l"
  by (simp add: limiter_inv_def)

lemmas limiter_inv_writes =
  limiter_inv_set_failures limiter_inv_set_attempts limiter_inv_del limiter_inv_keep

lemma limiter_inv_overflowAllow: "limiter_inv l \<Longrightarrow> limiter_inv (fst (overflowAllow l now))"
  by (simp add: overflowAllow_def Let_def limiter_inv_overflow)

lemma limiter_inv_purge: "limiter_inv l \<Longrightarrow> limiter_inv (purge l now)"
  by (simp add: purge_def limiter_inv_writes)

lemma limiter_inv_purgeAttempts: "limiter_inv l \<Longrightarrow> limiter_inv (purgeAttempts l now)"
  by (simp add: purgeAttempts_def limiter_inv_writes)

lemma limiter_inv_new: "limiter_inv (newLoginLimiter mx w lk)"
  by (simp add: limiter_inv_def newLoginLimiter_def)

lemma limiter_inv_recordFailure:
  assumes "limiter_inv l" "arrangement ord"
  shows "limiter_inv (fst (recordFailure ord l key now))"
proof (cases "gm_get (failures l) key")
  case None
  let ?p = "purge l now"
  have p: "limiter_inv ?p" using assms(1) by (rule limiter_inv_purge)
  show ?thesis
  proof (cases "length (failures ?p) \<ge> maxLimiterEntries")
    case True
    show ?thesis
    proof (cases "evictable (ord (failures ?p))")
      case (Some k)
      have "length (gm_del k (failures ?p)) < maxLimiterEntries"
        using evict_shorter [OF assms(2) Some] p by (simp add: limiter_inv_def)
      with None True Some p assms(1) show ?thesis
        by (auto simp: recordFailure_def Let_def not_le intro!: limiter_inv_set_failures
            limiter_inv_set_failures [where l = "?p\<lparr>failures := gm_del k (failures ?p)\<rparr>", simplified]
            limiter_inv_del)
    next
      case none: None
      with None True p assms(1) show ?thesis
        by (auto simp: recordFailure_def Let_def not_le split_def intro!: limiter_inv_writes
            limiter_inv_overflowAllow)
    qed
  next
    case False
    with None p assms(1) show ?thesis
      by (auto simp: recordFailure_def Let_def not_le intro!: limiter_inv_writes)
  qed
next
  case (Some f)
  with assms show ?thesis
    by (auto simp: recordFailure_def Let_def intro!: limiter_inv_writes)
qed

lemma limiter_inv_attempt_new:
  assumes "limiter_inv l" "arrangement ord"
  shows "limiter_inv (fst (attempt_new ord l key now))"
proof -
  let ?p = "purgeAttempts l now"
  have p: "limiter_inv ?p" using assms(1) by (rule limiter_inv_purgeAttempts)
  have q: "limiter_inv (case evictable (ord (attempts ?p)) of
       Some k \<Rightarrow> ?p\<lparr>attempts := gm_del k (attempts ?p)\<rparr> | None \<Rightarrow> ?p)"
    using p by (auto split: option.splits intro: limiter_inv_del)
  show ?thesis
    using assms(1) p q
    by (auto simp: attempt_new_def Let_def not_le intro!: limiter_inv_set_attempts limiter_inv_overflowAllow)
qed

lemma limiter_inv_allowAttempt:
  assumes "limiter_inv l" "arrangement ord"
  shows "limiter_inv (fst (allowAttempt ord l key now))"
proof -
  obtain l' e b where e: "attempt_entry l key now = (l', e, b)" by (cases "attempt_entry l key now") auto
  with assms(1) have inv: "limiter_inv l'" and here: "e \<noteq> None \<Longrightarrow> gm_get (attempts l') key \<noteq> None"
    by (auto simp: attempt_entry_def Let_def split: option.splits if_splits intro: limiter_inv_del)
  show ?thesis
    using inv here assms(2)
    by (auto simp: allowAttempt_def e split: option.splits
        intro!: limiter_inv_attempt_new limiter_inv_set_attempts)
qed

lemma limiter_inv_locked: "limiter_inv l \<Longrightarrow> limiter_inv (fst (locked l key now))"
  by (auto simp: locked_def split: option.splits intro: limiter_inv_del)

lemma limiter_inv_success: "limiter_inv l \<Longrightarrow> limiter_inv (limiter_success l key)"
  by (simp add: limiter_success_def limiter_inv_del)

lemmas limiter_inv_ops =
  limiter_inv_new limiter_inv_recordFailure limiter_inv_allowAttempt limiter_inv_locked limiter_inv_success

section \<open>Active lockouts survive\<close>

lemma get_purge:
  "gm_wf (failures l) \<Longrightarrow> gm_get (failures (purge l now)) k =
     (case gm_get (failures l) k of None \<Rightarrow> None | Some f \<Rightarrow> if stale (window l) now f then None else Some f)"
  by (simp add: purge_def gm_get_keep split: option.split)

lemma get_purgeAttempts:
  "gm_wf (attempts l) \<Longrightarrow> gm_get (attempts (purgeAttempts l now)) k =
     (case gm_get (attempts l) k of None \<Rightarrow> None | Some f \<Rightarrow> if stale (window l) now f then None else Some f)"
  by (simp add: purgeAttempts_def gm_get_keep split: option.split)

lemma overflowAllow_tables [simp]:
  "failures (fst (overflowAllow l now)) = failures l" "attempts (fst (overflowAllow l now)) = attempts l"
  by (simp_all add: overflowAllow_def Let_def)

lemma evictable_not_locked:
  assumes "arrangement ord" "gm_wf fs" "gm_get fs k = Some f" "\<not> is_zero (lockedUntil f)"
    "evictable (ord fs) = Some k'"
  shows "k' \<noteq> k"
  using evictable_SomeD [OF assms(1,5)] assms(2-4) by (auto simp: gm_mem_iff)

lemma recordFailure_keeps_lockout:
  assumes "limiter_inv l" "arrangement ord" "gm_get (failures l) k = Some f"
    "0 \<le> now" "now < lockedUntil f"
  shows "gm_get (failures (fst (recordFailure ord l key now))) k = Some f"
proof -
  let ?p = "purge l now"
  have wf: "gm_wf (failures l)" "gm_wf (failures ?p)"
    using assms(1) by (auto simp: limiter_inv_def purge_def)
  have nz: "\<not> is_zero (lockedUntil f)" using assms(4,5) by (simp add: is_zero_def zero_time_def)
  with assms(3,5) wf have pk: "gm_get (failures ?p) k = Some f" by (simp add: get_purge stale_def)
  note keep = evictable_not_locked [OF assms(2) wf(2) pk nz]
  show ?thesis
    using assms(3,5) pk keep
    by (cases "gm_get (failures l) key")
      (auto simp: recordFailure_def Let_def split_def split: option.split)
qed

lemma allowAttempt_keeps_lockout:
  assumes "limiter_inv l" "arrangement ord" "gm_get (attempts l) k = Some f"
    "0 \<le> now" "now < lockedUntil f"
  shows "gm_get (attempts (fst (allowAttempt ord l key now))) k = Some f"
proof -
  have nz: "\<not> is_zero (lockedUntil f)" using assms(4,5) by (simp add: is_zero_def zero_time_def)
  obtain l' e b where e: "attempt_entry l key now = (l', e, b)" by (cases "attempt_entry l key now") auto
  have inv: "limiter_inv l'"
    using e assms(1) by (auto simp: attempt_entry_def Let_def split: option.splits if_splits intro: limiter_inv_del)
  have k: "gm_get (attempts l') k = Some f" and kk: "key = k \<Longrightarrow> b"
    using e assms(3,5) nz by (auto simp: attempt_entry_def Let_def split: option.splits if_splits)
  let ?p = "purgeAttempts l' now"
  have wf: "gm_wf (attempts l')" "gm_wf (attempts ?p)"
    using inv by (auto simp: limiter_inv_def purgeAttempts_def)
  have pk: "gm_get (attempts ?p) k = Some f"
    using k wf assms(5) nz by (simp add: get_purgeAttempts stale_def)
  note keep = evictable_not_locked [OF assms(2) wf(2) pk nz]
  have new: "key \<noteq> k \<Longrightarrow> gm_get (attempts (fst (attempt_new ord l' key now))) k = Some f"
    using k pk keep by (auto simp: attempt_new_def Let_def split: option.split)
  show ?thesis
    using k kk new by (auto simp: allowAttempt_def e split: option.split)
qed

section \<open>Budgets and streaks\<close>

fun allow_run :: "(ftable \<Rightarrow> ftable) \<Rightarrow> loginLimiter \<Rightarrow> string \<Rightarrow> time list \<Rightarrow> bool list" where
  "allow_run ord l key [] = []"
| "allow_run ord l key (t # ts) =
     (case allowAttempt ord l key t of (l', b) \<Rightarrow> b # allow_run ord l' key ts)"

fun fail_run :: "(ftable \<Rightarrow> ftable) \<Rightarrow> loginLimiter \<Rightarrow> string \<Rightarrow> time list \<Rightarrow> bool list" where
  "fail_run ord l key [] = []"
| "fail_run ord l key (t # ts) =
     (case recordFailure ord l key t of (l', b) \<Rightarrow> b # fail_run ord l' key ts)"

text \<open>All calls of a burst fall into the counting window that its first call opens.\<close>

definition in_window :: "time \<Rightarrow> duration \<Rightarrow> time list \<Rightarrow> bool" where
  "in_window t0 w ts \<longleftrightarrow> sorted ts \<and> (\<forall>t \<in> set ts. t0 \<le> t \<and> t < t0 + w)"

lemma in_window_Cons: "in_window t0 w (t # ts) \<Longrightarrow>
  t0 \<le> t \<and> t < t0 + w \<and> in_window t0 w ts \<and> (\<forall>u \<in> set ts. t \<le> u)"
  by (auto simp: in_window_def)

lemma in_window_sub:
  "t0 \<le> t \<Longrightarrow> t < t0 + w \<Longrightarrow> w \<le> max_duration \<Longrightarrow> \<not> time_sub t t0 > w"
  by (simp add: time_sub_exact)

lemma allow_run_locked:
  assumes "gm_get (attempts l) key = Some f" "\<forall>t \<in> set ts. t < lockedUntil f" "lockedUntil f \<noteq> 0"
  shows "allow_run ord l key ts = replicate (length ts) False"
  using assms
  by (induction ts) (auto simp: allowAttempt_def attempt_entry_def is_zero_def zero_time_def)

lemma allow_run_counting:
  assumes "gm_get (attempts l) key = Some \<lparr>cnt = c, firstAt = t0, lockedUntil = zero_time\<rparr>"
    "in_window t0 (window l) ts" "0 < t0" "window l \<le> lockout l" "window l \<le> max_duration"
    "c \<le> lim_max l"
  shows "allow_run ord l key ts = map (\<lambda>n. c + int n < lim_max l) [0..<length ts]"
  using assms
proof (induction ts arbitrary: l c)
  case Nil
  then show ?case by simp
next
  case (Cons t ts)
  note w = in_window_Cons [OF Cons.prems(2)]
  have ns: "\<not> time_sub t t0 > window l" using in_window_sub [of t0 t "window l"] w Cons.prems(5) by simp
  have entry: "attempt_entry l key t = (l, Some \<lparr>cnt = c, firstAt = t0, lockedUntil = zero_time\<rparr>, False)"
    using Cons.prems(1) ns by (simp add: attempt_entry_def is_zero_def)
  show ?case
  proof (cases "c \<ge> lim_max l")
    case True
    let ?f = "\<lparr>cnt = c, firstAt = t0, lockedUntil = time_add t (lockout l)\<rparr>"
    have "allow_run ord (l\<lparr>attempts := gm_set key ?f (attempts l)\<rparr>) key ts = replicate (length ts) False"
      using w Cons.prems(2-4) by (intro allow_run_locked [where f = ?f]) (auto simp: time_add_def in_window_def)
    with True show ?thesis
      by (simp add: allowAttempt_def entry upt_Suc_map map_replicate_const comp_def del: upt_Suc)
  next
    case False
    let ?l = "l\<lparr>attempts := gm_set key \<lparr>cnt = c + 1, firstAt = t0, lockedUntil = zero_time\<rparr> (attempts l)\<rparr>"
    have "allow_run ord ?l key ts = map (\<lambda>n. (c + 1) + int n < lim_max ?l) [0..<length ts]"
      using False w Cons.prems by (intro Cons.IH) auto
    with False show ?thesis
      by (simp add: allowAttempt_def entry upt_Suc_map comp_def algebra_simps del: upt_Suc)
  qed
qed

lemma allow_run_fresh:
  assumes "gm_get (attempts l) key = None" "length (attempts l) < maxLimiterEntries"
    "in_window t0 (window l) ts" "0 < t0" "window l \<le> lockout l" "window l \<le> max_duration"
    "0 < lim_max l"
  shows "allow_run ord l key (t0 # ts) = map (\<lambda>n. int n < lim_max l) [0..<Suc (length ts)]"
proof -
  let ?l = "l\<lparr>attempts := gm_set key \<lparr>cnt = 1, firstAt = t0, lockedUntil = zero_time\<rparr> (attempts l)\<rparr>"
  have "allowAttempt ord l key t0 = (?l, True)"
    using assms(1,2) by (simp add: allowAttempt_def attempt_entry_def attempt_new_def Let_def)
  moreover have "allow_run ord ?l key ts = map (\<lambda>n. 1 + int n < lim_max ?l) [0..<length ts]"
    using assms by (intro allow_run_counting) auto
  moreover note upt_Suc_map [of "length ts"]
  ultimately show ?thesis using assms(7) by (simp add: comp_def algebra_simps del: upt_Suc)
qed

lemma fail_run_locked:
  assumes "gm_get (failures l) key = Some f" "\<forall>t \<in> set ts. t < lockedUntil f"
  shows "fail_run ord l key ts = replicate (length ts) True"
  using assms by (induction ts) (auto simp: recordFailure_def Let_def)

lemma fail_run_counting:
  assumes "gm_get (failures l) key = Some \<lparr>cnt = c, firstAt = t0, lockedUntil = zero_time\<rparr>"
    "in_window t0 (window l) ts" "0 < t0" "window l \<le> lockout l" "window l \<le> max_duration"
  shows "fail_run ord l key ts = map (\<lambda>n. c + 1 + int n \<ge> lim_max l) [0..<length ts]"
  using assms
proof (induction ts arbitrary: l c)
  case Nil
  then show ?case by simp
next
  case (Cons t ts)
  note w = in_window_Cons [OF Cons.prems(2)]
  have ns: "\<not> time_sub t t0 > window l" "\<not> t < zero_time"
    using w Cons.prems(3,5) in_window_sub by (auto simp: zero_time_def)
  show ?case
  proof (cases "c + 1 \<ge> lim_max l")
    case True
    let ?f = "\<lparr>cnt = c + 1, firstAt = t0, lockedUntil = time_add t (lockout l)\<rparr>"
    have "fail_run ord (l\<lparr>failures := gm_set key ?f (failures l)\<rparr>) key ts = replicate (length ts) True"
      using w Cons.prems(2-4) by (intro fail_run_locked [where f = ?f]) (auto simp: time_add_def in_window_def)
    moreover have "\<forall>n. lim_max l \<le> c + 1 + (1 + int n)" using True by simp
    ultimately show ?thesis using True Cons.prems(1) ns
      by (simp add: recordFailure_def Let_def upt_Suc_map map_replicate_const comp_def del: upt_Suc)
  next
    case False
    let ?l = "l\<lparr>failures := gm_set key \<lparr>cnt = c + 1, firstAt = t0, lockedUntil = zero_time\<rparr> (failures l)\<rparr>"
    have "fail_run ord ?l key ts = map (\<lambda>n. (c + 1) + 1 + int n \<ge> lim_max ?l) [0..<length ts]"
      using False w Cons.prems by (intro Cons.IH) auto
    with False Cons.prems(1) ns show ?thesis
      by (simp add: recordFailure_def Let_def upt_Suc_map comp_def algebra_simps del: upt_Suc)
  qed
qed

lemma fail_run_fresh:
  assumes "gm_get (failures l) key = None" "length (failures l) < maxLimiterEntries"
    "in_window t0 (window l) ts" "0 < t0" "window l \<le> lockout l" "window l \<le> max_duration"
  shows "fail_run ord l key (t0 # ts) =
           map (\<lambda>n. n \<ge> 1 \<and> int (Suc n) \<ge> lim_max l) [0..<Suc (length ts)]"
proof -
  let ?l = "l\<lparr>failures := gm_set key \<lparr>cnt = 1, firstAt = t0, lockedUntil = zero_time\<rparr> (failures l)\<rparr>"
  have "recordFailure ord l key t0 = (?l, False)"
    using assms(1,2) by (simp add: recordFailure_def Let_def)
  moreover have "fail_run ord ?l key ts = map (\<lambda>n. 1 + 1 + int n \<ge> lim_max ?l) [0..<length ts]"
    using assms by (intro fail_run_counting) auto
  moreover note upt_Suc_map [of "length ts"]
  ultimately show ?thesis by (simp add: comp_def algebra_simps del: upt_Suc)
qed

end
