(* ===== verification/Plans.thy ===== *)
theory Plans
  imports Prelude
begin

text \<open>
  The plan catalogue and the monthly request counters of \<open>internal/store/plans.go\<close> and
  \<open>internal/store/usage_counters.go\<close>. The tables the statements touch are Go-map shaped
  (primary key to row); \<open>count(*)\<close> of a tenant table needs only the \<open>account_id\<close> column
  of its rows. A database error is an input: \<open>flt n\<close> says that statement number \<open>n\<close> of
  the operation (its \<open>BEGIN\<close> and \<open>COMMIT\<close> included) fails.
\<close>

section \<open>Tables\<close>

record plan =
  p_name :: string
  max_providers :: int
  max_client_keys :: int
  max_virtual_models :: int
  max_concurrent_streams :: int
  activity_retention_days :: int
  monthly_requests :: int
  p_updatedAt :: string

record db =
  plans :: "(string, plan) gomap"
  accounts :: "(string, string) gomap"
  usage_counters :: "(string \<times> string, int) gomap"
  providers :: "string list"
  client_keys :: "string list"
  virtual_models :: "string list"

definition Unlimited :: int where
  "Unlimited = -1"

definition DefaultPlan :: string where
  "DefaultPlan = ''free''"

datatype store_err =
    ErrPlanNotFound
  | ErrInvalidLimits
  | ErrInvalidPlanName
  | ErrPlanExists
  | ErrPlanReserved
  | PlanInUseError string int
  | LimitExceededError string int int
  | ErrNoRows
  | DbError

type_synonym faults = "nat \<Rightarrow> bool"

section \<open>Validation\<close>

definition slug_start :: "char \<Rightarrow> bool" where
  "slug_start c \<longleftrightarrow> c \<in> set ''abcdefghijklmnopqrstuvwxyz0123456789''"

definition slug_char :: "char \<Rightarrow> bool" where
  "slug_char c \<longleftrightarrow> slug_start c \<or> c = CHR ''_'' \<or> c = CHR ''-''"

text \<open>The pattern \<open>^[a-z0-9][a-z0-9_-]{0,63}$\<close>.\<close>

definition validPlanName :: "string \<Rightarrow> bool" where
  "validPlanName name =
     (case name of [] \<Rightarrow> False
      | c # cs \<Rightarrow> slug_start c \<and> list_all slug_char cs \<and> length cs \<le> 63)"

definition validatePlanLimits :: "plan \<Rightarrow> bool" where
  "validatePlanLimits p \<longleftrightarrow>
     list_all (\<lambda>v. \<not> v < Unlimited)
       [max_providers p, max_client_keys p, max_virtual_models p, max_concurrent_streams p,
        activity_retention_days p, monthly_requests p]"

section \<open>The catalogue\<close>

definition EntitlementsForAccount :: "faults \<Rightarrow> db \<Rightarrow> string \<Rightarrow> store_err + plan" where
  "EntitlementsForAccount flt d accountID =
     (if flt 0 then Inl DbError
      else case gm_get (accounts d) accountID of
          None \<Rightarrow> Inl ErrPlanNotFound
        | Some pl \<Rightarrow> (case gm_get (plans d) pl of None \<Rightarrow> Inl ErrPlanNotFound | Some p \<Rightarrow> Inr p))"

definition CreatePlan :: "faults \<Rightarrow> string \<Rightarrow> db \<Rightarrow> plan \<Rightarrow> db \<times> (store_err + unit)" where
  "CreatePlan flt ts d p =
     (if \<not> validPlanName (p_name p) then (d, Inl ErrInvalidPlanName)
      else if \<not> validatePlanLimits p then (d, Inl ErrInvalidLimits)
      else if flt 0 then (d, Inl DbError)
      else if gm_get (plans d) (p_name p) \<noteq> None then (d, Inl ErrPlanExists)
      else if flt 1 then (d, Inl DbError)
      else (d\<lparr>plans := gm_set (p_name p) (p\<lparr>p_updatedAt := ts\<rparr>) (plans d)\<rparr>, Inr ()))"

definition UpdatePlan :: "faults \<Rightarrow> string \<Rightarrow> db \<Rightarrow> plan \<Rightarrow> db \<times> (store_err + unit)" where
  "UpdatePlan flt ts d p =
     (if \<not> validatePlanLimits p then (d, Inl ErrInvalidLimits)
      else if flt 0 then (d, Inl DbError)
      else if gm_get (plans d) (p_name p) = None then (d, Inl ErrPlanNotFound)
      else (d\<lparr>plans := gm_set (p_name p) (p\<lparr>p_updatedAt := ts\<rparr>) (plans d)\<rparr>, Inr ()))"

text \<open>Every row of \<open>accounts\<close> on the old plan is pointed at the new one.\<close>

definition repoint :: "string \<Rightarrow> string \<Rightarrow> (string, string) gomap \<Rightarrow> (string, string) gomap" where
  "repoint old new m = map (\<lambda>(a, pl). (a, if pl = old then new else pl)) m"

definition RenamePlan :: "faults \<Rightarrow> string \<Rightarrow> db \<Rightarrow> string \<Rightarrow> plan \<Rightarrow> db \<times> (store_err + unit)" where
  "RenamePlan flt ts d oldName p =
     (if oldName = DefaultPlan then (d, Inl ErrPlanReserved)
      else if \<not> validPlanName (p_name p) then (d, Inl ErrInvalidPlanName)
      else if \<not> validatePlanLimits p then (d, Inl ErrInvalidLimits)
      else if p_name p = oldName then UpdatePlan flt ts d p
      else if flt 0 then (d, Inl DbError)
      else if flt 1 then (d, Inl DbError)
      else if gm_get (plans d) oldName = None then (d, Inl ErrPlanNotFound)
      else if flt 2 then (d, Inl DbError)
      else if gm_get (plans d) (p_name p) \<noteq> None then (d, Inl ErrPlanExists)
      else if flt 3 then (d, Inl DbError)
      else let d1 = d\<lparr>plans := gm_set (p_name p) (p\<lparr>p_updatedAt := ts\<rparr>) (plans d)\<rparr> in
           if flt 4 then (d, Inl DbError)
           else let d2 = d1\<lparr>accounts := repoint oldName (p_name p) (accounts d1)\<rparr> in
                if flt 5 then (d, Inl DbError)
                else let d3 = d2\<lparr>plans := gm_del oldName (plans d2)\<rparr> in
                     if flt 6 then (d, Inl DbError) else (d3, Inr ()))"

definition plan_users :: "db \<Rightarrow> string \<Rightarrow> int" where
  "plan_users d name = int (length (filter (\<lambda>(a, pl). pl = name) (accounts d)))"

definition DeletePlan :: "faults \<Rightarrow> db \<Rightarrow> string \<Rightarrow> db \<times> (store_err + unit)" where
  "DeletePlan flt d name =
     (if name = [] then (d, Inl ErrPlanNotFound)
      else if name = DefaultPlan then (d, Inl ErrPlanReserved)
      else if flt 0 then (d, Inl DbError)
      else if gm_get (plans d) name = None then (d, Inl ErrPlanNotFound)
      else if flt 1 then (d, Inl DbError)
      else if plan_users d name > 0 then (d, Inl (PlanInUseError name (plan_users d name)))
      else if flt 2 then (d, Inl DbError)
      else (d\<lparr>plans := gm_del name (plans d)\<rparr>, Inr ()))"

definition SetAccountPlan :: "faults \<Rightarrow> db \<Rightarrow> string \<Rightarrow> string \<Rightarrow> db \<times> (store_err + unit)" where
  "SetAccountPlan flt d accountID plan =
     (if flt 0 then (d, Inl DbError)
      else if gm_get (plans d) plan = None then (d, Inl ErrPlanNotFound)
      else if flt 1 then (d, Inl DbError)
      else if gm_get (accounts d) accountID = None then (d, Inl ErrNoRows)
      else (d\<lparr>accounts := gm_set accountID plan (accounts d)\<rparr>, Inr ()))"

section \<open>Limits on tenant resources\<close>

definition row_count :: "string list \<Rightarrow> string \<Rightarrow> int" where
  "row_count rows accountID = int (length (filter (\<lambda>a. a = accountID) rows))"

definition checkCreateLimit ::
  "faults \<Rightarrow> string list \<Rightarrow> string \<Rightarrow> string \<Rightarrow> int \<Rightarrow> store_err + unit" where
  "checkCreateLimit flt rows accountID kind limit =
     (if limit = Unlimited then Inr ()
      else if flt 1 then Inl DbError
      else let count = row_count rows accountID in
           if count \<ge> limit then Inl (LimitExceededError kind limit count) else Inr ())"

text \<open>A missing plan row falls back to unlimited.\<close>

definition planForAccount :: "faults \<Rightarrow> db \<Rightarrow> string \<Rightarrow> store_err + (int \<times> int \<times> int)" where
  "planForAccount flt d accountID =
     (if flt 0 then Inl DbError
      else case Option.bind (gm_get (accounts d) accountID) (gm_get (plans d)) of
          None \<Rightarrow> Inr (Unlimited, Unlimited, Unlimited)
        | Some p \<Rightarrow> Inr (max_providers p, max_client_keys p, max_virtual_models p))"

definition EnforceProviderLimit :: "faults \<Rightarrow> db \<Rightarrow> string \<Rightarrow> store_err + unit" where
  "EnforceProviderLimit flt d a =
     (case planForAccount flt d a of Inl e \<Rightarrow> Inl e
      | Inr (mp, mk, mv) \<Rightarrow> checkCreateLimit flt (providers d) a ''providers'' mp)"

definition EnforceClientKeyLimit :: "faults \<Rightarrow> db \<Rightarrow> string \<Rightarrow> store_err + unit" where
  "EnforceClientKeyLimit flt d a =
     (case planForAccount flt d a of Inl e \<Rightarrow> Inl e
      | Inr (mp, mk, mv) \<Rightarrow> checkCreateLimit flt (client_keys d) a ''client_keys'' mk)"

definition EnforceVirtualModelLimit :: "faults \<Rightarrow> db \<Rightarrow> string \<Rightarrow> store_err + unit" where
  "EnforceVirtualModelLimit flt d a =
     (case planForAccount flt d a of Inl e \<Rightarrow> Inl e
      | Inr (mp, mk, mv) \<Rightarrow> checkCreateLimit flt (virtual_models d) a ''virtual_models'' mv)"

definition EffectiveRetentionDays :: "int \<Rightarrow> int \<Rightarrow> int" where
  "EffectiveRetentionDays configured planMax =
     (if planMax = Unlimited \<or> planMax \<le> 0 then configured
      else if configured \<le> 0 then planMax
      else if configured < planMax then configured
      else planMax)"

definition ResourceCounts :: "db \<Rightarrow> string \<Rightarrow> int \<times> int \<times> int" where
  "ResourceCounts d a = (row_count (providers d) a, row_count (client_keys d) a, row_count (virtual_models d) a)"

section \<open>Monthly counters\<close>

definition IncrementUsageCounter :: "faults \<Rightarrow> db \<Rightarrow> string \<Rightarrow> string \<Rightarrow> db \<times> (store_err + unit)" where
  "IncrementUsageCounter flt d a period =
     (if flt 0 then (d, Inl DbError)
      else (d\<lparr>usage_counters := gm_set (a, period)
               (gm_get0 0 (usage_counters d) (a, period) + 1) (usage_counters d)\<rparr>, Inr ()))"

text \<open>
  Insert a zero row unless one exists, then increment it only while it is below the limit;
  one transaction, so a failing statement leaves the tables as they were.
\<close>

definition ReserveUsageCounter ::
  "faults \<Rightarrow> db \<Rightarrow> string \<Rightarrow> string \<Rightarrow> int \<Rightarrow> db \<times> (store_err + bool)" where
  "ReserveUsageCounter flt d a period limit =
     (if limit = Unlimited then (d, Inr True)
      else if limit < 0 then (d, Inr False)
      else if flt 0 \<or> flt 1 then (d, Inl DbError)
      else let d1 = (if gm_get (usage_counters d) (a, period) = None
                     then d\<lparr>usage_counters := gm_set (a, period) 0 (usage_counters d)\<rparr> else d);
               reserved = gm_get0 0 (usage_counters d1) (a, period) < limit;
               d2 = (if reserved
                     then d1\<lparr>usage_counters := gm_set (a, period)
                            (gm_get0 0 (usage_counters d1) (a, period) + 1) (usage_counters d1)\<rparr>
                     else d1)
           in if flt 2 \<or> flt 3 then (d, Inl DbError) else (d2, Inr reserved))"

definition UsageCount :: "faults \<Rightarrow> db \<Rightarrow> string \<Rightarrow> string \<Rightarrow> store_err + int" where
  "UsageCount flt d a period =
     (if flt 0 then Inl DbError
      else case gm_get (usage_counters d) (a, period) of None \<Rightarrow> Inr 0 | Some n \<Rightarrow> Inr n)"

section \<open>Integrity of the catalogue\<close>

text \<open>
  What the schema and the operations keep: primary keys, the foreign key from accounts to
  plans, the reserved default plan, caps of at least \<open>-1\<close> and non-negative counters.
\<close>

definition plans_inv :: "db \<Rightarrow> bool" where
  "plans_inv d \<longleftrightarrow>
     gm_wf (plans d) \<and> gm_wf (accounts d) \<and> gm_wf (usage_counters d) \<and>
     gm_get (plans d) DefaultPlan \<noteq> None \<and>
     (\<forall>a pl. gm_get (accounts d) a = Some pl \<longrightarrow> gm_get (plans d) pl \<noteq> None) \<and>
     (\<forall>n p. gm_get (plans d) n = Some p \<longrightarrow> p_name p = n \<and> validatePlanLimits p) \<and>
     (\<forall>k c. gm_get (usage_counters d) k = Some c \<longrightarrow> 0 \<le> c)"

lemma validatePlanLimits_ts [simp]: "validatePlanLimits (p\<lparr>p_updatedAt := ts\<rparr>) = validatePlanLimits p"
  by (simp add: validatePlanLimits_def)

lemma get_repoint:
  "gm_get (repoint old new m) a = map_option (\<lambda>pl. if pl = old then new else pl) (gm_get m a)"
  by (induction m) (auto simp: repoint_def)

lemma gm_wf_repoint [simp]: "gm_wf (repoint old new m) = gm_wf m"
  by (simp add: repoint_def gm_wf_def comp_def split_def)

lemma plan_users_pos: "gm_get (accounts d) a = Some n \<Longrightarrow> 0 < plan_users d n"
  by (auto simp: plan_users_def filter_empty_conv dest!: gm_get_SomeD)

datatype plan_op =
    OpCreate string plan
  | OpUpdate string plan
  | OpRename string string plan
  | OpDelete string
  | OpAssign string string
  | OpIncrement string string
  | OpReserve string string int

fun plan_apply :: "faults \<Rightarrow> plan_op \<Rightarrow> db \<Rightarrow> db" where
  "plan_apply flt (OpCreate ts p) d = fst (CreatePlan flt ts d p)"
| "plan_apply flt (OpUpdate ts p) d = fst (UpdatePlan flt ts d p)"
| "plan_apply flt (OpRename ts old p) d = fst (RenamePlan flt ts d old p)"
| "plan_apply flt (OpDelete n) d = fst (DeletePlan flt d n)"
| "plan_apply flt (OpAssign a n) d = fst (SetAccountPlan flt d a n)"
| "plan_apply flt (OpIncrement a per) d = fst (IncrementUsageCounter flt d a per)"
| "plan_apply flt (OpReserve a per l) d = fst (ReserveUsageCounter flt d a per l)"

definition plan_run :: "(faults \<times> plan_op) list \<Rightarrow> db \<Rightarrow> db" where
  "plan_run ops d = fold (\<lambda>(flt, oper) d. plan_apply flt oper d) ops d"

lemma plans_inv_put_plan:
  "plans_inv d \<Longrightarrow> validatePlanLimits p \<Longrightarrow>
   plans_inv (d\<lparr>plans := gm_set (p_name p) (p\<lparr>p_updatedAt := ts\<rparr>) (plans d)\<rparr>)"
  by (auto simp: plans_inv_def)

lemma plans_inv_UpdatePlan: "plans_inv d \<Longrightarrow> plans_inv (fst (UpdatePlan flt ts d p))"
  by (simp add: UpdatePlan_def plans_inv_put_plan)

lemma plans_inv_CreatePlan: "plans_inv d \<Longrightarrow> plans_inv (fst (CreatePlan flt ts d p))"
  by (simp add: CreatePlan_def plans_inv_put_plan)

lemma plans_inv_moved:
  assumes "plans_inv d" "validatePlanLimits p" "old \<noteq> DefaultPlan" "p_name p \<noteq> old"
  shows "plans_inv (d\<lparr>plans := gm_del old (gm_set (p_name p) (p\<lparr>p_updatedAt := ts\<rparr>) (plans d)),
                     accounts := repoint old (p_name p) (accounts d)\<rparr>)"
proof -
  have "gm_get (repoint old (p_name p) (accounts d)) a = Some pl \<Longrightarrow>
      pl \<noteq> old \<and> (pl = p_name p \<or> gm_get (plans d) pl \<noteq> None)" for a pl
    using assms(1,4) by (auto simp: get_repoint plans_inv_def split: if_splits)
  with assms show ?thesis unfolding plans_inv_def by (simp, metis)
qed

lemma RenamePlan_cases:
  "RenamePlan flt ts d old p = UpdatePlan flt ts d p \<or>
   fst (RenamePlan flt ts d old p) = d \<or>
   old \<noteq> DefaultPlan \<and> p_name p \<noteq> old \<and> validatePlanLimits p \<and>
   fst (RenamePlan flt ts d old p) =
     d\<lparr>plans := gm_del old (gm_set (p_name p) (p\<lparr>p_updatedAt := ts\<rparr>) (plans d)),
       accounts := repoint old (p_name p) (accounts d)\<rparr>"
  by (simp add: RenamePlan_def Let_def)

lemma plans_inv_RenamePlan: "plans_inv d \<Longrightarrow> plans_inv (fst (RenamePlan flt ts d old p))"
  using RenamePlan_cases [of flt ts d old p] plans_inv_moved [of d p old ts] plans_inv_UpdatePlan [of d flt ts p]
  by metis

lemma plans_inv_DeletePlan: "plans_inv d \<Longrightarrow> plans_inv (fst (DeletePlan flt d n))"
  by (auto simp: DeletePlan_def plans_inv_def dest: plan_users_pos)

lemma plans_inv_SetAccountPlan: "plans_inv d \<Longrightarrow> plans_inv (fst (SetAccountPlan flt d a n))"
  by (auto simp: SetAccountPlan_def plans_inv_def)

lemma plans_inv_Increment: "plans_inv d \<Longrightarrow> plans_inv (fst (IncrementUsageCounter flt d a per))"
  by (auto simp: IncrementUsageCounter_def plans_inv_def gm_get0_def split: option.splits)

lemma plans_inv_Reserve: "plans_inv d \<Longrightarrow> plans_inv (fst (ReserveUsageCounter flt d a per l))"
  by (auto simp: ReserveUsageCounter_def Let_def plans_inv_def gm_get0_def split: option.splits)

lemmas plans_inv_ops =
  plans_inv_CreatePlan plans_inv_UpdatePlan plans_inv_RenamePlan plans_inv_DeletePlan
  plans_inv_SetAccountPlan plans_inv_Increment plans_inv_Reserve

lemma plans_inv_apply: "plans_inv d \<Longrightarrow> plans_inv (plan_apply flt oper d)"
  by (cases oper) (auto intro: plans_inv_ops)

lemma plans_inv_run: "plans_inv d \<Longrightarrow> plans_inv (plan_run ops d)"
  by (induction ops arbitrary: d) (auto simp: plan_run_def intro: plans_inv_apply)

lemma RenamePlan_ok:
  assumes "snd (RenamePlan flt ts d old p) = Inr ()" "p_name p \<noteq> old"
  shows "gm_get (plans (fst (RenamePlan flt ts d old p))) n =
           (if n = old then None
            else if n = p_name p then Some (p\<lparr>p_updatedAt := ts\<rparr>) else gm_get (plans d) n)"
    and "gm_get (accounts (fst (RenamePlan flt ts d old p))) a =
           map_option (\<lambda>pl. if pl = old then p_name p else pl) (gm_get (accounts d) a)"
  using assms by (auto simp: RenamePlan_def Let_def get_repoint split: if_splits)

lemma RenamePlan_error:
  "snd (RenamePlan flt ts d old p) = Inl e \<Longrightarrow> fst (RenamePlan flt ts d old p) = d"
  by (auto simp: RenamePlan_def UpdatePlan_def Let_def split: if_splits)

section \<open>The interface of a capped counter\<close>

locale capped_counter =
  fixes reserve :: "'f \<Rightarrow> 's \<Rightarrow> 'k \<Rightarrow> int \<Rightarrow> 's \<times> ('e + bool)"
    and count :: "'s \<Rightarrow> 'k \<Rightarrow> int"
  assumes reserve_error: "snd (reserve f s k l) = Inl e \<Longrightarrow> count (fst (reserve f s k l)) k' = count s k'"
    and reserve_refused: "snd (reserve f s k l) = Inr False \<Longrightarrow>
      count (fst (reserve f s k l)) k' = count s k' \<and> l \<le> count s k \<or> l < 0"
    and reserve_taken: "snd (reserve f s k l) = Inr True \<Longrightarrow> 0 \<le> l \<Longrightarrow>
      count s k < l \<and> count (fst (reserve f s k l)) k' = count s k' + (if k' = k then 1 else 0)"
begin

fun reserve_run :: "'s \<Rightarrow> 'k \<Rightarrow> int \<Rightarrow> 'f list \<Rightarrow> 's \<times> nat" where
  "reserve_run s k l [] = (s, 0)"
| "reserve_run s k l (f # fs) =
     (let (s1, r) = reserve f s k l; (s2, n) = reserve_run s1 k l fs
      in (s2, n + (if r = Inr True then 1 else 0)))"

lemma reserve_step_count:
  assumes "0 \<le> l"
  shows "count (fst (reserve f s k l)) k = count s k + (if snd (reserve f s k l) = Inr True then 1 else 0)"
proof (cases "snd (reserve f s k l)")
  case (Inl e)
  with reserve_error [OF Inl] show ?thesis by simp
next
  case (Inr b)
  with assms reserve_refused [of f s k l k] reserve_taken [of f s k l k] show ?thesis
    by (cases b) auto
qed

text \<open>However many requests race for it, the counter grows by the slots handed out and stops at the limit.\<close>

lemma reserve_run_count:
  assumes "0 \<le> l" "count s k \<le> l"
  shows "count (fst (reserve_run s k l fs)) k = count s k + int (snd (reserve_run s k l fs)) \<and>
         count (fst (reserve_run s k l fs)) k \<le> l"
  using assms
proof (induction fs arbitrary: s)
  case Nil
  then show ?case by simp
next
  case (Cons f fs)
  obtain s1 r where r: "reserve f s k l = (s1, r)" by (cases "reserve f s k l")
  have c: "count s1 k = count s k + (if r = Inr True then 1 else 0)"
    using reserve_step_count [OF Cons.prems(1), of f s k] r by simp
  have "count s1 k \<le> l"
    using c Cons.prems reserve_taken [of f s k l k] r by (auto split: if_splits)
  note IH = Cons.IH [OF Cons.prems(1) this]
  obtain s2 n where "reserve_run s1 k l fs = (s2, n)" by (cases "reserve_run s1 k l fs")
  with IH c r show ?case by simp
qed

end

definition usage_of :: "db \<Rightarrow> string \<times> string \<Rightarrow> int" where
  "usage_of d k = gm_get0 0 (usage_counters d) k"

definition reserve_slot :: "faults \<Rightarrow> db \<Rightarrow> string \<times> string \<Rightarrow> int \<Rightarrow> db \<times> (store_err + bool)" where
  "reserve_slot flt d k l = ReserveUsageCounter flt d (fst k) (snd k) l"

lemmas reserve_defs = reserve_slot_def ReserveUsageCounter_def usage_of_def Let_def gm_get0_def Unlimited_def

interpretation usage: capped_counter reserve_slot usage_of
  by unfold_locales (auto simp: reserve_defs split: if_splits option.splits)

end
