(* ===== verification/Tenants.thy ===== *)
theory Tenants
  imports Plans Cipher
begin

text \<open>
  The tenant tables of \<open>internal/database/migrations\<close> and the way \<open>internal/store\<close> reads and writes
  them. A table is a Go-map shaped list from primary key to row; a row is a record of its columns.
  A statement checks the constraints the schema declares (primary and unique keys, \<open>CHECK\<close>,
  foreign keys with their \<open>CASCADE\<close>, \<open>RESTRICT\<close> and \<open>SET NULL\<close> actions) and fails as a whole; \<open>RunTx\<close>
  makes a sequence of statements all or nothing. Timestamps are instants, not their text.
\<close>

section \<open>Rows\<close>

datatype kind = RealKind | VirtualKind

definition kind_of :: "string \<Rightarrow> kind option" where
  "kind_of s = (if s = ''real'' then Some RealKind else if s = ''virtual'' then Some VirtualKind else None)"

record ns_row =
  ns_kind :: kind
  ns_entity :: string

record provider_row =
  pv_account :: string
  pv_name :: string
  pv_type :: string
  pv_base_url :: string
  pv_credential :: "string option"
  pv_enabled :: bool
  pv_protocols :: string
  pv_last_refresh :: "time option"
  pv_next_refresh :: "time option"
  pv_refresh_error :: "string option"
  pv_created :: time
  pv_updated :: time

record model_row =
  pm_account :: string
  pm_provider :: string
  pm_upstream :: string
  pm_display :: string
  pm_context :: "int option"
  pm_max_output :: "int option"
  pm_protocol :: "string option"
  pm_tools :: "bool option"
  pm_vision :: "bool option"
  pm_reasoning :: "bool option"
  pm_structured :: "bool option"
  pm_input :: "string list option"
  pm_output :: "string list option"
  pm_selectors :: "string option"
  pm_manual :: bool
  pm_available :: bool
  pm_first_seen :: time
  pm_last_seen :: time
  pm_created :: time
  pm_updated :: time

record group_row =
  vg_account :: string
  vg_name :: string
  vg_created :: time
  vg_updated :: time

record virtual_row =
  vm_account :: string
  vm_group :: string
  vm_name :: string
  vm_target_provider :: string
  vm_target_model :: string
  vm_mode :: string
  vm_created :: time
  vm_updated :: time

record target_row =
  vt_account :: string
  vt_virtual :: string
  vt_model :: string
  vt_position :: int
  vt_enabled :: bool
  vt_created :: time
  vt_updated :: time

record client_row =
  ck_account :: string
  ck_name :: string
  ck_description :: string
  ck_group :: string
  ck_selector :: string
  ck_hash :: string
  ck_fingerprint :: string
  ck_enabled :: bool
  ck_logging :: bool
  ck_bodies :: "bool option"
  ck_retention :: int
  ck_created :: time
  ck_rotated :: "time option"
  ck_updated :: time
  ck_type :: string
  ck_template :: "string option"

record binding_row =
  sb_account :: string
  sb_name :: string
  sb_real :: "string option"
  sb_virtual :: "string option"
  sb_created :: time
  sb_updated :: time

record template_row =
  ct_account :: string
  ct_name :: string
  ct_description :: string
  ct_created :: time
  ct_updated :: time

text \<open>
  One entry of a permission matrix. The two tables of feeder defaults (\<open>new_models_enabled\<close>) have no
  \<open>created_at\<close>; the two tables of model permissions (\<open>enabled\<close>) have.
\<close>

record cell =
  c_account :: string
  c_on :: bool
  c_created :: "time option"
  c_updated :: time

type_synonym cells = "(string \<times> kind \<times> string, cell) gomap"

record oauth_row =
  oa_account :: string
  oa_access :: string
  oa_refresh :: "string option"
  oa_id :: "string option"
  oa_data :: "string option"

text \<open>
  \<open>t_core\<close> holds the platform tables of \<open>Plans\<close>. \<open>activity_cleanup\<close> has the composite key of account and
  client key; \<open>mail_outbox\<close> keeps the encrypted token of a row.
\<close>

record tenants =
  t_core :: db
  t_namespaces :: "(string \<times> string, ns_row) gomap"
  t_providers :: "(string, provider_row) gomap"
  t_models :: "(string, model_row) gomap"
  t_groups :: "(string, group_row) gomap"
  t_virtual :: "(string, virtual_row) gomap"
  t_targets :: "(string, target_row) gomap"
  t_clients :: "(string, client_row) gomap"
  t_bindings :: "(string, binding_row) gomap"
  t_defaults :: cells
  t_perms :: cells
  t_templates :: "(string, template_row) gomap"
  t_tdefaults :: cells
  t_tperms :: cells
  t_oauth :: "(string, oauth_row) gomap"
  t_settings :: "(string \<times> string, string) gomap"
  t_platform :: "(string, string) gomap"
  t_outbox :: "(string, string option) gomap"
  t_cleanup :: "(string \<times> string, time) gomap"
  t_tokens :: "(string, string) gomap"

text \<open>What the plan limits of \<open>Plans\<close> count: the account column of the tenant tables.\<close>

definition plan_view :: "tenants \<Rightarrow> db" where
  "plan_view t = (t_core t)\<lparr>providers := map (pv_account \<circ> snd) (t_providers t),
     client_keys := map (ck_account \<circ> snd) (t_clients t),
     virtual_models := map (vm_account \<circ> snd) (t_virtual t)\<rparr>"

section \<open>Statements\<close>

datatype serr =
    ErrProviderNotFound | ErrSingleBindingInUse | ProviderInUseError "string list" "string list"
  | ErrManualModelExists | ErrModelNotFound | ErrModelNotManual | ErrModelInUse
  | ErrVirtualGroupNotFound | ErrVirtualGroupNotEmpty | ErrVirtualModelNotFound | ErrVirtualTargetNotFound
  | ErrVirtualBindingInUse | ErrClientKeyNotFound | ErrPermissionGroupNotFound | ErrPermissionModelNotFound
  | ErrSingleTargetNotFound | ErrTemplateNotFound | ErrClientLinkedToTemplate
  | ErrSecretsLocked | CryptoError cerr | KeyError kerr | NothingToRotate | KeyUnavailable
  | PlanError store_err | NoIdentifier | NoRows
  | Constraint | Fault

text \<open>
  An operation reads and writes the tables; statement number \<open>n\<close> of it fails when \<open>flt n\<close> says so
  (\<open>BEGIN\<close> and \<open>COMMIT\<close> are statements).
\<close>

type_synonym 'a tx = "faults \<Rightarrow> nat \<times> tenants \<Rightarrow> (nat \<times> tenants) \<times> (serr + 'a)"

definition give :: "'a \<Rightarrow> 'a tx" where
  "give x flt s = (s, Inr x)"

definition refuse :: "serr \<Rightarrow> 'a tx" where
  "refuse e flt s = (s, Inl e)"

definition andThen :: "'a tx \<Rightarrow> ('a \<Rightarrow> 'b tx) \<Rightarrow> 'b tx" where
  "andThen m k flt s = (case m flt s of (s', Inl e) \<Rightarrow> (s', Inl e) | (s', Inr x) \<Rightarrow> k x flt s')"

definition unless_error :: "serr + 'a \<Rightarrow> 'a tx" where
  "unless_error r flt s = (s, r)"

definition query :: "(tenants \<Rightarrow> 'a) \<Rightarrow> 'a tx" where
  "query f flt s = (let (n, t) = s in if flt n then ((n + 1, t), Inl Fault) else ((n + 1, t), Inr (f t)))"

text \<open>A statement that writes: \<open>None\<close> is a constraint violation, else the tables and the rows affected.\<close>

definition exec :: "(tenants \<Rightarrow> (tenants \<times> nat) option) \<Rightarrow> nat tx" where
  "exec f flt s = (let (n, t) = s in
     if flt n then ((n + 1, t), Inl Fault)
     else (case f t of None \<Rightarrow> ((n + 1, t), Inl Constraint) | Some (t', rows) \<Rightarrow> ((n + 1, t'), Inr rows)))"

fun each :: "('a \<Rightarrow> unit tx) \<Rightarrow> 'a list \<Rightarrow> unit tx" where
  "each f [] = give ()"
| "each f (x # xs) = andThen (f x) (\<lambda>_. each f xs)"

definition no_rows :: "serr \<Rightarrow> nat \<Rightarrow> unit tx" where
  "no_rows e n = (if n = 0 then refuse e else give ())"

text \<open>\<open>RunTx\<close>: a nil error commits, any other rolls back.\<close>

definition RunTx :: "'a tx \<Rightarrow> 'a tx" where
  "RunTx m flt s = (let (n, t) = s in
     if flt n then ((n + 1, t), Inl Fault)
     else (case m flt (n + 1, t) of
             ((n', t'), Inl e) \<Rightarrow> ((n', t), Inl e)
           | ((n', t'), Inr x) \<Rightarrow> if flt n' then ((n' + 1, t), Inl Fault) else ((n' + 1, t'), Inr x)))"

section \<open>What a statement does to a table\<close>

text \<open>\<open>INSERT\<close> of rows in order: a key already there violates the primary key; \<open>ON CONFLICT DO NOTHING\<close> skips it.\<close>

fun insert_rows :: "('k \<times> 'v) list \<Rightarrow> ('k, 'v) gomap \<Rightarrow> ('k, 'v) gomap option" where
  "insert_rows [] m = Some m"
| "insert_rows ((k, v) # rs) m = (if gm_get m k \<noteq> None then None else insert_rows rs (gm_set k v m))"

fun insert_missing :: "('k \<times> 'v) list \<Rightarrow> ('k, 'v) gomap \<Rightarrow> ('k, 'v) gomap" where
  "insert_missing [] m = m"
| "insert_missing ((k, v) # rs) m = insert_missing rs (if gm_get m k \<noteq> None then m else gm_set k v m)"

text \<open>\<open>UPDATE\<close> of the rows that satisfy a condition.\<close>

definition update_rows :: "('k \<Rightarrow> 'v \<Rightarrow> bool) \<Rightarrow> ('v \<Rightarrow> 'v) \<Rightarrow> ('k, 'v) gomap \<Rightarrow> ('k, 'v) gomap" where
  "update_rows P f m = map (\<lambda>(k, v). (k, if P k v then f v else v)) m"

definition delete_rows :: "('k \<Rightarrow> 'v \<Rightarrow> bool) \<Rightarrow> ('k, 'v) gomap \<Rightarrow> ('k, 'v) gomap" where
  "delete_rows P m = gm_keep (\<lambda>k v. \<not> P k v) m"

definition select_rows :: "('k \<Rightarrow> 'v \<Rightarrow> bool) \<Rightarrow> ('k, 'v) gomap \<Rightarrow> ('k \<times> 'v) list" where
  "select_rows P m = filter (\<lambda>(k, v). P k v) m"

definition count_rows :: "('k \<Rightarrow> 'v \<Rightarrow> bool) \<Rightarrow> ('k, 'v) gomap \<Rightarrow> nat" where
  "count_rows P m = length (select_rows P m)"

text \<open>\<open>id = ? AND account_id = ?\<close>\<close>

definition owned :: "('v \<Rightarrow> string) \<Rightarrow> ('k, 'v) gomap \<Rightarrow> string \<Rightarrow> 'k \<Rightarrow> 'v option" where
  "owned account m a k = (case gm_get m k of None \<Rightarrow> None | Some v \<Rightarrow> if account v = a then Some v else None)"

section \<open>Laws of rows\<close>

text \<open>What a key reads after a statement; the collection \<open>rows\<close> carries the proofs of the operations.\<close>

named_theorems rows \<open>reading a table after a statement wrote it\<close>

lemma gm_wf_update_rows [simp]: "gm_wf (update_rows P f m) = gm_wf m"
  by (simp add: gm_wf_def update_rows_def comp_def split_def)

lemma gm_wf_delete_rows [simp]: "gm_wf m \<Longrightarrow> gm_wf (delete_rows P m)"
  by (simp add: delete_rows_def)

lemma get_update_rows [simp, rows]: "gm_get (update_rows P f m) k = map_option (\<lambda>v. if P k v then f v else v) (gm_get m k)"
  by (induction m) (auto simp: update_rows_def)

lemma get_delete_rows [simp, rows]:
  "gm_wf m \<Longrightarrow> gm_get (delete_rows P m) k = (case gm_get m k of None \<Rightarrow> None | Some v \<Rightarrow> if P k v then None else Some v)"
  by (auto simp: delete_rows_def gm_get_keep split: option.split)

lemma set_update_rows: "set (update_rows P f m) = (\<lambda>(k, v). (k, if P k v then f v else v)) ` set m"
  by (simp add: update_rows_def)

lemma insert_rows_wf: "insert_rows rs m = Some m' \<Longrightarrow> gm_wf m \<Longrightarrow> gm_wf m'"
  by (induction rs m rule: insert_rows.induct) (auto split: if_splits)

lemma insert_missing_wf [simp]: "gm_wf m \<Longrightarrow> gm_wf (insert_missing rs m)"
  by (induction rs m rule: insert_missing.induct) auto

lemma insert_rows_fresh: "insert_rows rs m = Some m' \<Longrightarrow> gm_get m k \<noteq> None \<Longrightarrow> k \<notin> fst ` set rs"
  by (induction rs m rule: insert_rows.induct) (auto split: if_splits)

text \<open>An accepted insert had fresh, distinct keys; it reads as the new rows over the old table.\<close>

lemma insert_rows_get:
  "insert_rows rs m = Some m' \<Longrightarrow> gm_get m' k = (case map_of rs k of None \<Rightarrow> gm_get m k | Some v \<Rightarrow> Some v)"
proof (induction rs m rule: insert_rows.induct)
  case (2 k' v rs m)
  then have IH: "gm_get m' k = (case map_of rs k of None \<Rightarrow> gm_get (gm_set k' v m) k | Some v \<Rightarrow> Some v)"
    and rest: "insert_rows rs (gm_set k' v m) = Some m'" by (auto split: if_splits)
  show ?case
  proof (cases "k = k'")
    case True
    have "map_of rs k' = None"
      using insert_rows_fresh [OF rest, of k'] by (simp add: map_of_eq_None_iff)
    then show ?thesis using IH True by simp
  qed (use IH in \<open>simp split: option.split\<close>)
qed simp

lemma insert_missing_get:
  "gm_get (insert_missing rs m) k = (case gm_get m k of Some v \<Rightarrow> Some v | None \<Rightarrow> map_of rs k)"
  by (induction rs m rule: insert_missing.induct) (auto split: option.splits)

lemma count_rows_0: "count_rows P m = 0 \<longleftrightarrow> (\<forall>(k, v) \<in> set m. \<not> P k v)"
  by (auto simp: count_rows_def select_rows_def filter_empty_conv)

lemma count_rows_pos: "gm_get m k = Some v \<Longrightarrow> P k v \<Longrightarrow> count_rows P m \<noteq> 0"
  using gm_get_SomeD [of m k v] by (auto simp: count_rows_0)

lemma owned_iff: "owned account m a k = Some v \<longleftrightarrow> gm_get m k = Some v \<and> account v = a"
  by (auto simp: owned_def split: option.splits)

section \<open>What an operation does when it succeeds\<close>

text \<open>\<open>effect m t x t'\<close>: some run of \<open>m\<close> on the tables \<open>t\<close> returns \<open>x\<close> and leaves \<open>t'\<close>.\<close>

definition effect :: "'a tx \<Rightarrow> tenants \<Rightarrow> 'a \<Rightarrow> tenants \<Rightarrow> bool" where
  "effect m t x t' \<longleftrightarrow> (\<exists>flt n n'. m flt (n, t) = ((n', t'), Inr x))"

named_theorems effects \<open>the successful runs of a statement\<close>

lemma effect_give [effects]: "effect (give y) t x t' \<longleftrightarrow> x = y \<and> t' = t"
  by (auto simp: effect_def give_def)

lemma effect_refuse [effects]: "\<not> effect (refuse e) t x t'"
  by (simp add: effect_def refuse_def)

lemma effect_andThen: "effect (andThen m k) t x t' \<Longrightarrow> \<exists>y t1. effect m t y t1 \<and> effect (k y) t1 x t'"
  unfolding effect_def andThen_def by (force split: prod.splits sum.splits)

lemma effect_query [effects]: "effect (query f) t x t' \<longleftrightarrow> x = f t \<and> t' = t"
  unfolding effect_def query_def by (auto split: if_splits intro!: exI [of _ "\<lambda>_. False"])

lemma effect_exec [effects]: "effect (exec f) t x t' \<longleftrightarrow> f t = Some (t', x)"
  unfolding effect_def exec_def by (auto split: if_splits option.splits intro!: exI [of _ "\<lambda>_. False"])

lemma effect_unless_error [effects]: "effect (unless_error r) t x t' \<longleftrightarrow> r = Inr x \<and> t' = t"
  by (auto simp: effect_def unless_error_def)

lemma effect_no_rows [effects]: "effect (no_rows e n) t x t' \<longleftrightarrow> n \<noteq> 0 \<and> t' = t"
  by (auto simp: no_rows_def effects)

lemma effect_RunTx: "effect (RunTx m) t x t' \<Longrightarrow> effect m t x t'"
  unfolding effect_def RunTx_def by (force split: prod.splits sum.splits if_splits)

text \<open>A transaction that fails leaves the tables as they were.\<close>

lemma RunTx_error: "RunTx m flt (n, t) = ((n', t'), Inl e) \<Longrightarrow> t' = t"
  by (auto simp: RunTx_def split: prod.splits sum.splits if_splits)

lemma RunTx_ok: "RunTx m flt (n, t) = ((n', t'), Inr x) \<Longrightarrow> effect m t x t'"
  by (rule effect_RunTx) (auto simp: effect_def)

end
