(* ===== verification/Secrets.thy ===== *)
theory Secrets
  imports Tenants
begin

text \<open>
  Recoverable secrets at the store boundary (\<open>internal/store/secrets.go\<close>): reading and writing one
  secret, the list of every secret column, the migration at startup and the rotation of the master key,
  and the startup and rotation commands around them (\<open>cmd/tiller-router/main.go\<close>). \<open>g\<close> is AES-GCM and
  \<open>nonces i\<close> what the random source gives for the \<open>i\<close>-th secret.
\<close>

section \<open>One secret\<close>

text \<open>A nil cipher, the pass-through of tests, or \<open>*crypto.Cipher\<close>.\<close>

datatype secret_cipher = NilCipher | PlainCipher | KeyCipher cipher

definition secrets_locked :: "secret_cipher \<Rightarrow> bool" where
  "secrets_locked c = (case c of NilCipher \<Rightarrow> True | PlainCipher \<Rightarrow> False | KeyCipher ks \<Rightarrow> Locked ks)"

definition SecretsState :: "secret_cipher \<Rightarrow> string" where
  "SecretsState c = (case c of NilCipher \<Rightarrow> ''disabled'' | PlainCipher \<Rightarrow> ''disabled''
     | KeyCipher ks \<Rightarrow> if Locked ks then ''locked'' else if \<not> CipherEnabled ks then ''disabled'' else ''enabled'')"

definition encryptWith :: "aead \<Rightarrow> string option \<Rightarrow> secret_cipher \<Rightarrow> string \<Rightarrow> string \<Rightarrow> serr + string" where
  "encryptWith g nonce c aad text = (case c of
       NilCipher \<Rightarrow> Inl ErrSecretsLocked
     | PlainCipher \<Rightarrow> Inr text
     | KeyCipher ks \<Rightarrow> if Locked ks then Inl ErrSecretsLocked
         else (case Encrypt g nonce ks aad text of Inl e \<Rightarrow> Inl (CryptoError e) | Inr v \<Rightarrow> Inr v))"

definition decryptWith :: "aead \<Rightarrow> secret_cipher \<Rightarrow> string \<Rightarrow> string \<Rightarrow> serr + string" where
  "decryptWith g c aad stored = (case c of
       NilCipher \<Rightarrow> Inl ErrSecretsLocked
     | PlainCipher \<Rightarrow> Inr stored
     | KeyCipher ks \<Rightarrow> if Locked ks then Inl ErrSecretsLocked
         else (case Decrypt g ks aad stored of
                 Inr text \<Rightarrow> Inr text
               | Inl e \<Rightarrow> if e = CipherLocked \<or> e = Malformed then Inl ErrSecretsLocked else Inl (CryptoError e)))"

definition encryptSecret :: "aead \<Rightarrow> string option \<Rightarrow> secret_cipher \<Rightarrow> string \<Rightarrow> string \<Rightarrow> serr + string" where
  "encryptSecret g nonce c aad text = (if text = [] then Inr [] else encryptWith g nonce c aad text)"

definition decryptSecret :: "aead \<Rightarrow> secret_cipher \<Rightarrow> string \<Rightarrow> string \<Rightarrow> serr + string" where
  "decryptSecret g c aad stored = (if stored = [] then Inr [] else decryptWith g c aad stored)"

definition secretAAD :: "string \<Rightarrow> string \<Rightarrow> string \<Rightarrow> string \<Rightarrow> string" where
  "secretAAD accountID knd i field = AAD [''tiller'', ''secret-v1'', accountID, knd, i, field]"

section \<open>Every secret\<close>

record secretRecord =
  sr_account :: string
  sr_kind :: string
  sr_id :: string
  sr_field :: string
  sr_value :: string

definition sr_aad :: "secretRecord \<Rightarrow> string" where
  "sr_aad r = (if sr_kind r = ''mailoutbox'' then AAD [''tiller'', ''mailoutbox'', sr_id r, ''token'']
     else secretAAD (sr_account r) (sr_kind r) (sr_id r) (sr_field r))"

abbreviation srec :: "string \<Rightarrow> string \<Rightarrow> string \<Rightarrow> string \<Rightarrow> string \<Rightarrow> secretRecord" where
  "srec a knd i f v \<equiv> \<lparr>sr_account = a, sr_kind = knd, sr_id = i, sr_field = f, sr_value = v\<rparr>"

definition secretSettingKeys :: "string list" where
  "secretSettingKeys = [''notifications_auth_header'']"

definition platformSecretSettingKeys :: "string list" where
  "platformSecretSettingKeys = [''google_client_secret'', ''mail_brevo_api_key'', ''mail_resend_api_key'',
     ''mail_smtp_password'', ''turnstile_secret'']"

text \<open>\<open>LIKE 'enc:v1:%'\<close>, which folds ASCII case.\<close>

definition like_enc :: "string \<Rightarrow> bool" where
  "like_enc s \<longleftrightarrow> has_prefix (to_lower s) enc_prefix"

definition coalesce :: "string option \<Rightarrow> string" where
  "coalesce v = (case v of None \<Rightarrow> [] | Some s \<Rightarrow> s)"

definition provider_records :: "tenants \<Rightarrow> secretRecord list" where
  "provider_records t = map (\<lambda>(i, p). srec (pv_account p) ''provider'' i ''credential_secret'' (coalesce (pv_credential p)))
     (filter (\<lambda>(i, p). coalesce (pv_credential p) \<noteq> []) (t_providers t))"

definition oauth_fields :: "oauth_row \<Rightarrow> (string \<times> string) list" where
  "oauth_fields r = [(''access_token'', oa_access r), (''refresh_token'', coalesce (oa_refresh r)),
     (''id_token'', coalesce (oa_id r)), (''provider_data'', coalesce (oa_data r))]"

definition oauth_secrets :: "tenants \<Rightarrow> secretRecord list" where
  "oauth_secrets t = concat (map (\<lambda>(i, r).
     map (\<lambda>(f, v). srec (oa_account r) ''oauth'' i f v) (filter (\<lambda>(f, v). v \<noteq> []) (oauth_fields r))) (t_oauth t))"

definition setting_secrets :: "tenants \<Rightarrow> secretRecord list" where
  "setting_secrets t = map (\<lambda>((a, k), v). srec a ''setting'' k ''value'' v)
     (filter (\<lambda>((a, k), v). v \<noteq> [] \<and> k \<in> set secretSettingKeys) (t_settings t))"

definition platform_secrets :: "tenants \<Rightarrow> secretRecord list" where
  "platform_secrets t = map (\<lambda>(k, v). srec ''platform'' ''setting'' k ''value'' v)
     (filter (\<lambda>(k, v). v \<noteq> [] \<and> k \<in> set platformSecretSettingKeys) (t_platform t))"

definition outbox_secrets :: "tenants \<Rightarrow> secretRecord list" where
  "outbox_secrets t = map (\<lambda>(i, v). srec ''platform'' ''mailoutbox'' i ''token'' (coalesce v))
     (filter (\<lambda>(i, v). like_enc (coalesce v)) (t_outbox t))"

definition listSecrets :: "secretRecord list tx" where
  "listSecrets =
     andThen (query provider_records) (\<lambda>ps.
     andThen (query oauth_secrets) (\<lambda>os.
     andThen (query setting_secrets) (\<lambda>ss.
     andThen (query platform_secrets) (\<lambda>fs.
     andThen (query outbox_secrets) (\<lambda>ms.
     give (ps @ os @ ss @ fs @ ms))))))"

definition nullableSecret :: "string \<Rightarrow> string option" where
  "nullableSecret v = (if v = [] then None else Some v)"

definition set_oauth :: "string \<Rightarrow> string \<Rightarrow> oauth_row \<Rightarrow> oauth_row" where
  "set_oauth f v r =
     (if f = ''access_token'' then r\<lparr>oa_access := v\<rparr> else if f = ''refresh_token'' then r\<lparr>oa_refresh := Some v\<rparr>
      else if f = ''id_token'' then r\<lparr>oa_id := Some v\<rparr> else if f = ''provider_data'' then r\<lparr>oa_data := Some v\<rparr> else r)"

text \<open>The \<open>UPDATE\<close> a record is written back with; unknown kinds and fields do not come out of \<open>listSecrets\<close>.\<close>

definition write_secret :: "secretRecord \<Rightarrow> string \<Rightarrow> tenants \<Rightarrow> tenants" where
  "write_secret r v t =
     (if sr_kind r = ''provider'' then
        t\<lparr>t_providers := update_rows (\<lambda>i p. i = sr_id r \<and> pv_account p = sr_account r) (pv_credential_update (\<lambda>_. Some v)) (t_providers t)\<rparr>
      else if sr_kind r = ''oauth'' then
        t\<lparr>t_oauth := update_rows (\<lambda>i p. i = sr_id r \<and> oa_account p = sr_account r) (set_oauth (sr_field r) v) (t_oauth t)\<rparr>
      else if sr_kind r = ''setting'' then
        (if sr_account r = ''platform''
         then t\<lparr>t_platform := update_rows (\<lambda>k _. k = sr_id r) (\<lambda>_. v) (t_platform t)\<rparr>
         else t\<lparr>t_settings := update_rows (\<lambda>k _. k = (sr_account r, sr_id r)) (\<lambda>_. v) (t_settings t)\<rparr>)
      else t\<lparr>t_outbox := update_rows (\<lambda>i _. i = sr_id r) (\<lambda>_. nullableSecret v) (t_outbox t)\<rparr>)"

definition known_secret :: "secretRecord \<Rightarrow> bool" where
  "known_secret r \<longleftrightarrow> sr_kind r \<in> {''provider'', ''setting'', ''mailoutbox''} \<or>
     sr_kind r = ''oauth'' \<and> sr_field r \<in> {''access_token'', ''refresh_token'', ''id_token'', ''provider_data''}"

definition applySecret :: "secretRecord \<Rightarrow> string \<Rightarrow> unit tx" where
  "applySecret r v =
     (if known_secret r then andThen (exec (\<lambda>t. Some (write_secret r v t, 1))) (\<lambda>_. give ()) else refuse Fault)"

text \<open>The loop of \<open>walkSecrets\<close>; it returns how many values were written. \<open>mutate\<close> gets the number of the record.\<close>

fun walk_records :: "(nat \<Rightarrow> secretRecord \<Rightarrow> serr + string option) \<Rightarrow> nat \<Rightarrow> secretRecord list \<Rightarrow> nat tx" where
  "walk_records mutate i [] = give 0"
| "walk_records mutate i (r # rs) =
     andThen (unless_error (mutate i r)) (\<lambda>new.
       case new of
         None \<Rightarrow> walk_records mutate (i + 1) rs
       | Some v \<Rightarrow> andThen (applySecret r v) (\<lambda>_. andThen (walk_records mutate (i + 1) rs) (\<lambda>n. give (n + 1))))"

definition walkSecrets :: "(nat \<Rightarrow> secretRecord \<Rightarrow> serr + string option) \<Rightarrow> nat tx" where
  "walkSecrets mutate = andThen listSecrets (walk_records mutate 0)"

definition HasEncryptedSecrets :: "bool tx" where
  "HasEncryptedSecrets = query (\<lambda>t.
     list_ex (\<lambda>(i, p). like_enc (coalesce (pv_credential p))) (t_providers t) \<or>
     list_ex (\<lambda>(i, r). list_ex (\<lambda>(f, v). like_enc v) (oauth_fields r)) (t_oauth t) \<or>
     list_ex (\<lambda>((a, k), v). like_enc v \<and> k \<in> set secretSettingKeys) (t_settings t) \<or>
     list_ex (\<lambda>(k, v). like_enc v \<and> k \<in> set platformSecretSettingKeys) (t_platform t) \<or>
     list_ex (\<lambda>(i, v). like_enc (coalesce v)) (t_outbox t))"

definition migrate_value :: "aead \<Rightarrow> (nat \<Rightarrow> string option) \<Rightarrow> secret_cipher \<Rightarrow> nat \<Rightarrow> secretRecord \<Rightarrow> serr + string option" where
  "migrate_value g nonces c i r =
     (if Encrypted (sr_value r)
      then (case decryptWith g c (sr_aad r) (sr_value r) of Inl e \<Rightarrow> Inl e | Inr _ \<Rightarrow> Inr None)
      else (case encryptWith g (nonces i) c (sr_aad r) (sr_value r) of Inl e \<Rightarrow> Inl e | Inr v \<Rightarrow> Inr (Some v)))"

definition rotate_value ::
  "aead \<Rightarrow> (nat \<Rightarrow> string option) \<Rightarrow> secret_cipher \<Rightarrow> secret_cipher \<Rightarrow> nat \<Rightarrow> secretRecord \<Rightarrow> serr + string option" where
  "rotate_value g nonces old new i r =
     (case decryptWith g old (sr_aad r) (sr_value r) of
        Inl e \<Rightarrow> Inl e
      | Inr text \<Rightarrow> (case encryptWith g (nonces i) new (sr_aad r) text of Inl e \<Rightarrow> Inl e | Inr v \<Rightarrow> Inr (Some v)))"

text \<open>\<open>(migrated, locked)\<close>: a cipher that cannot read a stored value changes nothing and reports \<open>locked\<close>.\<close>

definition MigrateSecrets :: "aead \<Rightarrow> (nat \<Rightarrow> string option) \<Rightarrow> secret_cipher \<Rightarrow> (nat \<times> bool) tx" where
  "MigrateSecrets g nonces c flt s =
     (if secrets_locked c then (s, Inr (0, True))
      else (case RunTx (walkSecrets (migrate_value g nonces c)) flt s of
              (s', Inl e) \<Rightarrow> if e = ErrSecretsLocked then (s', Inr (0, True)) else (s', Inl e)
            | (s', Inr n) \<Rightarrow> (s', Inr (n, False))))"

definition RotateSecrets :: "aead \<Rightarrow> (nat \<Rightarrow> string option) \<Rightarrow> secret_cipher \<Rightarrow> secret_cipher \<Rightarrow> nat tx" where
  "RotateSecrets g nonces old new =
     (if secrets_locked new \<or> secrets_locked old then refuse ErrSecretsLocked
      else RunTx (walkSecrets (rotate_value g nonces old new)))"

section \<open>The secrets of the tables\<close>

definition secrets :: "tenants \<Rightarrow> secretRecord list" where
  "secrets t = provider_records t @ oauth_secrets t @ setting_secrets t @ platform_secrets t @ outbox_secrets t"

lemma effect_listSecrets: "effect listSecrets t rs t' \<Longrightarrow> rs = secrets t \<and> t' = t"
  unfolding listSecrets_def secrets_def by (auto dest!: effect_andThen simp: effects)

text \<open>Primary keys, and no account called \<open>platform\<close> (account ids are generated).\<close>

definition secrets_ok :: "tenants \<Rightarrow> bool" where
  "secrets_ok t \<longleftrightarrow> gm_wf (t_providers t) \<and> gm_wf (t_oauth t) \<and> gm_wf (t_settings t) \<and> gm_wf (t_platform t) \<and>
     gm_wf (t_outbox t) \<and> list_all (\<lambda>((a, k), v). a \<noteq> ''platform'') (t_settings t)"

definition skey :: "secretRecord \<Rightarrow> string \<times> string \<times> string \<times> string" where
  "skey r = (sr_account r, sr_kind r, sr_id r, sr_field r)"

definition put :: "secretRecord \<Rightarrow> string \<Rightarrow> secretRecord list \<Rightarrow> secretRecord list" where
  "put r v rs = map (\<lambda>q. if skey q = skey r then q\<lparr>sr_value := v\<rparr> else q) rs"

lemma put_append [simp]: "put r v (xs @ ys) = put r v xs @ put r v ys"
  by (simp add: put_def)

lemma put_other: "\<forall>q \<in> set xs. skey q \<noteq> skey r \<Longrightarrow> put r v xs = xs"
  unfolding put_def by (rule map_idI) auto

lemma Encrypted_like: "Encrypted v \<Longrightarrow> like_enc v \<and> v \<noteq> []"
proof -
  assume "Encrypted v"
  then obtain x where v: "v = enc_prefix @ x" by (auto simp: Encrypted_def has_prefix_iff)
  have low: "to_lower enc_prefix = enc_prefix" unfolding enc_prefix_def by code_simp
  have "to_lower v = enc_prefix @ to_lower x" using low by (simp add: v to_lower_def)
  then show ?thesis by (simp add: like_enc_def v enc_prefix_def)
qed

lemma map_filter_update:
  assumes "\<And>k x. (k, x) \<in> set m \<Longrightarrow> Q (k, if P k x then f x else x) = Q (k, x)"
    and "\<And>k x. (k, x) \<in> set m \<Longrightarrow> Q (k, x) \<Longrightarrow> h (k, if P k x then f x else x) = G (h (k, x))"
  shows "map h (filter Q (update_rows P f m)) = map G (map h (filter Q m))"
  using assms by (induction m) (auto simp: update_rows_def)

text \<open>Writing a listed record replaces its value and nothing else.\<close>

lemma write_provider:
  assumes "sr_kind r = ''provider''" "v \<noteq> []" "r \<in> set (provider_records t)" "secrets_ok t"
  shows "provider_records (write_secret r v t) = put r v (provider_records t)"
proof -
  obtain i p where p: "(i, p) \<in> set (t_providers t)" "coalesce (pv_credential p) \<noteq> []"
      "r = srec (pv_account p) ''provider'' i ''credential_secret'' (coalesce (pv_credential p))"
    using assms(3) by (auto simp: provider_records_def)
  have only: "p' = p" if "(i, p') \<in> set (t_providers t)" for p'
    using that p(1) assms(4) gm_get_SomeI unfolding secrets_ok_def by (metis option.inject)
  let ?G = "\<lambda>q. if skey q = skey r then q\<lparr>sr_value := v\<rparr> else q"
  let ?P = "\<lambda>k q. k = i \<and> pv_account q = pv_account p"
  have "provider_records (write_secret r v t) =
      map (\<lambda>(i, p). srec (pv_account p) ''provider'' i ''credential_secret'' (coalesce (pv_credential p)))
        (filter (\<lambda>(i, p). coalesce (pv_credential p) \<noteq> []) (update_rows ?P (pv_credential_update (\<lambda>_. Some v)) (t_providers t)))"
    by (simp add: provider_records_def write_secret_def p(3))
  also have "\<dots> = put r v (provider_records t)"
    unfolding put_def provider_records_def
  proof (rule map_filter_update)
    fix k x assume kx: "(k, x) \<in> set (t_providers t)"
    show "(case (k, if ?P k x then pv_credential_update (\<lambda>_. Some v) x else x) of (i, p) \<Rightarrow> coalesce (pv_credential p) \<noteq> []) =
        (case (k, x) of (i, p) \<Rightarrow> coalesce (pv_credential p) \<noteq> [])"
      using only [of x] kx p(2) assms(2) by (auto simp: coalesce_def)
  next
    fix k x
    show "(case (k, if ?P k x then pv_credential_update (\<lambda>_. Some v) x else x) of
          (i, p) \<Rightarrow> srec (pv_account p) ''provider'' i ''credential_secret'' (coalesce (pv_credential p))) =
        ?G (case (k, x) of (i, p) \<Rightarrow> srec (pv_account p) ''provider'' i ''credential_secret'' (coalesce (pv_credential p)))"
      by (simp add: p(3) skey_def coalesce_def Let_def)
  qed
  finally show ?thesis .
qed

lemma concat_update:
  assumes "\<And>k x. (k, x) \<in> set m \<Longrightarrow> h (k, if P k x then f x else x) = map G (h (k, x))"
  shows "concat (map h (update_rows P f m)) = map G (concat (map h m))"
  using assms by (induction m) (auto simp: update_rows_def)

lemma fields_written:
  assumes "(f, x) \<in> set (oauth_fields p)"
  shows "oauth_fields (set_oauth f v p) = update_rows (\<lambda>f' _. f' = f) (\<lambda>_. v) (oauth_fields p)"
proof -
  have "f = ''access_token'' \<or> f = ''refresh_token'' \<or> f = ''id_token'' \<or> f = ''provider_data''"
    using assms by (auto simp: oauth_fields_def)
  then show ?thesis by (elim disjE) (simp_all add: oauth_fields_def set_oauth_def update_rows_def coalesce_def)
qed

lemma fields_wf: "gm_wf (oauth_fields p)"
  by (simp add: gm_wf_def oauth_fields_def)

lemma write_oauth:
  assumes "sr_kind r = ''oauth''" "v \<noteq> []" "r \<in> set (oauth_secrets t)" "secrets_ok t"
  shows "oauth_secrets (write_secret r v t) = put r v (oauth_secrets t)"
proof -
  let ?G = "\<lambda>q. if skey q = skey r then q\<lparr>sr_value := v\<rparr> else q"
  let ?row = "\<lambda>i p. map (\<lambda>(f, v). srec (oa_account p) ''oauth'' i f v) (filter (\<lambda>(f, v). v \<noteq> []) (oauth_fields p))"
  obtain i p f x where p: "(i, p) \<in> set (t_oauth t)" "(f, x) \<in> set (oauth_fields p)" "x \<noteq> []"
      "r = srec (oa_account p) ''oauth'' i f x"
    using assms(3) by (auto simp: oauth_secrets_def)
  have only: "p' = p" if "(i, p') \<in> set (t_oauth t)" for p'
    using that p(1) assms(4) gm_get_SomeI unfolding secrets_ok_def by (metis option.inject)
  have acct: "oa_account (set_oauth f w q) = oa_account q" for f w q by (simp add: set_oauth_def)
  have one: "?row i (set_oauth f v p) = map (\<lambda>q. if skey q = skey r then q\<lparr>sr_value := v\<rparr> else q) (?row i p)"
    unfolding fields_written [OF p(2)] acct
  proof (rule map_filter_update)
    fix k y assume "(k, y) \<in> set (oauth_fields p)"
    then have "k = f \<Longrightarrow> y = x" using p(2) fields_wf gm_get_SomeI by (metis option.inject)
    then show "(case (k, if k = f then v else y) of (f, v) \<Rightarrow> v \<noteq> []) = (case (k, y) of (f, v) \<Rightarrow> v \<noteq> [])"
      using p(3) assms(2) by auto
  next
    fix k y
    show "(case (k, if k = f then v else y) of (f, v) \<Rightarrow> srec (oa_account p) ''oauth'' i f v) =
        ?G (case (k, y) of (f, v) \<Rightarrow> srec (oa_account p) ''oauth'' i f v)"
      by (simp add: p(4) skey_def Let_def)
  qed
  have "oauth_secrets (write_secret r v t) =
      concat (map (\<lambda>(i, p). ?row i p) (update_rows (\<lambda>k q. k = i \<and> oa_account q = oa_account p) (set_oauth f v) (t_oauth t)))"
    by (simp add: oauth_secrets_def write_secret_def p(4))
  also have "\<dots> = put r v (oauth_secrets t)"
    unfolding put_def oauth_secrets_def
  proof (rule concat_update)
    fix k y assume ky: "(k, y) \<in> set (t_oauth t)"
    show "(case (k, if k = i \<and> oa_account y = oa_account p then set_oauth f v y else y) of (i, p) \<Rightarrow> ?row i p) =
        map (\<lambda>q. if skey q = skey r then q\<lparr>sr_value := v\<rparr> else q) (case (k, y) of (i, p) \<Rightarrow> ?row i p)"
    proof (cases "k = i")
      case True
      then show ?thesis using only [of y] ky one by simp
    next
      case False
      then have "map (\<lambda>q. if skey q = skey r then q\<lparr>sr_value := v\<rparr> else q) (?row k y) = ?row k y"
        by (intro map_idI) (auto simp: p(4) skey_def)
      then show ?thesis using False by simp
    qed
  qed
  finally show ?thesis .
qed

lemma write_setting:
  assumes "sr_kind r = ''setting''" "v \<noteq> []" "r \<in> set (setting_secrets t)" "secrets_ok t"
  shows "setting_secrets (write_secret r v t) = put r v (setting_secrets t)" "sr_account r \<noteq> ''platform''"
proof -
  let ?G = "\<lambda>q. if skey q = skey r then q\<lparr>sr_value := v\<rparr> else q"
  obtain a k x where p: "((a, k), x) \<in> set (t_settings t)" "x \<noteq> []" "r = srec a ''setting'' k ''value'' x"
    using assms(3) by (auto simp: setting_secrets_def)
  show np: "sr_account r \<noteq> ''platform''" using p assms(4) by (auto simp: secrets_ok_def list_all_iff)
  have only: "y = x" if "((a, k), y) \<in> set (t_settings t)" for y
    using that p(1) assms(4) gm_get_SomeI unfolding secrets_ok_def by (metis option.inject)
  have "setting_secrets (write_secret r v t) = map (\<lambda>((a, k), v). srec a ''setting'' k ''value'' v)
      (filter (\<lambda>((a, k), v). v \<noteq> [] \<and> k \<in> set secretSettingKeys) (update_rows (\<lambda>q _. q = (a, k)) (\<lambda>_. v) (t_settings t)))"
    using np by (simp add: setting_secrets_def write_secret_def p(3))
  also have "\<dots> = put r v (setting_secrets t)"
    unfolding put_def setting_secrets_def
  proof (rule map_filter_update)
    fix q y assume "(q, y) \<in> set (t_settings t)"
    then show "(\<lambda>((a, k), v). v \<noteq> [] \<and> k \<in> set secretSettingKeys) (q, if q = (a, k) then v else y) =
        (\<lambda>((a, k), v). v \<noteq> [] \<and> k \<in> set secretSettingKeys) (q, y)"
      using only [of y] p(2) assms(2) by (cases q) auto
  next
    fix q y
    show "(\<lambda>((a, k), v). srec a ''setting'' k ''value'' v) (q, if q = (a, k) then v else y) =
        ?G ((\<lambda>((a, k), v). srec a ''setting'' k ''value'' v) (q, y))"
      by (cases q) (simp add: p(3) skey_def)
  qed
  finally show "setting_secrets (write_secret r v t) = put r v (setting_secrets t)" .
qed

lemma write_platform:
  assumes "v \<noteq> []" "r \<in> set (platform_secrets t)" "secrets_ok t"
  shows "platform_secrets (write_secret r v t) = put r v (platform_secrets t)"
proof -
  let ?G = "\<lambda>q. if skey q = skey r then q\<lparr>sr_value := v\<rparr> else q"
  obtain k x where p: "(k, x) \<in> set (t_platform t)" "x \<noteq> []" "r = srec ''platform'' ''setting'' k ''value'' x"
    using assms(2) by (auto simp: platform_secrets_def)
  have only: "y = x" if "(k, y) \<in> set (t_platform t)" for y
    using that p(1) assms(3) gm_get_SomeI unfolding secrets_ok_def by (metis option.inject)
  have "platform_secrets (write_secret r v t) = map (\<lambda>(k, v). srec ''platform'' ''setting'' k ''value'' v)
      (filter (\<lambda>(k, v). v \<noteq> [] \<and> k \<in> set platformSecretSettingKeys) (update_rows (\<lambda>q _. q = k) (\<lambda>_. v) (t_platform t)))"
    by (simp add: platform_secrets_def write_secret_def p(3))
  also have "\<dots> = put r v (platform_secrets t)"
    unfolding put_def platform_secrets_def
  proof (rule map_filter_update)
    fix q y assume "(q, y) \<in> set (t_platform t)"
    then show "(case (q, if q = k then v else y) of (k, v) \<Rightarrow> v \<noteq> [] \<and> k \<in> set platformSecretSettingKeys) =
        (case (q, y) of (k, v) \<Rightarrow> v \<noteq> [] \<and> k \<in> set platformSecretSettingKeys)"
      using only [of y] p(2) assms(1) by auto
  next
    fix q y
    show "(case (q, if q = k then v else y) of (k, v) \<Rightarrow> srec ''platform'' ''setting'' k ''value'' v) =
        ?G (case (q, y) of (k, v) \<Rightarrow> srec ''platform'' ''setting'' k ''value'' v)"
      by (simp add: p(3) skey_def)
  qed
  finally show ?thesis .
qed

lemma write_outbox:
  assumes "like_enc v" "v \<noteq> []" "r \<in> set (outbox_secrets t)" "secrets_ok t"
  shows "outbox_secrets (write_secret r v t) = put r v (outbox_secrets t)"
proof -
  let ?G = "\<lambda>q. if skey q = skey r then q\<lparr>sr_value := v\<rparr> else q"
  obtain k x where p: "(k, x) \<in> set (t_outbox t)" "like_enc (coalesce x)" "r = srec ''platform'' ''mailoutbox'' k ''token'' (coalesce x)"
    using assms(3) by (auto simp: outbox_secrets_def)
  have only: "y = x" if "(k, y) \<in> set (t_outbox t)" for y
    using that p(1) assms(4) gm_get_SomeI unfolding secrets_ok_def by (metis option.inject)
  have new: "coalesce (nullableSecret v) = v" using assms(2) by (simp add: nullableSecret_def coalesce_def)
  have "outbox_secrets (write_secret r v t) = map (\<lambda>(i, v). srec ''platform'' ''mailoutbox'' i ''token'' (coalesce v))
      (filter (\<lambda>(i, v). like_enc (coalesce v)) (update_rows (\<lambda>q _. q = k) (\<lambda>_. nullableSecret v) (t_outbox t)))"
    by (simp add: outbox_secrets_def write_secret_def p(3))
  also have "\<dots> = put r v (outbox_secrets t)"
    unfolding put_def outbox_secrets_def
  proof (rule map_filter_update)
    fix q y assume "(q, y) \<in> set (t_outbox t)"
    then show "(case (q, if q = k then nullableSecret v else y) of (i, v) \<Rightarrow> like_enc (coalesce v)) =
        (case (q, y) of (i, v) \<Rightarrow> like_enc (coalesce v))"
      using only [of y] p(2) assms(1) new by auto
  next
    fix q y
    show "(case (q, if q = k then nullableSecret v else y) of (i, v) \<Rightarrow> srec ''platform'' ''mailoutbox'' i ''token'' (coalesce v)) =
        ?G (case (q, y) of (i, v) \<Rightarrow> srec ''platform'' ''mailoutbox'' i ''token'' (coalesce v))"
      using new by (simp add: p(3) skey_def)
  qed
  finally show ?thesis .
qed

lemma kinds_of_parts:
  "q \<in> set (provider_records t) \<Longrightarrow> sr_kind q = ''provider''"
  "q \<in> set (oauth_secrets t) \<Longrightarrow> sr_kind q = ''oauth''"
  "q \<in> set (setting_secrets t) \<Longrightarrow> sr_kind q = ''setting''"
  "q \<in> set (platform_secrets t) \<Longrightarrow> sr_kind q = ''setting'' \<and> sr_account q = ''platform''"
  "q \<in> set (outbox_secrets t) \<Longrightarrow> sr_kind q = ''mailoutbox''"
  by (auto simp: provider_records_def oauth_secrets_def setting_secrets_def platform_secrets_def outbox_secrets_def)

lemma setting_accounts: "secrets_ok t \<Longrightarrow> q \<in> set (setting_secrets t) \<Longrightarrow> sr_account q \<noteq> ''platform''"
  by (auto simp: setting_secrets_def secrets_ok_def list_all_iff)

text \<open>A record of one part is written to the table of that part, and is no key of another part.\<close>

lemma put_parts:
  assumes "secrets_ok t"
  shows "sr_kind r \<noteq> ''provider'' \<Longrightarrow> put r v (provider_records t) = provider_records t"
    "sr_kind r \<noteq> ''oauth'' \<Longrightarrow> put r v (oauth_secrets t) = oauth_secrets t"
    "sr_kind r \<noteq> ''setting'' \<or> sr_account r = ''platform'' \<Longrightarrow> put r v (setting_secrets t) = setting_secrets t"
    "sr_kind r \<noteq> ''setting'' \<or> sr_account r \<noteq> ''platform'' \<Longrightarrow> put r v (platform_secrets t) = platform_secrets t"
    "sr_kind r \<noteq> ''mailoutbox'' \<Longrightarrow> put r v (outbox_secrets t) = outbox_secrets t"
proof -
  have f: "skey q = skey r \<Longrightarrow> sr_kind q = sr_kind r \<and> sr_account q = sr_account r" for q by (simp add: skey_def)
  show "sr_kind r \<noteq> ''provider'' \<Longrightarrow> put r v (provider_records t) = provider_records t"
    using f kinds_of_parts(1) by (intro put_other) metis
  show "sr_kind r \<noteq> ''oauth'' \<Longrightarrow> put r v (oauth_secrets t) = oauth_secrets t"
    using f kinds_of_parts(2) by (intro put_other) metis
  show "sr_kind r \<noteq> ''setting'' \<or> sr_account r = ''platform'' \<Longrightarrow> put r v (setting_secrets t) = setting_secrets t"
    using f kinds_of_parts(3) setting_accounts [OF assms] by (intro put_other) metis
  show "sr_kind r \<noteq> ''setting'' \<or> sr_account r \<noteq> ''platform'' \<Longrightarrow> put r v (platform_secrets t) = platform_secrets t"
    using f kinds_of_parts(4) by (intro put_other) metis
  show "sr_kind r \<noteq> ''mailoutbox'' \<Longrightarrow> put r v (outbox_secrets t) = outbox_secrets t"
    using f kinds_of_parts(5) by (intro put_other) metis
qed

lemma write_elsewhere:
  "sr_kind r \<noteq> ''provider'' \<Longrightarrow> provider_records (write_secret r v t) = provider_records t"
  "sr_kind r \<noteq> ''oauth'' \<Longrightarrow> oauth_secrets (write_secret r v t) = oauth_secrets t"
  "sr_kind r \<noteq> ''setting'' \<or> sr_account r = ''platform'' \<Longrightarrow> setting_secrets (write_secret r v t) = setting_secrets t"
  "sr_kind r \<noteq> ''setting'' \<or> sr_account r \<noteq> ''platform'' \<Longrightarrow> platform_secrets (write_secret r v t) = platform_secrets t"
  "sr_kind r \<in> {''provider'', ''oauth'', ''setting''} \<Longrightarrow> outbox_secrets (write_secret r v t) = outbox_secrets t"
  by (auto simp: write_secret_def provider_records_def oauth_secrets_def setting_secrets_def platform_secrets_def outbox_secrets_def)

lemma write_secret_put:
  assumes "r \<in> set (secrets t)" "secrets_ok t" "Encrypted v"
  shows "secrets (write_secret r v t) = put r v (secrets t)"
proof -
  have v: "like_enc v" "v \<noteq> []" using Encrypted_like [OF assms(3)] by auto
  note pp = put_parts [OF assms(2)]
  consider "r \<in> set (provider_records t)" | "r \<in> set (oauth_secrets t)" | "r \<in> set (setting_secrets t)"
    | "r \<in> set (platform_secrets t)" | "r \<in> set (outbox_secrets t)"
    using assms(1) by (auto simp: secrets_def)
  then show ?thesis
  proof cases
    case 1
    note k = kinds_of_parts(1) [OF this]
    show ?thesis unfolding secrets_def put_append
      by (simp add: write_provider [OF k v(2) 1 assms(2)] write_elsewhere pp k)
  next
    case 2
    note k = kinds_of_parts(2) [OF this]
    show ?thesis unfolding secrets_def put_append
      by (simp add: write_oauth [OF k v(2) 2 assms(2)] write_elsewhere pp k)
  next
    case 3
    note k = kinds_of_parts(3) [OF this]
    show ?thesis unfolding secrets_def put_append
      by (simp add: write_setting [OF k v(2) 3 assms(2)] write_elsewhere pp k)
  next
    case 4
    note k = kinds_of_parts(4) [OF this]
    show ?thesis unfolding secrets_def put_append
      by (simp add: write_platform [OF v(2) 4 assms(2)] write_elsewhere pp k)
  next
    case 5
    note k = kinds_of_parts(5) [OF this]
    show ?thesis unfolding secrets_def put_append
      by (simp add: write_outbox [OF v 5 assms(2)] write_elsewhere pp k)
  qed
qed

lemma write_secret_ok: "secrets_ok t \<Longrightarrow> secrets_ok (write_secret r v t)"
  by (auto simp: secrets_ok_def write_secret_def update_rows_def list_all_iff gm_wf_def comp_def split_def)

section \<open>Walking over the secrets\<close>

lemma distinct_filter_keys: "gm_wf m \<Longrightarrow> distinct (map fst (filter P m))"
  by (simp add: gm_wf_def distinct_map_filter)

lemma skeys_of_concat:
  assumes "gm_wf m" "\<And>k x. distinct (map skey (h (k, x)))" "\<And>k x q. q \<in> set (h (k, x)) \<Longrightarrow> sr_id q = k"
  shows "distinct (map skey (concat (map h m)))"
  using assms(1)
proof (induction m)
  case (Cons kx m)
  obtain k x where kx: "kx = (k, x)" by (cases kx)
  have ne: "skey q \<noteq> skey q'" if q: "q \<in> set (h (k, x))" and q': "q' \<in> set (concat (map h m))" for q q'
  proof -
    obtain k' x' where "(k', x') \<in> set m" "q' \<in> set (h (k', x'))" using q' by fastforce
    then have "sr_id q' \<in> fst ` set m" using assms(3) by force
    moreover have "k \<notin> fst ` set m" using Cons.prems kx by (simp add: gm_wf_def)
    ultimately show ?thesis using assms(3) [OF q] by (metis prod.inject skey_def)
  qed
  have "skey ` set (h (k, x)) \<inter> skey ` set (concat (map h m)) = {}"
    using ne by (intro equals0I) (elim IntE imageE, metis)
  moreover have "distinct (map skey (concat (map h m)))" using Cons by (simp add: gm_wf_def)
  ultimately show ?case using assms(2) [of k x]
    unfolding kx list.map concat.simps map_append distinct_append set_map by blast
qed simp

text \<open>The five parts have keys of their own.\<close>

definition part_of :: "string \<times> string \<times> string \<times> string \<Rightarrow> nat" where
  "part_of q = (case q of (a, k, i, f) \<Rightarrow>
     if k = ''provider'' then 0 else if k = ''oauth'' then 1 else if k = ''setting'' then (if a = ''platform'' then 3 else 2) else 4)"

lemma parts_apart:
  assumes "distinct (map skey xs)" "distinct (map skey ys)"
    and "\<And>q. q \<in> set xs \<Longrightarrow> part_of (skey q) = n" "\<And>q. q \<in> set ys \<Longrightarrow> n < part_of (skey q)"
  shows "distinct (map skey (xs @ ys))"
  using assms by (auto simp: disjoint_iff) (metis less_irrefl)

lemma skeys_distinct:
  assumes "secrets_ok t"
  shows "distinct (map skey (secrets t))"
proof -
  note wf = assms [unfolded secrets_ok_def]
  have inj: "distinct (map skey (map h (filter P m)))" if "gm_wf m" "\<And>k x k' x'. skey (h (k, x)) = skey (h (k', x')) \<Longrightarrow> k = k'"
    for h P and m :: "('a, 'b) gomap"
  proof -
    have "inj_on (skey \<circ> h) (set (filter P m))"
      using that by (clarsimp simp: inj_on_def gm_mem_iff) (metis option.inject)
    moreover have "distinct (filter P m)" using distinct_filter_keys [OF that(1), of P] unfolding distinct_map by simp
    ultimately show ?thesis by (simp add: distinct_map)
  qed
  have d0: "distinct (map skey (provider_records t))" unfolding provider_records_def
    by (rule inj) (use wf in \<open>auto simp: skey_def\<close>)
  have d2: "distinct (map skey (setting_secrets t))" unfolding setting_secrets_def
    by (rule inj) (use wf in \<open>auto simp: skey_def\<close>)
  have d3: "distinct (map skey (platform_secrets t))" unfolding platform_secrets_def
    by (rule inj) (use wf in \<open>auto simp: skey_def\<close>)
  have d4: "distinct (map skey (outbox_secrets t))" unfolding outbox_secrets_def
    by (rule inj) (use wf in \<open>auto simp: skey_def\<close>)
  have d1: "distinct (map skey (oauth_secrets t))" unfolding oauth_secrets_def
  proof (rule skeys_of_concat)
    show "gm_wf (t_oauth t)" using wf by simp
    show "distinct (map skey ((\<lambda>(i, r). map (\<lambda>(f, v). srec (oa_account r) ''oauth'' i f v)
        (filter (\<lambda>(f, v). v \<noteq> []) (oauth_fields r))) (k, x)))" for k x
      by (simp add: oauth_fields_def skey_def)
  qed auto
  have p: "q \<in> set (provider_records t) \<Longrightarrow> part_of (skey q) = 0" "q \<in> set (oauth_secrets t) \<Longrightarrow> part_of (skey q) = 1"
      "q \<in> set (setting_secrets t) \<Longrightarrow> part_of (skey q) = 2" "q \<in> set (platform_secrets t) \<Longrightarrow> part_of (skey q) = 3"
      "q \<in> set (outbox_secrets t) \<Longrightarrow> part_of (skey q) = 4" for q
    using kinds_of_parts [of q t] setting_accounts [OF assms, of q] by (simp_all add: part_of_def skey_def)
  have "distinct (map skey (platform_secrets t @ outbox_secrets t))"
    by (rule parts_apart [OF d3 d4 p(4)]) (simp_all add: p)
  then have "distinct (map skey (setting_secrets t @ platform_secrets t @ outbox_secrets t))"
    by (rule parts_apart [OF d2 _ p(3)]) (auto simp: p)
  then have "distinct (map skey (oauth_secrets t @ setting_secrets t @ platform_secrets t @ outbox_secrets t))"
    by (rule parts_apart [OF d1 _ p(2)]) (auto simp: p)
  then show ?thesis unfolding secrets_def
    by (rule parts_apart [OF d0 _ p(1)]) (auto simp: p)
qed

fun changed :: "(nat \<Rightarrow> secretRecord \<Rightarrow> serr + string option) \<Rightarrow> nat \<Rightarrow> secretRecord list \<Rightarrow> secretRecord list" where
  "changed mutate i [] = []"
| "changed mutate i (r # rs) =
     (case mutate i r of Inr (Some v) \<Rightarrow> r\<lparr>sr_value := v\<rparr> | _ \<Rightarrow> r) # changed mutate (i + 1) rs"

fun settled :: "(nat \<Rightarrow> secretRecord \<Rightarrow> serr + string option) \<Rightarrow> nat \<Rightarrow> secretRecord list \<Rightarrow> bool" where
  "settled mutate i [] \<longleftrightarrow> True"
| "settled mutate i (r # rs) \<longleftrightarrow> (\<exists>v. mutate i r = Inr v) \<and> settled mutate (i + 1) rs"

lemma effect_applySecret: "effect (applySecret r v) t x t' \<Longrightarrow> t' = write_secret r v t"
  unfolding applySecret_def by (auto dest!: effect_andThen simp: effects split: if_splits)

lemma walk_effect:
  assumes "effect (walk_records mutate i rs) t n t'" "secrets t = pre @ rs" "secrets_ok t"
    and "\<And>i r v. mutate i r = Inr (Some v) \<Longrightarrow> Encrypted v"
  shows "secrets t' = pre @ changed mutate i rs \<and> secrets_ok t' \<and> settled mutate i rs"
  using assms(1-3)
proof (induction rs arbitrary: i t n pre)
  case Nil
  then show ?case by (simp add: effects)
next
  case (Cons r rs)
  obtain new where new: "mutate i r = Inr new" "effect (case new of
         None \<Rightarrow> walk_records mutate (i + 1) rs
       | Some v \<Rightarrow> andThen (applySecret r v) (\<lambda>_. andThen (walk_records mutate (i + 1) rs) (\<lambda>n. give (n + 1)))) t n t'"
    using effect_andThen [OF Cons.prems(1) [unfolded walk_records.simps]] unfolding effects by blast
  show ?case
  proof (cases new)
    case None
    then show ?thesis using Cons.IH [of "i + 1" t n "pre @ [r]"] Cons.prems new by simp
  next
    case (Some v)
    from new(2) [unfolded Some] obtain y t1 where a: "effect (applySecret r v) t y t1"
        "effect (andThen (walk_records mutate (i + 1) rs) (\<lambda>n. give (n + 1))) t1 n t'"
      using effect_andThen by fastforce
    then obtain n1 where w: "effect (walk_records mutate (i + 1) rs) t1 n1 t'"
      by (auto dest!: effect_andThen simp: effects)
    have t1: "t1 = write_secret r v t" by (rule effect_applySecret [OF a(1)])
    have enc: "Encrypted v" using assms(4) new(1) Some by simp
    have "skey q \<noteq> skey r" if "q \<in> set pre \<union> set rs" for q
      using skeys_distinct [OF Cons.prems(3)] that unfolding Cons.prems(2) by auto (metis image_eqI)+
    then have "put r v (pre @ r # rs) = pre @ r\<lparr>sr_value := v\<rparr> # rs"
      using put_other [of pre r v] put_other [of rs r v] by (simp add: put_def)
    then have "secrets t1 = (pre @ [r\<lparr>sr_value := v\<rparr>]) @ rs"
      using write_secret_put [of r t v] Cons.prems(2,3) enc t1 by simp
    from Cons.IH [OF w this] write_secret_ok [OF Cons.prems(3)] t1 show ?thesis using new(1) Some by simp
  qed
qed

lemma walkSecrets_effect:
  assumes "effect (walkSecrets mutate) t n t'" "secrets_ok t" "\<And>i r v. mutate i r = Inr (Some v) \<Longrightarrow> Encrypted v"
  shows "secrets t' = changed mutate 0 (secrets t)" "secrets_ok t'" "settled mutate 0 (secrets t)"
proof -
  obtain rs t1 where "effect listSecrets t rs t1" "effect (walk_records mutate 0 rs) t1 n t'"
    using effect_andThen [OF assms(1) [unfolded walkSecrets_def]] by auto
  then have "effect (walk_records mutate 0 (secrets t)) t n t'" using effect_listSecrets by blast
  from walk_effect [OF this, of "[]"] assms(2,3)
  show "secrets t' = changed mutate 0 (secrets t)" "secrets_ok t'" "settled mutate 0 (secrets t)" by auto
qed

section \<open>Migration and rotation keep what the secrets say\<close>

definition nonces_ok :: "(nat \<Rightarrow> string option) \<Rightarrow> bool" where
  "nonces_ok nonces \<longleftrightarrow> (\<forall>i n. nonces i = Some n \<longrightarrow> length n = nonceSize)"

text \<open>What a stored secret says under a cipher, with the column it is in.\<close>

definition plain_of :: "aead \<Rightarrow> secret_cipher \<Rightarrow> secretRecord \<Rightarrow> (string \<times> string \<times> string \<times> string) \<times> (serr + string)" where
  "plain_of g c r = (skey r, decryptWith g c (sr_aad r) (sr_value r))"

definition readable_secrets :: "aead \<Rightarrow> secret_cipher \<Rightarrow> tenants \<Rightarrow> bool" where
  "readable_secrets g c t \<longleftrightarrow> list_all (\<lambda>r. \<exists>x. decryptWith g c (sr_aad r) (sr_value r) = Inr x) (secrets t)"

lemma with_value [simp]: "sr_aad (r\<lparr>sr_value := v\<rparr>) = sr_aad r" "skey (r\<lparr>sr_value := v\<rparr>) = skey r"
  by (simp_all add: sr_aad_def skey_def)

lemma encryptWith_decrypt:
  assumes "encryptWith g nonce (KeyCipher ks) aad text = Inr v" "aead_ok g" "\<And>n. nonce = Some n \<Longrightarrow> length n = nonceSize"
  shows "decryptWith g (KeyCipher ks) aad v = Inr text" "Encrypted v"
proof -
  obtain key old where ks: "ks = key # old" using assms(1) by (cases ks) (auto simp: encryptWith_def Locked_def)
  have e: "Encrypt g nonce (key # old) aad text = Inr v"
    using assms(1) by (auto simp: encryptWith_def ks Locked_def split: sum.splits)
  then obtain n where n: "nonce = Some n" by (auto simp: Encrypt_def split: option.splits)
  show "decryptWith g (KeyCipher ks) aad v = Inr text" "Encrypted v"
    using Encrypt_Decrypt [OF assms(2) assms(3) [OF n] e [unfolded n]] by (auto simp: decryptWith_def ks Locked_def)
qed

lemma decryptWith_plain: "ks \<noteq> [] \<Longrightarrow> \<not> Encrypted v \<Longrightarrow> decryptWith g (KeyCipher ks) aad v = Inr v"
  by (simp add: decryptWith_def Locked_def Decrypt_def)

lemma migrate_changed:
  assumes "settled (migrate_value g nonces (KeyCipher ks)) i rs" "aead_ok g" "nonces_ok nonces" "ks \<noteq> []"
  shows "map (plain_of g (KeyCipher ks)) (changed (migrate_value g nonces (KeyCipher ks)) i rs) = map (plain_of g (KeyCipher ks)) rs \<and>
    list_all (\<lambda>r. Encrypted (sr_value r) \<and> (\<exists>x. decryptWith g (KeyCipher ks) (sr_aad r) (sr_value r) = Inr x))
      (changed (migrate_value g nonces (KeyCipher ks)) i rs)"
  using assms(1)
proof (induction rs arbitrary: i)
  case (Cons r rs)
  let ?m = "migrate_value g nonces (KeyCipher ks)"
  let ?r' = "case ?m i r of Inr (Some v) \<Rightarrow> r\<lparr>sr_value := v\<rparr> | _ \<Rightarrow> r"
  have ok: "\<exists>v. ?m i r = Inr v" and rest: "settled ?m (i + 1) rs" using Cons.prems by auto
  have "plain_of g (KeyCipher ks) ?r' = plain_of g (KeyCipher ks) r \<and> Encrypted (sr_value ?r') \<and>
      (\<exists>x. decryptWith g (KeyCipher ks) (sr_aad ?r') (sr_value ?r') = Inr x)"
  proof (cases "Encrypted (sr_value r)")
    case True
    then show ?thesis using ok by (auto simp: migrate_value_def split: sum.splits)
  next
    case False
    then obtain v where v: "encryptWith g (nonces i) (KeyCipher ks) (sr_aad r) (sr_value r) = Inr v"
      using ok by (auto simp: migrate_value_def split: sum.splits)
    have "\<And>n. nonces i = Some n \<Longrightarrow> length n = nonceSize" using assms(3) by (simp add: nonces_ok_def)
    from encryptWith_decrypt [OF v assms(2) this] show ?thesis
      using False v decryptWith_plain [OF assms(4) False] by (simp add: migrate_value_def plain_of_def)
  qed
  then show ?case using Cons.IH [OF rest] by simp
qed simp

lemma migrate_encrypts:
  assumes "nonces_ok nonces" "aead_ok g"
  shows "migrate_value g nonces (KeyCipher ks) i r = Inr (Some v) \<Longrightarrow> Encrypted v"
  using assms encryptWith_decrypt(2) [of g "nonces i" ks "sr_aad r" "sr_value r" v]
  by (auto simp: migrate_value_def nonces_ok_def split: if_splits sum.splits)

lemma MigrateSecrets_done:
  assumes "MigrateSecrets g nonces (KeyCipher ks) flt (n, t) = ((n', t'), Inr (k, False))" "aead_ok g" "nonces_ok nonces" "secrets_ok t"
  shows "map (plain_of g (KeyCipher ks)) (secrets t') = map (plain_of g (KeyCipher ks)) (secrets t)"
    "list_all (\<lambda>r. Encrypted (sr_value r)) (secrets t')" "readable_secrets g (KeyCipher ks) t'" "secrets_ok t'"
proof -
  have ks: "ks \<noteq> []" using assms(1) by (auto simp: MigrateSecrets_def secrets_locked_def Locked_def split: if_splits)
  have "effect (walkSecrets (migrate_value g nonces (KeyCipher ks))) t k t'"
    using assms(1) RunTx_ok by (auto simp: MigrateSecrets_def split: if_splits prod.splits sum.splits)
  note w = walkSecrets_effect [OF this assms(4) migrate_encrypts [OF assms(3,2)]]
  note c = migrate_changed [OF w(3) assms(2,3) ks]
  show "map (plain_of g (KeyCipher ks)) (secrets t') = map (plain_of g (KeyCipher ks)) (secrets t)" using c w(1) by simp
  show "list_all (\<lambda>r. Encrypted (sr_value r)) (secrets t')" "readable_secrets g (KeyCipher ks) t'"
    using c w(1) by (auto simp: list_all_iff readable_secrets_def)
  show "secrets_ok t'" by (rule w(2))
qed

text \<open>Locked, or failed: nothing was written.\<close>

lemma MigrateSecrets_else:
  assumes "MigrateSecrets g nonces c flt (n, t) = ((n', t'), r)" "\<And>k. r \<noteq> Inr (k, False)"
  shows "t' = t"
  using assms RunTx_error by (auto simp: MigrateSecrets_def split: if_splits prod.splits sum.splits)

lemma rotate_changed:
  assumes "settled (rotate_value g nonces old (KeyCipher ks)) i rs" "aead_ok g" "nonces_ok nonces"
  shows "map (plain_of g (KeyCipher ks)) (changed (rotate_value g nonces old (KeyCipher ks)) i rs) = map (plain_of g old) rs \<and>
    list_all (\<lambda>r. \<exists>x. decryptWith g (KeyCipher ks) (sr_aad r) (sr_value r) = Inr x) (changed (rotate_value g nonces old (KeyCipher ks)) i rs)"
  using assms(1)
proof (induction rs arbitrary: i)
  case (Cons r rs)
  let ?m = "rotate_value g nonces old (KeyCipher ks)"
  have ok: "\<exists>v. ?m i r = Inr v" and rest: "settled ?m (i + 1) rs" using Cons.prems by auto
  then obtain x v where x: "decryptWith g old (sr_aad r) (sr_value r) = Inr x" "encryptWith g (nonces i) (KeyCipher ks) (sr_aad r) x = Inr v"
    by (auto simp: rotate_value_def split: sum.splits)
  have "\<And>n. nonces i = Some n \<Longrightarrow> length n = nonceSize" using assms(3) by (simp add: nonces_ok_def)
  note d = encryptWith_decrypt [OF x(2) assms(2) this]
  show ?case using Cons.IH [OF rest] x d by (simp add: rotate_value_def plain_of_def)
qed simp

lemma rotate_encrypts:
  assumes "nonces_ok nonces" "aead_ok g"
  shows "rotate_value g nonces old (KeyCipher ks) i r = Inr (Some v) \<Longrightarrow> Encrypted v"
  using assms encryptWith_decrypt(2) [of g "nonces i" ks "sr_aad r" _ v]
  by (auto simp: rotate_value_def nonces_ok_def split: sum.splits)

lemma RotateSecrets_done:
  assumes "RotateSecrets g nonces old (KeyCipher ks) flt (n, t) = ((n', t'), Inr k)" "aead_ok g" "nonces_ok nonces" "secrets_ok t"
  shows "map (plain_of g (KeyCipher ks)) (secrets t') = map (plain_of g old) (secrets t)"
    "readable_secrets g (KeyCipher ks) t'" "secrets_ok t'"
proof -
  have "effect (walkSecrets (rotate_value g nonces old (KeyCipher ks))) t k t'"
    using assms(1) RunTx_ok by (auto simp: RotateSecrets_def refuse_def split: if_splits)
  note w = walkSecrets_effect [OF this assms(4) rotate_encrypts [OF assms(3,2)]]
  show "map (plain_of g (KeyCipher ks)) (secrets t') = map (plain_of g old) (secrets t)"
    "readable_secrets g (KeyCipher ks) t'" "secrets_ok t'"
    using rotate_changed [OF w(3) assms(2,3)] w(1,2) by (simp_all add: readable_secrets_def)
qed

lemma RotateSecrets_error: "RotateSecrets g nonces old new flt (n, t) = ((n', t'), Inl e) \<Longrightarrow> t' = t"
  using RunTx_error by (auto simp: RotateSecrets_def refuse_def split: if_splits)

end
