(* ===== verification/KeyRotation.thy ===== *)
theory KeyRotation
  imports Secrets
begin

text \<open>
  The master key at startup and its rotation (\<open>prepareSecrets\<close> and \<open>rotateMasterKey\<close> of
  \<open>cmd/tiller-router/main.go\<close>): the key file, its sidecar and the tables are three durable things that
  change one after the other, so a rotation is the list of the states a crash can leave.
\<close>

record disk =
  d_key :: key_file
  d_previous :: key_file
  d_tables :: tenants

text \<open>\<open>WriteKeyFile\<close>: durable, not there, or renamed but not synced (an error although the name is in place).\<close>

datatype write_outcome = Written | NotWritten | Unsynced

definition key_text :: "string \<Rightarrow> key_file" where
  "key_text key = FileText (EncodeKey key @ [CHR 0x0A])"

definition written :: "write_outcome \<Rightarrow> string \<Rightarrow> key_file \<Rightarrow> key_file" where
  "written w key f = (if w = NotWritten then f else key_text key)"

text \<open>The data directory has one key file; \<open>extern\<close> reads any other path (\<open>TILLER_MASTER_KEY_FILE\<close>).\<close>

definition files_of :: "(string \<Rightarrow> key_file) \<Rightarrow> string \<Rightarrow> disk \<Rightarrow> string \<Rightarrow> key_file" where
  "files_of extern keyPath d f = (if f = keyPath then d_key d else extern f)"

section \<open>Startup\<close>

text \<open>A key is generated when neither variable is set, the file is missing and no row is encrypted.\<close>

definition generates :: "disk \<Rightarrow> string \<Rightarrow> string \<Rightarrow> bool \<Rightarrow> bool" where
  "generates d envKey envKeyFile has \<longleftrightarrow>
     trim_space envKeyFile = [] \<and> trim_space envKey = [] \<and> d_key d = FileMissing \<and> \<not> has"

definition key_generated :: "string option \<Rightarrow> write_outcome \<Rightarrow> string \<Rightarrow> string \<Rightarrow> bool \<Rightarrow> disk \<Rightarrow> disk" where
  "key_generated fresh w envKey envKeyFile has d =
     (case fresh of
        Some k \<Rightarrow> if generates d envKey envKeyFile has then d\<lparr>d_key := written w k (d_key d)\<rparr> else d
      | None \<Rightarrow> d)"

definition prepareSecrets ::
  "aead \<Rightarrow> (nat \<Rightarrow> string option) \<Rightarrow> string option \<Rightarrow> write_outcome \<Rightarrow> (string \<Rightarrow> key_file) \<Rightarrow> string \<Rightarrow> string \<Rightarrow> string
     \<Rightarrow> faults \<Rightarrow> nat \<Rightarrow> disk \<Rightarrow> disk \<times> (serr + secret_cipher \<times> keySource)" where
  "prepareSecrets g nonces fresh w extern keyPath envKey envKeyFile flt n d =
     (case HasEncryptedSecrets flt (n, d_tables d) of
        (_, Inl e) \<Rightarrow> (d, Inl e)
      | ((n1, _), Inr has) \<Rightarrow>
          let d1 = key_generated fresh w envKey envKeyFile has d in
          (case ResolveKey (files_of extern keyPath d) fresh (w = Written) keyPath envKey envKeyFile has of
             Inl e \<Rightarrow> (d1, Inl (KeyError e))
           | Inr (key, source) \<Rightarrow>
               (case (case key of None \<Rightarrow> Inr [] | Some k \<Rightarrow> new_cipher [k]) of
                  Inl e \<Rightarrow> (d1, Inl (CryptoError e))
                | Inr c \<Rightarrow>
                    (case MigrateSecrets g nonces (KeyCipher c) flt (n1, d_tables d1) of
                       ((_, t'), Inl e) \<Rightarrow> (d1\<lparr>d_tables := t'\<rparr>, Inl e)
                     | ((_, t'), Inr (_, locked)) \<Rightarrow>
                         (d1\<lparr>d_tables := t'\<rparr>, Inr (KeyCipher (if locked then [] else c), source))))))"

section \<open>Rotation\<close>

text \<open>\<open>resolveNewMasterKey\<close>: the key file named by one variable, else the other variable.\<close>

definition resolveNewMasterKey :: "(string \<Rightarrow> key_file) \<Rightarrow> string \<Rightarrow> string \<Rightarrow> serr + string" where
  "resolveNewMasterKey extern newFile newKey =
     (let key = (\<lambda>raw. case ParseKey raw of Inl e \<Rightarrow> Inl (KeyError (KeyBad e)) | Inr k \<Rightarrow> Inr k) in
      if trim_space newFile \<noteq> [] then
        (case extern (trim_space newFile) of FileText raw \<Rightarrow> key raw | _ \<Rightarrow> Inl (KeyError KeyRead))
      else if trim_space newKey \<noteq> [] then key newKey
      else Inl KeyUnavailable)"

definition rotate_tables ::
  "aead \<Rightarrow> (nat \<Rightarrow> string option) \<Rightarrow> cipher \<Rightarrow> cipher \<Rightarrow> faults \<Rightarrow> nat \<Rightarrow> disk \<Rightarrow> disk \<times> (serr + nat)" where
  "rotate_tables g nonces oc nc flt n d =
     (case RotateSecrets g nonces (KeyCipher oc) (KeyCipher nc) flt (n, d_tables d) of
        ((_, t'), r) \<Rightarrow> (d\<lparr>d_tables := t'\<rparr>, r))"

text \<open>
  With the key in the data file: preserve the old key beside it, write the new key, rotate the rows;
  a failed rotation puts the old key back. Without a readable old key there is nothing to preserve, and
  a failed rotation removes the new file.
\<close>

definition rotate_data_key ::
  "aead \<Rightarrow> (nat \<Rightarrow> string option) \<Rightarrow> cipher \<Rightarrow> cipher \<Rightarrow> string \<Rightarrow> (nat \<Rightarrow> write_outcome) \<Rightarrow> faults \<Rightarrow> nat \<Rightarrow> disk \<Rightarrow> disk list \<times> (serr + nat)" where
  "rotate_data_key g nonces oc nc new w flt n d =
     (case d_key d of
        FileText raw \<Rightarrow>
          (case ParseKey raw of
             Inl e \<Rightarrow> ([], Inl (KeyError (KeyBad e)))
           | Inr prev \<Rightarrow>
               let d1 = d\<lparr>d_previous := written (w 0) prev (d_previous d)\<rparr> in
               if w 0 \<noteq> Written then ([d1], Inl (KeyError KeyWrite))
               else let d2 = d1\<lparr>d_key := written (w 1) new (d_key d1)\<rparr> in
                 if w 1 \<noteq> Written then ([d1, d2], Inl (KeyError KeyWrite))
                 else (case rotate_tables g nonces oc nc flt n d2 of
                         (d3, Inr k) \<Rightarrow> ([d1, d2, d3], Inr k)
                       | (d3, Inl e) \<Rightarrow> ([d1, d2, d3, d3\<lparr>d_key := written (w 2) prev (d_key d3)\<rparr>], Inl e)))
      | _ \<Rightarrow>
          let d2 = d\<lparr>d_key := written (w 1) new (d_key d)\<rparr> in
          if w 1 \<noteq> Written then ([d2], Inl (KeyError KeyWrite))
          else (case rotate_tables g nonces oc nc flt n d2 of
                  (d3, Inr k) \<Rightarrow> ([d2, d3], Inr k)
                | (d3, Inl e) \<Rightarrow> ([d2, d3, d3\<lparr>d_key := FileMissing\<rparr>], Inl e)))"

text \<open>The durable states the command goes through, and what it reports.\<close>

definition rotateMasterKey ::
  "aead \<Rightarrow> (nat \<Rightarrow> string option) \<Rightarrow> serr + string \<Rightarrow> (nat \<Rightarrow> write_outcome) \<Rightarrow> (string \<Rightarrow> key_file) \<Rightarrow> string \<Rightarrow> string \<Rightarrow> string
     \<Rightarrow> faults \<Rightarrow> nat \<Rightarrow> disk \<Rightarrow> disk list \<times> (serr + nat)" where
  "rotateMasterKey g nonces newKey w extern keyPath envKey envKeyFile flt n d =
     (case HasEncryptedSecrets flt (n, d_tables d) of
        (_, Inl e) \<Rightarrow> ([], Inl e)
      | ((n1, _), Inr False) \<Rightarrow> ([], Inl NothingToRotate)
      | ((n1, _), Inr True) \<Rightarrow>
          (case ResolveKey (files_of extern keyPath d) None False keyPath envKey envKeyFile True of
             Inl e \<Rightarrow> ([], Inl (KeyError e))
           | Inr (None, _) \<Rightarrow> ([], Inl KeyUnavailable)
           | Inr (Some old, source) \<Rightarrow>
               (case newKey of
                  Inl e \<Rightarrow> ([], Inl e)
                | Inr new \<Rightarrow>
                    (case (new_cipher [old], new_cipher [new]) of
                       (Inl e, _) \<Rightarrow> ([], Inl (CryptoError e))
                     | (_, Inl e) \<Rightarrow> ([], Inl (CryptoError e))
                     | (Inr oc, Inr nc) \<Rightarrow>
                         if source = SourceDataFile \<or> source = SourceGenerated
                         then rotate_data_key g nonces oc nc new w flt n1 d
                         else (case rotate_tables g nonces oc nc flt n1 d of (d', r) \<Rightarrow> ([d'], r))))))"

section \<open>What a crash can leave\<close>

text \<open>A key file that reads, and the cipher of its key.\<close>

definition key_in :: "key_file \<Rightarrow> string \<Rightarrow> bool" where
  "key_in f k \<longleftrightarrow> (\<exists>raw. f = FileText raw \<and> ParseKey raw = Inr k)"

lemma graphic_line_trim:
  assumes "list_all (\<lambda>c. 33 \<le> byte c \<and> byte c < 127) s"
  shows "trim_space (s @ [CHR 0x0A]) = s"
proof -
  have a: "list_all (\<lambda>c. byte c < 127) (s @ [CHR 0x0A])" using assms by (auto simp: list_all_iff)
  have p: "pieces (s @ [CHR 0x0A]) = map (\<lambda>c. [c]) s @ [[CHR 0x0A]]" using graphic_pieces [OF a] by simp
  have nl: "is_space [CHR 0x0A]" unfolding is_space_def space_runes_def by code_simp
  have d: "dropWhile is_space (map (\<lambda>c. [c]) t) = map (\<lambda>c. [c]) t" if "list_all (\<lambda>c. 33 \<le> byte c \<and> byte c < 127) t" for t
    using that graphic_not_space by (cases t) auto
  have r: "list_all (\<lambda>c. 33 \<le> byte c \<and> byte c < 127) (rev s)" using assms by (simp add: list_all_iff)
  show ?thesis
  proof (cases s)
    case Nil
    then show ?thesis using nl by (simp add: trim_space_def trim_pieces_def p [unfolded Nil, simplified])
  next
    case (Cons c cs)
    then have "\<not> is_space [c]" using assms graphic_not_space by simp
    then have "dropWhile is_space (map (\<lambda>c. [c]) s @ [[CHR 0x0A]]) = map (\<lambda>c. [c]) s @ [[CHR 0x0A]]" using Cons by simp
    then show ?thesis using d [OF r] nl by (simp add: trim_space_def trim_pieces_def p rev_map)
  qed
qed

lemma graphic_key: "list_all (\<lambda>c. 33 \<le> byte c \<and> byte c < 127) (EncodeKey key)"
  using b64_encode_plain [of key] plain_digit_graphic by (auto simp: list_all_iff EncodeKey_def)

lemma key_text_in: "length key = KeySize \<Longrightarrow> key_in (key_text key) key"
proof -
  have "ParseKey (EncodeKey key @ [CHR 0x0A]) = ParseKey (EncodeKey key)"
    by (simp only: ParseKey_def Let_def graphic_line_trim [OF graphic_key] graphic_trim [OF graphic_key])
  then show "length key = KeySize \<Longrightarrow> ?thesis" using key_roundtrip by (simp add: key_in_def key_text_def)
qed

lemma key_in_size: "key_in f k \<Longrightarrow> length k = KeySize"
  by (auto simp: key_in_def ParseKey_def Let_def split: if_splits option.splits)

lemma key_in_unique: "key_in f k \<Longrightarrow> key_in f k' \<Longrightarrow> k = k'"
  by (auto simp: key_in_def)

lemma new_cipher_one: "new_cipher [k] = Inr c \<Longrightarrow> c = [k] \<and> length k = KeySize"
  by (auto simp: new_cipher_def split: if_splits)

text \<open>Some key on disk makes the stored secrets say what they said.\<close>

definition recoverable :: "aead \<Rightarrow> disk \<Rightarrow> ((string \<times> string \<times> string \<times> string) \<times> (serr + string)) list \<Rightarrow> bool" where
  "recoverable g d said \<longleftrightarrow>
     (\<exists>k. (key_in (d_key d) k \<or> key_in (d_previous d) k) \<and> map (plain_of g (KeyCipher [k])) (secrets (d_tables d)) = said)"

lemma rotate_tables_cases:
  assumes "rotate_tables g nonces [old] [new] flt n d = (d', r)" "aead_ok g" "nonces_ok nonces" "secrets_ok (d_tables d)"
  shows "d_key d' = d_key d \<and> d_previous d' = d_previous d \<and>
    (case r of Inl e \<Rightarrow> d_tables d' = d_tables d
     | Inr k \<Rightarrow> map (plain_of g (KeyCipher [new])) (secrets (d_tables d')) = map (plain_of g (KeyCipher [old])) (secrets (d_tables d)))"
proof -
  obtain n' t' where t: "RotateSecrets g nonces (KeyCipher [old]) (KeyCipher [new]) flt (n, d_tables d) = ((n', t'), r)"
    and d': "d' = d\<lparr>d_tables := t'\<rparr>"
    using assms(1) by (auto simp: rotate_tables_def split: prod.splits)
  show ?thesis
    using RotateSecrets_error [of g nonces "KeyCipher [old]" "KeyCipher [new]"] RotateSecrets_done(1) [OF _ assms(2,3,4)] t d'
    by (cases r) auto
qed

text \<open>
  Whatever write fails and wherever the process dies, one of the two key files still reads every
  secret as before: the sidecar is written before the key file changes.
\<close>

lemma rotate_data_key_recoverable:
  assumes "rotate_data_key g nonces [old] [new] new w flt n d = (ds, r)" "d' \<in> set ds"
    and "aead_ok g" "nonces_ok nonces" "secrets_ok (d_tables d)" "key_in (d_key d) old" "length new = KeySize"
  shows "recoverable g d' (map (plain_of g (KeyCipher [old])) (secrets (d_tables d)))"
proof -
  let ?said = "map (plain_of g (KeyCipher [old])) (secrets (d_tables d))"
  obtain raw where raw: "d_key d = FileText raw" "ParseKey raw = Inr old" using assms(6) by (auto simp: key_in_def)
  have size: "length old = KeySize" by (rule key_in_size [OF assms(6)])
  let ?d1 = "d\<lparr>d_previous := written (w 0) old (d_previous d)\<rparr>"
  let ?d2 = "?d1\<lparr>d_key := written (w 1) new (d_key d)\<rparr>"
  have first: "recoverable g ?d1 ?said" using assms(6) by (auto simp: recoverable_def)
  have second: "recoverable g x ?said" if "d_previous x = key_text old" "d_tables x = d_tables d" for x
    using that key_text_in [OF size] by (auto simp: recoverable_def)
  obtain d3 r3 where d3: "rotate_tables g nonces [old] [new] flt n ?d2 = (d3, r3)" by (cases "rotate_tables g nonces [old] [new] flt n ?d2")
  from rotate_tables_cases [OF this assms(3,4)] assms(5)
  have t3: "d_key d3 = d_key ?d2" "d_previous d3 = d_previous ?d2"
    "case r3 of Inl e \<Rightarrow> d_tables d3 = d_tables d | Inr k \<Rightarrow> map (plain_of g (KeyCipher [new])) (secrets (d_tables d3)) = ?said"
    by (simp_all split: sum.splits)
  show ?thesis
  proof (cases "w 0 = Written")
    case False
    then show ?thesis using assms(1,2) first by (auto simp: rotate_data_key_def raw Let_def)
  next
    case w0: True
    have prev: "d_previous ?d2 = key_text old" using w0 by (simp add: written_def)
    show ?thesis
    proof (cases "w 1 = Written")
      case False
      then show ?thesis using assms(1,2) first w0 second [of ?d2] prev by (auto simp: rotate_data_key_def raw Let_def)
    next
      case w1: True
      have third: "recoverable g d3 ?said"
      proof (cases r3)
        case (Inl e)
        then show ?thesis using second [of d3] t3 prev by simp
      next
        case (Inr k)
        have "key_in (d_key d3) new" using t3(1) w1 key_text_in [OF assms(7)] by (simp add: written_def)
        then show ?thesis using t3(3) Inr by (auto simp: recoverable_def)
      qed
      have fourth: "recoverable g (d3\<lparr>d_key := f\<rparr>) ?said" if "r3 = Inl e" for e f
        using second [of "d3\<lparr>d_key := f\<rparr>"] t3 prev that by simp
      show ?thesis using assms(1,2) d3 first second [of ?d2] prev third fourth w0 w1
        by (cases r3) (auto simp: rotate_data_key_def raw Let_def)
    qed
  qed
qed

text \<open>A rotation that got as far as the key file leaves no other key on disk than the one it found and the new one.\<close>

lemma rotation_overwrites_the_sidecar:
  assumes "rotate_data_key g nonces oc nc new w flt n d = (ds, r)" "d' \<in> set ds" "key_in (d_key d) cur" "w 0 = Written"
  shows "d_previous d' = key_text cur \<and> d_key d' \<in> {d_key d, key_text cur, key_text new}"
proof -
  obtain raw where raw: "d_key d = FileText raw" "ParseKey raw = Inr cur" using assms(3) by (auto simp: key_in_def)
  have rt: "d_key x = d_key y \<and> d_previous x = d_previous y" if "rotate_tables g nonces oc nc flt n y = (x, r')" for x y r'
    using that by (auto simp: rotate_tables_def split: prod.splits)
  show ?thesis using assms(1,2,4)
    by (auto simp: rotate_data_key_def raw written_def Let_def split: prod.splits sum.splits if_splits dest!: rt)
qed

lemma has_encrypted:
  assumes "HasEncryptedSecrets flt (n, t) = (s, Inr has)" "r \<in> set (secrets t)" "Encrypted (sr_value r)"
  shows "has"
proof -
  have like: "like_enc (sr_value r)" using Encrypted_like [OF assms(3)] by simp
  have has: "has \<longleftrightarrow>
     list_ex (\<lambda>(i, p). like_enc (coalesce (pv_credential p))) (t_providers t) \<or>
     list_ex (\<lambda>(i, r). list_ex (\<lambda>(f, v). like_enc v) (oauth_fields r)) (t_oauth t) \<or>
     list_ex (\<lambda>((a, k), v). like_enc v \<and> k \<in> set secretSettingKeys) (t_settings t) \<or>
     list_ex (\<lambda>(k, v). like_enc v \<and> k \<in> set platformSecretSettingKeys) (t_platform t) \<or>
     list_ex (\<lambda>(i, v). like_enc (coalesce v)) (t_outbox t)"
    using assms(1) unfolding HasEncryptedSecrets_def query_def Let_def split_conv by (auto split: if_splits)
  consider "r \<in> set (provider_records t)" | "r \<in> set (oauth_secrets t)" | "r \<in> set (setting_secrets t)"
    | "r \<in> set (platform_secrets t)" | "r \<in> set (outbox_secrets t)"
    using assms(2) by (auto simp: secrets_def)
  then show ?thesis
  proof cases
    case 1
    then show ?thesis using like unfolding has by (fastforce simp: provider_records_def list_ex_iff)
  qed (use like has in \<open>fastforce simp: oauth_secrets_def setting_secrets_def platform_secrets_def outbox_secrets_def list_ex_iff\<close>)+
qed

text \<open>The command with the key in the data directory.\<close>

lemma rotateMasterKey_recoverable:
  assumes "rotateMasterKey g nonces newKey w extern keyPath envKey envKeyFile flt n d = (ds, r)" "d' \<in> set ds"
    and "trim_space envKey = []" "trim_space envKeyFile = []"
    and "aead_ok g" "nonces_ok nonces" "secrets_ok (d_tables d)" "key_in (d_key d) old"
  shows "recoverable g d' (map (plain_of g (KeyCipher [old])) (secrets (d_tables d)))"
proof -
  obtain raw where raw: "d_key d = FileText raw" "ParseKey raw = Inr old" using assms(8) by (auto simp: key_in_def)
  have resolve: "ResolveKey (files_of extern keyPath d) None False keyPath envKey envKeyFile True = Inr (Some old, SourceDataFile)"
    using assms(3,4) raw by (simp add: ResolveKey_def files_of_def parsed_def)
  obtain n1 new oc nc where c: "new_cipher [old] = Inr oc" "new_cipher [new] = Inr nc"
    and run: "rotate_data_key g nonces oc nc new w flt n1 d = (ds, r)"
    using assms(1,2) unfolding rotateMasterKey_def resolve by (auto split: prod.splits sum.splits bool.splits)
  from c new_cipher_one have o: "oc = [old]" "nc = [new]" "length new = KeySize" by blast+
  from rotate_data_key_recoverable [OF run [unfolded o] assms(2,5,6,7,8) o(3)] show ?thesis .
qed

section \<open>What a start gives\<close>

text \<open>
  Either the service starts locked and the tables are as they were, or every secret reads under the
  key in use as it did; a key is generated only when nothing was encrypted, and it is on disk before a
  row is encrypted under it.
\<close>

lemma prepareSecrets_started:
  assumes "prepareSecrets g nonces fresh w extern keyPath envKey envKeyFile flt n d = (d', Inr (KeyCipher c, source))"
    and "aead_ok g" "nonces_ok nonces" "secrets_ok (d_tables d)"
  shows "c = [] \<and> d_tables d' = d_tables d \<or>
    (\<exists>k. c = [k] \<and> readable_secrets g (KeyCipher c) (d_tables d') \<and> list_all (\<lambda>r. Encrypted (sr_value r)) (secrets (d_tables d')) \<and>
       map (plain_of g (KeyCipher c)) (secrets (d_tables d')) = map (plain_of g (KeyCipher c)) (secrets (d_tables d)) \<and>
       (source = SourceGenerated \<longrightarrow> key_in (d_key d') k \<and> list_all (\<lambda>r. \<not> Encrypted (sr_value r)) (secrets (d_tables d))))"
proof -
  let ?has_run = "HasEncryptedSecrets flt (n, d_tables d)"
  obtain n1 t1 has where has: "?has_run = ((n1, t1), Inr has)"
    using assms(1) by (auto simp: prepareSecrets_def split: prod.splits sum.splits)
  let ?d1 = "key_generated fresh w envKey envKeyFile has d"
  have d1: "d_tables ?d1 = d_tables d" by (simp add: key_generated_def split: option.split)
  note run = assms(1) [unfolded prepareSecrets_def has Let_def split_conv prod.case sum.case]
  obtain key src where res: "ResolveKey (files_of extern keyPath d) fresh (w = Written) keyPath envKey envKeyFile has = Inr (key, src)"
    using run by (auto split: sum.splits)
  note run = run [unfolded res sum.case split_conv]
  obtain c0 where c0: "(case key of None \<Rightarrow> Inr [] | Some k \<Rightarrow> new_cipher [k]) = Inr c0"
    using run by (auto split: sum.splits)
  note run = run [unfolded c0 sum.case d1]
  obtain n2 t' m locked where mig: "MigrateSecrets g nonces (KeyCipher c0) flt (n1, d_tables d) = ((n2, t'), Inr (m, locked))"
    and d': "d' = ?d1\<lparr>d_tables := t'\<rparr>" and c: "c = (if locked then [] else c0)" and src: "source = src"
    using run by (auto split: prod.splits sum.splits)
  show ?thesis
  proof (cases locked)
    case True
    then show ?thesis using MigrateSecrets_else [OF mig] c d' by simp
  next
    case False
    have "MigrateSecrets g nonces (KeyCipher c0) flt (n1, d_tables d) = ((n2, t'), Inr (m, False))" using mig False by simp
    note mdone = MigrateSecrets_done [OF this assms(2-4)]
    have "c0 \<noteq> []" using mig False by (auto simp: MigrateSecrets_def secrets_locked_def Locked_def)
    then obtain k where k: "key = Some k" "c0 = [k]" "length k = KeySize"
      using c0 new_cipher_one by (cases key) auto
    have "key_in (d_key d') k \<and> \<not> has" if "src = SourceGenerated"
    proof -
      have "fresh = Some k" "w = Written" "generates d envKey envKeyFile has" "\<not> has"
        using res that k by (auto simp: ResolveKey_def parsed_def generates_def files_of_def split: if_splits key_file.splits sum.splits option.splits)
      then show ?thesis using key_text_in [OF k(3)] by (simp add: d' key_generated_def written_def)
    qed
    then show ?thesis using mdone c d' k False src has_encrypted [OF has] by (auto simp: list_all_iff)
  qed
qed

end
