(* ===== verification/Schema.thy ===== *)
theory Schema
  imports Secrets
begin

text \<open>
  The statements the store runs on the tenant tables, each with the constraints of
  \<open>internal/database/migrations\<close> it is subject to. \<open>None\<close> is a violated constraint; the number is
  \<open>RowsAffected\<close>. A foreign key is checked where the code could violate it.
\<close>

section \<open>Identity of a caller\<close>

text \<open>An account-scoped handle (\<open>Scope\<close>): the account, the cipher and whether plan limits are enforced.\<close>

record scope =
  sc_account :: string
  sc_cipher :: secret_cipher
  sc_enforce :: bool

type_synonym statement = "tenants \<Rightarrow> (tenants \<times> nat) option"

definition account_exists :: "string \<Rightarrow> tenants \<Rightarrow> bool" where
  "account_exists a t \<longleftrightarrow> gm_get (accounts (t_core t)) a \<noteq> None"

section \<open>Names\<close>

text \<open>The \<open>CHECK\<close> on namespace names, and the one on model names shown to clients.\<close>

definition slug_ok :: "string \<Rightarrow> bool" where
  "slug_ok name \<longleftrightarrow> name \<noteq> [] \<and> length name \<le> 63 \<and> list_all (\<lambda>c. slug_start c \<or> c = CHR ''-'') name \<and>
     slug_start (hd name) \<and> slug_start (last name)"

definition model_name_char :: "char \<Rightarrow> bool" where
  "model_name_char c \<longleftrightarrow> (let n = byte c in 65 \<le> n \<and> n \<le> 90 \<or> 97 \<le> n \<and> n \<le> 122 \<or> 48 \<le> n \<and> n \<le> 57) \<or> c \<in> set ''._~/-''"

fun double_slash :: "string \<Rightarrow> bool" where
  "double_slash (a # b # s) \<longleftrightarrow> a = CHR ''/'' \<and> b = CHR ''/'' \<or> double_slash (b # s)"
| "double_slash _ \<longleftrightarrow> False"

definition model_name_ok :: "string \<Rightarrow> bool" where
  "model_name_ok s \<longleftrightarrow> s \<noteq> [] \<and> length s \<le> 255 \<and> list_all model_name_char s \<and> hd s \<noteq> CHR ''/'' \<and> last s \<noteq> CHR ''/'' \<and>
     \<not> double_slash s"

section \<open>Inserting\<close>

definition insert_namespace :: "string \<Rightarrow> string \<Rightarrow> kind \<Rightarrow> string \<Rightarrow> statement" where
  "insert_namespace a name k entity t =
     (if account_exists a t \<and> slug_ok name \<and> gm_get (t_namespaces t) (a, name) = None \<and>
         count_rows (\<lambda>q r. fst q = a \<and> ns_entity r = entity) (t_namespaces t) = 0
      then Some (t\<lparr>t_namespaces := gm_set (a, name) \<lparr>ns_kind = k, ns_entity = entity\<rparr> (t_namespaces t)\<rparr>, 1)
      else None)"

definition insert_provider :: "string \<Rightarrow> provider_row \<Rightarrow> statement" where
  "insert_provider i r t =
     (if account_exists (pv_account r) t \<and> gm_get (t_providers t) i = None \<and>
         gm_get (t_namespaces t) (pv_account r, pv_name r) \<noteq> None \<and>
         count_rows (\<lambda>_ q. pv_account q = pv_account r \<and> pv_name q = pv_name r) (t_providers t) = 0
      then Some (t\<lparr>t_providers := gm_set i r (t_providers t)\<rparr>, 1) else None)"

definition insert_group :: "string \<Rightarrow> group_row \<Rightarrow> statement" where
  "insert_group i r t =
     (if account_exists (vg_account r) t \<and> gm_get (t_groups t) i = None \<and>
         gm_get (t_namespaces t) (vg_account r, vg_name r) \<noteq> None \<and>
         count_rows (\<lambda>_ q. vg_account q = vg_account r \<and> vg_name q = vg_name r) (t_groups t) = 0
      then Some (t\<lparr>t_groups := gm_set i r (t_groups t)\<rparr>, 1) else None)"

definition virtual_ok :: "string \<Rightarrow> virtual_row \<Rightarrow> tenants \<Rightarrow> bool" where
  "virtual_ok i r t \<longleftrightarrow> gm_get (t_groups t) (vm_group r) \<noteq> None \<and> gm_get (t_providers t) (vm_target_provider r) \<noteq> None \<and>
     gm_get (t_models t) (vm_target_model r) \<noteq> None \<and> model_name_ok (vm_name r) \<and>
     vm_mode r \<in> {''fixed'', ''ordered_fallback''} \<and>
     count_rows (\<lambda>j q. j \<noteq> i \<and> vm_group q = vm_group r \<and> vm_name q = vm_name r) (t_virtual t) = 0"

definition insert_virtual :: "string \<Rightarrow> virtual_row \<Rightarrow> statement" where
  "insert_virtual i r t =
     (if gm_get (t_virtual t) i = None \<and> virtual_ok i r t
      then Some (t\<lparr>t_virtual := gm_set i r (t_virtual t)\<rparr>, 1) else None)"

definition insert_target :: "string \<Rightarrow> target_row \<Rightarrow> statement" where
  "insert_target i r t =
     (if gm_get (t_targets t) i = None \<and> gm_get (t_virtual t) (vt_virtual r) \<noteq> None \<and> gm_get (t_models t) (vt_model r) \<noteq> None \<and>
         1 \<le> vt_position r \<and>
         count_rows (\<lambda>_ q. vt_virtual q = vt_virtual r \<and> (vt_model q = vt_model r \<or> vt_position q = vt_position r)) (t_targets t) = 0
      then Some (t\<lparr>t_targets := gm_set i r (t_targets t)\<rparr>, 1) else None)"

definition client_ok :: "string \<Rightarrow> client_row \<Rightarrow> tenants \<Rightarrow> bool" where
  "client_ok i r t \<longleftrightarrow> account_exists (ck_account r) t \<and> ck_type r \<in> {''catalogue'', ''single''} \<and>
     count_rows (\<lambda>j q. j \<noteq> i \<and> (ck_selector q = ck_selector r \<or> ck_account q = ck_account r \<and> ck_name q = ck_name r)) (t_clients t) = 0"

definition insert_client :: "string \<Rightarrow> client_row \<Rightarrow> statement" where
  "insert_client i r t =
     (if gm_get (t_clients t) i = None \<and> client_ok i r t
      then Some (t\<lparr>t_clients := gm_set i r (t_clients t)\<rparr>, 1) else None)"

definition template_ok :: "string \<Rightarrow> template_row \<Rightarrow> tenants \<Rightarrow> bool" where
  "template_ok i r t \<longleftrightarrow> account_exists (ct_account r) t \<and>
     count_rows (\<lambda>j q. j \<noteq> i \<and> ct_account q = ct_account r \<and> ct_name q = ct_name r) (t_templates t) = 0"

definition insert_template :: "string \<Rightarrow> template_row \<Rightarrow> statement" where
  "insert_template i r t =
     (if gm_get (t_templates t) i = None \<and> template_ok i r t
      then Some (t\<lparr>t_templates := gm_set i r (t_templates t)\<rparr>, 1) else None)"

text \<open>The row of a Single key is written or rewritten; exactly one of the two targets is set.\<close>

definition upsert_binding :: "string \<Rightarrow> binding_row \<Rightarrow> statement" where
  "upsert_binding c r t =
     (if gm_get (t_clients t) c \<noteq> None \<and> model_name_ok (sb_name r) \<and> (sb_real r \<noteq> None) \<noteq> (sb_virtual r \<noteq> None) \<and>
         (case sb_real r of None \<Rightarrow> True | Some m \<Rightarrow> gm_get (t_models t) m \<noteq> None) \<and>
         (case sb_virtual r of None \<Rightarrow> True | Some v \<Rightarrow> gm_get (t_virtual t) v \<noteq> None)
      then Some (t\<lparr>t_bindings := gm_set c (case gm_get (t_bindings t) c of
             None \<Rightarrow> r | Some q \<Rightarrow> r\<lparr>sb_created := sb_created q, sb_account := sb_account q\<rparr>) (t_bindings t)\<rparr>, 1)
      else None)"

section \<open>Renaming\<close>

text \<open>
  A namespace takes another name: the key \<open>(account, name)\<close> must be free, and \<open>ON UPDATE CASCADE\<close> carries the
  name to the provider or the group that has it.
\<close>

definition rename_namespace :: "string \<Rightarrow> kind \<Rightarrow> string \<Rightarrow> string \<Rightarrow> statement" where
  "rename_namespace a k entity name t =
     (case select_rows (\<lambda>q r. fst q = a \<and> ns_entity r = entity \<and> ns_kind r = k) (t_namespaces t) of
        [] \<Rightarrow> Some (t, 0)
      | (q, r) # _ \<Rightarrow>
          if snd q = name then Some (t, 1)
          else if slug_ok name \<and> gm_get (t_namespaces t) (a, name) = None
          then Some (t\<lparr>t_namespaces := gm_set (a, name) r (gm_del q (t_namespaces t)),
                 t_providers := update_rows (\<lambda>_ p. pv_account p = a \<and> pv_name p = snd q) (pv_name_update (\<lambda>_. name)) (t_providers t),
                 t_groups := update_rows (\<lambda>_ p. vg_account p = a \<and> vg_name p = snd q) (vg_name_update (\<lambda>_. name)) (t_groups t)\<rparr>, 1)
          else None)"

section \<open>Deleting, with what the foreign keys do\<close>

definition del_bindings :: "(string \<Rightarrow> binding_row \<Rightarrow> bool) \<Rightarrow> statement" where
  "del_bindings P t = Some (t\<lparr>t_bindings := delete_rows P (t_bindings t)\<rparr>, count_rows P (t_bindings t))"

definition del_targets :: "(string \<Rightarrow> target_row \<Rightarrow> bool) \<Rightarrow> statement" where
  "del_targets P t = Some (t\<lparr>t_targets := delete_rows P (t_targets t)\<rparr>, count_rows P (t_targets t))"

text \<open>A client key takes its matrix and its binding with it.\<close>

definition del_clients :: "(string \<Rightarrow> client_row \<Rightarrow> bool) \<Rightarrow> statement" where
  "del_clients P t =
     (let gone = (\<lambda>i. case gm_get (t_clients t) i of None \<Rightarrow> False | Some r \<Rightarrow> P i r) in
      Some (t\<lparr>t_clients := delete_rows P (t_clients t),
              t_defaults := delete_rows (\<lambda>q _. gone (fst q)) (t_defaults t),
              t_perms := delete_rows (\<lambda>q _. gone (fst q)) (t_perms t),
              t_bindings := delete_rows (\<lambda>i _. gone i) (t_bindings t)\<rparr>, count_rows P (t_clients t)))"

text \<open>A template takes its matrix with it and leaves the keys linked to it without a template.\<close>

definition del_templates :: "(string \<Rightarrow> template_row \<Rightarrow> bool) \<Rightarrow> statement" where
  "del_templates P t =
     (let gone = (\<lambda>i. case gm_get (t_templates t) i of None \<Rightarrow> False | Some r \<Rightarrow> P i r) in
      Some (t\<lparr>t_templates := delete_rows P (t_templates t),
              t_tdefaults := delete_rows (\<lambda>q _. gone (fst q)) (t_tdefaults t),
              t_tperms := delete_rows (\<lambda>q _. gone (fst q)) (t_tperms t),
              t_clients := update_rows (\<lambda>_ c. case ck_template c of None \<Rightarrow> False | Some x \<Rightarrow> gone x)
                (ck_template_update (\<lambda>_. None)) (t_clients t)\<rparr>, count_rows P (t_templates t)))"

text \<open>A virtual model takes its targets with it; a binding that names it forbids the delete.\<close>

definition del_virtual :: "(string \<Rightarrow> virtual_row \<Rightarrow> bool) \<Rightarrow> statement" where
  "del_virtual P t =
     (let gone = (\<lambda>i. case gm_get (t_virtual t) i of None \<Rightarrow> False | Some r \<Rightarrow> P i r) in
      if count_rows (\<lambda>_ b. case sb_virtual b of None \<Rightarrow> False | Some v \<Rightarrow> gone v) (t_bindings t) \<noteq> 0 then None
      else Some (t\<lparr>t_virtual := delete_rows P (t_virtual t), t_targets := delete_rows (\<lambda>_ r. gone (vt_virtual r)) (t_targets t)\<rparr>,
             count_rows P (t_virtual t)))"

definition del_groups :: "(string \<Rightarrow> group_row \<Rightarrow> bool) \<Rightarrow> statement" where
  "del_groups P t =
     (let gone = (\<lambda>i. case gm_get (t_groups t) i of None \<Rightarrow> False | Some r \<Rightarrow> P i r) in
      if count_rows (\<lambda>_ v. gone (vm_group v)) (t_virtual t) \<noteq> 0 then None
      else Some (t\<lparr>t_groups := delete_rows P (t_groups t)\<rparr>, count_rows P (t_groups t)))"

text \<open>A provider model is kept by a target, by a virtual model whose primary target it is and by a binding.\<close>

definition del_models :: "(string \<Rightarrow> model_row \<Rightarrow> bool) \<Rightarrow> statement" where
  "del_models P t =
     (let gone = (\<lambda>i. case gm_get (t_models t) i of None \<Rightarrow> False | Some r \<Rightarrow> P i r) in
      if count_rows (\<lambda>_ r. gone (vt_model r)) (t_targets t) \<noteq> 0 \<or> count_rows (\<lambda>_ v. gone (vm_target_model v)) (t_virtual t) \<noteq> 0 \<or>
         count_rows (\<lambda>_ b. case sb_real b of None \<Rightarrow> False | Some m \<Rightarrow> gone m) (t_bindings t) \<noteq> 0 then None
      else Some (t\<lparr>t_models := delete_rows P (t_models t)\<rparr>, count_rows P (t_models t)))"

text \<open>A provider is kept by its models and by a virtual model; its OAuth tokens go with it.\<close>

definition del_providers :: "(string \<Rightarrow> provider_row \<Rightarrow> bool) \<Rightarrow> statement" where
  "del_providers P t =
     (let gone = (\<lambda>i. case gm_get (t_providers t) i of None \<Rightarrow> False | Some r \<Rightarrow> P i r) in
      if count_rows (\<lambda>_ m. gone (pm_provider m)) (t_models t) \<noteq> 0 \<or> count_rows (\<lambda>_ v. gone (vm_target_provider v)) (t_virtual t) \<noteq> 0 then None
      else Some (t\<lparr>t_providers := delete_rows P (t_providers t), t_oauth := delete_rows (\<lambda>i _. gone i) (t_oauth t)\<rparr>,
             count_rows P (t_providers t)))"

definition del_namespaces :: "(string \<times> string \<Rightarrow> ns_row \<Rightarrow> bool) \<Rightarrow> statement" where
  "del_namespaces P t =
     (let gone = (\<lambda>q. case gm_get (t_namespaces t) q of None \<Rightarrow> False | Some r \<Rightarrow> P q r) in
      if count_rows (\<lambda>_ p. gone (pv_account p, pv_name p)) (t_providers t) \<noteq> 0 \<or>
         count_rows (\<lambda>_ g. gone (vg_account g, vg_name g)) (t_groups t) \<noteq> 0 then None
      else Some (t\<lparr>t_namespaces := delete_rows P (t_namespaces t)\<rparr>, count_rows P (t_namespaces t)))"

section \<open>Permission matrices\<close>

text \<open>
  Clients and templates share the list and update code through \<open>permissionMatrix\<close>, which names the two
  tables of an owner.
\<close>

datatype permissionMatrix = clientMatrix | templateMatrix

fun defaults_of :: "permissionMatrix \<Rightarrow> tenants \<Rightarrow> cells" where
  "defaults_of clientMatrix t = t_defaults t"
| "defaults_of templateMatrix t = t_tdefaults t"

fun perms_of :: "permissionMatrix \<Rightarrow> tenants \<Rightarrow> cells" where
  "perms_of clientMatrix t = t_perms t"
| "perms_of templateMatrix t = t_tperms t"

fun with_defaults :: "permissionMatrix \<Rightarrow> cells \<Rightarrow> tenants \<Rightarrow> tenants" where
  "with_defaults clientMatrix m t = t\<lparr>t_defaults := m\<rparr>"
| "with_defaults templateMatrix m t = t\<lparr>t_tdefaults := m\<rparr>"

fun with_perms :: "permissionMatrix \<Rightarrow> cells \<Rightarrow> tenants \<Rightarrow> tenants" where
  "with_perms clientMatrix m t = t\<lparr>t_perms := m\<rparr>"
| "with_perms templateMatrix m t = t\<lparr>t_tperms := m\<rparr>"

text \<open>The owners of an account.\<close>

fun owners :: "permissionMatrix \<Rightarrow> string \<Rightarrow> tenants \<Rightarrow> string list" where
  "owners clientMatrix a t = map fst (select_rows (\<lambda>_ r. ck_account r = a) (t_clients t))"
| "owners templateMatrix a t = map fst (select_rows (\<lambda>_ r. ct_account r = a) (t_templates t))"

fun notFound :: "permissionMatrix \<Rightarrow> serr" where
  "notFound clientMatrix = ErrClientKeyNotFound"
| "notFound templateMatrix = ErrTemplateNotFound"

definition default_cell :: "string \<Rightarrow> time \<Rightarrow> bool \<Rightarrow> cell" where
  "default_cell a now on = \<lparr>c_account = a, c_on = on, c_created = None, c_updated = now\<rparr>"

definition perm_cell :: "string \<Rightarrow> time \<Rightarrow> bool \<Rightarrow> cell" where
  "perm_cell a now on = \<lparr>c_account = a, c_on = on, c_created = Some now, c_updated = now\<rparr>"

text \<open>\<open>INSERT ... SELECT\<close> into one of the four tables, and the variant that skips the keys already there.\<close>

definition insert_defaults :: "permissionMatrix \<Rightarrow> (tenants \<Rightarrow> ((string \<times> kind \<times> string) \<times> cell) list) \<Rightarrow> statement" where
  "insert_defaults m f t = map_option (\<lambda>c. (with_defaults m c t, length (f t))) (insert_rows (f t) (defaults_of m t))"

definition insert_perms :: "permissionMatrix \<Rightarrow> (tenants \<Rightarrow> ((string \<times> kind \<times> string) \<times> cell) list) \<Rightarrow> statement" where
  "insert_perms m f t = map_option (\<lambda>c. (with_perms m c t, length (f t))) (insert_rows (f t) (perms_of m t))"

definition fill_defaults :: "permissionMatrix \<Rightarrow> (tenants \<Rightarrow> ((string \<times> kind \<times> string) \<times> cell) list) \<Rightarrow> statement" where
  "fill_defaults m f t = Some (with_defaults m (insert_missing (f t) (defaults_of m t)) t, length (f t))"

definition fill_perms :: "permissionMatrix \<Rightarrow> (tenants \<Rightarrow> ((string \<times> kind \<times> string) \<times> cell) list) \<Rightarrow> statement" where
  "fill_perms m f t = Some (with_perms m (insert_missing (f t) (perms_of m t)) t, length (f t))"

definition del_defaults :: "permissionMatrix \<Rightarrow> (string \<times> kind \<times> string \<Rightarrow> cell \<Rightarrow> bool) \<Rightarrow> statement" where
  "del_defaults m P t = Some (with_defaults m (delete_rows P (defaults_of m t)) t, count_rows P (defaults_of m t))"

definition del_perms :: "permissionMatrix \<Rightarrow> (string \<times> kind \<times> string \<Rightarrow> cell \<Rightarrow> bool) \<Rightarrow> statement" where
  "del_perms m P t = Some (with_perms m (delete_rows P (perms_of m t)) t, count_rows P (perms_of m t))"

text \<open>\<open>coalesce(d.new_models_enabled, 0)\<close> of the left join on the feeder default of a group.\<close>

definition feeder :: "permissionMatrix \<Rightarrow> string \<Rightarrow> tenants \<Rightarrow> kind \<Rightarrow> string \<Rightarrow> string \<Rightarrow> bool" where
  "feeder m a t k grp own =
     (case gm_get (defaults_of m t) (own, k, grp) of None \<Rightarrow> False | Some c \<Rightarrow> c_account c = a \<and> c_on c)"

text \<open>Every owner of the account gets a default (off) for a new group, and for each new model what its default for the group says.\<close>

definition seed_group :: "string \<Rightarrow> time \<Rightarrow> kind \<Rightarrow> string \<Rightarrow> unit tx" where
  "seed_group a now k grp =
     andThen (exec (insert_defaults clientMatrix (\<lambda>t. map (\<lambda>c. ((c, k, grp), default_cell a now False)) (owners clientMatrix a t)))) (\<lambda>_.
     andThen (exec (insert_defaults templateMatrix (\<lambda>t. map (\<lambda>c. ((c, k, grp), default_cell a now False)) (owners templateMatrix a t)))) (\<lambda>_.
     give ()))"

definition model_cells :: "permissionMatrix \<Rightarrow> string \<Rightarrow> time \<Rightarrow> kind \<Rightarrow> string \<Rightarrow> string list \<Rightarrow> tenants \<Rightarrow> ((string \<times> kind \<times> string) \<times> cell) list" where
  "model_cells m a now k grp ids t =
     concat (map (\<lambda>c. map (\<lambda>i. ((c, k, i), perm_cell a now (feeder m a t k grp c))) ids) (owners m a t))"

definition seed_models :: "string \<Rightarrow> time \<Rightarrow> kind \<Rightarrow> string \<Rightarrow> string list \<Rightarrow> unit tx" where
  "seed_models a now k grp ids =
     andThen (exec (insert_perms clientMatrix (model_cells clientMatrix a now k grp ids))) (\<lambda>_.
     andThen (exec (insert_perms templateMatrix (model_cells templateMatrix a now k grp ids))) (\<lambda>_.
     give ()))"

text \<open>A plan limit, checked inside the transaction when the server enforces limits; it takes two statements.\<close>

definition plan_check :: "(faults \<Rightarrow> db \<Rightarrow> string \<Rightarrow> store_err + unit) \<Rightarrow> scope \<Rightarrow> unit tx" where
  "plan_check f sc flt s =
     (if sc_enforce sc then
        (case s of (n, t) \<Rightarrow>
           (case f (\<lambda>k. flt (n + k)) (plan_view t) (sc_account sc) of
              Inl e \<Rightarrow> ((n + 2, t), Inl (PlanError e))
            | Inr _ \<Rightarrow> ((n + 2, t), Inr ())))
      else (s, Inr ()))"

lemma effect_plan_check: "effect (plan_check f sc) t x t' \<Longrightarrow> t' = t"
  by (auto simp: effect_def plan_check_def split: if_splits sum.splits)

end
