(* ===== verification/Catalogue.thy ===== *)
theory Catalogue
  imports Schema "HOL-Library.Word"
begin

text \<open>
  Providers and their models (\<open>internal/store/providers.go\<close>, \<open>models.go\<close>). Times are those the operation
  reads from the clock; \<open>ids\<close> gives the identifiers it generates, \<open>None\<close> where the random source fails.
\<close>

section \<open>Providers\<close>

record CreateProviderInput =
  cp_ID :: string
  cp_Name :: string
  cp_Type :: string
  cp_BaseURL :: string
  cp_Credential :: string
  cp_Enabled :: bool
  cp_Protocols :: string

definition CreateProvider :: "aead \<Rightarrow> string option \<Rightarrow> time \<Rightarrow> scope \<Rightarrow> CreateProviderInput \<Rightarrow> unit tx" where
  "CreateProvider g nonce now sc i = RunTx
     (andThen (plan_check EnforceProviderLimit sc) (\<lambda>_.
      andThen (exec (insert_namespace (sc_account sc) (cp_Name i) RealKind (cp_ID i))) (\<lambda>_.
      andThen (unless_error (encryptSecret g nonce (sc_cipher sc)
          (secretAAD (sc_account sc) ''provider'' (cp_ID i) ''credential_secret'') (cp_Credential i))) (\<lambda>credential.
      andThen (exec (insert_provider (cp_ID i) \<lparr>pv_account = sc_account sc, pv_name = cp_Name i, pv_type = cp_Type i,
          pv_base_url = cp_BaseURL i, pv_credential = nullableSecret credential, pv_enabled = cp_Enabled i, pv_protocols = cp_Protocols i,
          pv_last_refresh = None, pv_next_refresh = None, pv_refresh_error = None, pv_created = now, pv_updated = now\<rparr>)) (\<lambda>_.
      seed_group (sc_account sc) now RealKind (cp_ID i))))))"

record UpdateProviderInput =
  up_ID :: string
  up_Name :: string
  up_BaseURL :: string
  up_Enabled :: bool
  up_EnabledSet :: bool
  up_Protocols :: string

text \<open>The \<open>UPDATE\<close> of the row: the name must be free in the account and registered.\<close>

definition update_provider :: "time \<Rightarrow> string \<Rightarrow> UpdateProviderInput \<Rightarrow> statement" where
  "update_provider now a i t =
     (case owned pv_account (t_providers t) a (up_ID i) of
        None \<Rightarrow> Some (t, 0)
      | Some _ \<Rightarrow>
          if gm_get (t_namespaces t) (a, up_Name i) = None \<or>
             count_rows (\<lambda>j p. j \<noteq> up_ID i \<and> pv_account p = a \<and> pv_name p = up_Name i) (t_providers t) \<noteq> 0 then None
          else Some (t\<lparr>t_providers := update_rows (\<lambda>j p. j = up_ID i \<and> pv_account p = a)
                 (\<lambda>p. (if up_EnabledSet i then p\<lparr>pv_enabled := up_Enabled i\<rparr> else p)
                        \<lparr>pv_name := up_Name i, pv_base_url := up_BaseURL i, pv_protocols := up_Protocols i, pv_updated := now\<rparr>)
                 (t_providers t)\<rparr>, 1))"

definition UpdateProvider :: "time \<Rightarrow> scope \<Rightarrow> UpdateProviderInput \<Rightarrow> unit tx" where
  "UpdateProvider now sc i = RunTx
     (andThen (exec (rename_namespace (sc_account sc) RealKind (up_ID i) (up_Name i))) (\<lambda>_.
      andThen (exec (update_provider now (sc_account sc) i)) (no_rows ErrProviderNotFound)))"

definition ReplaceProviderCredential :: "aead \<Rightarrow> string option \<Rightarrow> time \<Rightarrow> scope \<Rightarrow> string \<Rightarrow> string \<Rightarrow> bool tx" where
  "ReplaceProviderCredential g nonce now sc i credential =
     andThen (unless_error (encryptSecret g nonce (sc_cipher sc)
         (secretAAD (sc_account sc) ''provider'' i ''credential_secret'') credential)) (\<lambda>stored.
     andThen (exec (\<lambda>t. let P = (\<lambda>j p. j = i \<and> pv_account p = sc_account sc) in
         Some (t\<lparr>t_providers := update_rows P (\<lambda>p. p\<lparr>pv_credential := Some stored, pv_updated := now\<rparr>) (t_providers t)\<rparr>,
               count_rows P (t_providers t)))) (\<lambda>n. give (0 < n)))"

definition SetProviderRefreshError :: "time \<Rightarrow> scope \<Rightarrow> string \<Rightarrow> string \<Rightarrow> unit tx" where
  "SetProviderRefreshError now sc i message =
     andThen (exec (\<lambda>t. Some (t\<lparr>t_providers := update_rows (\<lambda>j p. j = i \<and> pv_account p = sc_account sc)
         (\<lambda>p. p\<lparr>pv_refresh_error := Some message, pv_updated := now\<rparr>) (t_providers t)\<rparr>, 1))) (\<lambda>_. give ())"

text \<open>The row with its credential decrypted.\<close>

definition LoadProvider :: "aead \<Rightarrow> scope \<Rightarrow> string \<Rightarrow> (provider_row \<times> string) tx" where
  "LoadProvider g sc i =
     andThen (query (\<lambda>t. owned pv_account (t_providers t) (sc_account sc) i)) (\<lambda>row.
       case row of
         None \<Rightarrow> refuse ErrProviderNotFound
       | Some p \<Rightarrow>
           andThen (unless_error (decryptSecret g (sc_cipher sc) (secretAAD (sc_account sc) ''provider'' i ''credential_secret'')
               (coalesce (pv_credential p)))) (\<lambda>credential. give (p, credential)))"

section \<open>What a provider is used for\<close>

text \<open>A target that can serve: enabled, its model available, its provider enabled.\<close>

definition provider_of :: "tenants \<Rightarrow> string \<Rightarrow> (model_row \<times> provider_row) option" where
  "provider_of t m = (case gm_get (t_models t) m of None \<Rightarrow> None
     | Some r \<Rightarrow> (case gm_get (t_providers t) (pm_provider r) of None \<Rightarrow> None | Some p \<Rightarrow> Some (r, p)))"

definition eligible :: "tenants \<Rightarrow> target_row \<Rightarrow> bool" where
  "eligible t r \<longleftrightarrow> vt_enabled r \<and> (case provider_of t (vt_model r) of None \<Rightarrow> False | Some (m, p) \<Rightarrow> pm_available m \<and> pv_enabled p)"

definition target_provider :: "tenants \<Rightarrow> target_row \<Rightarrow> string option" where
  "target_provider t r = map_option pm_provider (gm_get (t_models t) (vt_model r))"

definition takeover :: "tenants \<Rightarrow> string \<Rightarrow> string \<Rightarrow> nat" where
  "takeover t pid v = count_rows (\<lambda>_ r. vt_virtual r = v \<and> eligible t r \<and> target_provider t r \<noteq> Some pid) (t_targets t)"

text \<open>The virtual models of the account with a target at the provider: id, canonical name, and whether it is their last.\<close>

definition canonical_virtual :: "tenants \<Rightarrow> virtual_row \<Rightarrow> string option" where
  "canonical_virtual t v = map_option (\<lambda>g. vg_name g @ ''/'' @ vm_name v) (gm_get (t_groups t) (vm_group v))"

definition uses_provider :: "string \<Rightarrow> string \<Rightarrow> tenants \<Rightarrow> string \<Rightarrow> bool" where
  "uses_provider a pid t v \<longleftrightarrow> list_ex (\<lambda>(_, r). vt_virtual r = v \<and>
     (case gm_get (t_models t) (vt_model r) of None \<Rightarrow> False | Some m \<Rightarrow> pm_provider m = pid \<and> pm_account m = a)) (t_targets t)"

definition providerVirtualModelRefs :: "string \<Rightarrow> string \<Rightarrow> tenants \<Rightarrow> (string \<times> string \<times> bool) list" where
  "providerVirtualModelRefs a pid t =
     concat (map (\<lambda>(i, v). case canonical_virtual t v of
         None \<Rightarrow> []
       | Some name \<Rightarrow> if vm_account v = a \<and> uses_provider a pid t i then [(i, name, takeover t pid i = 0)] else []) (t_virtual t))"

text \<open>The first eligible target of a virtual model by position, with its provider.\<close>

definition promoted :: "string \<Rightarrow> string \<Rightarrow> tenants \<Rightarrow> (string \<times> string) option" where
  "promoted a v t =
     (case sort_key (vt_position \<circ> snd) (select_rows (\<lambda>_ r. vt_virtual r = v \<and> eligible t r \<and> vt_account r = a \<and>
         (case provider_of t (vt_model r) of None \<Rightarrow> False | Some (m, p) \<Rightarrow> pm_account m = a \<and> pv_account p = a)) (t_targets t)) of
        [] \<Rightarrow> None
      | (_, r) # _ \<Rightarrow> map_option (\<lambda>p. (p, vt_model r)) (target_provider t r))"

definition set_primary :: "time \<Rightarrow> string \<Rightarrow> string \<Rightarrow> string \<Rightarrow> string \<Rightarrow> statement" where
  "set_primary now a v p m t =
     Some (t\<lparr>t_virtual := update_rows (\<lambda>i r. i = v \<and> vm_account r = a)
         (\<lambda>r. r\<lparr>vm_target_provider := p, vm_target_model := m, vm_updated := now\<rparr>) (t_virtual t)\<rparr>, 1)"

text \<open>One virtual model lets go of a provider: its targets there go, and the next target becomes the primary one.\<close>

definition release_virtual :: "time \<Rightarrow> string \<Rightarrow> string \<Rightarrow> string \<Rightarrow> unit tx" where
  "release_virtual now a pid v =
     andThen (exec (\<lambda>t. del_targets (\<lambda>_ r. vt_virtual r = v \<and> vt_account r = a \<and>
         (case gm_get (t_models t) (vt_model r) of None \<Rightarrow> False | Some m \<Rightarrow> pm_provider m = pid \<and> pm_account m = a)) t)) (\<lambda>_.
     andThen (query (promoted a v)) (\<lambda>next.
       case next of
         None \<Rightarrow> give ()
       | Some (p, m) \<Rightarrow> andThen (exec (set_primary now a v p m)) (\<lambda>_. give ())))"

definition model_of_provider :: "string \<Rightarrow> string \<Rightarrow> tenants \<Rightarrow> string \<Rightarrow> bool" where
  "model_of_provider a pid t m \<longleftrightarrow> (case gm_get (t_models t) m of None \<Rightarrow> False | Some r \<Rightarrow> pm_provider r = pid \<and> pm_account r = a)"

definition single_refs :: "string \<Rightarrow> string \<Rightarrow> tenants \<Rightarrow> nat" where
  "single_refs a pid t = count_rows (\<lambda>c b. sb_account b = a \<and>
     (case sb_real b of None \<Rightarrow> False | Some m \<Rightarrow> model_of_provider a pid t m) \<and>
     (case gm_get (t_clients t) c of None \<Rightarrow> False | Some k \<Rightarrow> ck_type k = ''single'' \<and> ck_account k = a)) (t_bindings t)"

definition DeleteProvider :: "time \<Rightarrow> scope \<Rightarrow> string \<Rightarrow> unit tx" where
  "DeleteProvider now sc pid = (let a = sc_account sc in RunTx
     (andThen (query (single_refs a pid)) (\<lambda>refs. if 0 < refs then refuse ErrSingleBindingInUse else
      andThen (exec (\<lambda>t. del_bindings (\<lambda>c b. (case sb_real b of None \<Rightarrow> False | Some m \<Rightarrow> model_of_provider a pid t m) \<and>
          (case gm_get (t_clients t) c of None \<Rightarrow> False | Some k \<Rightarrow> ck_type k = ''catalogue'' \<and> ck_account k = a)) t)) (\<lambda>_.
      andThen (query (providerVirtualModelRefs a pid)) (\<lambda>all.
        let terminal = filter (\<lambda>(_, _, last_one). last_one) all in
        if terminal \<noteq> [] then refuse (ProviderInUseError (map (fst \<circ> snd) terminal) (map (fst \<circ> snd) all)) else
      andThen (each (\<lambda>(v, _, _). release_virtual now a pid v) all) (\<lambda>_.
      andThen (exec (\<lambda>t. del_perms clientMatrix (\<lambda>(_, k, m) c. k = RealKind \<and> model_of_provider a pid t m \<and> c_account c = a) t)) (\<lambda>_.
      andThen (exec (del_defaults clientMatrix (\<lambda>(_, k, p) c. k = RealKind \<and> p = pid \<and> c_account c = a))) (\<lambda>_.
      andThen (exec (\<lambda>t. del_perms templateMatrix (\<lambda>(_, k, m) c. k = RealKind \<and> model_of_provider a pid t m \<and> c_account c = a) t)) (\<lambda>_.
      andThen (exec (del_defaults templateMatrix (\<lambda>(_, k, p) c. k = RealKind \<and> p = pid \<and> c_account c = a))) (\<lambda>_.
      andThen (exec (del_models (\<lambda>_ m. pm_provider m = pid \<and> pm_account m = a))) (\<lambda>_.
      andThen (exec (del_providers (\<lambda>i p. i = pid \<and> pv_account p = a))) (\<lambda>n.
      andThen (no_rows ErrProviderNotFound n) (\<lambda>_.
      andThen (exec (del_namespaces (\<lambda>q r. fst q = a \<and> ns_entity r = pid \<and> ns_kind r = RealKind))) (\<lambda>_.
      andThen (exec (\<lambda>t. let P = (\<lambda>i r. i = pid \<and> oa_account r = a) in
          Some (t\<lparr>t_oauth := delete_rows P (t_oauth t)\<rparr>, count_rows P (t_oauth t)))) (\<lambda>_.
      give ())))))))))))))))"

text \<open>Every row of the account, in the order the foreign keys allow.\<close>

definition account_statements :: "string \<Rightarrow> statement list" where
  "account_statements a =
     [del_bindings (\<lambda>_ b. sb_account b = a),
      del_perms clientMatrix (\<lambda>_ c. c_account c = a),
      del_defaults clientMatrix (\<lambda>_ c. c_account c = a),
      del_clients (\<lambda>_ c. ck_account c = a),
      del_perms templateMatrix (\<lambda>_ c. c_account c = a),
      del_defaults templateMatrix (\<lambda>_ c. c_account c = a),
      del_templates (\<lambda>_ c. ct_account c = a),
      (\<lambda>t. Some (t\<lparr>t_tokens := delete_rows (\<lambda>_ v. v = a) (t_tokens t)\<rparr>, 1)),
      (\<lambda>t. Some (t\<lparr>t_oauth := delete_rows (\<lambda>_ r. oa_account r = a) (t_oauth t)\<rparr>, 1)),
      del_targets (\<lambda>_ r. vt_account r = a),
      del_virtual (\<lambda>_ v. vm_account v = a),
      del_groups (\<lambda>_ v. vg_account v = a),
      del_models (\<lambda>_ m. pm_account m = a),
      del_providers (\<lambda>_ p. pv_account p = a),
      del_namespaces (\<lambda>q _. fst q = a),
      (\<lambda>t. Some (t\<lparr>t_settings := delete_rows (\<lambda>q _. fst q = a) (t_settings t)\<rparr>, 1))]"

definition DeleteAccountResources :: "scope \<Rightarrow> unit tx" where
  "DeleteAccountResources sc = RunTx (each (\<lambda>st. andThen (exec st) (\<lambda>_. give ())) (account_statements (sc_account sc)))"

record AdminHealthCounts =
  hc_Providers :: nat
  hc_AvailableModels :: nat
  hc_RetiredModels :: nat
  hc_BrokenVirtualModels :: nat

definition serves :: "string \<Rightarrow> tenants \<Rightarrow> string \<Rightarrow> bool" where
  "serves a t v \<longleftrightarrow> list_ex (\<lambda>(_, r). vt_virtual r = v \<and> eligible t r \<and> vt_account r = a \<and>
     (case provider_of t (vt_model r) of None \<Rightarrow> False | Some (m, p) \<Rightarrow> pm_account m = a \<and> pv_account p = a)) (t_targets t)"

definition AdminHealth :: "scope \<Rightarrow> AdminHealthCounts tx" where
  "AdminHealth sc = (let a = sc_account sc in
     andThen (query (\<lambda>t. count_rows (\<lambda>_ p. pv_account p = a) (t_providers t))) (\<lambda>ps.
     andThen (query (\<lambda>t. count_rows (\<lambda>_ m. pm_available m \<and> pm_account m = a) (t_models t))) (\<lambda>av.
     andThen (query (\<lambda>t. count_rows (\<lambda>_ m. \<not> pm_available m \<and> pm_account m = a) (t_models t))) (\<lambda>re.
     andThen (query (\<lambda>t. count_rows (\<lambda>v r. vm_account r = a \<and> \<not> serves a t v) (t_virtual t))) (\<lambda>br.
     give \<lparr>hc_Providers = ps, hc_AvailableModels = av, hc_RetiredModels = re, hc_BrokenVirtualModels = br\<rparr>)))))"

section \<open>Provider models\<close>

record CatalogueModel =
  cm_ID :: string
  cm_DisplayName :: string
  cm_ContextLength :: "int option"
  cm_MaxOutputTokens :: "int option"
  cm_NativeProtocol :: string
  cm_SupportsTools :: "bool option"
  cm_SupportsVision :: "bool option"
  cm_SupportsReasoning :: "bool option"
  cm_SupportsStructuredOutput :: "bool option"
  cm_InputModalities :: "string list"
  cm_OutputModalities :: "string list"
  cm_ReasoningCapabilities :: string

definition nullableInt :: "int option \<Rightarrow> int option" where
  "nullableInt v = (case v of None \<Rightarrow> None | Some n \<Rightarrow> if n \<le> 0 then None else Some n)"

definition nullableJSON :: "string list \<Rightarrow> string list option" where
  "nullableJSON l = (if l = [] then None else Some l)"

definition providerModelArgs :: "string \<Rightarrow> string \<Rightarrow> CatalogueModel \<Rightarrow> bool \<Rightarrow> time \<Rightarrow> model_row" where
  "providerModelArgs a pid m manual now =
     \<lparr>pm_account = a, pm_provider = pid, pm_upstream = cm_ID m, pm_display = cm_DisplayName m,
      pm_context = nullableInt (cm_ContextLength m), pm_max_output = nullableInt (cm_MaxOutputTokens m),
      pm_protocol = nullableSecret (cm_NativeProtocol m), pm_tools = cm_SupportsTools m, pm_vision = cm_SupportsVision m,
      pm_reasoning = cm_SupportsReasoning m, pm_structured = cm_SupportsStructuredOutput m,
      pm_input = nullableJSON (cm_InputModalities m), pm_output = nullableJSON (cm_OutputModalities m),
      pm_selectors = nullableSecret (cm_ReasoningCapabilities m), pm_manual = manual, pm_available = True,
      pm_first_seen = now, pm_last_seen = now, pm_created = now, pm_updated = now\<rparr>"

text \<open>\<open>ON CONFLICT(provider_id, upstream_model_id) DO UPDATE\<close>: the row keeps its id, account and first sight.\<close>

definition refreshed :: "model_row \<Rightarrow> model_row \<Rightarrow> model_row" where
  "refreshed r old = r\<lparr>pm_account := pm_account old, pm_provider := pm_provider old, pm_upstream := pm_upstream old,
     pm_first_seen := pm_first_seen old, pm_created := pm_created old, pm_available := True\<rparr>"

definition same_model :: "model_row \<Rightarrow> model_row \<Rightarrow> bool" where
  "same_model r q \<longleftrightarrow> pm_provider q = pm_provider r \<and> pm_upstream q = pm_upstream r"

fun upsert_models :: "(string \<times> model_row) list \<Rightarrow> tenants \<Rightarrow> tenants option" where
  "upsert_models [] t = Some t"
| "upsert_models ((i, r) # rs) t =
     (if count_rows (\<lambda>_ q. same_model r q) (t_models t) \<noteq> 0
      then upsert_models rs (t\<lparr>t_models := update_rows (\<lambda>_ q. same_model r q) (refreshed r) (t_models t)\<rparr>)
      else if gm_get (t_models t) i \<noteq> None \<or> gm_get (t_providers t) (pm_provider r) = None then None
      else upsert_models rs (t\<lparr>t_models := gm_set i r (t_models t)\<rparr>))"

text \<open>The first model of each non-empty id.\<close>

fun unique_models :: "string list \<Rightarrow> CatalogueModel list \<Rightarrow> CatalogueModel list" where
  "unique_models seen [] = []"
| "unique_models seen (m # ms) =
     (if cm_ID m = [] \<or> cm_ID m \<in> set seen then unique_models seen ms else m # unique_models (cm_ID m # seen) ms)"

text \<open>A known model keeps its id; the others take the next generated one.\<close>

fun assign_ids :: "(string \<Rightarrow> string option) \<Rightarrow> (nat \<Rightarrow> string option) \<Rightarrow> nat \<Rightarrow> CatalogueModel list
     \<Rightarrow> serr + (string \<times> CatalogueModel) list \<times> string list" where
  "assign_ids existing ids k [] = Inr ([], [])"
| "assign_ids existing ids k (m # ms) =
     (case existing (cm_ID m) of
        Some i \<Rightarrow> (case assign_ids existing ids k ms of Inl e \<Rightarrow> Inl e | Inr (xs, new) \<Rightarrow> Inr ((i, m) # xs, new))
      | None \<Rightarrow>
          (case ids k of
             None \<Rightarrow> Inl NoIdentifier
           | Some i \<Rightarrow> (case assign_ids existing ids (k + 1) ms of Inl e \<Rightarrow> Inl e | Inr (xs, new) \<Rightarrow> Inr ((i, m) # xs, i # new))))"

definition known_models :: "string \<Rightarrow> string \<Rightarrow> tenants \<Rightarrow> string \<Rightarrow> string option" where
  "known_models a pid t = map_of (rev (map (\<lambda>(i, m). (pm_upstream m, i))
     (select_rows (\<lambda>_ m. pm_provider m = pid \<and> pm_account m = a) (t_models t))))"

fun chunks :: "nat \<Rightarrow> 'a list \<Rightarrow> 'a list list" where
  "chunks n [] = []"
| "chunks n (x # xs) = (x # take (n - 1) xs) # chunks n (drop (n - 1) xs)"

definition upsertBatchRows :: nat where
  "upsertBatchRows = 50"

definition permissionBatchRows :: nat where
  "permissionBatchRows = 50"

definition retireBatch :: nat where
  "retireBatch = 500"

definition upsert_batch :: "string \<Rightarrow> string \<Rightarrow> time \<Rightarrow> (string \<times> CatalogueModel) list \<Rightarrow> unit tx" where
  "upsert_batch a pid now b =
     andThen (exec (\<lambda>t. map_option (\<lambda>t'. (t', length b))
       (upsert_models (map (\<lambda>(i, m). (i, providerModelArgs a pid m False now)) b) t))) (\<lambda>_. give ())"

definition stale_models :: "string \<Rightarrow> string \<Rightarrow> string list \<Rightarrow> tenants \<Rightarrow> string list" where
  "stale_models a pid seen t = filter (\<lambda>u. u \<notin> set seen) (map (pm_upstream \<circ> snd)
     (select_rows (\<lambda>_ m. pm_provider m = pid \<and> pm_account m = a \<and> pm_available m \<and> \<not> pm_manual m) (t_models t)))"

definition retire :: "string \<Rightarrow> string \<Rightarrow> time \<Rightarrow> (string \<Rightarrow> bool) \<Rightarrow> unit tx" where
  "retire a pid now P =
     andThen (exec (\<lambda>t. Some (t\<lparr>t_models := update_rows
         (\<lambda>_ m. pm_provider m = pid \<and> pm_account m = a \<and> pm_available m \<and> \<not> pm_manual m \<and> P (pm_upstream m))
         (\<lambda>m. m\<lparr>pm_available := False, pm_updated := now\<rparr>) (t_models t)\<rparr>, 1))) (\<lambda>_. give ())"

text \<open>FNV-1a of the id, on 32 bits, spread over two hours around the day.\<close>

definition RefreshJitter :: "string \<Rightarrow> duration" where
  "RefreshJitter pid =
     (let h = fold (\<lambda>c h. xor h (of_nat (byte c)) * 16777619) pid (2166136261 :: 32 word) in
      seconds (int (unat h) mod 7200 - 3600))"

definition refresh_times :: "string \<Rightarrow> string \<Rightarrow> time \<Rightarrow> time \<Rightarrow> statement" where
  "refresh_times a pid now later t =
     Some (t\<lparr>t_providers := update_rows (\<lambda>i p. i = pid \<and> pv_account p = a)
         (\<lambda>p. p\<lparr>pv_last_refresh := Some now, pv_next_refresh := Some later, pv_refresh_error := None, pv_updated := now\<rparr>) (t_providers t)\<rparr>, 1)"

text \<open>\<open>clock\<close> is the second reading of the time, for the next refresh.\<close>

definition ApplyCatalogue :: "(nat \<Rightarrow> string option) \<Rightarrow> time \<Rightarrow> time \<Rightarrow> scope \<Rightarrow> string \<Rightarrow> CatalogueModel list \<Rightarrow> unit tx" where
  "ApplyCatalogue ids now clock sc pid models = (let a = sc_account sc; unique = unique_models [] models; seen = map cm_ID unique in RunTx
     (andThen (query (known_models a pid)) (\<lambda>existing.
      andThen (unless_error (assign_ids existing ids 0 unique)) (\<lambda>(rows, new).
      andThen (each (upsert_batch a pid now) (chunks upsertBatchRows rows)) (\<lambda>_.
      andThen (each (seed_models a now RealKind pid) (chunks permissionBatchRows new)) (\<lambda>_.
      andThen (if seen \<noteq> [] then
                 andThen (query (stale_models a pid seen)) (\<lambda>stale.
                   each (\<lambda>b. retire a pid now (\<lambda>u. u \<in> set b)) (chunks retireBatch stale))
               else retire a pid now (\<lambda>_. True)) (\<lambda>_.
      andThen (exec (refresh_times a pid now (clock + seconds 86400 + RefreshJitter pid))) (\<lambda>_.
      give ()))))))))"

definition insert_manual :: "string \<Rightarrow> model_row \<Rightarrow> statement" where
  "insert_manual i r t =
     (if count_rows (\<lambda>_ q. same_model r q) (t_models t) \<noteq> 0 then Some (t, 0)
      else if gm_get (t_models t) i \<noteq> None \<or> gm_get (t_providers t) (pm_provider r) = None then None
      else Some (t\<lparr>t_models := gm_set i r (t_models t)\<rparr>, 1))"

definition InsertManualModel :: "time \<Rightarrow> scope \<Rightarrow> string \<Rightarrow> string \<Rightarrow> CatalogueModel \<Rightarrow> unit tx" where
  "InsertManualModel now sc pid i m = RunTx
     (andThen (exec (insert_manual i (providerModelArgs (sc_account sc) pid m True now))) (\<lambda>n.
      andThen (no_rows ErrManualModelExists n) (\<lambda>_.
      seed_models (sc_account sc) now RealKind pid [i])))"

definition model_refs :: "string \<Rightarrow> string \<Rightarrow> tenants \<Rightarrow> nat" where
  "model_refs a i t = count_rows (\<lambda>_ b. sb_real b = Some i \<and> sb_account b = a) (t_bindings t) +
     count_rows (\<lambda>_ r. vt_model r = i \<and> vt_account r = a) (t_targets t) +
     count_rows (\<lambda>_ v. vm_target_model v = i \<and> vm_account v = a) (t_virtual t)"

definition DeleteManualModel :: "scope \<Rightarrow> string \<Rightarrow> unit tx" where
  "DeleteManualModel sc i = (let a = sc_account sc in RunTx
     (andThen (query (\<lambda>t. owned pm_account (t_models t) a i)) (\<lambda>row.
       case row of
         None \<Rightarrow> refuse ErrModelNotFound
       | Some m \<Rightarrow>
           if \<not> pm_manual m then refuse ErrModelNotManual else
           andThen (query (model_refs a i)) (\<lambda>refs.
           if 0 < refs then refuse ErrModelInUse else
           andThen (exec (del_perms clientMatrix (\<lambda>(_, k, x) c. k = RealKind \<and> x = i \<and> c_account c = a))) (\<lambda>_.
           andThen (exec (del_perms templateMatrix (\<lambda>(_, k, x) c. k = RealKind \<and> x = i \<and> c_account c = a))) (\<lambda>_.
           andThen (exec (del_models (\<lambda>j m. j = i \<and> pm_manual m \<and> pm_account m = a))) (no_rows ErrModelNotManual)))))))"

end
