(* ===== verification/VirtualModels.thy ===== *)
theory VirtualModels
  imports Catalogue
begin

text \<open>Virtual groups and virtual models with their ordered targets (\<open>internal/store/virtual.go\<close>).\<close>

section \<open>Groups\<close>

definition new_group :: "string \<Rightarrow> time \<Rightarrow> string \<Rightarrow> string \<Rightarrow> unit tx" where
  "new_group a now i name =
     andThen (exec (insert_namespace a name VirtualKind i)) (\<lambda>_.
     andThen (exec (insert_group i \<lparr>vg_account = a, vg_name = name, vg_created = now, vg_updated = now\<rparr>)) (\<lambda>_.
     seed_group a now VirtualKind i))"

definition CreateVirtualGroup :: "time \<Rightarrow> scope \<Rightarrow> string \<Rightarrow> string \<Rightarrow> unit tx" where
  "CreateVirtualGroup now sc i name = RunTx (new_group (sc_account sc) now i name)"

definition VirtualGroupName :: "scope \<Rightarrow> string \<Rightarrow> string tx" where
  "VirtualGroupName sc i =
     andThen (query (\<lambda>t. select_rows (\<lambda>q r. fst q = sc_account sc \<and> ns_entity r = i \<and> ns_kind r = VirtualKind) (t_namespaces t))) (\<lambda>rows.
       case rows of [] \<Rightarrow> refuse ErrVirtualGroupNotFound | (q, _) # _ \<Rightarrow> give (snd q))"

definition UpdateVirtualGroup :: "time \<Rightarrow> scope \<Rightarrow> string \<Rightarrow> string \<Rightarrow> unit tx" where
  "UpdateVirtualGroup now sc i name = (let a = sc_account sc in RunTx
     (andThen (exec (rename_namespace a VirtualKind i name)) (\<lambda>n.
      andThen (no_rows ErrVirtualGroupNotFound n) (\<lambda>_.
      andThen (exec (\<lambda>t. Some (t\<lparr>t_groups := update_rows (\<lambda>j g. j = i \<and> vg_account g = a) (vg_updated_update (\<lambda>_. now)) (t_groups t)\<rparr>, 1))) (\<lambda>_.
      give ())))))"

definition DeleteVirtualGroup :: "scope \<Rightarrow> string \<Rightarrow> unit tx" where
  "DeleteVirtualGroup sc i = (let a = sc_account sc in RunTx
     (andThen (query (\<lambda>t. count_rows (\<lambda>_ v. vm_group v = i \<and> vm_account v = a) (t_virtual t))) (\<lambda>n.
      if 0 < n then refuse ErrVirtualGroupNotEmpty else
      andThen (exec (del_defaults clientMatrix (\<lambda>(_, k, g) c. k = VirtualKind \<and> g = i \<and> c_account c = a))) (\<lambda>_.
      andThen (exec (del_defaults templateMatrix (\<lambda>(_, k, g) c. k = VirtualKind \<and> g = i \<and> c_account c = a))) (\<lambda>_.
      andThen (exec (del_groups (\<lambda>j g. j = i \<and> vg_account g = a))) (\<lambda>n.
      andThen (no_rows ErrVirtualGroupNotFound n) (\<lambda>_.
      andThen (exec (del_namespaces (\<lambda>q r. fst q = a \<and> ns_entity r = i \<and> ns_kind r = VirtualKind))) (\<lambda>_.
      give ()))))))))"

section \<open>Targets\<close>

record VirtualTargetInput =
  ti_ProviderModelID :: string
  ti_Enabled :: bool

text \<open>One target row: the model must be one of the account's, the position is its place in the list.\<close>

definition put_target :: "(nat \<Rightarrow> string option) \<Rightarrow> time \<Rightarrow> string \<Rightarrow> string \<Rightarrow> nat \<times> VirtualTargetInput \<Rightarrow> unit tx" where
  "put_target ids now a v x = (case x of (k, ti) \<Rightarrow>
     andThen (query (\<lambda>t. owned pm_account (t_models t) a (ti_ProviderModelID ti) \<noteq> None)) (\<lambda>exists.
       if \<not> exists then refuse ErrVirtualTargetNotFound else
       (case ids k of
          None \<Rightarrow> refuse NoIdentifier
        | Some i \<Rightarrow>
            andThen (exec (insert_target i \<lparr>vt_account = a, vt_virtual = v, vt_model = ti_ProviderModelID ti,
                vt_position = int k + 1, vt_enabled = ti_Enabled ti, vt_created = now, vt_updated = now\<rparr>)) (\<lambda>_. give ()))))"

definition replaceVirtualTargets :: "(nat \<Rightarrow> string option) \<Rightarrow> time \<Rightarrow> string \<Rightarrow> string \<Rightarrow> VirtualTargetInput list \<Rightarrow> unit tx" where
  "replaceVirtualTargets ids now a v targets =
     andThen (exec (del_targets (\<lambda>_ r. vt_virtual r = v \<and> vt_account r = a))) (\<lambda>_.
     each (put_target ids now a v) (enumerate 0 targets))"

section \<open>Virtual models\<close>

record CreateVirtualModelInput =
  cv_ID :: string
  cv_GroupID :: string
  cv_NewGroupID :: string
  cv_GroupName :: string
  cv_Name :: string
  cv_RoutingMode :: string
  cv_Targets :: "VirtualTargetInput list"

text \<open>The first target decides the primary columns; the handlers do not send an empty list.\<close>

definition first_target :: "VirtualTargetInput list \<Rightarrow> string" where
  "first_target targets = (case targets of [] \<Rightarrow> [] | x # _ \<Rightarrow> ti_ProviderModelID x)"

definition primary_provider :: "string \<Rightarrow> VirtualTargetInput list \<Rightarrow> string tx" where
  "primary_provider a targets =
     andThen (query (\<lambda>t. owned pm_account (t_models t) a (first_target targets))) (\<lambda>row.
       case row of None \<Rightarrow> refuse ErrVirtualTargetNotFound | Some m \<Rightarrow> give (pm_provider m))"

definition CreateVirtualModel :: "(nat \<Rightarrow> string option) \<Rightarrow> time \<Rightarrow> scope \<Rightarrow> CreateVirtualModelInput \<Rightarrow> unit tx" where
  "CreateVirtualModel ids now sc i = (let a = sc_account sc; grp = (if cv_GroupID i \<noteq> [] then cv_GroupID i else cv_NewGroupID i) in RunTx
     (andThen (plan_check EnforceVirtualModelLimit sc) (\<lambda>_.
      andThen (if cv_GroupID i \<noteq> [] then
                 andThen (query (\<lambda>t. owned vg_account (t_groups t) a grp)) (\<lambda>g.
                   if g = None then refuse ErrVirtualGroupNotFound else give ())
               else new_group a now grp (cv_GroupName i)) (\<lambda>_.
      andThen (primary_provider a (cv_Targets i)) (\<lambda>p.
      andThen (exec (insert_virtual (cv_ID i) \<lparr>vm_account = a, vm_group = grp, vm_name = cv_Name i, vm_target_provider = p,
          vm_target_model = first_target (cv_Targets i), vm_mode = cv_RoutingMode i, vm_created = now, vm_updated = now\<rparr>)) (\<lambda>_.
      andThen (replaceVirtualTargets ids now a (cv_ID i) (cv_Targets i)) (\<lambda>_.
      seed_models a now VirtualKind grp [cv_ID i])))))))"

record UpdateVirtualModelInput =
  uv_ID :: string
  uv_Name :: string
  uv_NameSet :: bool
  uv_TargetProvider :: string
  uv_TargetModel :: string
  uv_TargetSet :: bool
  uv_RoutingMode :: string
  uv_ModeSet :: bool
  uv_ReplaceTargets :: bool
  uv_Targets :: "VirtualTargetInput list"

definition virtual_edit :: "time \<Rightarrow> UpdateVirtualModelInput \<Rightarrow> string \<Rightarrow> string \<Rightarrow> bool \<Rightarrow> virtual_row \<Rightarrow> virtual_row" where
  "virtual_edit now i p m targetSet r =
     (let r = r\<lparr>vm_updated := now\<rparr>;
          r = (if uv_NameSet i then r\<lparr>vm_name := uv_Name i\<rparr> else r);
          r = (if targetSet then r\<lparr>vm_target_provider := p, vm_target_model := m\<rparr> else r) in
      if uv_ModeSet i then r\<lparr>vm_mode := uv_RoutingMode i\<rparr> else r)"

definition update_virtual :: "string \<Rightarrow> string \<Rightarrow> (virtual_row \<Rightarrow> virtual_row) \<Rightarrow> statement" where
  "update_virtual a v f t =
     (case owned vm_account (t_virtual t) a v of
        None \<Rightarrow> Some (t, 0)
      | Some r \<Rightarrow>
          if \<not> virtual_ok v (f r) t then None
          else Some (t\<lparr>t_virtual := update_rows (\<lambda>i r. i = v \<and> vm_account r = a) f (t_virtual t)\<rparr>, 1))"

definition UpdateVirtualModel :: "(nat \<Rightarrow> string option) \<Rightarrow> time \<Rightarrow> scope \<Rightarrow> UpdateVirtualModelInput \<Rightarrow> unit tx" where
  "UpdateVirtualModel ids now sc i = (let a = sc_account sc in RunTx
     (andThen (if uv_ReplaceTargets i then
                 andThen (primary_provider a (uv_Targets i)) (\<lambda>p. give (p, first_target (uv_Targets i), True))
               else give (uv_TargetProvider i, uv_TargetModel i, uv_TargetSet i)) (\<lambda>(p, m, targetSet).
      andThen (exec (update_virtual a (uv_ID i) (virtual_edit now i p m targetSet))) (\<lambda>n.
      andThen (no_rows ErrVirtualModelNotFound n) (\<lambda>_.
      if uv_ReplaceTargets i then replaceVirtualTargets ids now a (uv_ID i) (uv_Targets i) else give ())))))"

definition virtual_bindings :: "string \<Rightarrow> string \<Rightarrow> tenants \<Rightarrow> nat" where
  "virtual_bindings a v t = count_rows (\<lambda>c b. sb_virtual b = Some v \<and> sb_account b = a \<and>
     (case gm_get (t_clients t) c of None \<Rightarrow> False | Some k \<Rightarrow> ck_type k = ''single'' \<and> ck_account k = a)) (t_bindings t)"

definition DeleteVirtualModel :: "scope \<Rightarrow> string \<Rightarrow> unit tx" where
  "DeleteVirtualModel sc v = (let a = sc_account sc in RunTx
     (andThen (query (virtual_bindings a v)) (\<lambda>n. if 0 < n then refuse ErrVirtualBindingInUse else
      andThen (exec (\<lambda>t. del_bindings (\<lambda>c b. sb_virtual b = Some v \<and> sb_account b = a \<and>
          (case gm_get (t_clients t) c of None \<Rightarrow> False | Some k \<Rightarrow> ck_type k = ''catalogue'' \<and> ck_account k = a)) t)) (\<lambda>_.
      andThen (exec (del_perms clientMatrix (\<lambda>(_, k, m) c. k = VirtualKind \<and> m = v \<and> c_account c = a))) (\<lambda>_.
      andThen (exec (del_perms templateMatrix (\<lambda>(_, k, m) c. k = VirtualKind \<and> m = v \<and> c_account c = a))) (\<lambda>_.
      andThen (exec (del_virtual (\<lambda>i r. i = v \<and> vm_account r = a))) (no_rows ErrVirtualModelNotFound)))))))"

end
