(* ===== verification/ClientKeys.thy ===== *)
theory ClientKeys
  imports VirtualModels
begin

text \<open>
  Client keys, catalogue templates and their permission matrices (\<open>internal/store/clients.go\<close>,
  \<open>templates.go\<close>). A key linked to a template carries a copy of its matrix.
\<close>

section \<open>Matrices\<close>

record PermissionDefaultUpdate =
  du_Kind :: string
  du_GroupID :: string
  du_Enabled :: bool

record PermissionModelUpdate =
  mu_Kind :: string
  mu_ModelID :: string
  mu_Enabled :: bool

definition group_owned :: "string \<Rightarrow> kind \<Rightarrow> string \<Rightarrow> tenants \<Rightarrow> bool" where
  "group_owned a k i t = (case k of RealKind \<Rightarrow> owned pv_account (t_providers t) a i \<noteq> None
     | VirtualKind \<Rightarrow> owned vg_account (t_groups t) a i \<noteq> None)"

definition model_owned :: "string \<Rightarrow> kind \<Rightarrow> string \<Rightarrow> tenants \<Rightarrow> bool" where
  "model_owned a k i t = (case k of RealKind \<Rightarrow> owned pm_account (t_models t) a i \<noteq> None
     | VirtualKind \<Rightarrow> owned vm_account (t_virtual t) a i \<noteq> None)"

text \<open>\<open>INSERT ... ON CONFLICT DO UPDATE\<close> keeps the account and creation time of a row that was there.\<close>

definition upsert_cell :: "string \<times> kind \<times> string \<Rightarrow> cell \<Rightarrow> cells \<Rightarrow> cells" where
  "upsert_cell q c m = gm_set q (case gm_get m q of None \<Rightarrow> c
     | Some old \<Rightarrow> old\<lparr>c_on := c_on c, c_updated := c_updated c\<rparr>) m"

text \<open>The foreign key of an inserted row: its owner exists.\<close>

fun owner_exists :: "permissionMatrix \<Rightarrow> string \<Rightarrow> tenants \<Rightarrow> bool" where
  "owner_exists clientMatrix i t \<longleftrightarrow> gm_get (t_clients t) i \<noteq> None"
| "owner_exists templateMatrix i t \<longleftrightarrow> gm_get (t_templates t) i \<noteq> None"

definition update_default :: "permissionMatrix \<Rightarrow> string \<Rightarrow> time \<Rightarrow> string \<Rightarrow> PermissionDefaultUpdate \<Rightarrow> unit tx" where
  "update_default m a now own d =
     (case kind_of (du_Kind d) of
        None \<Rightarrow> refuse ErrPermissionGroupNotFound
      | Some k \<Rightarrow>
          andThen (query (group_owned a k (du_GroupID d))) (\<lambda>valid.
            if \<not> valid then refuse ErrPermissionGroupNotFound else
            andThen (exec (\<lambda>t. if \<not> owner_exists m own t then None else Some (with_defaults m
                (upsert_cell (own, k, du_GroupID d) (default_cell a now (du_Enabled d)) (defaults_of m t)) t, 1))) (\<lambda>_. give ())))"

definition update_perm :: "permissionMatrix \<Rightarrow> string \<Rightarrow> time \<Rightarrow> string \<Rightarrow> PermissionModelUpdate \<Rightarrow> unit tx" where
  "update_perm m a now own p =
     (case kind_of (mu_Kind p) of
        None \<Rightarrow> refuse ErrPermissionModelNotFound
      | Some k \<Rightarrow>
          andThen (query (model_owned a k (mu_ModelID p))) (\<lambda>valid.
            if \<not> valid then refuse ErrPermissionModelNotFound else
            andThen (exec (\<lambda>t. if \<not> owner_exists m own t then None else Some (with_perms m
                (upsert_cell (own, k, mu_ModelID p) (perm_cell a now (mu_Enabled p)) (perms_of m t)) t, 1))) (\<lambda>_. give ())))"

definition applyMatrixUpdates ::
  "permissionMatrix \<Rightarrow> string \<Rightarrow> time \<Rightarrow> string \<Rightarrow> PermissionDefaultUpdate list \<Rightarrow> PermissionModelUpdate list \<Rightarrow> unit tx" where
  "applyMatrixUpdates m a now own defaults permissions =
     andThen (each (update_default m a now own) defaults) (\<lambda>_. each (update_perm m a now own) permissions)"

section \<open>Templates and the keys linked to them\<close>

definition linked :: "string \<Rightarrow> string \<Rightarrow> string \<Rightarrow> client_row \<Rightarrow> bool" where
  "linked a template i c \<longleftrightarrow> ck_template c = Some template \<and> ck_account c = a"

text \<open>The linked keys, or the one named when a name is given.\<close>

definition sync_targets :: "string \<Rightarrow> string \<Rightarrow> string \<Rightarrow> tenants \<Rightarrow> string list" where
  "sync_targets a template one t =
     map fst (select_rows (\<lambda>i c. linked a template i c \<and> (one = [] \<or> i = one)) (t_clients t))"

definition copied :: "string \<Rightarrow> (cell \<Rightarrow> cell) \<Rightarrow> string \<Rightarrow> string list \<Rightarrow> cells \<Rightarrow> ((string \<times> kind \<times> string) \<times> cell) list" where
  "copied a stamp template ids m =
     concat (map (\<lambda>((_, k, g), c). map (\<lambda>i. ((i, k, g), stamp c)) ids) (select_rows (\<lambda>q c. fst q = template \<and> c_account c = a) m))"

definition syncTemplateClients :: "time \<Rightarrow> string \<Rightarrow> string \<Rightarrow> string \<Rightarrow> unit tx" where
  "syncTemplateClients now a template one =
     andThen (exec (\<lambda>t. del_defaults clientMatrix (\<lambda>q c. c_account c = a \<and> fst q \<in> set (sync_targets a template one t)) t)) (\<lambda>_.
     andThen (exec (\<lambda>t. del_perms clientMatrix (\<lambda>q c. c_account c = a \<and> fst q \<in> set (sync_targets a template one t)) t)) (\<lambda>_.
     andThen (exec (insert_defaults clientMatrix (\<lambda>t. copied a (\<lambda>c. default_cell a now (c_on c)) template (sync_targets a template one t) (t_tdefaults t)))) (\<lambda>_.
     andThen (exec (insert_perms clientMatrix (\<lambda>t. copied a (\<lambda>c. perm_cell a now (c_on c)) template (sync_targets a template one t) (t_tperms t)))) (\<lambda>_.
     give ()))))"

definition set_template :: "string \<Rightarrow> string \<Rightarrow> string option \<Rightarrow> statement" where
  "set_template a c template t =
     Some (t\<lparr>t_clients := update_rows (\<lambda>i r. i = c \<and> ck_account r = a) (ck_template_update (\<lambda>_. template)) (t_clients t)\<rparr>, 1)"

definition linkClientTemplate :: "time \<Rightarrow> string \<Rightarrow> string \<Rightarrow> string \<Rightarrow> unit tx" where
  "linkClientTemplate now a c template =
     (if template = [] then andThen (exec (set_template a c None)) (\<lambda>_. give ())
      else
        andThen (query (\<lambda>t. owned ct_account (t_templates t) a template \<noteq> None)) (\<lambda>exists.
        if \<not> exists then refuse ErrTemplateNotFound else
        andThen (exec (set_template a c (Some template))) (\<lambda>_.
        syncTemplateClients now a template c)))"

record CreateTemplateInput =
  tp_ID :: string
  tp_Name :: string
  tp_Description :: string
  tp_StartFrom :: string
  tp_SourceClientID :: string

definition from_client :: "string \<Rightarrow> (cell \<Rightarrow> cell) \<Rightarrow> string \<Rightarrow> string \<Rightarrow> cells \<Rightarrow> ((string \<times> kind \<times> string) \<times> cell) list" where
  "from_client a stamp template source m = copied a stamp source [template] m"

definition start_client :: "string \<Rightarrow> time \<Rightarrow> CreateTemplateInput \<Rightarrow> unit tx" where
  "start_client a now i =
     andThen (query (\<lambda>t. owned ck_account (t_clients t) a (tp_SourceClientID i) \<noteq> None)) (\<lambda>exists.
     if \<not> exists then refuse ErrClientKeyNotFound else
     andThen (exec (insert_defaults templateMatrix (\<lambda>t. from_client a (\<lambda>c. default_cell a now (c_on c)) (tp_ID i) (tp_SourceClientID i) (t_defaults t)))) (\<lambda>_.
     andThen (exec (insert_perms templateMatrix (\<lambda>t. from_client a (\<lambda>c. perm_cell a now (c_on c)) (tp_ID i) (tp_SourceClientID i) (t_perms t)))) (\<lambda>_.
     give ())))"

text \<open>Every provider, group and model of the account.\<close>

definition account_groups :: "string \<Rightarrow> kind \<Rightarrow> tenants \<Rightarrow> string list" where
  "account_groups a k t = (case k of RealKind \<Rightarrow> map fst (select_rows (\<lambda>_ p. pv_account p = a) (t_providers t))
     | VirtualKind \<Rightarrow> map fst (select_rows (\<lambda>_ g. vg_account g = a) (t_groups t)))"

definition account_models :: "string \<Rightarrow> kind \<Rightarrow> tenants \<Rightarrow> string list" where
  "account_models a k t = (case k of RealKind \<Rightarrow> map fst (select_rows (\<lambda>_ m. pm_account m = a) (t_models t))
     | VirtualKind \<Rightarrow> map fst (select_rows (\<lambda>_ v. vm_account v = a) (t_virtual t)))"

definition all_defaults :: "string \<Rightarrow> time \<Rightarrow> bool \<Rightarrow> string \<Rightarrow> kind \<Rightarrow> tenants \<Rightarrow> ((string \<times> kind \<times> string) \<times> cell) list" where
  "all_defaults a now on own k t = map (\<lambda>g. ((own, k, g), default_cell a now on)) (account_groups a k t)"

definition all_perms :: "string \<Rightarrow> time \<Rightarrow> bool \<Rightarrow> string \<Rightarrow> kind \<Rightarrow> tenants \<Rightarrow> ((string \<times> kind \<times> string) \<times> cell) list" where
  "all_perms a now on own k t = map (\<lambda>g. ((own, k, g), perm_cell a now on)) (account_models a k t)"

definition CreateTemplate :: "time \<Rightarrow> scope \<Rightarrow> CreateTemplateInput \<Rightarrow> unit tx" where
  "CreateTemplate now sc i = (let a = sc_account sc; fill = (tp_StartFrom i = ''all'') in RunTx
     (andThen (exec (insert_template (tp_ID i) \<lparr>ct_account = a, ct_name = tp_Name i, ct_description = tp_Description i, ct_created = now, ct_updated = now\<rparr>)) (\<lambda>_.
      andThen (if tp_StartFrom i = ''client'' then start_client a now i else give ()) (\<lambda>_.
      andThen (exec (fill_defaults templateMatrix (all_defaults a now fill (tp_ID i) RealKind))) (\<lambda>_.
      andThen (exec (fill_defaults templateMatrix (all_defaults a now fill (tp_ID i) VirtualKind))) (\<lambda>_.
      andThen (exec (fill_perms templateMatrix (all_perms a now fill (tp_ID i) RealKind))) (\<lambda>_.
      andThen (exec (fill_perms templateMatrix (all_perms a now fill (tp_ID i) VirtualKind))) (\<lambda>_.
      give ()))))))))"

definition UpdateTemplate :: "time \<Rightarrow> scope \<Rightarrow> string \<Rightarrow> string option \<Rightarrow> string option \<Rightarrow> unit tx" where
  "UpdateTemplate now sc i name description = (let a = sc_account sc;
       f = (\<lambda>r. r\<lparr>ct_updated := now, ct_name := (case name of None \<Rightarrow> ct_name r | Some x \<Rightarrow> x),
                 ct_description := (case description of None \<Rightarrow> ct_description r | Some x \<Rightarrow> x)\<rparr>) in
     andThen (exec (\<lambda>t. case owned ct_account (t_templates t) a i of
         None \<Rightarrow> Some (t, 0)
       | Some r \<Rightarrow> if \<not> template_ok i (f r) t then None
           else Some (t\<lparr>t_templates := update_rows (\<lambda>j r. j = i \<and> ct_account r = a) f (t_templates t)\<rparr>, 1)))
       (no_rows ErrTemplateNotFound))"

text \<open>\<open>ORDER BY id\<close>.\<close>

fun text_le :: "string \<Rightarrow> string \<Rightarrow> bool" where
  "text_le [] _ = True"
| "text_le (c # cs) [] = False"
| "text_le (c # cs) (d # ds) = (byte c < byte d \<or> c = d \<and> text_le cs ds)"

fun insert_text :: "string \<Rightarrow> string list \<Rightarrow> string list" where
  "insert_text x [] = [x]"
| "insert_text x (y # ys) = (if text_le x y then x # y # ys else y # insert_text x ys)"

definition linkedClientIDs :: "string \<Rightarrow> string \<Rightarrow> tenants \<Rightarrow> string list" where
  "linkedClientIDs a template t = foldr insert_text (sync_targets a template [] t) []"

definition DeleteTemplate :: "time \<Rightarrow> scope \<Rightarrow> string \<Rightarrow> string list tx" where
  "DeleteTemplate now sc i = (let a = sc_account sc in RunTx
     (andThen (query (linkedClientIDs a i)) (\<lambda>ids.
      andThen (exec (\<lambda>t. Some (t\<lparr>t_clients := update_rows (linked a i) (\<lambda>c. c\<lparr>ck_template := None, ck_updated := now\<rparr>) (t_clients t)\<rparr>, 1))) (\<lambda>_.
      andThen (exec (del_perms templateMatrix (\<lambda>q c. fst q = i \<and> c_account c = a))) (\<lambda>_.
      andThen (exec (del_defaults templateMatrix (\<lambda>q c. fst q = i \<and> c_account c = a))) (\<lambda>_.
      andThen (exec (del_templates (\<lambda>j r. j = i \<and> ct_account r = a))) (\<lambda>n.
      andThen (no_rows ErrTemplateNotFound n) (\<lambda>_. give ids))))))))"

definition UpdateTemplatePermissions ::
  "time \<Rightarrow> scope \<Rightarrow> string \<Rightarrow> PermissionDefaultUpdate list \<Rightarrow> PermissionModelUpdate list \<Rightarrow> string list tx" where
  "UpdateTemplatePermissions now sc i defaults permissions = (let a = sc_account sc in RunTx
     (andThen (query (\<lambda>t. owned ct_account (t_templates t) a i \<noteq> None)) (\<lambda>exists.
      if \<not> exists then refuse ErrTemplateNotFound else
      andThen (applyMatrixUpdates templateMatrix a now i defaults permissions) (\<lambda>_.
      andThen (exec (\<lambda>t. Some (t\<lparr>t_templates := update_rows (\<lambda>j r. j = i \<and> ct_account r = a) (ct_updated_update (\<lambda>_. now)) (t_templates t)\<rparr>, 1))) (\<lambda>_.
      andThen (query (linkedClientIDs a i)) (\<lambda>ids.
      andThen (syncTemplateClients now a i []) (\<lambda>_. give ids)))))))"

section \<open>Client keys\<close>

definition bodyLogValue :: "string \<Rightarrow> bool option" where
  "bodyLogValue mode = (if mode = ''always'' then Some True else if mode = ''never'' then Some False else None)"

definition bodyLogMode :: "bool option \<Rightarrow> string" where
  "bodyLogMode v = (case v of None \<Rightarrow> ''inherit'' | Some b \<Rightarrow> if b then ''always'' else ''never'')"

definition ValidBodyLogMode :: "string \<Rightarrow> bool" where
  "ValidBodyLogMode mode \<longleftrightarrow> mode \<in> {''inherit'', ''always'', ''never''}"

definition singleTargetExists :: "string \<Rightarrow> string \<Rightarrow> string \<Rightarrow> bool tx" where
  "singleTargetExists a targetType targetID =
     (case kind_of targetType of
        None \<Rightarrow> give False
      | Some k \<Rightarrow> query (model_owned a k targetID))"

definition upsertSingleBinding :: "string \<Rightarrow> time \<Rightarrow> string \<Rightarrow> string \<Rightarrow> string \<Rightarrow> string \<Rightarrow> unit tx" where
  "upsertSingleBinding a now c modelName targetType targetID =
     andThen (exec (upsert_binding c \<lparr>sb_account = a, sb_name = modelName,
         sb_real = (if targetType = ''real'' then Some targetID else None),
         sb_virtual = (if targetType = ''real'' then None else Some targetID), sb_created = now, sb_updated = now\<rparr>)) (\<lambda>_. give ())"

record CreateClientKeyInput =
  ci_ID :: string
  ci_Name :: string
  ci_Description :: string
  ci_Group :: string
  ci_Selector :: string
  ci_Hash :: string
  ci_Fingerprint :: string
  ci_Type :: string
  ci_LoggingEnabled :: bool
  ci_RetentionDays :: int
  ci_SingleModelName :: string
  ci_SingleTargetType :: string
  ci_SingleTargetID :: string
  ci_TemplateID :: string

definition new_client :: "string \<Rightarrow> time \<Rightarrow> CreateClientKeyInput \<Rightarrow> client_row" where
  "new_client a now i = \<lparr>ck_account = a, ck_name = ci_Name i, ck_description = ci_Description i, ck_group = ci_Group i,
     ck_selector = ci_Selector i, ck_hash = ci_Hash i, ck_fingerprint = ci_Fingerprint i, ck_enabled = True,
     ck_logging = ci_LoggingEnabled i, ck_bodies = None, ck_retention = ci_RetentionDays i, ck_created = now, ck_rotated = None,
     ck_updated = now, ck_type = ci_Type i, ck_template = None\<rparr>"

definition CreateClientKey :: "time \<Rightarrow> scope \<Rightarrow> CreateClientKeyInput \<Rightarrow> unit tx" where
  "CreateClientKey now sc i = (let a = sc_account sc in RunTx
     (andThen (plan_check EnforceClientKeyLimit sc) (\<lambda>_.
      andThen (if ci_Type i = ''single'' then singleTargetExists a (ci_SingleTargetType i) (ci_SingleTargetID i) else give True) (\<lambda>exists.
      if \<not> exists then refuse ErrSingleTargetNotFound else
      andThen (exec (insert_client (ci_ID i) (new_client a now i))) (\<lambda>_.
      andThen (if ci_Type i = ''single''
               then upsertSingleBinding a now (ci_ID i) (ci_SingleModelName i) (ci_SingleTargetType i) (ci_SingleTargetID i)
               else give ()) (\<lambda>_.
      andThen (exec (insert_defaults clientMatrix (all_defaults a now False (ci_ID i) RealKind))) (\<lambda>_.
      andThen (exec (insert_defaults clientMatrix (all_defaults a now False (ci_ID i) VirtualKind))) (\<lambda>_.
      andThen (exec (insert_perms clientMatrix (all_perms a now False (ci_ID i) RealKind))) (\<lambda>_.
      andThen (exec (insert_perms clientMatrix (all_perms a now False (ci_ID i) VirtualKind))) (\<lambda>_.
      if ci_TemplateID i \<noteq> [] then linkClientTemplate now a (ci_ID i) (ci_TemplateID i) else give ()))))))))))"

record UpdateClientKeyInput =
  uc_ID :: string
  uc_Name :: "string option"
  uc_Description :: "string option"
  uc_Group :: "string option"
  uc_Type :: "string option"
  uc_Enabled :: "bool option"
  uc_Logging :: "bool option"
  uc_LogErrorBodies :: string
  uc_Retention :: "int option"
  uc_BindingSet :: bool
  uc_BindingExists :: bool
  uc_ModelName :: string
  uc_TargetType :: string
  uc_TargetID :: string
  uc_Template :: "string option"

definition supplied :: "'a option \<Rightarrow> 'a \<Rightarrow> 'a" where
  "supplied x old = (case x of None \<Rightarrow> old | Some v \<Rightarrow> v)"

text \<open>A field and its \<open>...Set\<close> flag are one optional value.\<close>

definition client_edit :: "time \<Rightarrow> UpdateClientKeyInput \<Rightarrow> client_row \<Rightarrow> client_row" where
  "client_edit now i r = r\<lparr>ck_updated := now, ck_name := supplied (uc_Name i) (ck_name r),
     ck_description := supplied (uc_Description i) (ck_description r), ck_group := supplied (uc_Group i) (ck_group r),
     ck_logging := supplied (uc_Logging i) (ck_logging r),
     ck_bodies := (if uc_LogErrorBodies i \<noteq> [] then bodyLogValue (uc_LogErrorBodies i) else ck_bodies r),
     ck_retention := supplied (uc_Retention i) (ck_retention r), ck_type := supplied (uc_Type i) (ck_type r),
     ck_enabled := supplied (uc_Enabled i) (ck_enabled r)\<rparr>"

definition update_client :: "string \<Rightarrow> string \<Rightarrow> (client_row \<Rightarrow> client_row) \<Rightarrow> statement" where
  "update_client a c f t =
     (case owned ck_account (t_clients t) a c of
        None \<Rightarrow> Some (t, 0)
      | Some r \<Rightarrow> if \<not> client_ok c (f r) t then None
          else Some (t\<lparr>t_clients := update_rows (\<lambda>i r. i = c \<and> ck_account r = a) f (t_clients t)\<rparr>, 1))"

definition write_binding :: "UpdateClientKeyInput \<Rightarrow> bool" where
  "write_binding i \<longleftrightarrow> uc_BindingSet i \<or> uc_Type i = Some ''single'' \<and> \<not> uc_BindingExists i"

definition UpdateClientKey :: "time \<Rightarrow> scope \<Rightarrow> UpdateClientKeyInput \<Rightarrow> unit tx" where
  "UpdateClientKey now sc i = (let a = sc_account sc in RunTx
     (andThen (exec (update_client a (uc_ID i) (client_edit now i))) (\<lambda>n.
      andThen (no_rows ErrClientKeyNotFound n) (\<lambda>_.
      andThen (case uc_Template i of None \<Rightarrow> give () | Some x \<Rightarrow> linkClientTemplate now a (uc_ID i) x) (\<lambda>_.
      if write_binding i then
        andThen (singleTargetExists a (uc_TargetType i) (uc_TargetID i)) (\<lambda>exists.
        if \<not> exists then refuse ErrSingleTargetNotFound
        else upsertSingleBinding a now (uc_ID i) (uc_ModelName i) (uc_TargetType i) (uc_TargetID i))
      else give ())))))"

definition RotateClientKey :: "time \<Rightarrow> scope \<Rightarrow> string \<Rightarrow> string \<Rightarrow> string \<Rightarrow> string \<Rightarrow> bool tx" where
  "RotateClientKey now sc c selector hash fingerprint =
     andThen (exec (update_client (sc_account sc) c (\<lambda>r. r\<lparr>ck_selector := selector, ck_hash := hash, ck_fingerprint := fingerprint,
        ck_rotated := Some now, ck_updated := now\<rparr>))) (\<lambda>n. give (0 < n))"

text \<open>
  Three statements without a transaction, under the cleanup lock: the cleanup of the key's Activity is
  recorded before the key goes. Inside a transaction there is no outer handle to record it with, so the
  operation is only called on a fresh scope.
\<close>

definition DeleteClientKey :: "time \<Rightarrow> scope \<Rightarrow> string \<Rightarrow> bool tx" where
  "DeleteClientKey now sc c = (let a = sc_account sc in
     andThen (query (\<lambda>t. owned ck_account (t_clients t) a c \<noteq> None)) (\<lambda>exists.
     andThen (query (\<lambda>t. gm_get (t_cleanup t) (a, c) \<noteq> None)) (\<lambda>pending.
     if \<not> exists \<and> \<not> pending then give False else
     andThen (exec (\<lambda>t. Some (t\<lparr>t_cleanup := insert_missing [((a, c), now)] (t_cleanup t)\<rparr>, 1))) (\<lambda>_.
     if \<not> exists then give True else
     andThen (exec (del_clients (\<lambda>i r. i = c \<and> ck_account r = a))) (\<lambda>n. give (0 < n))))))"

definition UpdatePermissions :: "time \<Rightarrow> scope \<Rightarrow> string \<Rightarrow> PermissionDefaultUpdate list \<Rightarrow> PermissionModelUpdate list \<Rightarrow> unit tx" where
  "UpdatePermissions now sc c defaults permissions = (let a = sc_account sc in RunTx
     (andThen (query (\<lambda>t. owned ck_account (t_clients t) a c)) (\<lambda>row.
       case row of
         None \<Rightarrow> refuse ErrClientKeyNotFound
       | Some r \<Rightarrow> if ck_template r \<noteq> None then refuse ErrClientLinkedToTemplate
           else applyMatrixUpdates clientMatrix a now c defaults permissions)))"

end
