(* ===== verification/MatrixLaws.thy ===== *)
theory MatrixLaws
  imports ClientKeys
begin

text \<open>
  A client key linked to a catalogue template always has the template's matrix: the invariant that lets
  routing and listing read only the rows of the key. It is shown for every operation of the store that
  touches keys, templates, groups or models.
\<close>

section \<open>Triples\<close>

text \<open>After every successful run from a state with \<open>P\<close>, \<open>Q\<close> holds of the value and the state.\<close>

definition triple :: "(tenants \<Rightarrow> bool) \<Rightarrow> 'a tx \<Rightarrow> ('a \<Rightarrow> tenants \<Rightarrow> bool) \<Rightarrow> bool" where
  "triple P m Q \<longleftrightarrow> (\<forall>t x t'. P t \<longrightarrow> effect m t x t' \<longrightarrow> Q x t')"

lemma triple_andThen: "triple P m R \<Longrightarrow> (\<And>y. triple (R y) (k y) Q) \<Longrightarrow> triple P (andThen m k) Q"
  unfolding triple_def by (metis effect_andThen)

lemma triple_give: "(\<And>t. P t \<Longrightarrow> Q x t) \<Longrightarrow> triple P (give x) Q"
  by (auto simp: triple_def effects)

lemma triple_refuse: "triple P (refuse e) Q"
  by (simp add: triple_def effects)

lemma triple_exec: "(\<And>t t' n. P t \<Longrightarrow> f t = Some (t', n) \<Longrightarrow> Q n t') \<Longrightarrow> triple P (exec f) Q"
  by (auto simp: triple_def effects)

lemma triple_query: "(\<And>t. P t \<Longrightarrow> Q (f t) t) \<Longrightarrow> triple P (query f) Q"
  by (auto simp: triple_def effects)

lemma triple_unless_error: "(\<And>t x. P t \<Longrightarrow> r = Inr x \<Longrightarrow> Q x t) \<Longrightarrow> triple P (unless_error r) Q"
  by (auto simp: triple_def effects)

lemma triple_no_rows: "(\<And>t. P t \<Longrightarrow> n \<noteq> 0 \<Longrightarrow> Q () t) \<Longrightarrow> triple P (no_rows e n) Q"
  by (auto simp: triple_def effects)

lemma triple_plan_check: "triple P (plan_check f sc) (\<lambda>_. P)"
  using effect_plan_check by (fastforce simp: triple_def)

lemma triple_RunTx: "triple P m Q \<Longrightarrow> triple P (RunTx m) Q"
  using effect_RunTx by (fastforce simp: triple_def)

lemma triple_each: "(\<And>x. x \<in> set xs \<Longrightarrow> triple P (f x) (\<lambda>_. P)) \<Longrightarrow> triple P (each f xs) (\<lambda>_. P)"
  by (induction xs) (auto intro!: triple_give triple_andThen)

lemma triple_if: "(c \<Longrightarrow> triple P a Q) \<Longrightarrow> (\<not> c \<Longrightarrow> triple P b Q) \<Longrightarrow> triple P (if c then a else b) Q"
  by simp

lemma triple_pre: "triple P m Q \<Longrightarrow> (\<And>t. P' t \<Longrightarrow> P t) \<Longrightarrow> triple P' m Q"
  by (auto simp: triple_def)

lemma triple_post: "triple P m Q \<Longrightarrow> (\<And>x t. Q x t \<Longrightarrow> Q' x t) \<Longrightarrow> triple P m Q'"
  by (auto simp: triple_def)

section \<open>The invariant\<close>

definition on_cell :: "cells \<Rightarrow> string \<Rightarrow> kind \<Rightarrow> string \<Rightarrow> bool option" where
  "on_cell m own k i = map_option c_on (gm_get m (own, k, i))"

fun owner_account :: "permissionMatrix \<Rightarrow> tenants \<Rightarrow> string \<Rightarrow> string option" where
  "owner_account clientMatrix t i = map_option ck_account (gm_get (t_clients t) i)"
| "owner_account templateMatrix t i = map_option ct_account (gm_get (t_templates t) i)"

definition matrix_wf :: "tenants \<Rightarrow> bool" where
  "matrix_wf t \<longleftrightarrow> gm_wf (t_clients t) \<and> gm_wf (t_templates t) \<and> (\<forall>m. gm_wf (defaults_of m t) \<and> gm_wf (perms_of m t))"

text \<open>Every row has the account of its owner.\<close>

definition good_cells :: "(string \<Rightarrow> string option) \<Rightarrow> cells \<Rightarrow> bool" where
  "good_cells acc tbl \<longleftrightarrow> (\<forall>q c. gm_get tbl q = Some c \<longrightarrow> acc (fst q) = Some (c_account c))"

definition cells_ok :: "tenants \<Rightarrow> bool" where
  "cells_ok t \<longleftrightarrow> (\<forall>m. good_cells (owner_account m t) (defaults_of m t) \<and> good_cells (owner_account m t) (perms_of m t))"

definition link_of :: "tenants \<Rightarrow> string \<Rightarrow> string option" where
  "link_of t i = Option.bind (gm_get (t_clients t) i) ck_template"

definition links_ok :: "tenants \<Rightarrow> bool" where
  "links_ok t \<longleftrightarrow> (\<forall>i x. link_of t i = Some x \<longrightarrow> owner_account templateMatrix t x = owner_account clientMatrix t i)"

definition mirrored :: "tenants \<Rightarrow> string \<Rightarrow> string \<Rightarrow> bool" where
  "mirrored t i x \<longleftrightarrow> (\<forall>k g. on_cell (t_defaults t) i k g = on_cell (t_tdefaults t) x k g \<and>
     on_cell (t_perms t) i k g = on_cell (t_tperms t) x k g)"

definition matrix_inv :: "tenants \<Rightarrow> bool" where
  "matrix_inv t \<longleftrightarrow> matrix_wf t \<and> cells_ok t \<and> links_ok t \<and> (\<forall>i x. link_of t i = Some x \<longrightarrow> mirrored t i x)"

text \<open>The tables the invariant reads.\<close>

definition matrix_view :: "tenants \<Rightarrow> (string, client_row) gomap \<times> (string, template_row) gomap \<times> cells \<times> cells \<times> cells \<times> cells" where
  "matrix_view t = (t_clients t, t_templates t, t_defaults t, t_perms t, t_tdefaults t, t_tperms t)"

lemma of_view:
  assumes "matrix_view t' = matrix_view t"
  shows "t_clients t' = t_clients t" "t_templates t' = t_templates t" "defaults_of m t' = defaults_of m t" "perms_of m t' = perms_of m t"
    "owner_account m t' = owner_account m t" "link_of t' = link_of t"
  using assms by (cases m; auto simp: matrix_view_def link_of_def fun_eq_iff)+

lemma matrix_inv_view:
  assumes "matrix_view t' = matrix_view t" "matrix_inv t"
  shows "matrix_inv t'"
proof -
  have "t_defaults t' = t_defaults t" "t_perms t' = t_perms t" "t_tdefaults t' = t_tdefaults t" "t_tperms t' = t_tperms t"
    using assms(1) by (simp_all add: matrix_view_def)
  then show ?thesis using assms(2) of_view [OF assms(1)]
    unfolding matrix_inv_def matrix_wf_def cells_ok_def links_ok_def mirrored_def by metis
qed

lemma with_tables [simp]:
  "defaults_of m (with_defaults m c t) = c" "perms_of m (with_perms m c t) = c"
  "perms_of m' (with_defaults m c t) = perms_of m' t" "defaults_of m' (with_perms m c t) = defaults_of m' t"
  "owner_account m' (with_defaults m c t) = owner_account m' t" "owner_account m' (with_perms m c t) = owner_account m' t"
  "t_clients (with_defaults m c t) = t_clients t" "t_clients (with_perms m c t) = t_clients t"
  "t_templates (with_defaults m c t) = t_templates t" "t_templates (with_perms m c t) = t_templates t"
  by (cases m; cases m'; auto simp: fun_eq_iff)+

lemma with_other [simp]:
  "m' \<noteq> m \<Longrightarrow> defaults_of m' (with_defaults m c t) = defaults_of m' t" "m' \<noteq> m \<Longrightarrow> perms_of m' (with_perms m c t) = perms_of m' t"
  by (cases m; cases m'; simp)+

text \<open>The account of an owner decides what a step that treats keys and templates alike does to its matrix.\<close>

lemma uniform_step:
  assumes "matrix_inv t" "t_clients t' = t_clients t" "t_templates t' = t_templates t" "matrix_wf t'" "cells_ok t'"
    and "\<And>m own a k g. owner_account m t own = Some a \<Longrightarrow>
          on_cell (defaults_of m t') own k g = D a k g (on_cell (defaults_of m t) own)"
    and "\<And>m own a k g. owner_account m t own = Some a \<Longrightarrow>
          on_cell (perms_of m t') own k g = F a k g (on_cell (defaults_of m t) own) (on_cell (perms_of m t) own)"
  shows "matrix_inv t'"
proof -
  have l: "link_of t' = link_of t" and o: "owner_account m t' = owner_account m t" for m
    using assms(2,3) by (auto simp: link_of_def fun_eq_iff; cases m; auto)+
  have "mirrored t' i x" if "link_of t i = Some x" for i x
  proof -
    from that obtain a where a: "owner_account clientMatrix t i = Some a" by (auto simp: link_of_def split: bind_splits)
    then have a': "owner_account templateMatrix t x = Some a" using assms(1) that by (simp add: matrix_inv_def links_ok_def)
    have "mirrored t i x" using assms(1) that by (simp add: matrix_inv_def)
    then have "on_cell (t_defaults t) i = on_cell (t_tdefaults t) x" "on_cell (t_perms t) i = on_cell (t_tperms t) x"
      by (auto simp: mirrored_def fun_eq_iff)
    then show ?thesis using assms(6,7) [OF a] assms(6,7) [OF a'] by (simp add: mirrored_def)
  qed
  then show ?thesis using assms(1,4,5) l o by (simp add: matrix_inv_def links_ok_def)
qed

section \<open>Seeding\<close>

lemma owners_iff: "matrix_wf t \<Longrightarrow> own \<in> set (owners m a t) \<longleftrightarrow> owner_account m t own = Some a"
  by (cases m) (force simp: select_rows_def gm_mem_iff matrix_wf_def)+

lemma map_of_keys: "map_of (map (\<lambda>c. ((c, k, g), x)) cs) (own, k', g') = (if own \<in> set cs \<and> k' = k \<and> g' = g then Some x else None)"
  by (induction cs) auto

lemma map_of_grid:
  "map_of (concat (map (\<lambda>c. map (\<lambda>i. ((c, k, i), f c)) ids) cs)) (own, k', i') =
     (if own \<in> set cs \<and> k' = k \<and> i' \<in> set ids then Some (f own) else None)"
proof (induction cs)
  case (Cons c cs)
  have "map_of (map (\<lambda>i. ((c, k, i), f c)) ids) (own, k', i') = (if own = c \<and> k' = k \<and> i' \<in> set ids then Some (f own) else None)"
    by (induction ids) auto
  then show ?case using Cons by (auto simp: map_add_def split: option.splits)
qed simp

lemma feeder_on:
  assumes "cells_ok t" "owner_account m t own = Some a"
  shows "feeder m a t k g own \<longleftrightarrow> on_cell (defaults_of m t) own k g = Some True"
proof (cases "gm_get (defaults_of m t) (own, k, g)")
  case (Some c)
  then have "owner_account m t own = Some (c_account c)" using assms(1) by (force simp: cells_ok_def good_cells_def)
  then show ?thesis using Some assms(2) by (simp add: feeder_def on_cell_def)
qed (simp add: feeder_def on_cell_def)

text \<open>An insert of fresh rows whose owners have the account of the row.\<close>

lemma good_insert:
  assumes "good_cells acc tbl" "insert_rows rows tbl = Some d" "\<And>q c. (q, c) \<in> set rows \<Longrightarrow> acc (fst q) = Some (c_account c)"
  shows "good_cells acc d"
  unfolding good_cells_def
proof (intro allI impI)
  fix q c assume h: "gm_get d q = Some c"
  show "acc (fst q) = Some (c_account c)"
  proof (cases "map_of rows q")
    case None
    then have "gm_get tbl q = Some c" using h insert_rows_get [OF assms(2), of q] by simp
    then show ?thesis using assms(1) unfolding good_cells_def by blast
  next
    case (Some v)
    then show ?thesis using h insert_rows_get [OF assms(2), of q] assms(3) [OF map_of_SomeD [OF Some]] by simp
  qed
qed

lemma good_delete: "gm_wf tbl \<Longrightarrow> good_cells acc tbl \<Longrightarrow> good_cells acc (delete_rows P tbl)"
  unfolding good_cells_def by (simp split: option.splits)

lemma cells_ok_with:
  "cells_ok t \<Longrightarrow> good_cells (owner_account m t) d \<Longrightarrow> cells_ok (with_defaults m d t)"
  "cells_ok t \<Longrightarrow> good_cells (owner_account m t) d \<Longrightarrow> cells_ok (with_perms m d t)"
proof -
  assume t: "cells_ok t" and d: "good_cells (owner_account m t) d"
  have "good_cells (owner_account m' t) (defaults_of m' (with_defaults m d t))" "good_cells (owner_account m' t) (perms_of m' (with_perms m d t))" for m'
    using t d by (cases "m' = m"; simp add: cells_ok_def)+
  then show "cells_ok (with_defaults m d t)" "cells_ok (with_perms m d t)" using t by (simp_all add: cells_ok_def)
qed

lemma matrix_wf_with:
  "matrix_wf t \<Longrightarrow> gm_wf d \<Longrightarrow> matrix_wf (with_defaults m d t)" "matrix_wf t \<Longrightarrow> gm_wf d \<Longrightarrow> matrix_wf (with_perms m d t)"
proof -
  assume t: "matrix_wf t" and d: "gm_wf d"
  have "gm_wf (defaults_of m' (with_defaults m d t))" "gm_wf (perms_of m' (with_perms m d t))" for m'
    using t d by (cases "m' = m"; simp add: matrix_wf_def)+
  then show "matrix_wf (with_defaults m d t)" "matrix_wf (with_perms m d t)" using t by (auto simp: matrix_wf_def)
qed

text \<open>A step that writes both matrices, first that of the keys and then that of the templates.\<close>

lemma seed_group_inv: "triple matrix_inv (seed_group a now k g) (\<lambda>_. matrix_inv)"
  unfolding triple_def
proof (intro allI impI)
  fix t x t' assume inv: "matrix_inv t" and eff: "effect (seed_group a now k g) t x t'"
  let ?rows = "\<lambda>m t. map (\<lambda>c. ((c, k, g), default_cell a now False)) (owners m a t)"
  obtain d1 d2 where d1: "insert_rows (?rows clientMatrix t) (t_defaults t) = Some d1"
    and d2: "insert_rows (?rows templateMatrix (t\<lparr>t_defaults := d1\<rparr>)) (t_tdefaults t) = Some d2"
    and t': "t' = t\<lparr>t_defaults := d1, t_tdefaults := d2\<rparr>"
    using eff unfolding seed_group_def by (auto simp: effects insert_defaults_def dest!: effect_andThen)
  have d2': "insert_rows (?rows templateMatrix t) (t_tdefaults t) = Some d2" using d2 by simp
  have wf: "matrix_wf t" and ok: "cells_ok t" using inv by (simp_all add: matrix_inv_def)
  have own: "owner_account m t (fst q) = Some (c_account c)" if "(q, c) \<in> set (?rows m t)" for m q c
    using that owners_iff [OF wf, of _ m a] by (auto simp: default_cell_def)
  have okc: "good_cells (owner_account m t) (defaults_of m t)" for m using ok by (simp add: cells_ok_def)
  have g1: "good_cells (owner_account clientMatrix t) d1"
    by (rule good_insert [OF okc [of clientMatrix, unfolded defaults_of.simps] d1 own [of _ _ clientMatrix]])
  have g2: "good_cells (owner_account templateMatrix t) d2"
    by (rule good_insert [OF okc [of templateMatrix, unfolded defaults_of.simps] d2' own [of _ _ templateMatrix]])
  have ok2: "cells_ok (with_defaults templateMatrix d2 (with_defaults clientMatrix d1 t))"
    by (rule cells_ok_with(1) [OF cells_ok_with(1) [OF ok g1]]) (simp only: with_tables g2)
  have get: "gm_get (defaults_of m t') q = (case map_of (?rows m t) q of None \<Rightarrow> gm_get (defaults_of m t) q | Some v \<Rightarrow> Some v)" for m q
    by (cases m; use insert_rows_get [OF d1, of q] insert_rows_get [OF d2', of q] t' in \<open>simp split: option.split\<close>)
  show "matrix_inv t'"
  proof (rule uniform_step [OF inv, where D = "\<lambda>a' k' g' old. if a' = a \<and> k' = k \<and> g' = g then Some False else old k' g'"
          and F = "\<lambda>a' k' g' d old. old k' g'"])
    show "t_clients t' = t_clients t" "t_templates t' = t_templates t" by (simp_all add: t')
    show "cells_ok t'" using ok2 by (simp add: t')
    have "gm_wf d1" "gm_wf d2" using wf insert_rows_wf [OF d1] insert_rows_wf [OF d2'] by (simp_all add: matrix_wf_def) (metis defaults_of.simps)+
    then show "matrix_wf t'" using matrix_wf_with(1) [of "with_defaults clientMatrix d1 t" d2 templateMatrix]
        matrix_wf_with(1) [OF wf, of d1 clientMatrix] by (simp add: t')
  next
    fix m own a' k' g' assume o: "owner_account m t own = Some a'"
    show "on_cell (defaults_of m t') own k' g' = (if a' = a \<and> k' = k \<and> g' = g then Some False else on_cell (defaults_of m t) own k' g')"
      using o owners_iff [OF wf, of own m a] by (simp add: on_cell_def get map_of_keys default_cell_def)
    show "on_cell (perms_of m t') own k' g' = on_cell (perms_of m t) own k' g'" by (cases m) (simp_all add: t')
  qed
qed

lemma seed_models_inv: "triple matrix_inv (seed_models a now k g ids) (\<lambda>_. matrix_inv)"
  unfolding triple_def
proof (intro allI impI)
  fix t x t' assume inv: "matrix_inv t" and eff: "effect (seed_models a now k g ids) t x t'"
  let ?rows = "\<lambda>m t. model_cells m a now k g ids t"
  obtain d1 d2 where d1: "insert_rows (?rows clientMatrix t) (t_perms t) = Some d1"
    and d2: "insert_rows (?rows templateMatrix (t\<lparr>t_perms := d1\<rparr>)) (t_tperms t) = Some d2"
    and t': "t' = t\<lparr>t_perms := d1, t_tperms := d2\<rparr>"
    using eff unfolding seed_models_def by (auto simp: effects insert_perms_def dest!: effect_andThen)
  have d2': "insert_rows (?rows templateMatrix t) (t_tperms t) = Some d2"
    using d2 by (simp add: model_cells_def feeder_def)
  have wf: "matrix_wf t" and ok: "cells_ok t" using inv by (simp_all add: matrix_inv_def)
  have own: "owner_account m t (fst q) = Some (c_account c)" if "(q, c) \<in> set (?rows m t)" for m q c
    using that owners_iff [OF wf, of _ m a] by (auto simp: perm_cell_def model_cells_def)
  have okc: "good_cells (owner_account m t) (perms_of m t)" for m using ok by (simp add: cells_ok_def)
  have g1: "good_cells (owner_account clientMatrix t) d1"
    by (rule good_insert [OF okc [of clientMatrix, unfolded perms_of.simps] d1 own [of _ _ clientMatrix]])
  have g2: "good_cells (owner_account templateMatrix t) d2"
    by (rule good_insert [OF okc [of templateMatrix, unfolded perms_of.simps] d2' own [of _ _ templateMatrix]])
  have ok2: "cells_ok (with_perms templateMatrix d2 (with_perms clientMatrix d1 t))"
    by (rule cells_ok_with(2) [OF cells_ok_with(2) [OF ok g1]]) (simp only: with_tables g2)
  have get: "gm_get (perms_of m t') q = (case map_of (?rows m t) q of None \<Rightarrow> gm_get (perms_of m t) q | Some v \<Rightarrow> Some v)" for m q
    by (cases m; use insert_rows_get [OF d1, of q] insert_rows_get [OF d2', of q] t' in \<open>simp split: option.split\<close>)
  show "matrix_inv t'"
  proof (rule uniform_step [OF inv, where D = "\<lambda>a' k' g' old. old k' g'"
          and F = "\<lambda>a' k' i' d old. if a' = a \<and> k' = k \<and> i' \<in> set ids then Some (d k g = Some True) else old k' i'"])
    show "t_clients t' = t_clients t" "t_templates t' = t_templates t" by (simp_all add: t')
    show "cells_ok t'" using ok2 by (simp add: t')
    have "gm_wf d1" "gm_wf d2" using wf insert_rows_wf [OF d1] insert_rows_wf [OF d2'] by (simp_all add: matrix_wf_def) (metis perms_of.simps)+
    then show "matrix_wf t'" using matrix_wf_with(2) [of "with_perms clientMatrix d1 t" d2 templateMatrix]
        matrix_wf_with(2) [OF wf, of d1 clientMatrix] by (simp add: t')
  next
    fix m own a' k' i' assume o: "owner_account m t own = Some a'"
    show "on_cell (defaults_of m t') own k' i' = on_cell (defaults_of m t) own k' i'" by (cases m) (simp_all add: t')
    show "on_cell (perms_of m t') own k' i' =
        (if a' = a \<and> k' = k \<and> i' \<in> set ids then Some (on_cell (defaults_of m t) own k g = Some True) else on_cell (perms_of m t) own k' i')"
    proof (cases "own \<in> set (owners m a t)")
      case True
      then have "owner_account m t own = Some a" using owners_iff [OF wf] by blast
      then show ?thesis using True o feeder_on [OF ok, of m own a k g] by (simp add: on_cell_def get model_cells_def map_of_grid perm_cell_def)
    next
      case False
      then show ?thesis using o owners_iff [OF wf, of own m a] by (simp add: on_cell_def get model_cells_def map_of_grid)
    qed
  qed
qed

section \<open>Deleting from both matrices\<close>

text \<open>The rows of the account with a given kind and id, in all four tables.\<close>

definition cut :: "string \<Rightarrow> (kind \<Rightarrow> string \<Rightarrow> bool) \<Rightarrow> cells \<Rightarrow> cells" where
  "cut a R m = delete_rows (\<lambda>(_, k, i) c. R k i \<and> c_account c = a) m"

lemma on_cut:
  assumes "gm_wf tbl" "good_cells acc tbl" "acc own = Some a'"
  shows "on_cell (cut a R tbl) own k i = (if a' = a \<and> R k i then None else on_cell tbl own k i)"
proof (cases "gm_get tbl (own, k, i)")
  case (Some c)
  then have "acc own = Some (c_account c)" using assms(2) by (force simp: good_cells_def)
  then show ?thesis using Some assms(1,3) by (simp add: on_cell_def cut_def)
qed (use assms(1) in \<open>simp add: on_cell_def cut_def\<close>)

lemma cut_none: "cut a (\<lambda>_ _. False) m = m"
  by (simp add: cut_def delete_rows_def gm_keep_def split_def)

definition cut_all :: "string \<Rightarrow> (kind \<Rightarrow> string \<Rightarrow> bool) \<Rightarrow> (kind \<Rightarrow> string \<Rightarrow> bool) \<Rightarrow> tenants \<Rightarrow> tenants" where
  "cut_all a S R t = t\<lparr>t_defaults := cut a S (t_defaults t), t_perms := cut a R (t_perms t),
     t_tdefaults := cut a S (t_tdefaults t), t_tperms := cut a R (t_tperms t)\<rparr>"

lemma cut_all_inv:
  assumes "matrix_inv t"
  shows "matrix_inv (cut_all a S R t)"
proof -
  have wf: "matrix_wf t" and ok: "cells_ok t" using assms by (simp_all add: matrix_inv_def)
  have get: "defaults_of m (cut_all a S R t) = cut a S (defaults_of m t)" "perms_of m (cut_all a S R t) = cut a R (perms_of m t)"
    "owner_account m (cut_all a S R t) = owner_account m t" for m
    by (cases m; simp add: cut_all_def fun_eq_iff)+
  have w: "gm_wf (defaults_of m t)" "gm_wf (perms_of m t)" for m using wf by (simp_all add: matrix_wf_def)
  have g: "good_cells (owner_account m t) (defaults_of m t)" "good_cells (owner_account m t) (perms_of m t)" for m
    using ok by (simp_all add: cells_ok_def)
  show ?thesis
  proof (rule uniform_step [OF assms, where D = "\<lambda>a' k i old. if a' = a \<and> S k i then None else old k i"
          and F = "\<lambda>a' k i d old. if a' = a \<and> R k i then None else old k i"])
    show "t_clients (cut_all a S R t) = t_clients t" "t_templates (cut_all a S R t) = t_templates t" by (simp_all add: cut_all_def)
    show "matrix_wf (cut_all a S R t)" using wf w unfolding matrix_wf_def get by (simp add: cut_def) (simp add: cut_all_def)
    show "cells_ok (cut_all a S R t)" unfolding cells_ok_def get using good_delete [OF w(1) g(1)] good_delete [OF w(2) g(2)] by (simp add: cut_def)
  next
    fix m own a' k i assume o: "owner_account m t own = Some a'"
    show "on_cell (defaults_of m (cut_all a S R t)) own k i = (if a' = a \<and> S k i then None else on_cell (defaults_of m t) own k i)"
      unfolding get by (rule on_cut [OF w(1) g(1) o])
    show "on_cell (perms_of m (cut_all a S R t)) own k i = (if a' = a \<and> R k i then None else on_cell (perms_of m t) own k i)"
      unfolding get by (rule on_cut [OF w(2) g(2) o])
  qed
qed

section \<open>Owners whose rows no link needs\<close>

text \<open>The invariant except for the linked keys in \<open>E\<close>, which an operation is about to bring up to date.\<close>

definition inv_ex :: "(string \<Rightarrow> bool) \<Rightarrow> tenants \<Rightarrow> bool" where
  "inv_ex E t \<longleftrightarrow> matrix_wf t \<and> cells_ok t \<and> links_ok t \<and> (\<forall>i x. link_of t i = Some x \<longrightarrow> \<not> E i \<longrightarrow> mirrored t i x)"

lemma inv_ex_none: "inv_ex (\<lambda>_. False) = matrix_inv"
  by (simp add: inv_ex_def matrix_inv_def fun_eq_iff)

lemma inv_ex_weaken: "inv_ex E t \<Longrightarrow> (\<And>i. E i \<Longrightarrow> E' i) \<Longrightarrow> inv_ex E' t"
  by (auto simp: inv_ex_def)

fun needless :: "(string \<Rightarrow> bool) \<Rightarrow> permissionMatrix \<Rightarrow> tenants \<Rightarrow> string \<Rightarrow> bool" where
  "needless E clientMatrix t own \<longleftrightarrow> (\<forall>x. link_of t own = Some x \<longrightarrow> E own)"
| "needless E templateMatrix t own \<longleftrightarrow> (\<forall>i. link_of t i = Some own \<longrightarrow> E i)"

lemma link_with [simp]: "link_of (with_defaults m d t) = link_of t" "link_of (with_perms m d t) = link_of t"
  by (simp_all add: link_of_def fun_eq_iff)

lemma inv_ex_tables:
  assumes "inv_ex E t" "t_clients t' = t_clients t" "t_templates t' = t_templates t" "matrix_wf t'" "cells_ok t'"
    and "\<And>m own k g. \<not> needless E m t own \<Longrightarrow> on_cell (defaults_of m t') own k g = on_cell (defaults_of m t) own k g \<and>
           on_cell (perms_of m t') own k g = on_cell (perms_of m t) own k g"
  shows "inv_ex E t'"
proof -
  have l: "link_of t' = link_of t" and o: "owner_account m t' = owner_account m t" for m
    using assms(2,3) by (auto simp: link_of_def fun_eq_iff; cases m; auto)+
  have "mirrored t' i x" if h: "link_of t i = Some x" "\<not> E i" for i x
  proof -
    have "\<not> needless E clientMatrix t i" "\<not> needless E templateMatrix t x" using h by auto
    from assms(6) [OF this(1)] assms(6) [OF this(2)] have
      "on_cell (t_defaults t') i k g = on_cell (t_defaults t) i k g" "on_cell (t_perms t') i k g = on_cell (t_perms t) i k g"
      "on_cell (t_tdefaults t') x k g = on_cell (t_tdefaults t) x k g" "on_cell (t_tperms t') x k g = on_cell (t_tperms t) x k g" for k g
      by simp_all
    then show ?thesis using assms(1) h by (simp add: inv_ex_def mirrored_def)
  qed
  then show ?thesis using assms(1,4,5) l o by (simp add: inv_ex_def links_ok_def)
qed

lemma inv_ex_write:
  assumes "inv_ex E t" "gm_wf d" "good_cells (owner_account m t) d"
    and "\<And>own k g. \<not> needless E m t own \<Longrightarrow> on_cell d own k g = on_cell (defaults_of m t) own k g"
  shows "inv_ex E (with_defaults m d t)"
proof (rule inv_ex_tables [OF assms(1)])
  show "matrix_wf (with_defaults m d t)" "cells_ok (with_defaults m d t)"
    using assms(1-3) matrix_wf_with(1) cells_ok_with(1) by (simp_all add: inv_ex_def)
  fix m' own k g assume "\<not> needless E m' t own"
  then show "on_cell (defaults_of m' (with_defaults m d t)) own k g = on_cell (defaults_of m' t) own k g \<and>
      on_cell (perms_of m' (with_defaults m d t)) own k g = on_cell (perms_of m' t) own k g"
    using assms(4) by (cases "m' = m") auto
qed simp_all

lemma inv_ex_write_perms:
  assumes "inv_ex E t" "gm_wf d" "good_cells (owner_account m t) d"
    and "\<And>own k g. \<not> needless E m t own \<Longrightarrow> on_cell d own k g = on_cell (perms_of m t) own k g"
  shows "inv_ex E (with_perms m d t)"
proof (rule inv_ex_tables [OF assms(1)])
  show "matrix_wf (with_perms m d t)" "cells_ok (with_perms m d t)"
    using assms(1-3) matrix_wf_with(2) cells_ok_with(2) by (simp_all add: inv_ex_def)
  fix m' own k g assume "\<not> needless E m' t own"
  then show "on_cell (defaults_of m' (with_perms m d t)) own k g = on_cell (defaults_of m' t) own k g \<and>
      on_cell (perms_of m' (with_perms m d t)) own k g = on_cell (perms_of m' t) own k g"
    using assms(4) by (cases "m' = m") auto
qed simp_all

lemma inv_ex_parts:
  assumes "inv_ex E t"
  shows "gm_wf (defaults_of m t)" "gm_wf (perms_of m t)" "good_cells (owner_account m t) (defaults_of m t)"
    "good_cells (owner_account m t) (perms_of m t)" "gm_wf (t_clients t)" "gm_wf (t_templates t)"
  using assms by (simp_all add: inv_ex_def matrix_wf_def cells_ok_def)

lemma no_row_of:
  assumes "\<And>q c. (q, c) \<in> set rows \<Longrightarrow> Q (fst q)" "\<not> Q own"
  shows "map_of rows (own, k, g) = None"
proof (cases "map_of rows (own, k, g)")
  case (Some v)
  then show ?thesis using assms(1) [OF map_of_SomeD [OF Some]] assms(2) by simp
qed

text \<open>The rows of needless owners may be inserted, filled in, deleted and updated.\<close>

lemma insert_needless:
  assumes "inv_ex E t" "insert_defaults m f t = Some (t', n)"
    and "\<And>q c. (q, c) \<in> set (f t) \<Longrightarrow> owner_account m t (fst q) = Some (c_account c) \<and> needless E m t (fst q)"
  shows "inv_ex E t'"
proof -
  obtain d where d: "insert_rows (f t) (defaults_of m t) = Some d" "t' = with_defaults m d t"
    using assms(2) by (auto simp: insert_defaults_def)
  show ?thesis unfolding d(2)
  proof (rule inv_ex_write [OF assms(1)])
    show "gm_wf d" using insert_rows_wf [OF d(1)] inv_ex_parts(1) [OF assms(1)] by blast
    show "good_cells (owner_account m t) d"
      by (rule good_insert [OF inv_ex_parts(3) [OF assms(1)] d(1)]) (use assms(3) in blast)
    fix own k g assume "\<not> needless E m t own"
    then have "map_of (f t) (own, k, g) = None" using no_row_of [of "f t" "needless E m t"] assms(3) by blast
    then show "on_cell d own k g = on_cell (defaults_of m t) own k g" by (simp add: on_cell_def insert_rows_get [OF d(1)])
  qed
qed

lemma insert_needless_perms:
  assumes "inv_ex E t" "insert_perms m f t = Some (t', n)"
    and "\<And>q c. (q, c) \<in> set (f t) \<Longrightarrow> owner_account m t (fst q) = Some (c_account c) \<and> needless E m t (fst q)"
  shows "inv_ex E t'"
proof -
  obtain d where d: "insert_rows (f t) (perms_of m t) = Some d" "t' = with_perms m d t"
    using assms(2) by (auto simp: insert_perms_def)
  show ?thesis unfolding d(2)
  proof (rule inv_ex_write_perms [OF assms(1)])
    show "gm_wf d" using insert_rows_wf [OF d(1)] inv_ex_parts(2) [OF assms(1)] by blast
    show "good_cells (owner_account m t) d"
      by (rule good_insert [OF inv_ex_parts(4) [OF assms(1)] d(1)]) (use assms(3) in blast)
    fix own k g assume "\<not> needless E m t own"
    then have "map_of (f t) (own, k, g) = None" using no_row_of [of "f t" "needless E m t"] assms(3) by blast
    then show "on_cell d own k g = on_cell (perms_of m t) own k g" by (simp add: on_cell_def insert_rows_get [OF d(1)])
  qed
qed

lemma good_missing:
  assumes "good_cells acc tbl" "\<And>q c. (q, c) \<in> set rows \<Longrightarrow> acc (fst q) = Some (c_account c)"
  shows "good_cells acc (insert_missing rows tbl)"
  unfolding good_cells_def
proof (intro allI impI)
  fix q c assume "gm_get (insert_missing rows tbl) q = Some c"
  then have "gm_get tbl q = Some c \<or> (q, c) \<in> set rows"
    using map_of_SomeD [of rows q c] by (auto simp: insert_missing_get split: option.splits)
  then show "acc (fst q) = Some (c_account c)" using assms unfolding good_cells_def by blast
qed

lemma fill_needless:
  assumes "inv_ex E t" "\<And>q c. (q, c) \<in> set (f t) \<Longrightarrow> owner_account m t (fst q) = Some (c_account c) \<and> needless E m t (fst q)"
  shows "fill_defaults m f t = Some (t', n) \<Longrightarrow> inv_ex E t'" "fill_perms m f t = Some (t', n) \<Longrightarrow> inv_ex E t'"
proof -
  have none: "\<not> needless E m t own \<Longrightarrow> map_of (f t) (own, k, g) = None" for own k g
    using no_row_of [of "f t" "needless E m t"] assms(2) by blast
  show "fill_defaults m f t = Some (t', n) \<Longrightarrow> inv_ex E t'"
    using inv_ex_write [OF assms(1), of "insert_missing (f t) (defaults_of m t)" m] inv_ex_parts(1-4) [OF assms(1), of m] good_missing [of _ _ "f t"] assms(2) none
    by (simp add: fill_defaults_def on_cell_def insert_missing_get split: option.split)
  show "fill_perms m f t = Some (t', n) \<Longrightarrow> inv_ex E t'"
    using inv_ex_write_perms [OF assms(1), of "insert_missing (f t) (perms_of m t)" m] inv_ex_parts(1-4) [OF assms(1), of m] good_missing [of _ _ "f t"] assms(2) none
    by (simp add: fill_perms_def on_cell_def insert_missing_get split: option.split)
qed

lemma delete_needless:
  assumes "inv_ex E t" "\<And>q c. P q c \<Longrightarrow> owner_account m t (fst q) = Some (c_account c) \<Longrightarrow> needless E m t (fst q)"
  shows "del_defaults m P t = Some (t', n) \<Longrightarrow> inv_ex E t'" "del_perms m P t = Some (t', n) \<Longrightarrow> inv_ex E t'"
proof -
  have keep: "on_cell (delete_rows P tbl) own k g = on_cell tbl own k g"
    if "\<not> needless E m t own" "gm_wf tbl" "good_cells (owner_account m t) tbl" for own k g tbl
  proof (cases "gm_get tbl (own, k, g)")
    case (Some c)
    then have "owner_account m t own = Some (c_account c)" using that(3) by (force simp: good_cells_def)
    then have "\<not> P (own, k, g) c" using assms(2) [of "(own, k, g)" c] that(1) by auto
    then show ?thesis using Some that(2) by (simp add: on_cell_def)
  qed (use that(2) in \<open>simp add: on_cell_def\<close>)
  note p = inv_ex_parts(1-4) [OF assms(1), of m]
  show "del_defaults m P t = Some (t', n) \<Longrightarrow> inv_ex E t'"
    using inv_ex_write [OF assms(1) _ good_delete [OF p(1,3)]] p(1) keep [OF _ p(1,3)] by (auto simp: del_defaults_def)
  show "del_perms m P t = Some (t', n) \<Longrightarrow> inv_ex E t'"
    using inv_ex_write_perms [OF assms(1) _ good_delete [OF p(2,4)]] p(2) keep [OF _ p(2,4)] by (auto simp: del_perms_def)
qed

end
