(* ===== verification/TemplateLaws.thy ===== *)
theory TemplateLaws
  imports MatrixLaws
begin

text \<open>Every operation of the store keeps the keys linked to a template equal to it.\<close>

section \<open>Statements on the owners\<close>

text \<open>A table of keys that reads the same accounts and links leaves the invariant alone.\<close>

lemma inv_ex_clients:
  assumes "inv_ex E t" "gm_wf c" "owner_account clientMatrix (t\<lparr>t_clients := c\<rparr>) = owner_account clientMatrix t"
    and "\<And>i x. link_of (t\<lparr>t_clients := c\<rparr>) i = Some x \<Longrightarrow> link_of t i = Some x \<or>
           E' i \<and> owner_account templateMatrix t x = owner_account clientMatrix t i"
    and "\<And>i. E i \<Longrightarrow> E' i \<or> link_of (t\<lparr>t_clients := c\<rparr>) i = None"
  shows "inv_ex E' (t\<lparr>t_clients := c\<rparr>)"
proof -
  let ?t = "t\<lparr>t_clients := c\<rparr>"
  have d: "defaults_of m ?t = defaults_of m t" "perms_of m ?t = perms_of m t" for m by (cases m; simp)+
  have o: "owner_account m ?t = owner_account m t" for m using assms(3) by (cases m) (auto simp: fun_eq_iff)
  have "matrix_wf ?t" using assms(1,2) by (simp add: inv_ex_def matrix_wf_def d)
  moreover have "cells_ok ?t" using assms(1) by (simp add: inv_ex_def cells_ok_def d o)
  moreover have "links_ok ?t" using assms(1,4) o unfolding links_ok_def inv_ex_def by metis
  moreover have "mirrored ?t i x" if "link_of ?t i = Some x" "\<not> E' i" for i x
  proof -
    have "link_of t i = Some x" "\<not> E i" using assms(4) [OF that(1)] assms(5) [of i] that by auto
    then show ?thesis using assms(1) by (simp add: inv_ex_def mirrored_def)
  qed
  ultimately show ?thesis by (simp add: inv_ex_def)
qed

lemma links_update:
  "link_of (t\<lparr>t_clients := update_rows P f (t_clients t)\<rparr>) i =
     (case gm_get (t_clients t) i of None \<Rightarrow> None | Some r \<Rightarrow> ck_template (if P i r then f r else r))"
  "owner_account clientMatrix (t\<lparr>t_clients := update_rows P f (t_clients t)\<rparr>) i =
     (case gm_get (t_clients t) i of None \<Rightarrow> None | Some r \<Rightarrow> Some (ck_account (if P i r then f r else r)))"
  by (auto simp: link_of_def split: option.split)

lemma same_accounts:
  assumes "\<And>r. ck_account (f r) = ck_account r"
  shows "owner_account clientMatrix (t\<lparr>t_clients := update_rows P f (t_clients t)\<rparr>) = owner_account clientMatrix t"
proof
  fix i
  show "owner_account clientMatrix (t\<lparr>t_clients := update_rows P f (t_clients t)\<rparr>) i = owner_account clientMatrix t i"
    by (cases "gm_get (t_clients t) i") (simp_all add: assms)
qed

text \<open>An edit that keeps the account and the link.\<close>

lemma edit_clients_inv:
  assumes "inv_ex E t" "\<And>r. ck_account (f r) = ck_account r \<and> ck_template (f r) = ck_template r"
  shows "inv_ex E (t\<lparr>t_clients := update_rows P f (t_clients t)\<rparr>)"
proof (rule inv_ex_clients [OF assms(1)])
  show "gm_wf (update_rows P f (t_clients t))" using inv_ex_parts(5) [OF assms(1)] by simp
  show "owner_account clientMatrix (t\<lparr>t_clients := update_rows P f (t_clients t)\<rparr>) = owner_account clientMatrix t"
    using assms(2) by (intro same_accounts) simp
qed (auto simp: link_of_def assms(2) split: bind_splits if_splits)

text \<open>Keys lose their link.\<close>

lemma unlink_inv:
  assumes "inv_ex E t" "\<And>r. ck_account (f r) = ck_account r \<and> ck_template (f r) = None"
  shows "inv_ex E (t\<lparr>t_clients := update_rows P f (t_clients t)\<rparr>)"
proof (rule inv_ex_clients [OF assms(1)])
  show "gm_wf (update_rows P f (t_clients t))" using inv_ex_parts(5) [OF assms(1)] by simp
  show "owner_account clientMatrix (t\<lparr>t_clients := update_rows P f (t_clients t)\<rparr>) = owner_account clientMatrix t"
    using assms(2) by (intro same_accounts) simp
qed (auto simp: link_of_def assms(2) split: bind_splits if_splits)

text \<open>One key takes a link to a template of its account; until its rows are written it is an exception.\<close>

lemma set_template_inv:
  assumes "matrix_inv t" "set_template a c (Some x) t = Some (t', n)" "owned ct_account (t_templates t) a x \<noteq> None"
  shows "inv_ex (\<lambda>i. i = c) t'"
proof -
  have t': "t' = t\<lparr>t_clients := update_rows (\<lambda>i r. i = c \<and> ck_account r = a) (ck_template_update (\<lambda>_. Some x)) (t_clients t)\<rparr>"
    using assms(2) by (simp add: set_template_def)
  have x: "owner_account templateMatrix t x = Some a" using assms(3) by (auto simp: owned_iff)
  show ?thesis unfolding t'
  proof (rule inv_ex_clients [where E = "\<lambda>_. False"])
    show "inv_ex (\<lambda>_. False) t" using assms(1) by (simp add: inv_ex_none)
    then show "gm_wf (update_rows (\<lambda>i r. i = c \<and> ck_account r = a) (ck_template_update (\<lambda>_. Some x)) (t_clients t))"
      using inv_ex_parts(5) by simp
    show "owner_account clientMatrix (t\<lparr>t_clients := update_rows (\<lambda>i r. i = c \<and> ck_account r = a) (ck_template_update (\<lambda>_. Some x)) (t_clients t)\<rparr>) =
        owner_account clientMatrix t"
      by (intro same_accounts) simp
  qed (use x in \<open>auto simp: link_of_def split: bind_splits if_splits\<close>)
qed

text \<open>New owners have no rows yet.\<close>

lemma insert_client_inv:
  assumes "matrix_inv t" "insert_client i r t = Some (t', n)" "ck_template r = None"
  shows "matrix_inv t' \<and> owner_account clientMatrix t' i = Some (ck_account r) \<and> link_of t' i = None"
proof -
  have t': "t' = t\<lparr>t_clients := gm_set i r (t_clients t)\<rparr>" and fresh: "gm_get (t_clients t) i = None"
    using assms(2) by (auto simp: insert_client_def split: if_splits)
  have d: "defaults_of m t' = defaults_of m t" "perms_of m t' = perms_of m t" for m by (cases m; simp add: t')+
  have acc: "owner_account m t own = Some a \<Longrightarrow> owner_account m t' own = Some a" for m own a
    using fresh by (cases m) (auto simp: t')
  have good: "good_cells (owner_account m t) tbl \<Longrightarrow> good_cells (owner_account m t') tbl" for m tbl
    unfolding good_cells_def using acc by blast
  have link: "link_of t' = link_of t" using fresh assms(3) by (auto simp: fun_eq_iff link_of_def t')
  have "matrix_wf t'" using assms(1) d by (simp add: matrix_inv_def matrix_wf_def) (simp add: t')
  moreover have "cells_ok t'" using assms(1) good by (simp add: matrix_inv_def cells_ok_def d)
  moreover have "links_ok t'" unfolding links_ok_def link
  proof (intro allI impI)
    fix j x assume j: "link_of t j = Some x"
    then obtain b where "owner_account clientMatrix t j = Some b" by (auto simp: link_of_def split: bind_splits)
    moreover have "owner_account templateMatrix t x = owner_account clientMatrix t j"
      using assms(1) j by (simp add: matrix_inv_def links_ok_def)
    ultimately show "owner_account templateMatrix t' x = owner_account clientMatrix t' j" using acc by metis
  qed
  moreover have "mirrored t' j x" if "link_of t j = Some x" for j x
    using assms(1) that by (simp add: matrix_inv_def mirrored_def t')
  ultimately show ?thesis using fresh by (simp add: matrix_inv_def link) (simp add: t' link_of_def)
qed

lemma insert_template_inv:
  assumes "matrix_inv t" "insert_template i r t = Some (t', n)"
  shows "matrix_inv t' \<and> owner_account templateMatrix t' i = Some (ct_account r) \<and> (\<forall>j. link_of t' j \<noteq> Some i)"
proof -
  have t': "t' = t\<lparr>t_templates := gm_set i r (t_templates t)\<rparr>" and fresh: "gm_get (t_templates t) i = None"
    using assms(2) by (auto simp: insert_template_def split: if_splits)
  have d: "defaults_of m t' = defaults_of m t" "perms_of m t' = perms_of m t" for m by (cases m; simp add: t')+
  have acc: "owner_account m t own = Some a \<Longrightarrow> owner_account m t' own = Some a" for m own a
    using fresh by (cases m) (auto simp: t')
  have good: "good_cells (owner_account m t) tbl \<Longrightarrow> good_cells (owner_account m t') tbl" for m tbl
    unfolding good_cells_def using acc by blast
  have link: "link_of t' = link_of t" by (auto simp: fun_eq_iff link_of_def t')
  have both: "\<exists>b. owner_account clientMatrix t j = Some b \<and> owner_account templateMatrix t x = Some b" if "link_of t j = Some x" for j x
    using assms(1) that by (auto simp: matrix_inv_def links_ok_def link_of_def split: bind_splits)
  have "matrix_wf t'" using assms(1) d by (simp add: matrix_inv_def matrix_wf_def) (simp add: t')
  moreover have "cells_ok t'" using assms(1) good by (simp add: matrix_inv_def cells_ok_def d)
  moreover have "links_ok t'" unfolding links_ok_def link using both acc by metis
  moreover have "mirrored t' j x" if "link_of t j = Some x" for j x
    using assms(1) that by (simp add: matrix_inv_def mirrored_def t')
  moreover have "link_of t j \<noteq> Some i" for j using both [of j i] fresh by auto
  ultimately show ?thesis by (simp add: matrix_inv_def link) (simp add: t')
qed

text \<open>Deleted owners take their rows with them.\<close>

lemma del_clients_inv:
  assumes "inv_ex E t" "del_clients P t = Some (t', n)"
  shows "inv_ex E t'" "gm_get (t_clients t') i = (case gm_get (t_clients t) i of None \<Rightarrow> None | Some r \<Rightarrow> if P i r then None else Some r)"
proof -
  note p = inv_ex_parts [OF assms(1)]
  let ?gone = "\<lambda>i. case gm_get (t_clients t) i of None \<Rightarrow> False | Some r \<Rightarrow> P i r"
  have t': "t' = t\<lparr>t_clients := delete_rows P (t_clients t), t_defaults := delete_rows (\<lambda>q _. ?gone (fst q)) (t_defaults t),
      t_perms := delete_rows (\<lambda>q _. ?gone (fst q)) (t_perms t), t_bindings := delete_rows (\<lambda>i _. ?gone i) (t_bindings t)\<rparr>"
    using assms(2) by (simp add: del_clients_def Let_def)
  have get: "gm_get (t_clients t') i = (case gm_get (t_clients t) i of None \<Rightarrow> None | Some r \<Rightarrow> if P i r then None else Some r)" for i
    using p(5) by (simp add: t')
  then show "gm_get (t_clients t') i = (case gm_get (t_clients t) i of None \<Rightarrow> None | Some r \<Rightarrow> if P i r then None else Some r)" .
  have stay: "\<not> ?gone own \<Longrightarrow> gm_get (t_clients t') own = gm_get (t_clients t) own" for own
    using get [of own] by (auto split: option.splits)
  have lost: "?gone own \<Longrightarrow> gm_get (t_clients t') own = None" for own using get [of own] by (auto split: option.splits)
  have cells: "gm_get (delete_rows (\<lambda>q _. ?gone (fst q)) tbl) q = (if ?gone (fst q) then None else gm_get tbl q)" if "gm_wf tbl" for tbl :: cells and q
    using that by (auto split: option.splits)
  have c: "gm_get (defaults_of clientMatrix t') q = (if ?gone (fst q) then None else gm_get (defaults_of clientMatrix t) q)"
    "gm_get (perms_of clientMatrix t') q = (if ?gone (fst q) then None else gm_get (perms_of clientMatrix t) q)" for q
    using cells [OF p(1) [of clientMatrix], of q] cells [OF p(2) [of clientMatrix], of q] by (simp_all add: t')
  have other: "defaults_of templateMatrix t' = defaults_of templateMatrix t" "perms_of templateMatrix t' = perms_of templateMatrix t"
    "owner_account templateMatrix t' = owner_account templateMatrix t" by (simp_all add: t' fun_eq_iff)
  have acc: "owner_account clientMatrix t' own = (if ?gone own then None else owner_account clientMatrix t own)" for own
    using stay lost by simp
  have link: "link_of t' own = (if ?gone own then None else link_of t own)" for own
    using stay [of own] lost [of own] by (auto simp: link_of_def)
  have "gm_wf (defaults_of m t')" "gm_wf (perms_of m t')" for m using p(1,2) [of m] by (cases m; simp add: t')+
  then have "matrix_wf t'" using p(5,6) by (simp add: matrix_wf_def) (simp add: t')
  moreover have "cells_ok t'" unfolding cells_ok_def
  proof
    fix m
    show "good_cells (owner_account m t') (defaults_of m t') \<and> good_cells (owner_account m t') (perms_of m t')"
    proof (cases m)
      case clientMatrix
      have "good_cells (owner_account clientMatrix t') (defaults_of clientMatrix t')" "good_cells (owner_account clientMatrix t') (perms_of clientMatrix t')"
        using p(3,4) [of clientMatrix] unfolding good_cells_def c acc by (auto split: if_splits)
      then show ?thesis using clientMatrix by simp
    next
      case templateMatrix
      then show ?thesis using p(3,4) [of templateMatrix] other by simp
    qed
  qed
  moreover have "links_ok t'" unfolding links_ok_def
  proof (intro allI impI)
    fix j x assume "link_of t' j = Some x"
    then have j: "\<not> ?gone j" "link_of t j = Some x" using link [of j] by (auto split: if_splits)
    then have "owner_account templateMatrix t x = owner_account clientMatrix t j" using assms(1) by (simp add: inv_ex_def links_ok_def)
    then show "owner_account templateMatrix t' x = owner_account clientMatrix t' j" using acc [of j] j(1) other(3) by simp
  qed
  moreover have "mirrored t' i x" if "link_of t' i = Some x" "\<not> E i" for i x
  proof -
    have g: "\<not> ?gone i" "link_of t i = Some x" using that(1) link [of i] by (auto split: if_splits)
    then have "mirrored t i x" using assms(1) that(2) by (simp add: inv_ex_def)
    moreover have "gm_get (t_defaults t') (i, k, l) = gm_get (t_defaults t) (i, k, l)" "gm_get (t_perms t') (i, k, l) = gm_get (t_perms t) (i, k, l)" for k l
      using c [of "(i, k, l)"] unfolding fst_conv if_not_P [OF g(1)] by simp_all
    ultimately show ?thesis using other by (simp add: mirrored_def on_cell_def)
  qed
  ultimately show "inv_ex E t'" by (simp add: inv_ex_def)
qed

end
