(* ===== verification/Mirroring.thy ===== *)
theory Mirroring
  imports TemplateLaws
begin

text \<open>
  What each operation of the store does to the matrices: the linked keys are rewritten with their template
  (\<open>syncTemplateClients\<close>), everything else treats keys and templates alike or touches rows no link needs.
\<close>

section \<open>Rewriting the linked keys\<close>

lemma map_of_stamped: "map_of (map (\<lambda>i. ((i, k, g), x)) ids) (own, k', g') = (if own \<in> set ids \<and> k' = k \<and> g' = g then Some x else None)"
  by (induction ids) auto

lemma map_of_copied:
  "gm_wf m \<Longrightarrow> map_of (copied a stamp x ids m) (own, k, g) =
     (if own \<in> set ids then (case gm_get m (x, k, g) of None \<Rightarrow> None | Some c \<Rightarrow> if c_account c = a then Some (stamp c) else None) else None)"
proof (induction m)
  case Nil
  then show ?case by (simp add: copied_def select_rows_def)
next
  case (Cons row m)
  obtain x' k' g' c where row: "row = ((x', k', g'), c)" by (metis prod_cases3 prod.collapse)
  have wf: "gm_wf m" and fresh: "gm_get m (x', k', g') = None"
    using Cons.prems by (auto simp: row gm_wf_def gm_get_None_iff)
  have IH: "map_of (copied a stamp x ids m) (own, k, g) =
     (if own \<in> set ids then (case gm_get m (x, k, g) of None \<Rightarrow> None | Some c \<Rightarrow> if c_account c = a then Some (stamp c) else None) else None)"
    by (rule Cons.IH [OF wf])
  show ?case
  proof (cases "x' = x \<and> c_account c = a")
    case True
    then have "copied a stamp x ids (row # m) = map (\<lambda>i. ((i, k', g'), stamp c)) ids @ copied a stamp x ids m"
      by (simp add: copied_def select_rows_def row)
    then show ?thesis using True IH fresh by (auto simp: map_add_def map_of_stamped row split: option.split)
  next
    case False
    then have "copied a stamp x ids (row # m) = copied a stamp x ids m" by (auto simp: copied_def select_rows_def row)
    then show ?thesis using False IH fresh by (auto simp: row)
  qed
qed

lemma sync_targets_iff:
  "gm_wf (t_clients t) \<Longrightarrow> i \<in> set (sync_targets a x one t) \<longleftrightarrow>
     link_of t i = Some x \<and> owner_account clientMatrix t i = Some a \<and> (one = [] \<or> i = one)"
  by (force simp: sync_targets_def select_rows_def gm_mem_iff linked_def link_of_def split: bind_splits)

text \<open>One of the two matrices: the rows of the keys \<open>T\<close> are those of the template, the others stay.\<close>

lemma copied_over:
  assumes "gm_wf tbl" "good_cells acc tbl" "gm_wf src" "good_cells acc' src"
    and T: "\<forall>i\<in>set T. acc i = Some a" "T \<noteq> [] \<longrightarrow> acc' x = Some a"
    and stamp: "\<And>c. c_on (stamp c) = c_on c \<and> c_account (stamp c) = a"
    and d: "insert_rows (copied a stamp x T src) (delete_rows (\<lambda>q c. c_account c = a \<and> fst q \<in> set T) tbl) = Some d"
  shows "gm_wf d" "good_cells acc d" "on_cell d own k g = (if own \<in> set T then on_cell src x k g else on_cell tbl own k g)"
proof -
  show "gm_wf d" using insert_rows_wf [OF d] assms(1) by simp
  show "good_cells acc d"
  proof (rule good_insert [OF good_delete [OF assms(1,2)] d])
    fix q c assume "(q, c) \<in> set (copied a stamp x T src)"
    then have "fst q \<in> set T" "c_account c = a" using stamp by (auto simp: copied_def)
    then show "acc (fst q) = Some (c_account c)" using T(1) by simp
  qed
  show "on_cell d own k g = (if own \<in> set T then on_cell src x k g else on_cell tbl own k g)"
  proof (cases "own \<in> set T")
    case True
    have gone: "gm_get (delete_rows (\<lambda>q c. c_account c = a \<and> fst q \<in> set T) tbl) (own, k, g) = None"
    proof (cases "gm_get tbl (own, k, g)")
      case (Some c)
      then have "acc own = Some (c_account c)" using assms(2) by (force simp: good_cells_def)
      then show ?thesis using Some True T(1) assms(1) by simp
    qed (use assms(1) in simp)
    have src: "c_account c = a" if "gm_get src (x, k, g) = Some c" for c
    proof -
      have "acc' x = Some (c_account c)" using assms(4) that by (force simp: good_cells_def)
      moreover have "T \<noteq> []" using True by auto
      ultimately show ?thesis using T(2) by simp
    qed
    show ?thesis using True gone src stamp
      by (simp add: on_cell_def insert_rows_get [OF d] map_of_copied [OF assms(3)] split: option.split)
  next
    case False
    then show ?thesis using assms(1) by (simp add: on_cell_def insert_rows_get [OF d] map_of_copied [OF assms(3)] split: option.split)
  qed
qed

lemma syncTemplateClients_inv:
  assumes eff: "effect (syncTemplateClients now a x one) t u t'" and inv: "inv_ex E t"
    and E: "\<And>i y. E i \<Longrightarrow> link_of t i = Some y \<Longrightarrow> y = x \<and> owner_account clientMatrix t i = Some a \<and> (one = [] \<or> i = one)"
  shows "matrix_inv t'"
proof -
  let ?T = "sync_targets a x one t"
  note p = inv_ex_parts [OF inv]
  note T = sync_targets_iff [OF p(5), of _ a x one]
  have same: "sync_targets a x one (with_defaults m c t) = sync_targets a x one t" "sync_targets a x one (with_perms m c t) = sync_targets a x one t" for m c t
    by (simp_all add: sync_targets_def)
  obtain d1 d2 where
    d1: "insert_rows (copied a (\<lambda>c. default_cell a now (c_on c)) x ?T (t_tdefaults t)) (delete_rows (\<lambda>q c. c_account c = a \<and> fst q \<in> set ?T) (t_defaults t)) = Some d1"
    and d2: "insert_rows (copied a (\<lambda>c. perm_cell a now (c_on c)) x ?T (t_tperms t)) (delete_rows (\<lambda>q c. c_account c = a \<and> fst q \<in> set ?T) (t_perms t)) = Some d2"
    and t': "t' = t\<lparr>t_defaults := d1, t_perms := d2\<rparr>"
    using eff unfolding syncTemplateClients_def
    by (auto simp: effects del_defaults_def del_perms_def insert_defaults_def insert_perms_def sync_targets_def dest!: effect_andThen)
  have acc: "?T \<noteq> [] \<longrightarrow> owner_account templateMatrix t x = Some a"
  proof
    assume T0: "?T \<noteq> []"
    obtain i where "i \<in> set ?T" using T0 by (cases ?T) auto
    then have "link_of t i = Some x" "owner_account clientMatrix t i = Some a" using T [of i] by blast+
    then show "owner_account templateMatrix t x = Some a" using inv unfolding inv_ex_def links_ok_def by metis
  qed
  have mem: "\<forall>i\<in>set ?T. owner_account clientMatrix t i = Some a" using T by blast
  have stamp: "c_on (default_cell a now (c_on c)) = c_on c \<and> c_account (default_cell a now (c_on c)) = a"
    "c_on (perm_cell a now (c_on c)) = c_on c \<and> c_account (perm_cell a now (c_on c)) = a" for c
    by (simp_all add: default_cell_def perm_cell_def)
  note s1 = copied_over [OF p(1) [of clientMatrix, unfolded defaults_of.simps] p(3) [of clientMatrix, unfolded defaults_of.simps]
      p(1) [of templateMatrix, unfolded defaults_of.simps] p(3) [of templateMatrix, unfolded defaults_of.simps] mem acc stamp(1) d1]
  note s2 = copied_over [OF p(2) [of clientMatrix, unfolded perms_of.simps] p(4) [of clientMatrix, unfolded perms_of.simps]
      p(2) [of templateMatrix, unfolded perms_of.simps] p(4) [of templateMatrix, unfolded perms_of.simps] mem acc stamp(2) d2]
  have link: "link_of t' = link_of t" and own: "owner_account m t' = owner_account m t" for m
    by (auto simp: t' link_of_def fun_eq_iff; cases m; auto)+
  have wt: "t' = with_perms clientMatrix d2 (with_defaults clientMatrix d1 t)" by (simp add: t')
  have base: "matrix_wf t" "cells_ok t" using inv by (simp_all add: inv_ex_def)
  have "matrix_wf t'" unfolding wt by (intro matrix_wf_with base s1(1) s2(1))
  moreover have "cells_ok t'" unfolding wt
    by (intro cells_ok_with(2) cells_ok_with(1) base s1(2)) (unfold with_tables(5), rule s2(2))
  moreover have "links_ok t'" using inv link own by (simp add: inv_ex_def links_ok_def)
  moreover have "mirrored t' i y" if h: "link_of t i = Some y" for i y
  proof (cases "i \<in> set ?T")
    case True
    then have "y = x" using T h by simp
    then show ?thesis using True s1(3) s2(3) by (simp add: mirrored_def t')
  next
    case False
    then have "\<not> E i" using E [of i y] T [of i] h by blast
    then have "mirrored t i y" using inv h by (simp add: inv_ex_def)
    then show ?thesis using False s1(3) s2(3) by (simp add: mirrored_def t')
  qed
  ultimately show ?thesis by (simp add: matrix_inv_def link)
qed


section \<open>Deleting templates\<close>

lemma del_templates_inv:
  assumes "inv_ex E t" "del_templates P t = Some (t', n)"
    and none: "\<And>x r i. gm_get (t_templates t) x = Some r \<Longrightarrow> P x r \<Longrightarrow> link_of t i \<noteq> Some x"
  shows "inv_ex E t'"
proof -
  note p = inv_ex_parts [OF assms(1)]
  let ?gone = "\<lambda>i. case gm_get (t_templates t) i of None \<Rightarrow> False | Some r \<Rightarrow> P i r"
  have t': "t' = t\<lparr>t_templates := delete_rows P (t_templates t), t_tdefaults := delete_rows (\<lambda>q _. ?gone (fst q)) (t_tdefaults t),
      t_tperms := delete_rows (\<lambda>q _. ?gone (fst q)) (t_tperms t),
      t_clients := update_rows (\<lambda>_ c. case ck_template c of None \<Rightarrow> False | Some x \<Rightarrow> ?gone x) (ck_template_update (\<lambda>_. None)) (t_clients t)\<rparr>"
    using assms(2) by (simp add: del_templates_def Let_def)
  have get: "gm_get (t_templates t') i = (if ?gone i then None else gm_get (t_templates t) i)" for i
    using p(6) by (simp add: t' split: option.split)
  have cells: "gm_get (delete_rows (\<lambda>q _. ?gone (fst q)) tbl) q = (if ?gone (fst q) then None else gm_get tbl q)" if "gm_wf tbl" for tbl :: cells and q
    using that by (simp split: option.split)
  have c: "gm_get (defaults_of templateMatrix t') q = (if ?gone (fst q) then None else gm_get (defaults_of templateMatrix t) q)"
    "gm_get (perms_of templateMatrix t') q = (if ?gone (fst q) then None else gm_get (perms_of templateMatrix t) q)" for q
    using cells [OF p(1) [of templateMatrix], of q] cells [OF p(2) [of templateMatrix], of q] by (simp_all add: t')
  have other: "defaults_of clientMatrix t' = defaults_of clientMatrix t" "perms_of clientMatrix t' = perms_of clientMatrix t"
    by (simp_all add: t')
  have acc: "owner_account templateMatrix t' own = (if ?gone own then None else owner_account templateMatrix t own)" for own
    using get [of own] by simp
  have clients: "owner_account clientMatrix t' own = owner_account clientMatrix t own" for own
    by (cases "gm_get (t_clients t) own") (simp_all add: t')
  have link: "link_of t' own = link_of t own" for own
  proof (cases "gm_get (t_clients t) own")
    case (Some r)
    have "\<not> (case ck_template r of None \<Rightarrow> False | Some x \<Rightarrow> ?gone x)"
    proof (cases "ck_template r")
      case (Some x)
      then have "link_of t own = Some x" using \<open>gm_get (t_clients t) own = Some r\<close> by (simp add: link_of_def)
      then have "\<not> ?gone x" using none [of x _ own] by (cases "gm_get (t_templates t) x") auto
      then show ?thesis using Some by simp
    qed simp
    then show ?thesis using Some by (simp add: link_of_def t')
  qed (simp add: link_of_def t')
  have here: "\<not> ?gone x" if "link_of t i = Some x" for i x
    using none [of x _ i] that by (cases "gm_get (t_templates t) x") auto
  have "gm_wf (defaults_of m t')" "gm_wf (perms_of m t')" for m using p(1,2) [of m] by (cases m; simp add: t')+
  then have "matrix_wf t'" using p(5,6) by (simp add: matrix_wf_def) (simp add: t')
  moreover have "cells_ok t'" unfolding cells_ok_def
  proof
    fix m
    show "good_cells (owner_account m t') (defaults_of m t') \<and> good_cells (owner_account m t') (perms_of m t')"
    proof (cases m)
      case templateMatrix
      have "good_cells (owner_account templateMatrix t') (defaults_of templateMatrix t')" "good_cells (owner_account templateMatrix t') (perms_of templateMatrix t')"
        using p(3,4) [of templateMatrix] unfolding good_cells_def c acc by simp_all
      then show ?thesis using templateMatrix by simp
    next
      case clientMatrix
      have "owner_account clientMatrix t' = owner_account clientMatrix t" using clients by (simp only: fun_eq_iff) blast
      then show ?thesis using p(3,4) [of clientMatrix] other clientMatrix by simp
    qed
  qed
  moreover have "links_ok t'" unfolding links_ok_def
  proof (intro allI impI)
    fix i x assume "link_of t' i = Some x"
    then have h: "link_of t i = Some x" using link by simp
    then show "owner_account templateMatrix t' x = owner_account clientMatrix t' i"
      using here [OF h] acc clients assms(1) unfolding inv_ex_def links_ok_def by metis
  qed
  moreover have "mirrored t' i x" if "link_of t' i = Some x" "\<not> E i" for i x
  proof -
    have h: "link_of t i = Some x" using that link by simp
    then have "mirrored t i x" using assms(1) that(2) by (simp add: inv_ex_def)
    moreover have "gm_get (t_tdefaults t') (x, k, l) = gm_get (t_tdefaults t) (x, k, l)" "gm_get (t_tperms t') (x, k, l) = gm_get (t_tperms t) (x, k, l)" for k l
      using c [of "(x, k, l)"] unfolding fst_conv if_not_P [OF here [OF h]] by simp_all
    ultimately show ?thesis using other by (simp add: mirrored_def on_cell_def)
  qed
  ultimately show ?thesis by (simp add: inv_ex_def)
qed

section \<open>Statements on other tables\<close>

definition frame :: "statement \<Rightarrow> bool" where
  "frame f \<longleftrightarrow> (\<forall>t t' n. f t = Some (t', n) \<longrightarrow> matrix_view t' = matrix_view t)"

named_theorems frames \<open>the statements that leave the matrices alone\<close>

lemma frame_plain [frames]:
  "frame (\<lambda>t. Some (t\<lparr>t_groups := g t\<rparr>, k t))" "frame (\<lambda>t. Some (t\<lparr>t_oauth := o1 t\<rparr>, k t))" "frame (\<lambda>t. Some (t\<lparr>t_models := m t\<rparr>, k t))"
  "frame (\<lambda>t. Some (t\<lparr>t_tokens := o2 t\<rparr>, k t))" "frame (\<lambda>t. Some (t\<lparr>t_settings := o3 t\<rparr>, k t))"
  "frame (\<lambda>t. Some (t\<lparr>t_cleanup := o4 t\<rparr>, k t))" "frame (\<lambda>t. Some (t\<lparr>t_providers := o5 t\<rparr>, k t))"
  by (auto simp: frame_def matrix_view_def)

lemma frame_insert [frames]:
  "frame (insert_namespace a name kd e)" "frame (insert_provider i p)" "frame (insert_group i g)" "frame (insert_virtual i v)"
  "frame (insert_target i r)" "frame (upsert_binding c b)" "frame (insert_manual i m)"
  by (auto simp: frame_def matrix_view_def insert_namespace_def insert_provider_def insert_group_def insert_virtual_def
      insert_target_def upsert_binding_def insert_manual_def split: if_splits)

lemma frame_del [frames]:
  "frame (\<lambda>t. del_bindings (P1 t) t)" "frame (\<lambda>t. del_targets (P2 t) t)" "frame (del_virtual P3)" "frame (del_groups P4)"
  "frame (del_models P5)" "frame (del_providers P6)" "frame (del_namespaces P7)"
  by (auto simp: frame_def matrix_view_def del_bindings_def del_targets_def del_virtual_def del_groups_def del_models_def
      del_providers_def del_namespaces_def Let_def split: if_splits)

lemma frame_update [frames]:
  "frame (set_primary now a v p m)" "frame (refresh_times a p now later)" "frame (update_provider now a i)" "frame (update_virtual a v f)"
  by (auto simp: frame_def matrix_view_def set_primary_def refresh_times_def update_provider_def update_virtual_def
      split: option.splits if_splits)

lemma frame_rename [frames]: "frame (rename_namespace a kd e name)"
  by (auto simp: frame_def matrix_view_def rename_namespace_def split: list.splits if_splits)

lemma upsert_models_view: "upsert_models rs t = Some t' \<Longrightarrow> matrix_view t' = matrix_view t"
  by (induction rs t rule: upsert_models.induct) (auto simp: matrix_view_def split: if_splits)

lemma frame_upsert [frames]: "frame (\<lambda>t. map_option (\<lambda>t'. (t', n)) (upsert_models rs t))"
  using upsert_models_view by (auto simp: frame_def)

end
