(* ===== verification/StoreLaws.thy ===== *)
theory StoreLaws
  imports Mirroring
begin

text \<open>
  Every operation of the store keeps the keys linked to a template equal to it, whatever statement of it
  fails; hence so does every history of operations.
\<close>

section \<open>Rules\<close>

text \<open>\<open>always P m\<close>: the operation keeps \<open>P\<close> however it ends.\<close>

definition always :: "(tenants \<Rightarrow> bool) \<Rightarrow> 'a tx \<Rightarrow> bool" where
  "always P m \<longleftrightarrow> (\<forall>flt n t n' t' r. P t \<longrightarrow> m flt (n, t) = ((n', t'), r) \<longrightarrow> P t')"

lemma always_andThen: "always P m \<Longrightarrow> (\<And>x. always P (k x)) \<Longrightarrow> always P (andThen m k)"
  unfolding always_def
proof (intro allI impI)
  fix flt n t n' t' r
  assume m: "\<forall>flt n t n' t' r. P t \<longrightarrow> m flt (n, t) = ((n', t'), r) \<longrightarrow> P t'"
    and k: "\<And>x. \<forall>flt n t n' t' r. P t \<longrightarrow> k x flt (n, t) = ((n', t'), r) \<longrightarrow> P t'"
    and P: "P t" and run: "andThen m k flt (n, t) = ((n', t'), r)"
  obtain s1 r1 where "m flt (n, t) = (s1, r1)" by fastforce
  moreover obtain n1 t1 where "s1 = (n1, t1)" by fastforce
  ultimately have 1: "m flt (n, t) = ((n1, t1), r1)" by simp
  then have P1: "P t1" using m P by blast
  show "P t'"
  proof (cases r1)
    case (Inl e)
    then show ?thesis using run 1 P1 by (simp add: andThen_def)
  next
    case (Inr x)
    then have "k x flt (n1, t1) = ((n', t'), r)" using run 1 by (simp add: andThen_def)
    then show ?thesis using P1 k by blast
  qed
qed

lemma always_exec: "(\<And>t t' n. P t \<Longrightarrow> f t = Some (t', n) \<Longrightarrow> P t') \<Longrightarrow> always P (exec f)"
  by (auto simp: always_def exec_def split: if_splits option.splits)

lemma always_query: "always P (query f)"
  by (auto simp: always_def query_def split: if_splits)

lemma always_plain: "always P (give x)" "always P (refuse e)" "always P (unless_error r)" "always P (no_rows e n)"
  by (auto simp: always_def give_def refuse_def unless_error_def no_rows_def split: if_splits)

lemma always_if: "always P m \<Longrightarrow> always P k \<Longrightarrow> always P (if c then m else k)"
  by simp

text \<open>A transaction commits a state its body reached successfully, or none.\<close>

lemma always_RunTx:
  assumes "triple P m (\<lambda>_. P)"
  shows "always P (RunTx m)"
  unfolding always_def
proof (intro allI impI)
  fix flt n t n' t' r assume P: "P t" and run: "RunTx m flt (n, t) = ((n', t'), r)"
  show "P t'"
  proof (cases r)
    case (Inl e)
    then show ?thesis using RunTx_error [of m flt n t n' t' e] run P by simp
  next
    case (Inr x)
    then have "effect m t x t'" using RunTx_ok [of m flt n t n' t' x] run by simp
    then show ?thesis using assms P unfolding triple_def by blast
  qed
qed

named_theorems triples \<open>the steps of an operation that keep the invariant\<close>

lemma triple_then [triples]: "triple P m (\<lambda>_. P) \<Longrightarrow> (\<And>y. triple P (k y) Q) \<Longrightarrow> triple P (andThen m k) Q"
  by (rule triple_andThen)

lemma triple_done [triples]: "triple P (give x) (\<lambda>_. P)" "triple P (unless_error r) (\<lambda>_. P)" "triple P (no_rows e n) (\<lambda>_. P)"
  "triple P (query f) (\<lambda>_. P)" "triple P (refuse e) Q"
  by (auto simp: triple_def effects)

declare triple_each [triples] triple_if [triples] triple_plan_check [triples]

lemma triple_prod [triples]: "(\<And>a b. triple P (f a b) Q) \<Longrightarrow> triple P (case y of (a, b) \<Rightarrow> f a b) Q"
  by (cases y) simp

lemma triple_option [triples]: "triple P m Q \<Longrightarrow> (\<And>a. triple P (f a) Q) \<Longrightarrow> triple P (case y of None \<Rightarrow> m | Some a \<Rightarrow> f a) Q"
  by (cases y) simp_all

definition of_tables :: "(tenants \<Rightarrow> bool) \<Rightarrow> bool" where
  "of_tables P \<longleftrightarrow> (\<forall>t t'. matrix_view t' = matrix_view t \<longrightarrow> P t \<longrightarrow> P t')"

lemma triple_frame: "frame f \<Longrightarrow> of_tables P \<Longrightarrow> triple P (exec f) (\<lambda>_. P)"
  unfolding frame_def of_tables_def by (blast intro: triple_exec)

lemma of_tables_inv [triples]: "of_tables matrix_inv"
  using matrix_inv_view by (auto simp: of_tables_def)

lemma always_frame: "frame f \<Longrightarrow> always matrix_inv (exec f)"
  using of_tables_inv unfolding frame_def of_tables_def by (blast intro: always_exec)

section \<open>Groups and models that come\<close>

lemmas seeds [triples] = seed_group_inv seed_models_inv

lemma CreateProvider_inv: "always matrix_inv (CreateProvider g nonce now sc i)"
  unfolding CreateProvider_def by (rule always_RunTx) (intro triples triple_frame frames)

lemma UpdateProvider_inv: "always matrix_inv (UpdateProvider now sc i)"
  unfolding UpdateProvider_def by (rule always_RunTx) (intro triples triple_frame frames)

lemma ReplaceProviderCredential_inv: "always matrix_inv (ReplaceProviderCredential g nonce now sc i c)"
  unfolding ReplaceProviderCredential_def Let_def by (intro always_andThen always_plain always_frame frames)

lemma SetProviderRefreshError_inv: "always matrix_inv (SetProviderRefreshError now sc i msg)"
  unfolding SetProviderRefreshError_def by (intro always_andThen always_plain always_frame frames)

lemma ApplyCatalogue_inv: "always matrix_inv (ApplyCatalogue ids now clock sc pid models)"
  unfolding ApplyCatalogue_def Let_def upsert_batch_def retire_def by (rule always_RunTx) (intro triples triple_frame frames)

lemma InsertManualModel_inv: "always matrix_inv (InsertManualModel now sc pid i m)"
  unfolding InsertManualModel_def by (rule always_RunTx) (intro triples triple_frame frames)

lemma CreateVirtualGroup_inv: "always matrix_inv (CreateVirtualGroup now sc i name)"
  unfolding CreateVirtualGroup_def new_group_def by (rule always_RunTx) (intro triples triple_frame frames)

lemma UpdateVirtualGroup_inv: "always matrix_inv (UpdateVirtualGroup now sc i name)"
  unfolding UpdateVirtualGroup_def Let_def by (rule always_RunTx) (intro triples triple_frame frames)

lemmas targets_def = replaceVirtualTargets_def put_target_def primary_provider_def

lemma CreateVirtualModel_inv: "always matrix_inv (CreateVirtualModel ids now sc i)"
  unfolding CreateVirtualModel_def Let_def new_group_def targets_def by (rule always_RunTx) (intro triples triple_frame frames)

lemma UpdateVirtualModel_inv: "always matrix_inv (UpdateVirtualModel ids now sc i)"
  unfolding UpdateVirtualModel_def Let_def targets_def by (rule always_RunTx) (intro triples triple_frame frames)

section \<open>Groups and models that go\<close>

text \<open>The rows of a group or of models are deleted from the matrices of keys and templates alike.\<close>

lemma cut_eq: "(\<And>q c. P q c \<longleftrightarrow> R (fst (snd q)) (snd (snd q)) \<and> c_account c = a) \<Longrightarrow> delete_rows P m = cut a R m"
  by (simp add: cut_def delete_rows_def split_def)

lemma cut_nothing [simp]: "cut a (\<lambda>_ _. False) m = m"
  by (rule cut_none)

lemma cut_perms:
  assumes "\<And>t q c. P t q c \<longleftrightarrow> R (t_models t) (fst (snd q)) (snd (snd q)) \<and> c_account c = a" "triple matrix_inv m Q"
  shows "triple matrix_inv (andThen (exec (\<lambda>t. del_perms clientMatrix (P t) t)) (\<lambda>_.
    andThen (exec (\<lambda>t. del_perms templateMatrix (P t) t)) (\<lambda>_. m))) Q"
  unfolding triple_def
proof (intro allI impI)
  fix t x t' assume inv: "matrix_inv t"
    and "effect (andThen (exec (\<lambda>t. del_perms clientMatrix (P t) t)) (\<lambda>_. andThen (exec (\<lambda>t. del_perms templateMatrix (P t) t)) (\<lambda>_. m))) t x t'"
  moreover have "delete_rows (P t) tbl = cut a (R (t_models t)) tbl" for t tbl by (rule cut_eq, rule assms(1))
  ultimately have "effect m (cut_all a (\<lambda>_ _. False) (R (t_models t)) t) x t'"
    by (auto dest!: effect_andThen simp: effects del_perms_def cut_all_def)
  then show "Q x t'" using assms(2) cut_all_inv [OF inv] unfolding triple_def by blast
qed

lemma cut_defaults:
  assumes "\<And>q c. P q c \<longleftrightarrow> R (fst (snd q)) (snd (snd q)) \<and> c_account c = a" "triple matrix_inv m Q"
  shows "triple matrix_inv (andThen (exec (del_defaults clientMatrix P)) (\<lambda>_. andThen (exec (del_defaults templateMatrix P)) (\<lambda>_. m))) Q"
  unfolding triple_def
proof (intro allI impI)
  fix t x t' assume inv: "matrix_inv t"
    and "effect (andThen (exec (del_defaults clientMatrix P)) (\<lambda>_. andThen (exec (del_defaults templateMatrix P)) (\<lambda>_. m))) t x t'"
  moreover have "delete_rows P tbl = cut a R tbl" for tbl by (rule cut_eq, rule assms(1))
  ultimately have "effect m (cut_all a R (\<lambda>_ _. False) t) x t'"
    by (auto dest!: effect_andThen simp: effects del_defaults_def cut_all_def)
  then show "Q x t'" using assms(2) cut_all_inv [OF inv] unfolding triple_def by blast
qed

lemma perms_first: "t\<lparr>t_perms := w, t_defaults := x, t_tperms := y, t_tdefaults := z\<rparr> =
    (t :: tenants)\<lparr>t_defaults := x, t_perms := w, t_tdefaults := z, t_tperms := y\<rparr>"
  by simp

lemma cut_both:
  assumes "\<And>t q c. P t q c \<longleftrightarrow> R (t_models t) (fst (snd q)) (snd (snd q)) \<and> c_account c = a"
    and "\<And>q c. D q c \<longleftrightarrow> S (fst (snd q)) (snd (snd q)) \<and> c_account c = a" "triple matrix_inv m Q"
  shows "triple matrix_inv (andThen (exec (\<lambda>t. del_perms clientMatrix (P t) t)) (\<lambda>_. andThen (exec (del_defaults clientMatrix D)) (\<lambda>_.
    andThen (exec (\<lambda>t. del_perms templateMatrix (P t) t)) (\<lambda>_. andThen (exec (del_defaults templateMatrix D)) (\<lambda>_. m))))) Q"
  unfolding triple_def
proof (intro allI impI)
  fix t x t' assume inv: "matrix_inv t"
    and "effect (andThen (exec (\<lambda>t. del_perms clientMatrix (P t) t)) (\<lambda>_. andThen (exec (del_defaults clientMatrix D)) (\<lambda>_.
      andThen (exec (\<lambda>t. del_perms templateMatrix (P t) t)) (\<lambda>_. andThen (exec (del_defaults templateMatrix D)) (\<lambda>_. m))))) t x t'"
  moreover have "delete_rows (P t) tbl = cut a (R (t_models t)) tbl" for t tbl by (rule cut_eq, rule assms(1))
  moreover have "delete_rows D tbl = cut a S tbl" for tbl by (rule cut_eq, rule assms(2))
  ultimately have "effect m (cut_all a S (R (t_models t)) t) x t'"
    by (auto dest!: effect_andThen simp: effects del_perms_def del_defaults_def cut_all_def perms_first)
  then show "Q x t'" using assms(3) cut_all_inv [OF inv] unfolding triple_def by blast
qed

lemma DeleteManualModel_inv: "always matrix_inv (DeleteManualModel sc i)"
  unfolding DeleteManualModel_def Let_def
  by (rule always_RunTx)
    (intro triple_then triple_done triple_option triple_if
       cut_perms [where R = "\<lambda>_ k x. k = RealKind \<and> x = i" and a = "sc_account sc"] triple_frame frames of_tables_inv; auto)

lemma DeleteVirtualGroup_inv: "always matrix_inv (DeleteVirtualGroup sc i)"
  unfolding DeleteVirtualGroup_def Let_def
  by (rule always_RunTx, rule triple_then, rule triple_done, rule triple_if, rule triple_done,
      rule cut_defaults [where R = "\<lambda>k x. k = VirtualKind \<and> x = i" and a = "sc_account sc"])
    (auto intro!: triples triple_frame frames)

lemma DeleteVirtualModel_inv: "always matrix_inv (DeleteVirtualModel sc v)"
  unfolding DeleteVirtualModel_def Let_def
  by (rule always_RunTx, rule triple_then, rule triple_done, rule triple_if, rule triple_done,
      rule triple_then, rule triple_frame, rule frames, rule of_tables_inv,
      rule cut_perms [where R = "\<lambda>_ k x. k = VirtualKind \<and> x = v" and a = "sc_account sc"])
    (auto intro!: triples triple_frame frames)

lemma model_of_provider_models: "model_of_provider a pid t = (\<lambda>m. case gm_get (t_models t) m of None \<Rightarrow> False | Some r \<Rightarrow> pm_provider r = pid \<and> pm_account r = a)"
  by (simp add: model_of_provider_def fun_eq_iff)

lemma release_virtual_inv: "triple matrix_inv (release_virtual now a pid v) (\<lambda>_. matrix_inv)"
  unfolding release_virtual_def by (intro triples triple_frame frames)

lemma DeleteProvider_inv: "always matrix_inv (DeleteProvider now sc pid)"
proof -
  let ?R = "\<lambda>ms k i. k = RealKind \<and> (case gm_get ms i of None \<Rightarrow> False | Some r \<Rightarrow> pm_provider r = pid \<and> pm_account r = sc_account sc)"
  let ?S = "\<lambda>k i. k = RealKind \<and> i = pid"
  show ?thesis unfolding DeleteProvider_def Let_def model_of_provider_models
    by (rule always_RunTx, rule triple_then, rule triple_done, rule triple_if, rule triple_done,
        rule triple_then, rule triple_frame, rule frames, rule of_tables_inv, rule triple_then, rule triple_done,
        rule triple_if, rule triple_done, rule triple_then, rule triple_each, rule triple_prod, rule triple_prod, rule release_virtual_inv,
        rule cut_both [where R = ?R and S = ?S and a = "sc_account sc"])
      (auto intro!: triples triple_frame frames)
qed

section \<open>A fresh owner\<close>

text \<open>An owner of the account whose rows no link needs.\<close>

definition spare :: "permissionMatrix \<Rightarrow> string \<Rightarrow> string \<Rightarrow> tenants \<Rightarrow> bool" where
  "spare m own a t \<longleftrightarrow> matrix_inv t \<and> owner_account m t own = Some a \<and> needless (\<lambda>_. False) m t own"

lemma spare_with [simp]:
  "needless E m (with_defaults m' d t) own = needless E m t own" "needless E m (with_perms m' d t) own = needless E m t own"
  by (cases m; simp)+

lemma spare_rows:
  assumes "\<And>t q c. (q, c) \<in> set (f t) \<Longrightarrow> fst q = own \<and> c_account c = a"
  shows "triple (spare m own a) (exec (insert_defaults m f)) (\<lambda>_. spare m own a)"
    "triple (spare m own a) (exec (insert_perms m f)) (\<lambda>_. spare m own a)"
    "triple (spare m own a) (exec (fill_defaults m f)) (\<lambda>_. spare m own a)"
    "triple (spare m own a) (exec (fill_perms m f)) (\<lambda>_. spare m own a)"
proof -
  have ok: "owner_account m t (fst q) = Some (c_account c) \<and> needless (\<lambda>_. False) m t (fst q)"
    if "spare m own a t" "(q, c) \<in> set (f t)" for t q c
    using that assms by (auto simp: spare_def)
  have inv: "spare m own a t \<Longrightarrow> inv_ex (\<lambda>_. False) t" for t by (simp add: spare_def inv_ex_none)
  show "triple (spare m own a) (exec (insert_defaults m f)) (\<lambda>_. spare m own a)"
  proof (rule triple_exec)
    fix t t' n assume "spare m own a t" "insert_defaults m f t = Some (t', n)"
    then show "spare m own a t'" using insert_needless [OF inv, of t m f t' n] ok [of t]
      by (auto simp: spare_def inv_ex_none insert_defaults_def)
  qed
  show "triple (spare m own a) (exec (insert_perms m f)) (\<lambda>_. spare m own a)"
  proof (rule triple_exec)
    fix t t' n assume "spare m own a t" "insert_perms m f t = Some (t', n)"
    then show "spare m own a t'" using insert_needless_perms [OF inv, of t m f t' n] ok [of t]
      by (auto simp: spare_def inv_ex_none insert_perms_def)
  qed
  show "triple (spare m own a) (exec (fill_defaults m f)) (\<lambda>_. spare m own a)"
  proof (rule triple_exec)
    fix t t' n assume "spare m own a t" "fill_defaults m f t = Some (t', n)"
    then show "spare m own a t'" using fill_needless(1) [OF inv, of t f m t' n] ok [of t]
      by (auto simp: spare_def inv_ex_none fill_defaults_def)
  qed
  show "triple (spare m own a) (exec (fill_perms m f)) (\<lambda>_. spare m own a)"
  proof (rule triple_exec)
    fix t t' n assume "spare m own a t" "fill_perms m f t = Some (t', n)"
    then show "spare m own a t'" using fill_needless(2) [OF inv, of t f m t' n] ok [of t]
      by (auto simp: spare_def inv_ex_none fill_perms_def)
  qed
qed

lemma own_rows:
  "(q, c) \<in> set (all_defaults a now on own k t) \<Longrightarrow> fst q = own \<and> c_account c = a"
  "(q, c) \<in> set (all_perms a now on own k t) \<Longrightarrow> fst q = own \<and> c_account c = a"
  "(q, c) \<in> set (from_client a (\<lambda>c. default_cell a now (c_on c)) own source m) \<Longrightarrow> fst q = own \<and> c_account c = a"
  "(q, c) \<in> set (from_client a (\<lambda>c. perm_cell a now (c_on c)) own source m) \<Longrightarrow> fst q = own \<and> c_account c = a"
  by (auto simp: all_defaults_def all_perms_def from_client_def copied_def default_cell_def perm_cell_def)

lemma of_tables_spare: "of_tables (spare m own a)"
proof -
  have "needless E m t' = needless E m t" if "matrix_view t' = matrix_view t" for E t t'
    using of_view(6) [OF that] by (cases m) (simp_all add: fun_eq_iff)
  then show ?thesis using matrix_inv_view of_view(5) unfolding of_tables_def spare_def by metis
qed

lemma spare_inv: "triple P m (\<lambda>_. spare k own a) \<Longrightarrow> triple P m (\<lambda>_. matrix_inv)"
  unfolding triple_def spare_def by blast

section \<open>Templates\<close>

lemma CreateTemplate_inv: "always matrix_inv (CreateTemplate now sc i)"
proof -
  have new: "triple matrix_inv (exec (insert_template (tp_ID i) \<lparr>ct_account = a, ct_name = x, ct_description = y, ct_created = z, ct_updated = w\<rparr>))
      (\<lambda>_. spare templateMatrix (tp_ID i) a)" for a x y z w
    by (rule triple_exec) (auto simp: spare_def dest: insert_template_inv)
  have start: "triple (spare templateMatrix (tp_ID i) a) (start_client a now i) (\<lambda>_. spare templateMatrix (tp_ID i) a)" for a
    unfolding start_client_def by (intro triple_then triple_done triple_if spare_rows; erule own_rows)
  show ?thesis unfolding CreateTemplate_def Let_def
    by (rule always_RunTx, rule spare_inv [where k = templateMatrix and own = "tp_ID i" and a = "sc_account sc"],
        rule triple_andThen, rule new)
      (intro triple_then triple_if start triple_done spare_rows; erule own_rows)
qed

lemma edit_templates_inv:
  assumes "inv_ex E t" "\<And>r. ct_account (f r) = ct_account r"
  shows "inv_ex E (t\<lparr>t_templates := update_rows P f (t_templates t)\<rparr>)" (is "inv_ex E ?t")
proof -
  have d: "defaults_of m ?t = defaults_of m t" "perms_of m ?t = perms_of m t" for m by (cases m; simp)+
  have o: "owner_account m ?t = owner_account m t" for m
  proof
    fix i
    show "owner_account m ?t i = owner_account m t i" by (cases m; cases "gm_get (t_templates t) i") (simp_all add: assms(2))
  qed
  have l: "link_of ?t = link_of t" by (simp add: link_of_def fun_eq_iff)
  show ?thesis using assms(1) by (simp add: inv_ex_def matrix_wf_def cells_ok_def links_ok_def mirrored_def d o l)
qed

lemma UpdateTemplate_inv: "always matrix_inv (UpdateTemplate now sc i name descr)"
  unfolding UpdateTemplate_def Let_def
proof (intro always_andThen always_plain always_exec)
  fix t t' n
  let ?f = "\<lambda>r. r\<lparr>ct_updated := now, ct_name := (case name of None \<Rightarrow> ct_name r | Some x \<Rightarrow> x),
    ct_description := (case descr of None \<Rightarrow> ct_description r | Some x \<Rightarrow> x)\<rparr>"
  assume inv: "matrix_inv t" and "(case owned ct_account (t_templates t) (sc_account sc) i of None \<Rightarrow> Some (t, 0)
    | Some r \<Rightarrow> if \<not> template_ok i (?f r) t then None
        else Some (t\<lparr>t_templates := update_rows (\<lambda>j r. j = i \<and> ct_account r = sc_account sc) ?f (t_templates t)\<rparr>, 1)) = Some (t', n)"
  then have "t' = t \<or> t' = t\<lparr>t_templates := update_rows (\<lambda>j r. j = i \<and> ct_account r = sc_account sc) ?f (t_templates t)\<rparr>"
    by (auto split: option.splits if_splits)
  then show "matrix_inv t'" using inv edit_templates_inv [of "\<lambda>_. False" t ?f] by (auto simp: inv_ex_none)
qed

end
