(* ===== verification/ProviderLaws.thy ===== *)
theory ProviderLaws
  imports StoreLaws
begin

text \<open>Deleting a provider leaves every virtual model that used it a target that can serve.\<close>

text \<open>The virtual model \<open>v\<close> has a target that can serve and is not at the provider.\<close>

definition covered :: "string \<Rightarrow> string \<Rightarrow> tenants \<Rightarrow> bool" where
  "covered pid v t \<longleftrightarrow> gm_wf (t_models t) \<and> gm_wf (t_providers t) \<and> takeover t pid v \<noteq> 0"

definition covers :: "string \<Rightarrow> string \<Rightarrow> tenants \<Rightarrow> target_row \<Rightarrow> bool" where
  "covers pid v t r \<longleftrightarrow> vt_virtual r = v \<and> eligible t r \<and> target_provider t r \<noteq> Some pid"

lemma takeover_covers: "takeover t pid v \<noteq> 0 \<longleftrightarrow> (\<exists>j r. (j, r) \<in> set (t_targets t) \<and> covers pid v t r)"
  by (auto simp: takeover_def covers_def count_rows_0)

lemma covers_iff: "covers pid v t r \<longleftrightarrow> vt_virtual r = v \<and> vt_enabled r \<and>
    (\<exists>m p. gm_get (t_models t) (vt_model r) = Some m \<and> pm_provider m \<noteq> pid \<and> pm_available m \<and>
       gm_get (t_providers t) (pm_provider m) = Some p \<and> pv_enabled p)"
  by (auto simp: covers_def eligible_def provider_of_def target_provider_def split: option.splits)

text \<open>A statement that keeps the rows such a target rests on.\<close>

lemma covered_step:
  assumes "covered pid v t" "gm_wf (t_models t')" "gm_wf (t_providers t')"
    and "\<And>j r. (j, r) \<in> set (t_targets t) \<Longrightarrow> covers pid v t r \<Longrightarrow> (j, r) \<in> set (t_targets t')"
    and "\<And>i m. gm_get (t_models t) i = Some m \<Longrightarrow> pm_provider m \<noteq> pid \<Longrightarrow> gm_get (t_models t') i = Some m"
    and "\<And>i p. gm_get (t_providers t) i = Some p \<Longrightarrow> i \<noteq> pid \<Longrightarrow> gm_get (t_providers t') i = Some p"
  shows "covered pid v t'"
proof -
  obtain j r where r: "(j, r) \<in> set (t_targets t)" "covers pid v t r"
    using assms(1) unfolding covered_def takeover_covers by blast
  obtain m p where m: "vt_virtual r = v" "vt_enabled r" "gm_get (t_models t) (vt_model r) = Some m" "pm_provider m \<noteq> pid"
    "pm_available m" "gm_get (t_providers t) (pm_provider m) = Some p" "pv_enabled p"
    using r(2) by (auto simp: covers_iff)
  have "covers pid v t' r" unfolding covers_iff using m(1,2,4,5,7) assms(5) [OF m(3,4)] assms(6) [OF m(6,4)] by blast
  then show ?thesis using assms(2,3) assms(4) [OF r] unfolding covered_def takeover_covers by blast
qed

lemma covered_same: "covered pid v t \<Longrightarrow> t_models t' = t_models t \<Longrightarrow> t_providers t' = t_providers t \<Longrightarrow> t_targets t' = t_targets t
    \<Longrightarrow> covered pid v t'"
  by (rule covered_step [of pid v t]) (auto simp: covered_def)

lemma covered_matrix:
  "triple (covered pid v) (exec (\<lambda>t. del_perms m (P t) t)) (\<lambda>_. covered pid v)"
  "triple (covered pid v) (exec (\<lambda>t. del_defaults m (P t) t)) (\<lambda>_. covered pid v)"
  by (rule triple_exec, cases m; auto simp: del_perms_def del_defaults_def elim!: covered_same)+

lemma covered_targets:
  assumes "\<And>t r. P t r \<Longrightarrow> target_provider t r = Some pid"
  shows "triple (covered pid v) (exec (\<lambda>t. del_targets (\<lambda>_ r. P t r) t)) (\<lambda>_. covered pid v)"
proof (rule triple_exec)
  fix t t' n assume c: "covered pid v t" and "del_targets (\<lambda>_ r. P t r) t = Some (t', n)"
  then have t': "t' = t\<lparr>t_targets := delete_rows (\<lambda>_ r. P t r) (t_targets t)\<rparr>" by (simp add: del_targets_def)
  show "covered pid v t'"
  proof (rule covered_step [OF c])
    fix j r assume r: "(j, r) \<in> set (t_targets t)" "covers pid v t r"
    then have "\<not> P t r" using assms [of t r] by (auto simp: covers_def)
    then show "(j, r) \<in> set (t_targets t')" using r(1) by (simp add: t' delete_rows_def gm_keep_def)
  qed (use c in \<open>auto simp: t' covered_def\<close>)
qed

lemma covered_primary: "triple (covered pid v) (exec (set_primary now a w p m)) (\<lambda>_. covered pid v)"
  by (rule triple_exec) (auto simp: set_primary_def elim!: covered_same)

lemma covered_release: "triple (covered pid v) (release_virtual now a pid w) (\<lambda>_. covered pid v)"
proof -
  have "triple (covered pid v) (exec (\<lambda>t. del_targets (\<lambda>_ r. vt_virtual r = w \<and> vt_account r = a \<and>
         (case gm_get (t_models t) (vt_model r) of None \<Rightarrow> False | Some m \<Rightarrow> pm_provider m = pid \<and> pm_account m = a)) t)) (\<lambda>_. covered pid v)"
    by (rule covered_targets) (auto simp: target_provider_def split: option.splits)
  then show ?thesis unfolding release_virtual_def
    by (intro triple_then triple_done triple_option triple_prod covered_primary)
qed

lemma covered_models: "triple (covered pid v) (exec (del_models (\<lambda>_ m. pm_provider m = pid \<and> pm_account m = a))) (\<lambda>_. covered pid v)"
proof (rule triple_exec)
  fix t t' n assume c: "covered pid v t" and "del_models (\<lambda>_ m. pm_provider m = pid \<and> pm_account m = a) t = Some (t', n)"
  then have t': "t' = t\<lparr>t_models := delete_rows (\<lambda>_ m. pm_provider m = pid \<and> pm_account m = a) (t_models t)\<rparr>"
    by (auto simp: del_models_def Let_def split: if_splits)
  have "gm_wf (t_models t)" using c by (simp add: covered_def)
  then show "covered pid v t'" by (intro covered_step [OF c]) (use c in \<open>auto simp: t' covered_def\<close>)
qed

lemma covered_provider:
  "triple (covered pid v) (exec (del_providers (\<lambda>i p. i = pid \<and> pv_account p = a)))
     (\<lambda>n t. covered pid v t \<and> owned pv_account (t_providers t) a pid = None)"
proof (rule triple_exec)
  fix t t' n assume c: "covered pid v t" and "del_providers (\<lambda>i p. i = pid \<and> pv_account p = a) t = Some (t', n)"
  then have t': "t' = t\<lparr>t_providers := delete_rows (\<lambda>i p. i = pid \<and> pv_account p = a) (t_providers t), t_oauth := t_oauth t'\<rparr>"
    by (auto simp: del_providers_def Let_def split: if_splits)
  have w: "gm_wf (t_providers t)" using c by (simp add: covered_def)
  have "t_providers t' = delete_rows (\<lambda>i p. i = pid \<and> pv_account p = a) (t_providers t)" "t_models t' = t_models t" "t_targets t' = t_targets t"
    by (subst t', simp)+
  then show "covered pid v t' \<and> owned pv_account (t_providers t') a pid = None"
    using w c by (intro conjI covered_step [OF c]) (auto simp: covered_def owned_def split: option.split)
qed

lemma refs_covered:
  assumes "(v, r) \<in> set (t_virtual t)" "vm_account r = a" "canonical_virtual t r \<noteq> None" "uses_provider a pid t v"
    and "filter (\<lambda>(_, _, last_one). last_one) (providerVirtualModelRefs a pid t) = []"
  shows "takeover t pid v \<noteq> 0"
proof -
  obtain name where "canonical_virtual t r = Some name" using assms(3) by auto
  let ?f = "\<lambda>(i, v). case canonical_virtual t v of None \<Rightarrow> []
       | Some name \<Rightarrow> if vm_account v = a \<and> uses_provider a pid t i then [(i, name, takeover t pid i = 0)] else []"
  have "(v, name, takeover t pid v = 0) \<in> set (?f (v, r))"
    using \<open>canonical_virtual t r = Some name\<close> assms(2,4) by simp
  then have "(v, name, takeover t pid v = 0) \<in> set (providerVirtualModelRefs a pid t)"
    unfolding providerVirtualModelRefs_def set_concat set_map using assms(1) by blast
  then show ?thesis using assms(5) by (auto simp: filter_empty_conv)
qed

lemma guarded:
  assumes "effect (andThen (query q) (\<lambda>refs. if 0 < refs then refuse e1 else
      andThen (exec del) (\<lambda>_. andThen (query all) (\<lambda>xs. if filter P xs \<noteq> [] then refuse (e2 xs) else rest xs)))) t u t'"
  shows "\<exists>t1 n1. q t = (0 :: nat) \<and> del t = Some (t1, n1) \<and> filter P (all t1) = [] \<and> effect (rest (all t1)) t1 u t'"
proof -
  have "q t = 0" and 1: "effect (andThen (exec del) (\<lambda>_. andThen (query all) (\<lambda>xs. if filter P xs \<noteq> [] then refuse (e2 xs) else rest xs))) t u t'"
    using effect_andThen [OF assms] by (auto simp: effects split: if_splits)
  obtain n1 t1 where "del t = Some (t1, n1)" and 2: "effect (andThen (query all) (\<lambda>xs. if filter P xs \<noteq> [] then refuse (e2 xs) else rest xs)) t1 u t'"
    using effect_andThen [OF 1] by (auto simp: effects)
  moreover have "filter P (all t1) = [] \<and> effect (rest (all t1)) t1 u t'"
    using effect_andThen [OF 2] by (auto simp: effects split: if_splits)
  ultimately show ?thesis using \<open>q t = 0\<close> by blast
qed

lemma DeleteProvider_covered:
  assumes "effect (DeleteProvider now sc pid) t u t'" "gm_wf (t_models t)" "gm_wf (t_providers t)"
    and "(v, r) \<in> set (t_virtual t)" "vm_account r = sc_account sc" "canonical_virtual t r \<noteq> None" "uses_provider (sc_account sc) pid t v"
  shows "takeover t' pid v \<noteq> 0 \<and> owned pv_account (t_providers t') (sc_account sc) pid = None \<and> single_refs (sc_account sc) pid t = 0"
proof -
  let ?a = "sc_account sc"
  let ?rest = "\<lambda>all. andThen (each (\<lambda>(v, _, _). release_virtual now ?a pid v) all) (\<lambda>_.
      andThen (exec (\<lambda>t. del_perms clientMatrix (\<lambda>(_, k, m) c. k = RealKind \<and> model_of_provider ?a pid t m \<and> c_account c = ?a) t)) (\<lambda>_.
      andThen (exec (del_defaults clientMatrix (\<lambda>(_, k, p) c. k = RealKind \<and> p = pid \<and> c_account c = ?a))) (\<lambda>_.
      andThen (exec (\<lambda>t. del_perms templateMatrix (\<lambda>(_, k, m) c. k = RealKind \<and> model_of_provider ?a pid t m \<and> c_account c = ?a) t)) (\<lambda>_.
      andThen (exec (del_defaults templateMatrix (\<lambda>(_, k, p) c. k = RealKind \<and> p = pid \<and> c_account c = ?a))) (\<lambda>_.
      andThen (exec (del_models (\<lambda>_ m. pm_provider m = pid \<and> pm_account m = ?a))) (\<lambda>_.
      andThen (exec (del_providers (\<lambda>i p. i = pid \<and> pv_account p = ?a))) (\<lambda>n.
      andThen (no_rows ErrProviderNotFound n) (\<lambda>_.
      andThen (exec (del_namespaces (\<lambda>q r. fst q = ?a \<and> ns_entity r = pid \<and> ns_kind r = RealKind))) (\<lambda>_.
      andThen (exec (\<lambda>t. let P = (\<lambda>i r. i = pid \<and> oa_account r = ?a) in
          Some (t\<lparr>t_oauth := delete_rows P (t_oauth t)\<rparr>, count_rows P (t_oauth t)))) (\<lambda>_.
      give ()))))))))))"
  let ?Q = "\<lambda>t. covered pid v t \<and> owned pv_account (t_providers t) ?a pid = None"
  have body: "effect (andThen (query (single_refs ?a pid)) (\<lambda>refs. if 0 < refs then refuse ErrSingleBindingInUse else
      andThen (exec (\<lambda>t. del_bindings (\<lambda>c b. (case sb_real b of None \<Rightarrow> False | Some m \<Rightarrow> model_of_provider ?a pid t m) \<and>
          (case gm_get (t_clients t) c of None \<Rightarrow> False | Some k \<Rightarrow> ck_type k = ''catalogue'' \<and> ck_account k = ?a)) t)) (\<lambda>_.
      andThen (query (providerVirtualModelRefs ?a pid)) (\<lambda>all.
        if filter (\<lambda>(_, _, last_one). last_one) all \<noteq> [] then refuse (ProviderInUseError (map (fst \<circ> snd) (filter (\<lambda>(_, _, last_one). last_one) all)) (map (fst \<circ> snd) all))
        else ?rest all)))) t u t'"
    using effect_RunTx [OF assms(1) [unfolded DeleteProvider_def Let_def]] by (simp only: Let_def)
  let ?del = "\<lambda>t. del_bindings (\<lambda>c b. (case sb_real b of None \<Rightarrow> False | Some m \<Rightarrow> model_of_provider ?a pid t m) \<and>
          (case gm_get (t_clients t) c of None \<Rightarrow> False | Some k \<Rightarrow> ck_type k = ''catalogue'' \<and> ck_account k = ?a)) t"
  let ?all = "providerVirtualModelRefs ?a pid"
  have "\<exists>t1 n1. single_refs ?a pid t = 0 \<and> ?del t = Some (t1, n1) \<and> filter (\<lambda>(_, _, last_one). last_one) (?all t1) = [] \<and> effect (?rest (?all t1)) t1 u t'"
    by (rule guarded [OF body])
  then obtain t1 n1 where refs: "single_refs ?a pid t = 0" and del: "?del t = Some (t1, n1)"
    and none: "filter (\<lambda>(_, _, last_one). last_one) (?all t1) = []" and run: "effect (?rest (?all t1)) t1 u t'" by blast
  have t1: "t_models t1 = t_models t" "t_providers t1 = t_providers t" "t_targets t1 = t_targets t" "t_virtual t1 = t_virtual t" "t_groups t1 = t_groups t"
    using del by (auto simp: del_bindings_def)
  have "canonical_virtual t1 r \<noteq> None" "uses_provider ?a pid t1 v" using assms(6,7) t1 by (simp_all add: canonical_virtual_def uses_provider_def)
  then have "takeover t1 pid v \<noteq> 0" using refs_covered [of v r t1 ?a pid] assms(4,5) none t1 by simp
  then have c1: "covered pid v t1" using assms(2,3) t1 by (simp add: covered_def)
  have last: "triple ?Q (exec f) (\<lambda>_. ?Q)" if "\<And>t t' n. f t = Some (t', n) \<Longrightarrow> t_models t' = t_models t \<and> t_providers t' = t_providers t \<and> t_targets t' = t_targets t" for f
    by (rule triple_exec) (use that covered_same in metis)
  have "triple (covered pid v) (?rest all) (\<lambda>_. ?Q)" for all
    by (rule triple_then, rule triple_each, rule triple_prod, rule triple_prod, rule covered_release,
        rule triple_then, rule covered_matrix, rule triple_then, rule covered_matrix, rule triple_then, rule covered_matrix,
        rule triple_then, rule covered_matrix, rule triple_then, rule covered_models, rule triple_andThen, rule covered_provider,
        rule triple_then, rule triple_done, rule triple_then, rule last,
        auto simp: del_namespaces_def Let_def split: if_splits intro!: triple_then triple_done last)
  then have "?Q t'" using run c1 unfolding triple_def by blast
  then show ?thesis using refs by (simp add: covered_def)
qed

end
