(* ===== verification/KeyLaws.thy ===== *)
theory KeyLaws
  imports StoreLaws
begin

text \<open>
  The operations on client keys and on templates that have keys: while one runs the keys it is about to
  rewrite are exceptions, and at its end there are none.
\<close>

section \<open>Exceptions\<close>

text \<open>The invariant up to the keys in \<open>E\<close>, with the links \<open>L\<close> and the accounts \<open>A\<close> of the owners.\<close>

definition pending :: "(string \<Rightarrow> bool) \<Rightarrow> (string \<Rightarrow> string option) \<Rightarrow> (permissionMatrix \<Rightarrow> string \<Rightarrow> string option) \<Rightarrow> tenants \<Rightarrow> bool" where
  "pending E L A t \<longleftrightarrow> inv_ex E t \<and> link_of t = L \<and> (\<lambda>m. owner_account m t) = A"

lemma triple_ex: "(\<And>L A. triple (pending (\<lambda>_. False) L A) m Q) \<Longrightarrow> triple matrix_inv m Q"
  unfolding triple_def pending_def inv_ex_none by blast

lemma triple_weaken: "triple (pending E' L A) m Q \<Longrightarrow> (\<And>i. E i \<Longrightarrow> E' i) \<Longrightarrow> triple (pending E L A) m Q"
proof -
  assume m: "triple (pending E' L A) m Q" and w: "\<And>i. E i \<Longrightarrow> E' i"
  have "pending E' L A t" if "pending E L A t" for t
    using that inv_ex_weaken [of E t E'] w by (simp add: pending_def)
  then show ?thesis by (rule triple_pre [OF m])
qed

lemma triple_fact: "(\<And>t. P t \<Longrightarrow> F) \<Longrightarrow> (F \<Longrightarrow> triple P m Q) \<Longrightarrow> triple P m Q"
  unfolding triple_def by blast

lemma pending_inv: "triple P m (\<lambda>_. pending (\<lambda>_. False) L A) \<Longrightarrow> triple P m (\<lambda>_. matrix_inv)"
  unfolding triple_def pending_def inv_ex_none by blast

lemma inv_ex_view:
  assumes "matrix_view t' = matrix_view t" "inv_ex E t"
  shows "inv_ex E t'"
proof -
  have "t_defaults t' = t_defaults t" "t_perms t' = t_perms t" "t_tdefaults t' = t_tdefaults t" "t_tperms t' = t_tperms t"
    using assms(1) by (simp_all add: matrix_view_def)
  then show ?thesis using assms(2) of_view [OF assms(1)]
    unfolding inv_ex_def matrix_wf_def cells_ok_def links_ok_def mirrored_def by metis
qed

lemma of_tables_pending: "of_tables (pending E L A)"
  using inv_ex_view of_view(5,6) unfolding of_tables_def pending_def by (metis (no_types, lifting) ext)

text \<open>What a query finds stays true while the links and accounts do.\<close>

lemma triple_asked:
  assumes "\<And>t. P t \<Longrightarrow> f t \<Longrightarrow> F" "F \<Longrightarrow> triple P m Q"
  shows "triple P (andThen (query f) (\<lambda>found. if \<not> found then refuse e else m)) Q"
  unfolding triple_def
proof (intro allI impI)
  fix t x t' assume P: "P t" and "effect (andThen (query f) (\<lambda>found. if \<not> found then refuse e else m)) t x t'"
  then have "f t" "effect m t x t'" by (auto dest!: effect_andThen simp: effects split: if_splits)
  then show "Q x t'" using assms P unfolding triple_def by blast
qed

section \<open>Updates of one owner\<close>

lemma upsert_needless:
  assumes "gm_wf tbl" "good_cells acc tbl" "acc own = Some (c_account c)"
  shows "gm_wf (upsert_cell (own, k, g) c tbl)" "good_cells acc (upsert_cell (own, k, g) c tbl)"
    "own' \<noteq> own \<Longrightarrow> on_cell (upsert_cell (own, k, g) c tbl) own' k' g' = on_cell tbl own' k' g'"
proof -
  show "gm_wf (upsert_cell (own, k, g) c tbl)" using assms(1) by (simp add: upsert_cell_def)
  show "own' \<noteq> own \<Longrightarrow> on_cell (upsert_cell (own, k, g) c tbl) own' k' g' = on_cell tbl own' k' g'"
    by (simp add: upsert_cell_def on_cell_def)
  show "good_cells acc (upsert_cell (own, k, g) c tbl)" unfolding good_cells_def
  proof (intro allI impI)
    fix q x assume x: "gm_get (upsert_cell (own, k, g) c tbl) q = Some x"
    show "acc (fst q) = Some (c_account x)"
    proof (cases "q = (own, k, g)")
      case True
      show ?thesis
      proof (cases "gm_get tbl q")
        case None
        then show ?thesis using x True assms(3) by (simp add: upsert_cell_def)
      next
        case (Some old)
        then have "acc (fst q) = Some (c_account old)" using assms(2) unfolding good_cells_def by blast
        then show ?thesis using x True Some by (simp add: upsert_cell_def) force
      qed
    next
      case False
      then have "gm_get tbl q = Some x" using x by (simp add: upsert_cell_def)
      then show ?thesis using assms(2) unfolding good_cells_def by blast
    qed
  qed
qed

lemma pending_with [simp]:
  "pending E L A (with_defaults m d t) \<longleftrightarrow> inv_ex E (with_defaults m d t) \<and> link_of t = L \<and> (\<lambda>m. owner_account m t) = A"
  "pending E L A (with_perms m d t) \<longleftrightarrow> inv_ex E (with_perms m d t) \<and> link_of t = L \<and> (\<lambda>m. owner_account m t) = A"
  by (simp_all add: pending_def)

lemma applyMatrixUpdates_inv:
  assumes own: "A m own = Some a" and free: "\<And>t. link_of t = L \<Longrightarrow> needless E m t own"
  shows "triple (pending E L A) (applyMatrixUpdates m a now own ds ps) (\<lambda>_. pending E L A)"
proof -
  have here: "owner_account m t own = Some a \<and> needless E m t own" if "pending E L A t" for t
    using that own free by (auto simp: pending_def fun_eq_iff)
  have d: "pending E L A (with_defaults m (upsert_cell (own, k, g) c (defaults_of m t)) t)"
    if t: "pending E L A t" and c: "c_account c = a" for t k g c
  proof -
    have inv: "inv_ex E t" using t by (simp add: pending_def)
    note p = inv_ex_parts(1-4) [OF inv, of m]
    have acc: "owner_account m t own = Some (c_account c)" using here [OF t] c by simp
    have "inv_ex E (with_defaults m (upsert_cell (own, k, g) c (defaults_of m t)) t)"
      by (rule inv_ex_write [OF inv upsert_needless(1,2) [OF p(1,3) acc]], rule upsert_needless(3) [OF p(1,3) acc]) (use here [OF t] in auto)
    then show ?thesis using t by (simp add: pending_def)
  qed
  have p: "pending E L A (with_perms m (upsert_cell (own, k, g) c (perms_of m t)) t)"
    if t: "pending E L A t" and c: "c_account c = a" for t k g c
  proof -
    have inv: "inv_ex E t" using t by (simp add: pending_def)
    note p = inv_ex_parts(1-4) [OF inv, of m]
    have acc: "owner_account m t own = Some (c_account c)" using here [OF t] c by simp
    have "inv_ex E (with_perms m (upsert_cell (own, k, g) c (perms_of m t)) t)"
      by (rule inv_ex_write_perms [OF inv upsert_needless(1,2) [OF p(2,4) acc]], rule upsert_needless(3) [OF p(2,4) acc]) (use here [OF t] in auto)
    then show ?thesis using t by (simp add: pending_def)
  qed
  have c: "c_account (default_cell a now on) = a" "c_account (perm_cell a now on) = a" for on
    by (simp_all add: default_cell_def perm_cell_def)
  have 1: "triple (pending E L A) (update_default m a now own x) (\<lambda>_. pending E L A)" for x
    unfolding update_default_def
    by (intro triple_option triple_then triple_done triple_if triple_exec) (auto split: if_splits intro!: d c simp del: pending_with)
  have 2: "triple (pending E L A) (update_perm m a now own x) (\<lambda>_. pending E L A)" for x
    unfolding update_perm_def
    by (intro triple_option triple_then triple_done triple_if triple_exec) (auto split: if_splits intro!: p c simp del: pending_with)
  show ?thesis unfolding applyMatrixUpdates_def by (intro triple_then triple_each 1 2)
qed

lemma UpdatePermissions_inv: "always matrix_inv (UpdatePermissions now sc c ds ps)"
  unfolding UpdatePermissions_def Let_def
proof (rule always_RunTx, rule triple_ex, rule pending_inv)
  fix L A
  let ?a = "sc_account sc"
  let ?m = "\<lambda>row. case row of None \<Rightarrow> refuse ErrClientKeyNotFound
     | Some r \<Rightarrow> if ck_template r \<noteq> None then refuse ErrClientLinkedToTemplate else applyMatrixUpdates clientMatrix ?a now c ds ps"
  show "triple (pending (\<lambda>_. False) L A) (andThen (query (\<lambda>t. owned ck_account (t_clients t) ?a c)) ?m) (\<lambda>_. pending (\<lambda>_. False) L A)"
    unfolding triple_def
  proof (intro allI impI)
    fix t x t' assume t: "pending (\<lambda>_. False) L A t" and "effect (andThen (query (\<lambda>t. owned ck_account (t_clients t) ?a c)) ?m) t x t'"
    then have eff: "effect (?m (owned ck_account (t_clients t) ?a c)) t x t'" by (auto dest!: effect_andThen simp: effects)
    then obtain r where r: "gm_get (t_clients t) c = Some r" "ck_account r = ?a" "ck_template r = None"
      and run: "effect (applyMatrixUpdates clientMatrix ?a now c ds ps) t x t'"
      by (cases "owned ck_account (t_clients t) ?a c") (auto simp: effects owned_iff split: if_splits)
    have "A clientMatrix c = Some ?a" "L c = None" using t r by (auto simp: pending_def link_of_def)
    then show "pending (\<lambda>_. False) L A t'"
      using applyMatrixUpdates_inv [where A = A and m = clientMatrix and own = c and a = ?a and L = L and E = "\<lambda>_. False" and now = now and ds = ds and ps = ps]
        t run by (auto simp: triple_def)
  qed
qed


section \<open>Rewriting\<close>

lemma sync_inv:
  assumes "\<And>i y. E i \<Longrightarrow> L i = Some y \<Longrightarrow> y = x \<and> A clientMatrix i = Some a \<and> (one = [] \<or> i = one)"
  shows "triple (pending E L A) (syncTemplateClients now a x one) (\<lambda>_. matrix_inv)"
  unfolding triple_def
proof (intro allI impI)
  fix t u t' assume t: "pending E L A t" and eff: "effect (syncTemplateClients now a x one) t u t'"
  have "owner_account clientMatrix t = A clientMatrix" using t by (auto simp: pending_def)
  then show "matrix_inv t'" using syncTemplateClients_inv [OF eff, of E] t assms by (simp add: pending_def)
qed

lemma template_edit:
  assumes "\<And>r. ct_account (f r) = ct_account r"
  shows "pending E L A t \<Longrightarrow> pending E L A (t\<lparr>t_templates := update_rows P f (t_templates t)\<rparr>)"
proof -
  assume t: "pending E L A t"
  let ?t = "t\<lparr>t_templates := update_rows P f (t_templates t)\<rparr>"
  have "owner_account m ?t i = owner_account m t i" for m i by (cases m; cases "gm_get (t_templates t) i") (simp_all add: assms)
  then have "(\<lambda>m. owner_account m ?t) = A" using t by (auto simp: pending_def fun_eq_iff)
  moreover have "link_of ?t = L" using t by (simp add: pending_def link_of_def fun_eq_iff)
  ultimately show ?thesis using edit_templates_inv [of E t f P] t assms by (simp add: pending_def)
qed

lemma UpdateTemplatePermissions_inv: "always matrix_inv (UpdateTemplatePermissions now sc i ds ps)"
  unfolding UpdateTemplatePermissions_def Let_def
proof (rule always_RunTx, rule triple_ex, rule triple_asked)
  fix L A t
  assume "pending (\<lambda>_. False) L A t" "owned ct_account (t_templates t) (sc_account sc) i \<noteq> None"
  then show "A templateMatrix i = Some (sc_account sc)" by (auto simp: pending_def owned_iff)
next
  fix L A assume A: "A templateMatrix i = Some (sc_account sc)"
  let ?a = "sc_account sc"
  show "triple (pending (\<lambda>_. False) L A)
     (andThen (applyMatrixUpdates templateMatrix ?a now i ds ps) (\<lambda>_.
      andThen (exec (\<lambda>t. Some (t\<lparr>t_templates := update_rows (\<lambda>j r. j = i \<and> ct_account r = ?a) (ct_updated_update (\<lambda>_. now)) (t_templates t)\<rparr>, 1))) (\<lambda>_.
      andThen (query (linkedClientIDs ?a i)) (\<lambda>ids.
      andThen (syncTemplateClients now ?a i []) (\<lambda>_. give ids))))) (\<lambda>_. matrix_inv)"
  proof (rule triple_fact)
    fix t assume t: "pending (\<lambda>_. False) L A t"
    then have "L = link_of t" "A = (\<lambda>m. owner_account m t)" "links_ok t" by (auto simp: pending_def inv_ex_def)
    then show "\<forall>c. L c = Some i \<longrightarrow> A clientMatrix c = Some ?a"
      using A unfolding links_ok_def by metis
  next
    assume keys: "\<forall>c. L c = Some i \<longrightarrow> A clientMatrix c = Some ?a"
    let ?P = "pending (\<lambda>c. L c = Some i) L A"
    have 1: "triple ?P (applyMatrixUpdates templateMatrix ?a now i ds ps) (\<lambda>_. ?P)"
      by (rule applyMatrixUpdates_inv) (use A in auto)
    have 2: "triple ?P (exec (\<lambda>t. Some (t\<lparr>t_templates := update_rows (\<lambda>j r. j = i \<and> ct_account r = ?a) (ct_updated_update (\<lambda>_. now)) (t_templates t)\<rparr>, 1))) (\<lambda>_. ?P)"
      by (rule triple_exec) (auto intro: template_edit)
    have 3: "triple ?P (syncTemplateClients now ?a i []) (\<lambda>_. matrix_inv)"
      by (rule sync_inv) (use keys in auto)
    show ?thesis
      by (rule triple_weaken [where E' = "\<lambda>c. L c = Some i"], rule triple_then [OF 1], rule triple_then [OF 2],
          rule triple_then, rule triple_done, rule triple_andThen [OF 3], rule triple_done) simp
  qed
qed

lemma linkClientTemplate_inv:
  "triple (\<lambda>t. matrix_inv t \<and> owner_account clientMatrix t c = Some a) (linkClientTemplate now a c x) (\<lambda>_. matrix_inv)"
  unfolding triple_def
proof (intro allI impI)
  fix t u t' assume t: "matrix_inv t \<and> owner_account clientMatrix t c = Some a" and eff: "effect (linkClientTemplate now a c x) t u t'"
  show "matrix_inv t'"
  proof (cases "x = []")
    case True
    then have "t' = t\<lparr>t_clients := update_rows (\<lambda>i r. i = c \<and> ck_account r = a) (ck_template_update (\<lambda>_. None)) (t_clients t)\<rparr>"
      using eff by (auto simp: linkClientTemplate_def set_template_def effects dest!: effect_andThen)
    then show ?thesis using unlink_inv [of "\<lambda>_. False" t "ck_template_update (\<lambda>_. None)"] t by (simp add: inv_ex_none)
  next
    case False
    then obtain t1 n where own: "owned ct_account (t_templates t) a x \<noteq> None" and set: "set_template a c (Some x) t = Some (t1, n)"
      and run: "effect (syncTemplateClients now a x c) t1 u t'"
      using eff by (auto simp: linkClientTemplate_def effects split: if_splits dest!: effect_andThen)
    have inv: "inv_ex (\<lambda>i. i = c) t1" using set_template_inv [OF _ set own] t by blast
    obtain r where r: "gm_get (t_clients t) c = Some r" "ck_account r = a" using t by auto
    have "gm_get (t_clients t1) c = Some (r\<lparr>ck_template := Some x\<rparr>)" using set r by (auto simp: set_template_def)
    then have "link_of t1 c = Some x" "owner_account clientMatrix t1 c = Some a" using r by (simp_all add: link_of_def)
    then show ?thesis using syncTemplateClients_inv [OF run inv] by simp
  qed
qed

section \<open>Client keys\<close>

lemma update_client_inv:
  assumes "matrix_inv t" "update_client a c f t = Some (t', n)" "\<And>r. ck_account (f r) = ck_account r \<and> ck_template (f r) = ck_template r"
  shows "matrix_inv t' \<and> (n \<noteq> 0 \<longrightarrow> owner_account clientMatrix t' c = Some a)"
proof (cases "owned ck_account (t_clients t) a c")
  case None
  then show ?thesis using assms(1,2) by (simp add: update_client_def)
next
  case (Some r)
  then have t': "t' = t\<lparr>t_clients := update_rows (\<lambda>i r. i = c \<and> ck_account r = a) f (t_clients t)\<rparr>"
    using assms(2) by (auto simp: update_client_def split: if_splits)
  moreover have "matrix_inv t'" using edit_clients_inv [of "\<lambda>_. False" t f] assms(1,3) t' by (simp add: inv_ex_none)
  moreover have "gm_get (t_clients t) c = Some r" "ck_account r = a" using Some by (simp_all add: owned_iff)
  ultimately show ?thesis using assms(3) by simp
qed

lemma RotateClientKey_inv: "always matrix_inv (RotateClientKey now sc c s h f)"
  unfolding RotateClientKey_def by (intro always_andThen always_plain always_exec) (auto dest: update_client_inv)

lemma DeleteClientKey_inv: "always matrix_inv (DeleteClientKey now sc c)"
proof -
  have del: "always matrix_inv (exec (del_clients P))" for P
    by (rule always_exec) (use del_clients_inv(1) [where E = "\<lambda>_. False"] in \<open>auto simp: inv_ex_none\<close>)
  show ?thesis unfolding DeleteClientKey_def Let_def
    by (intro always_andThen always_query always_if always_plain always_frame frames del)
qed

lemma single_target_inv: "of_tables P \<Longrightarrow> triple P (singleTargetExists a k i) (\<lambda>_. P)" "of_tables P \<Longrightarrow> triple P (upsertSingleBinding a now c n k i) (\<lambda>_. P)"
  unfolding singleTargetExists_def upsertSingleBinding_def by (intro triples triple_frame frames; assumption)+

lemma UpdateClientKey_inv: "always matrix_inv (UpdateClientKey now sc i)"
  unfolding UpdateClientKey_def Let_def
proof (rule always_RunTx, rule triple_andThen)
  let ?a = "sc_account sc" and ?c = "uc_ID i"
  show "triple matrix_inv (exec (update_client ?a ?c (client_edit now i)))
      (\<lambda>n t. matrix_inv t \<and> (n \<noteq> 0 \<longrightarrow> owner_account clientMatrix t ?c = Some ?a))"
    by (rule triple_exec, rule update_client_inv [where f = "client_edit now i"]) (simp_all add: client_edit_def)
  fix n
  let ?S = "\<lambda>t. matrix_inv t \<and> owner_account clientMatrix t ?c = Some ?a"
  have 1: "triple (\<lambda>t. matrix_inv t \<and> (n \<noteq> 0 \<longrightarrow> owner_account clientMatrix t ?c = Some ?a)) (no_rows ErrClientKeyNotFound n) (\<lambda>_. ?S)"
    by (rule triple_no_rows) simp
  have 2: "triple ?S (case uc_Template i of None \<Rightarrow> give () | Some x \<Rightarrow> linkClientTemplate now ?a ?c x) (\<lambda>_. matrix_inv)"
    using linkClientTemplate_inv by (auto split: option.split intro: triple_give)
  have 3: "triple matrix_inv (if write_binding i then
        andThen (singleTargetExists ?a (uc_TargetType i) (uc_TargetID i)) (\<lambda>exists.
        if \<not> exists then refuse ErrSingleTargetNotFound
        else upsertSingleBinding ?a now ?c (uc_ModelName i) (uc_TargetType i) (uc_TargetID i))
      else give ()) (\<lambda>_. matrix_inv)"
    by (intro triples single_target_inv)
  show "triple (\<lambda>t. matrix_inv t \<and> (n \<noteq> 0 \<longrightarrow> owner_account clientMatrix t ?c = Some ?a))
     (andThen (no_rows ErrClientKeyNotFound n) (\<lambda>_.
      andThen (case uc_Template i of None \<Rightarrow> give () | Some x \<Rightarrow> linkClientTemplate now ?a ?c x) (\<lambda>_.
      if write_binding i then
        andThen (singleTargetExists ?a (uc_TargetType i) (uc_TargetID i)) (\<lambda>exists.
        if \<not> exists then refuse ErrSingleTargetNotFound
        else upsertSingleBinding ?a now ?c (uc_ModelName i) (uc_TargetType i) (uc_TargetID i))
      else give ()))) (\<lambda>_. matrix_inv)"
    by (rule triple_andThen [OF 1], rule triple_andThen [OF 2], rule 3)
qed

lemma CreateClientKey_inv: "always matrix_inv (CreateClientKey now sc i)"
  unfolding CreateClientKey_def Let_def
proof (rule always_RunTx)
  let ?a = "sc_account sc" and ?c = "ci_ID i"
  let ?S = "spare clientMatrix ?c ?a"
  have new: "triple matrix_inv (exec (insert_client ?c (new_client ?a now i))) (\<lambda>_. ?S)"
    by (rule triple_exec) (use insert_client_inv [where r = "new_client ?a now i"] in \<open>fastforce simp: spare_def new_client_def\<close>)
  have link: "triple ?S (if ci_TemplateID i \<noteq> [] then linkClientTemplate now ?a ?c (ci_TemplateID i) else give ()) (\<lambda>_. matrix_inv)"
    using triple_pre [OF linkClientTemplate_inv, of ?S] by (auto simp: spare_def intro: triple_give)
  have bind: "triple ?S (if ci_Type i = ''single''
      then upsertSingleBinding ?a now ?c (ci_SingleModelName i) (ci_SingleTargetType i) (ci_SingleTargetID i) else give ()) (\<lambda>_. ?S)"
    by (intro triple_if single_target_inv of_tables_spare triple_done)
  have rest: "triple ?S (andThen (exec (insert_defaults clientMatrix (all_defaults ?a now False ?c RealKind))) (\<lambda>_.
      andThen (exec (insert_defaults clientMatrix (all_defaults ?a now False ?c VirtualKind))) (\<lambda>_.
      andThen (exec (insert_perms clientMatrix (all_perms ?a now False ?c RealKind))) (\<lambda>_.
      andThen (exec (insert_perms clientMatrix (all_perms ?a now False ?c VirtualKind))) (\<lambda>_.
      if ci_TemplateID i \<noteq> [] then linkClientTemplate now ?a ?c (ci_TemplateID i) else give ()))))) (\<lambda>_. matrix_inv)"
    by (intro triple_then spare_rows link; erule own_rows)
  show "triple matrix_inv
     (andThen (plan_check EnforceClientKeyLimit sc) (\<lambda>_.
      andThen (if ci_Type i = ''single'' then singleTargetExists ?a (ci_SingleTargetType i) (ci_SingleTargetID i) else give True) (\<lambda>exists.
      if \<not> exists then refuse ErrSingleTargetNotFound else
      andThen (exec (insert_client ?c (new_client ?a now i))) (\<lambda>_.
      andThen (if ci_Type i = ''single''
               then upsertSingleBinding ?a now ?c (ci_SingleModelName i) (ci_SingleTargetType i) (ci_SingleTargetID i)
               else give ()) (\<lambda>_.
      andThen (exec (insert_defaults clientMatrix (all_defaults ?a now False ?c RealKind))) (\<lambda>_.
      andThen (exec (insert_defaults clientMatrix (all_defaults ?a now False ?c VirtualKind))) (\<lambda>_.
      andThen (exec (insert_perms clientMatrix (all_perms ?a now False ?c RealKind))) (\<lambda>_.
      andThen (exec (insert_perms clientMatrix (all_perms ?a now False ?c VirtualKind))) (\<lambda>_.
      if ci_TemplateID i \<noteq> [] then linkClientTemplate now ?a ?c (ci_TemplateID i) else give ()))))))))) (\<lambda>_. matrix_inv)"
    by (rule triple_then, rule triple_plan_check, rule triple_then, intro triple_if single_target_inv of_tables_inv triple_done,
        rule triple_if, rule triple_done, rule triple_andThen [OF new], rule triple_then [OF bind], rule rest)
qed

section \<open>Deleting owners\<close>

text \<open>No key of the account is linked to the template any more.\<close>

definition unlinked :: "string \<Rightarrow> (string \<Rightarrow> bool) \<Rightarrow> tenants \<Rightarrow> bool" where
  "unlinked a X t \<longleftrightarrow> matrix_inv t \<and> (\<forall>j x. link_of t j = Some x \<longrightarrow> X x \<longrightarrow> owner_account clientMatrix t j \<noteq> Some a)"

lemma unlinked_free:
  assumes "unlinked a X t" "X x" "owner_account templateMatrix t x = Some a"
  shows "link_of t j \<noteq> Some x"
proof
  assume j: "link_of t j = Some x"
  then have "owner_account templateMatrix t x = owner_account clientMatrix t j"
    using assms(1) unfolding unlinked_def matrix_inv_def links_ok_def by blast
  moreover have "owner_account clientMatrix t j \<noteq> Some a" using assms(1,2) j unfolding unlinked_def by blast
  ultimately show False using assms(3) by metis
qed

lemma unlinked_rows:
  assumes "\<And>q c. P q c \<Longrightarrow> X (fst q) \<and> c_account c = a"
  shows "triple (unlinked a X) (exec (del_perms templateMatrix P)) (\<lambda>_. unlinked a X)"
    "triple (unlinked a X) (exec (del_defaults templateMatrix P)) (\<lambda>_. unlinked a X)"
proof -
  have free: "needless (\<lambda>_. False) templateMatrix t (fst q)"
    if "unlinked a X t" "P q c" "owner_account templateMatrix t (fst q) = Some (c_account c)" for t q c
    using unlinked_free [OF that(1), of "fst q"] assms [OF that(2)] that(3) by auto
  show "triple (unlinked a X) (exec (del_perms templateMatrix P)) (\<lambda>_. unlinked a X)"
  proof (rule triple_exec)
    fix t t' n assume t: "unlinked a X t" and del: "del_perms templateMatrix P t = Some (t', n)"
    have "inv_ex (\<lambda>_. False) t'"
      by (rule delete_needless(2) [OF _ _ del]) (use t free in \<open>auto simp: unlinked_def inv_ex_none\<close>)
    then show "unlinked a X t'" using t del by (auto simp: unlinked_def inv_ex_none del_perms_def simp del: with_perms.simps owner_account.simps)
  qed
  show "triple (unlinked a X) (exec (del_defaults templateMatrix P)) (\<lambda>_. unlinked a X)"
  proof (rule triple_exec)
    fix t t' n assume t: "unlinked a X t" and del: "del_defaults templateMatrix P t = Some (t', n)"
    have "inv_ex (\<lambda>_. False) t'"
      by (rule delete_needless(1) [OF _ _ del]) (use t free in \<open>auto simp: unlinked_def inv_ex_none\<close>)
    then show "unlinked a X t'" using t del by (auto simp: unlinked_def inv_ex_none del_defaults_def simp del: with_defaults.simps owner_account.simps)
  qed
qed

lemma unlinked_delete:
  assumes "\<And>x r. P x r \<Longrightarrow> X x \<and> ct_account r = a"
  shows "triple (unlinked a X) (exec (del_templates P)) (\<lambda>_. matrix_inv)"
proof (rule triple_exec)
  fix t t' n assume t: "unlinked a X t" and del: "del_templates P t = Some (t', n)"
  have "inv_ex (\<lambda>_. False) t'"
  proof (rule del_templates_inv [OF _ del])
    show "inv_ex (\<lambda>_. False) t" using t by (simp add: unlinked_def inv_ex_none)
    fix x r j assume "gm_get (t_templates t) x = Some r" "P x r"
    then show "link_of t j \<noteq> Some x" using unlinked_free [OF t, of x] assms by auto
  qed
  then show "matrix_inv t'" by (simp add: inv_ex_none)
qed

lemma DeleteTemplate_inv: "always matrix_inv (DeleteTemplate now sc i)"
  unfolding DeleteTemplate_def Let_def
proof (rule always_RunTx, rule triple_then, rule triple_done)
  let ?a = "sc_account sc"
  let ?X = "\<lambda>x. x = i"
  fix ids
  have unlink: "triple matrix_inv (exec (\<lambda>t. Some (t\<lparr>t_clients := update_rows (linked ?a i) (\<lambda>c. c\<lparr>ck_template := None, ck_updated := now\<rparr>) (t_clients t)\<rparr>, 1)))
      (\<lambda>_. unlinked ?a ?X)"
  proof (rule triple_exec)
    fix t t' n assume inv: "matrix_inv t"
      and "Some (t\<lparr>t_clients := update_rows (linked ?a i) (\<lambda>c. c\<lparr>ck_template := None, ck_updated := now\<rparr>) (t_clients t)\<rparr>, 1) = Some (t', n)"
    then have t': "t' = t\<lparr>t_clients := update_rows (linked ?a i) (\<lambda>c. c\<lparr>ck_template := None, ck_updated := now\<rparr>) (t_clients t)\<rparr>" by simp
    have "matrix_inv t'"
      using unlink_inv [of "\<lambda>_. False" t "\<lambda>c. c\<lparr>ck_template := None, ck_updated := now\<rparr>"] inv t' by (simp add: inv_ex_none)
    moreover have "owner_account clientMatrix t' j \<noteq> Some ?a" if "link_of t' j = Some i" for j
      using that by (cases "gm_get (t_clients t) j") (auto simp: t' link_of_def linked_def split: if_splits)
    ultimately show "unlinked ?a ?X t'" by (auto simp: unlinked_def)
  qed
  show "triple matrix_inv
     (andThen (exec (\<lambda>t. Some (t\<lparr>t_clients := update_rows (linked ?a i) (\<lambda>c. c\<lparr>ck_template := None, ck_updated := now\<rparr>) (t_clients t)\<rparr>, 1))) (\<lambda>_.
      andThen (exec (del_perms templateMatrix (\<lambda>q c. fst q = i \<and> c_account c = ?a))) (\<lambda>_.
      andThen (exec (del_defaults templateMatrix (\<lambda>q c. fst q = i \<and> c_account c = ?a))) (\<lambda>_.
      andThen (exec (del_templates (\<lambda>j r. j = i \<and> ct_account r = ?a))) (\<lambda>n.
      andThen (no_rows ErrTemplateNotFound n) (\<lambda>_. give ids)))))) (\<lambda>_. matrix_inv)"
    by (rule triple_andThen [OF unlink], rule triple_then, rule unlinked_rows, simp, rule triple_then, rule unlinked_rows, simp,
        rule triple_andThen, rule unlinked_delete, simp, intro triples)
qed

section \<open>Deleting an account\<close>

lemma statement_step: "triple P (exec st) (\<lambda>_. R) \<Longrightarrow> triple P (andThen (exec st) (\<lambda>_. give ())) (\<lambda>_. R)"
  by (erule triple_andThen) (rule triple_done)

lemma account_rows:
  assumes "\<And>q c. P q c \<Longrightarrow> A clientMatrix (fst q) = Some (c_account c) \<Longrightarrow> E (fst q)"
  shows "triple (pending E L A) (exec (del_perms clientMatrix P)) (\<lambda>_. pending E L A)"
    "triple (pending E L A) (exec (del_defaults clientMatrix P)) (\<lambda>_. pending E L A)"
proof -
  have free: "needless E clientMatrix t (fst q)"
    if "pending E L A t" "P q c" "owner_account clientMatrix t (fst q) = Some (c_account c)" for t q c
  proof -
    have "A clientMatrix = owner_account clientMatrix t" using that(1) by (auto simp: pending_def)
    then show ?thesis using assms [OF that(2)] that(3) by simp
  qed
  show "triple (pending E L A) (exec (del_perms clientMatrix P)) (\<lambda>_. pending E L A)"
  proof (rule triple_exec)
    fix t t' n assume t: "pending E L A t" and del: "del_perms clientMatrix P t = Some (t', n)"
    have "inv_ex E t'" by (rule delete_needless(2) [OF _ _ del]) (use t free in \<open>auto simp: pending_def\<close>)
    then show "pending E L A t'" using t del by (auto simp: pending_def del_perms_def simp del: with_perms.simps owner_account.simps)
  qed
  show "triple (pending E L A) (exec (del_defaults clientMatrix P)) (\<lambda>_. pending E L A)"
  proof (rule triple_exec)
    fix t t' n assume t: "pending E L A t" and del: "del_defaults clientMatrix P t = Some (t', n)"
    have "inv_ex E t'" by (rule delete_needless(1) [OF _ _ del]) (use t free in \<open>auto simp: pending_def\<close>)
    then show "pending E L A t'" using t del by (auto simp: pending_def del_defaults_def simp del: with_defaults.simps owner_account.simps)
  qed
qed

lemma account_keys:
  "triple (pending (\<lambda>i. A clientMatrix i = Some a) L A) (exec (del_clients (\<lambda>_ c. ck_account c = a))) (\<lambda>_. unlinked a (\<lambda>_. True))"
proof (rule triple_exec)
  fix t t' n assume t: "pending (\<lambda>i. A clientMatrix i = Some a) L A t" and del: "del_clients (\<lambda>_ c. ck_account c = a) t = Some (t', n)"
  have A: "A clientMatrix = owner_account clientMatrix t" using t by (auto simp: pending_def)
  have inv: "inv_ex (\<lambda>i. A clientMatrix i = Some a) t" using t by (simp add: pending_def)
  note get = del_clients_inv(2) [OF inv del]
  have gone: "owner_account clientMatrix t' j \<noteq> Some a" for j using get [of j] by (auto split: option.splits if_splits)
  have stay: "A clientMatrix j \<noteq> Some a" if "link_of t' j = Some x" for j x
    using that get [of j] by (auto simp: A link_of_def split: option.splits if_splits)
  have "matrix_inv t'" using del_clients_inv(1) [OF inv del] stay unfolding inv_ex_def matrix_inv_def by blast
  then show "unlinked a (\<lambda>_. True) t'" using gone by (simp add: unlinked_def)
qed

lemma DeleteAccountResources_inv: "always matrix_inv (DeleteAccountResources sc)"
proof -
  let ?a = "sc_account sc"
  have later: "triple matrix_inv (each (\<lambda>st. andThen (exec st) (\<lambda>_. give ()))
      [(\<lambda>t. Some (t\<lparr>t_tokens := delete_rows (\<lambda>_ v. v = ?a) (t_tokens t)\<rparr>, 1)),
       (\<lambda>t. Some (t\<lparr>t_oauth := delete_rows (\<lambda>_ r. oa_account r = ?a) (t_oauth t)\<rparr>, 1)),
       del_targets (\<lambda>_ r. vt_account r = ?a), del_virtual (\<lambda>_ v. vm_account v = ?a), del_groups (\<lambda>_ v. vg_account v = ?a),
       del_models (\<lambda>_ m. pm_account m = ?a), del_providers (\<lambda>_ p. pv_account p = ?a), del_namespaces (\<lambda>q _. fst q = ?a),
       (\<lambda>t. Some (t\<lparr>t_settings := delete_rows (\<lambda>q _. fst q = ?a) (t_settings t)\<rparr>, 1))]) (\<lambda>_. matrix_inv)"
    unfolding each.simps by (intro triples triple_frame frames)
  show ?thesis unfolding DeleteAccountResources_def
  proof (rule always_RunTx, rule triple_ex)
    fix L A
    let ?P = "pending (\<lambda>i. A clientMatrix i = Some ?a) L A"
    have 1: "triple ?P (exec (del_bindings (\<lambda>_ b. sb_account b = ?a))) (\<lambda>_. ?P)"
      by (rule triple_frame) (intro frames of_tables_pending)+
    have 2: "triple ?P (exec (del_perms clientMatrix (\<lambda>_ c. c_account c = ?a))) (\<lambda>_. ?P)"
      "triple ?P (exec (del_defaults clientMatrix (\<lambda>_ c. c_account c = ?a))) (\<lambda>_. ?P)"
      by (rule account_rows; simp)+
    have 3: "triple (unlinked ?a (\<lambda>_. True)) (exec (del_perms templateMatrix (\<lambda>_ c. c_account c = ?a))) (\<lambda>_. unlinked ?a (\<lambda>_. True))"
      "triple (unlinked ?a (\<lambda>_. True)) (exec (del_defaults templateMatrix (\<lambda>_ c. c_account c = ?a))) (\<lambda>_. unlinked ?a (\<lambda>_. True))"
      by (rule unlinked_rows; simp)+
    have 4: "triple (unlinked ?a (\<lambda>_. True)) (exec (del_templates (\<lambda>_ c. ct_account c = ?a))) (\<lambda>_. matrix_inv)"
      by (rule unlinked_delete) simp
    note steps = statement_step [OF 1] statement_step [OF 2(1)] statement_step [OF 2(2)] statement_step [OF account_keys]
      statement_step [OF 3(1)] statement_step [OF 3(2)] statement_step [OF 4]
    show "triple (pending (\<lambda>_. False) L A) (each (\<lambda>st. andThen (exec st) (\<lambda>_. give ())) (account_statements ?a)) (\<lambda>_. matrix_inv)"
      unfolding account_statements_def each.simps(2) [of _ "del_bindings _"] each.simps(2) [of _ "del_perms _ _"] each.simps(2) [of _ "del_defaults _ _"]
        each.simps(2) [of _ "del_clients _"] each.simps(2) [of _ "del_templates _"]
      by (rule triple_weaken [where E' = "\<lambda>i. A clientMatrix i = Some ?a"], rule triple_andThen, rule steps(1), rule triple_andThen, rule steps(2),
          rule triple_andThen, rule steps(3), rule triple_andThen, rule steps(4), rule triple_andThen, rule steps(5),
          rule triple_andThen, rule steps(6), rule triple_andThen, rule steps(7), rule later) simp
  qed
qed

end
