(* ===== verification/StoreHistory.thy ===== *)
theory StoreHistory
  imports KeyLaws
begin

text \<open>
  Histories of the store: any sequence of the operations of \<open>internal/store\<close> on any accounts, each run with
  any arguments and any statements failing, among changes to the tables they do not touch.
\<close>

inductive store_step :: "tenants \<Rightarrow> tenants \<Rightarrow> bool" where
  Provider_created: "CreateProvider g nonce now sc cp flt (n, t) = ((n', t'), r) \<Longrightarrow> store_step t t'"
| Provider_updated: "UpdateProvider now sc up flt (n, t) = ((n', t'), r) \<Longrightarrow> store_step t t'"
| Credential_replaced: "ReplaceProviderCredential g nonce now sc i credential flt (n, t) = ((n', t'), q) \<Longrightarrow> store_step t t'"
| Refresh_failed: "SetProviderRefreshError now sc i message flt (n, t) = ((n', t'), r) \<Longrightarrow> store_step t t'"
| Provider_deleted: "DeleteProvider now sc i flt (n, t) = ((n', t'), r) \<Longrightarrow> store_step t t'"
| Account_deleted: "DeleteAccountResources sc flt (n, t) = ((n', t'), r) \<Longrightarrow> store_step t t'"
| Catalogue_applied: "ApplyCatalogue ids now clock sc i models flt (n, t) = ((n', t'), r) \<Longrightarrow> store_step t t'"
| Manual_inserted: "InsertManualModel now sc p i m flt (n, t) = ((n', t'), r) \<Longrightarrow> store_step t t'"
| Manual_deleted: "DeleteManualModel sc i flt (n, t) = ((n', t'), r) \<Longrightarrow> store_step t t'"
| Group_created: "CreateVirtualGroup now sc i name flt (n, t) = ((n', t'), r) \<Longrightarrow> store_step t t'"
| Group_updated: "UpdateVirtualGroup now sc i name flt (n, t) = ((n', t'), r) \<Longrightarrow> store_step t t'"
| Group_deleted: "DeleteVirtualGroup sc i flt (n, t) = ((n', t'), r) \<Longrightarrow> store_step t t'"
| Virtual_created: "CreateVirtualModel ids now sc cv flt (n, t) = ((n', t'), r) \<Longrightarrow> store_step t t'"
| Virtual_updated: "UpdateVirtualModel ids now sc uv flt (n, t) = ((n', t'), r) \<Longrightarrow> store_step t t'"
| Virtual_deleted: "DeleteVirtualModel sc i flt (n, t) = ((n', t'), r) \<Longrightarrow> store_step t t'"
| Template_created: "CreateTemplate now sc tp flt (n, t) = ((n', t'), r) \<Longrightarrow> store_step t t'"
| Template_updated: "UpdateTemplate now sc i x y flt (n, t) = ((n', t'), r) \<Longrightarrow> store_step t t'"
| Template_deleted: "DeleteTemplate now sc i flt (n, t) = ((n', t'), l) \<Longrightarrow> store_step t t'"
| Template_permissions: "UpdateTemplatePermissions now sc i ds ps flt (n, t) = ((n', t'), l) \<Longrightarrow> store_step t t'"
| Key_created: "CreateClientKey now sc ci flt (n, t) = ((n', t'), r) \<Longrightarrow> store_step t t'"
| Key_updated: "UpdateClientKey now sc uc flt (n, t) = ((n', t'), r) \<Longrightarrow> store_step t t'"
| Key_rotated: "RotateClientKey now sc i selector hash fingerprint flt (n, t) = ((n', t'), q) \<Longrightarrow> store_step t t'"
| Key_deleted: "DeleteClientKey now sc i flt (n, t) = ((n', t'), q) \<Longrightarrow> store_step t t'"
| Key_permissions: "UpdatePermissions now sc i ds ps flt (n, t) = ((n', t'), r) \<Longrightarrow> store_step t t'"
| Elsewhere: "matrix_view t' = matrix_view t \<Longrightarrow> store_step t t'"

text \<open>From a database without keys and templates.\<close>

inductive reachable :: "tenants \<Rightarrow> bool" where
  Fresh: "matrix_view t = ([], [], [], [], [], []) \<Longrightarrow> reachable t"
| Step: "reachable t \<Longrightarrow> store_step t t' \<Longrightarrow> reachable t'"

lemmas operations_inv =
  CreateProvider_inv UpdateProvider_inv ReplaceProviderCredential_inv SetProviderRefreshError_inv DeleteProvider_inv
  DeleteAccountResources_inv ApplyCatalogue_inv InsertManualModel_inv DeleteManualModel_inv CreateVirtualGroup_inv
  UpdateVirtualGroup_inv DeleteVirtualGroup_inv CreateVirtualModel_inv UpdateVirtualModel_inv DeleteVirtualModel_inv
  CreateTemplate_inv UpdateTemplate_inv DeleteTemplate_inv UpdateTemplatePermissions_inv CreateClientKey_inv
  UpdateClientKey_inv RotateClientKey_inv DeleteClientKey_inv UpdatePermissions_inv

lemma always_run: "always P m \<Longrightarrow> m flt (n, t) = ((n', t'), r) \<Longrightarrow> P t \<Longrightarrow> P t'"
  unfolding always_def by blast

lemma store_step_inv: "store_step t t' \<Longrightarrow> matrix_inv t \<Longrightarrow> matrix_inv t'"
  by (erule store_step.cases) (blast intro: always_run operations_inv matrix_inv_view)+

lemma fresh_inv: "matrix_view t = ([], [], [], [], [], []) \<Longrightarrow> matrix_inv t"
proof -
  assume t: "matrix_view t = ([], [], [], [], [], [])"
  have "defaults_of m t = []" "perms_of m t = []" for m using t by (cases m; simp add: matrix_view_def)+
  then show ?thesis using t
    by (simp add: matrix_inv_def matrix_wf_def cells_ok_def good_cells_def links_ok_def link_of_def matrix_view_def)
qed

lemma reachable_inv: "reachable t \<Longrightarrow> matrix_inv t"
  by (induction rule: reachable.induct) (auto intro: fresh_inv store_step_inv)

end
