(* ===== verification/Calendar.thy ===== *)
theory Calendar
  imports GoValue
begin

text \<open>
  The calendar months of \<open>internal/store/usage_counters.go\<close>: the usage period of an instant
  (\<open>UsagePeriod\<close>) and the start of the next one (\<open>NextPeriodStart\<close>), on the proleptic Gregorian
  calendar of Go's \<open>time\<close> package, for instants from year 1 on. A year or a month is found by going
  forward from a lower bound.
\<close>

section \<open>Years and months\<close>

definition leap :: "int \<Rightarrow> bool" where
  "leap y \<longleftrightarrow> y mod 4 = 0 \<and> (y mod 100 \<noteq> 0 \<or> y mod 400 = 0)"

text \<open>The days from 1 January of year 1 to 1 January of a year.\<close>

definition year_start :: "int \<Rightarrow> int" where
  "year_start y = 365 * (y - 1) + (y - 1) div 4 - (y - 1) div 100 + (y - 1) div 400"

definition month_days :: "int \<Rightarrow> int \<Rightarrow> int" where
  "month_days y m = (if m = 2 then (if leap y then 29 else 28)
     else if m = 4 \<or> m = 6 \<or> m = 9 \<or> m = 11 then 30 else 31)"

lemma div_step: "0 < k \<Longrightarrow> (z + 1) div k = z div k + (if (z + 1) mod k = 0 then 1 else 0)" for z k :: int
proof -
  assume k: "0 < k"
  define q r where "q = z div k" and "r = z mod k"
  have z: "z = k * q + r" and r: "0 \<le> r" "r < k" using k by (simp_all add: q_def r_def)
  show ?thesis
  proof (cases "r + 1 = k")
    case True
    then have "z + 1 = k * (q + 1)" using z by (simp add: algebra_simps)
    then show ?thesis using k by (simp add: q_def)
  next
    case False
    then have m: "(z + 1) mod k = r + 1" "(z + 1) div k = q"
      using z r by (simp_all add: add.assoc)
    then show ?thesis using r by (simp add: q_def)
  qed
qed

lemma leap_sum:
  fixes z :: int
  assumes "A = a + (if p then 1 else 0)" "B = b + (if q then 1 else 0)" "C = c + (if r then 1 else 0)"
    "r \<Longrightarrow> q" "q \<Longrightarrow> p"
  shows "365 * (z + 1) + A - B + C = 365 * z + a - b + c + (if p \<and> (\<not> q \<or> r) then 366 else 365)"
proof (cases p)
  case True
  then show ?thesis using assms by (cases q; cases r) simp_all
next
  case False
  with assms(4,5) have "\<not> q" "\<not> r" by blast+
  with False assms(1-3) show ?thesis by simp
qed

lemma year_start_step: "year_start (y + 1) = year_start y + (if leap y then 366 else 365)"
proof -
  define z where "z = y - 1"
  have y: "y = z + 1" by (simp add: z_def)
  have m: "(z + 1) mod 400 = 0 \<Longrightarrow> (z + 1) mod 100 = 0" "(z + 1) mod 100 = 0 \<Longrightarrow> (z + 1) mod 4 = 0"
    using dvd_trans [of 100 400 "z + 1"] dvd_trans [of 4 100 "z + 1"] by (simp_all only: dvd_eq_mod_eq_0 [symmetric]) simp_all
  have "year_start (z + 1 + 1) = 365 * (z + 1) + (z + 1) div 4 - (z + 1) div 100 + (z + 1) div 400"
    "year_start (z + 1) = 365 * z + z div 4 - z div 100 + z div 400"
    by (simp_all only: year_start_def add_diff_cancel_right')
  then show ?thesis
    using leap_sum [OF div_step [of 4 z] div_step [of 100 z] div_step [of 400 z] m(1) m(2), of z]
    unfolding leap_def y by (simp only: zero_less_numeral)
qed

lemma year_start_1 [simp]: "year_start 1 = 0"
  by (simp add: year_start_def)

lemma year_start_lower: "0 \<le> d \<Longrightarrow> year_start (d div 366 + 1) \<le> d"
proof -
  assume "0 \<le> d"
  define z where "z = d div 366"
  have z: "0 \<le> z" "366 * z \<le> d" using \<open>0 \<le> d\<close> by (simp_all add: z_def pos_imp_zdiv_nonneg_iff)
  have "z div 4 \<le> z" "z div 400 \<le> z div 100" using zdiv_mono2 [OF z(1), of 1 4] zdiv_mono2 [OF z(1), of 100 400] by simp_all
  then show ?thesis using z unfolding year_start_def z_def [symmetric] by simp
qed

function year_from :: "int \<Rightarrow> int \<Rightarrow> int" where
  "year_from y d = (if d < year_start (y + 1) then y else year_from (y + 1) d)"
  by pat_completeness auto
termination
  by (relation "measure (\<lambda>(y, d). nat (d + 1 - year_start y))") (auto simp: year_start_step split: if_splits)

declare year_from.simps [simp del]

definition year_of_day :: "int \<Rightarrow> int" where
  "year_of_day d = year_from (d div 366 + 1) d"

lemma year_from_iff:
  "year_start y \<le> d \<Longrightarrow> year_start (year_from y d) \<le> d \<and> d < year_start (year_from y d + 1) \<and> y \<le> year_from y d"
proof (induction y d rule: year_from.induct)
  case (1 y d)
  then show ?case by (subst (1 2 3) year_from.simps) (fastforce simp: not_less)
qed

lemma year_of_day: "0 \<le> d \<Longrightarrow> year_start (year_of_day d) \<le> d \<and> d < year_start (year_of_day d + 1)"
  unfolding year_of_day_def using year_from_iff [OF year_start_lower] by blast

text \<open>The days before a month, and the month of a day of the year.\<close>

fun month_start :: "int \<Rightarrow> nat \<Rightarrow> int" where
  "month_start y 0 = 0"
| "month_start y (Suc m) = (if m = 0 then 0 else month_start y m + month_days y (int m))"

fun month_from :: "int \<Rightarrow> nat list \<Rightarrow> int \<Rightarrow> nat" where
  "month_from y [] d = 12"
| "month_from y (m # ms) d = (if d < month_start y (Suc m) then m else month_from y ms d)"

definition month_of_day :: "int \<Rightarrow> int \<Rightarrow> nat" where
  "month_of_day y d = month_from y [1..<12] d"

section \<open>Periods\<close>

definition ns_per_day :: int where
  "ns_per_day = 86400000000000"

definition year_of :: "time \<Rightarrow> int" where
  "year_of t = year_of_day (t div ns_per_day)"

definition month_of :: "time \<Rightarrow> nat" where
  "month_of t = month_of_day (year_of t) (t div ns_per_day - year_start (year_of t))"

text \<open>\<open>time.Date(y, m, 1, 0, 0, 0, 0, time.UTC)\<close>; a month 13 is the first of the next year.\<close>

definition month_instant :: "int \<Rightarrow> nat \<Rightarrow> time" where
  "month_instant y m =
     (if m \<le> 12 then (year_start y + month_start y m) * ns_per_day else year_start (y + 1) * ns_per_day)"

definition pad :: "nat \<Rightarrow> string \<Rightarrow> string" where
  "pad n s = replicate (n - length s) (CHR ''0'') @ s"

definition UsagePeriod :: "time \<Rightarrow> string" where
  "UsagePeriod t = pad 4 (int_digits (year_of t)) @ ''-'' @ pad 2 (int_digits (int (month_of t)))"

definition NextPeriodStart :: "time \<Rightarrow> time" where
  "NextPeriodStart t = month_instant (year_of t) (Suc (month_of t))"

section \<open>A period is a month\<close>

lemma month_days_pos: "0 < month_days y m"
  by (simp add: month_days_def)

lemma month_start_mono: "1 \<le> m \<Longrightarrow> month_start y m < month_start y (Suc m)"
  using month_days_pos [of y "int m"] by simp

lemma month_start_le: "1 \<le> m \<Longrightarrow> m \<le> n \<Longrightarrow> month_start y m \<le> month_start y n"
proof (induction n)
  case (Suc n)
  show ?case
  proof (cases "m = Suc n")
    case False
    with Suc have "month_start y m \<le> month_start y n" "1 \<le> n" by auto
    then show ?thesis using month_start_mono [of n y] by linarith
  qed simp
qed simp

lemma month_start_13: "month_start y 13 = (if leap y then 366 else 365)"
  by (simp add: eval_nat_numeral month_days_def)

lemma month_from_iff:
  assumes "month_start y (hd (ms @ [12])) \<le> d" "d < month_start y 13" "ms @ [12] = [k..<13]" "1 \<le> k"
  shows "k \<le> month_from y ms d \<and> month_from y ms d \<le> 12 \<and>
     month_start y (month_from y ms d) \<le> d \<and> d < month_start y (Suc (month_from y ms d))"
  using assms
proof (induction ms arbitrary: k)
  case Nil
  then have "[k..<13] = [12]" by simp
  then have "k = 12" by (auto simp: upt_eq_Cons_conv)
  with Nil show ?case by (simp add: eval_nat_numeral del: month_start.simps)
next
  case (Cons m ms)
  from Cons.prems(3) have m: "m = k" "ms @ [12] = [Suc k..<13]" "k < 13"
    by (auto simp: eq_commute [of "_ # _" "upt _ _"] upt_eq_Cons_conv)
  show ?case
  proof (cases "d < month_start y (Suc m)")
    case True
    have "ms \<noteq> [] \<or> ms = []" by blast
    have "k \<le> 12" using m(3) by simp
    with True Cons.prems(1) m(1) show ?thesis by (simp del: month_start.simps)
  next
    case False
    have h: "hd (ms @ [12]) = Suc k"
    proof -
      have "[Suc k..<13] \<noteq> []" using m(2) by (metis Nil_is_append_conv not_Cons_self2)
      then show ?thesis using m(2) by (metis hd_upt upt_eq_Nil_conv not_le)
    qed
    have "Suc k \<le> month_from y ms d \<and> month_from y ms d \<le> 12 \<and>
      month_start y (month_from y ms d) \<le> d \<and> d < month_start y (Suc (month_from y ms d))"
      using False m h Cons.prems by (intro Cons.IH) (auto simp del: month_start.simps)
    with False show ?thesis by (simp del: month_start.simps)
  qed
qed

lemma month_of_day:
  assumes "0 \<le> d" "d < (if leap y then 366 else 365)"
  shows "1 \<le> month_of_day y d \<and> month_of_day y d \<le> 12 \<and>
     month_start y (month_of_day y d) \<le> d \<and> d < month_start y (Suc (month_of_day y d))"
proof -
  have u: "[1..<12] @ [12::nat] = [1..<13]" by (simp add: upt_rec)
  have h: "hd ([1..<12] @ [12::nat]) = 1" by (simp add: upt_rec)
  have s: "month_start y 1 \<le> d" using assms(1) by simp
  show ?thesis unfolding month_of_day_def
    using month_from_iff [of y "[1..<12]" d 1] assms u h s by (simp only: month_start_13)
qed

lemma period_of:
  assumes "0 \<le> t"
  shows "1 \<le> month_of t \<and> month_of t \<le> 12 \<and>
     month_instant (year_of t) (month_of t) \<le> t \<and> t < NextPeriodStart t"
proof -
  define d where "d = t div ns_per_day"
  have d: "0 \<le> d" "d * ns_per_day \<le> t" "t < (d + 1) * ns_per_day"
    using assms by (simp_all add: d_def ns_per_day_def pos_imp_zdiv_nonneg_iff)
  let ?y = "year_of t" and ?m = "month_of t"
  have y: "year_start ?y \<le> d" "d < year_start (?y + 1)"
    using year_of_day [OF d(1)] by (simp_all add: year_of_def d_def)
  have "1 \<le> ?m \<and> ?m \<le> 12 \<and> month_start ?y ?m \<le> d - year_start ?y \<and> d - year_start ?y < month_start ?y (Suc ?m)"
    unfolding month_of_def d_def [symmetric] using y by (intro month_of_day) (simp_all add: year_start_step)
  then have m: "1 \<le> ?m" "?m \<le> 12" "year_start ?y + month_start ?y ?m \<le> d" "d + 1 \<le> year_start ?y + month_start ?y (Suc ?m)"
    by (simp_all del: month_start.simps)
  have "month_instant ?y ?m \<le> d * ns_per_day"
    using m(2,3) by (simp add: month_instant_def ns_per_day_def)
  moreover have "(d + 1) * ns_per_day \<le> NextPeriodStart t"
  proof (cases "?m = 12")
    case True
    then show ?thesis using y(2) by (simp add: NextPeriodStart_def month_instant_def ns_per_day_def)
  next
    case False
    with m(2) have "Suc ?m \<le> 12" by simp
    then show ?thesis using m(4) by (simp add: NextPeriodStart_def month_instant_def ns_per_day_def del: month_start.simps)
  qed
  ultimately show ?thesis using m d by linarith
qed

text \<open>Two instants of one month, found from the bounds of the month.\<close>

lemma year_start_mono: "y \<le> z \<Longrightarrow> year_start y \<le> year_start z"
proof (induction "nat (z - y)" arbitrary: z)
  case (Suc n)
  then have "n = nat (z - 1 - y)" "y \<le> z - 1" by linarith+
  from Suc.hyps(1) [OF this] show ?case using year_start_step [of "z - 1"] by (simp split: if_splits)
qed simp

lemma same_year:
  assumes "year_start y \<le> d" "d < year_start (y + 1)" "year_start z \<le> d" "d < year_start (z + 1)"
  shows "y = z"
  using assms year_start_mono [of "y + 1" z] year_start_mono [of "z + 1" y] by linarith

lemma same_month:
  assumes "1 \<le> m" "1 \<le> n" "month_start y m \<le> d" "d < month_start y (Suc m)"
    "month_start y n \<le> d" "d < month_start y (Suc n)"
  shows "m = n"
  using assms month_start_le [of "Suc m" n y] month_start_le [of "Suc n" m y] by linarith

lemma month_within:
  assumes "0 \<le> u" "1 \<le> m" "m \<le> 12" "month_instant y m \<le> u" "u < month_instant y (Suc m)"
  shows "year_of u = y \<and> month_of u = m"
proof -
  define d where "d = u div ns_per_day"
  have d: "0 \<le> d" "d * ns_per_day \<le> u" "u < (d + 1) * ns_per_day"
    using assms by (simp_all add: d_def ns_per_day_def pos_imp_zdiv_nonneg_iff)
  have lo: "year_start y + month_start y m \<le> d"
    using assms(3,4) d(3) by (simp add: month_instant_def ns_per_day_def)
  have s0: "0 \<le> month_start y m" using month_start_le [of 1 m y] assms(2) by simp
  have s13: "month_start y (Suc m) \<le> month_start y 13" using assms(3) by (intro month_start_le) simp_all
  have hi: "d < year_start y + month_start y (Suc m)"
  proof (cases "m = 12")
    case True
    then have "d < year_start (y + 1)" using assms(5) d(2) by (simp add: month_instant_def ns_per_day_def)
    moreover have "month_start y (Suc m) = (if leap y then 366 else 365)"
      using True month_start_13 [of y] by (simp add: eval_nat_numeral del: month_start.simps)
    ultimately show ?thesis using year_start_step [of y] by simp
  next
    case False
    with assms(3) have "Suc m \<le> 12" by simp
    then show ?thesis using assms(5) d(2) by (simp add: month_instant_def ns_per_day_def del: month_start.simps)
  qed
  have "d < year_start (y + 1)" using hi s13 month_start_13 [of y] year_start_step [of y] by linarith
  then have y: "year_of u = y"
    using year_of_day [OF d(1)] lo s0 same_year [of "year_of_day d" d y] by (simp add: year_of_def d_def)
  have r: "0 \<le> d - year_start y" "d - year_start y < (if leap y then 366 else 365)"
    using lo s0 hi s13 month_start_13 [of y] by linarith+
  have "month_of u = month_of_day y (d - year_start y)" by (simp add: month_of_def y d_def)
  moreover have "month_of_day y (d - year_start y) = m"
    using month_of_day [OF r] lo hi assms(2) by (intro same_month [of _ m y "d - year_start y"]) auto
  ultimately show ?thesis using y by simp
qed

lemma period_constant:
  assumes "0 \<le> t" "t \<le> u" "u < NextPeriodStart t"
  shows "UsagePeriod u = UsagePeriod t"
proof -
  have "year_of u = year_of t \<and> month_of u = month_of t"
    using period_of [OF assms(1)] assms by (intro month_within) (auto simp: NextPeriodStart_def)
  then show ?thesis by (simp add: UsagePeriod_def)
qed

end
