(* ===== verification/Admission.thy ===== *)
theory Admission
  imports Inflight Plans Calendar
begin

text \<open>
  \<open>beginClientRequest\<close> of \<open>internal/server/client.go\<close>: before any upstream work it takes a
  concurrency slot of the account's plan (the tracker of theory \<open>Inflight\<close>) and then a
  monthly slot (the counter of theory \<open>Plans\<close>). The month is that of theory \<open>Calendar\<close>; the faults of each database
  operation are inputs, and \<open>later\<close> is the second clock reading of the monthly rejection.
\<close>

section \<open>The handler\<close>

record server =
  sv_tracker :: inflightTracker
  sv_db :: db
  sv_emitted :: "emission list"

record reply =
  r_status :: int
  r_type :: string
  r_code :: string
  r_retryAfter :: int

definition quotaUnavailable :: reply where
  "quotaUnavailable = \<lparr>r_status = 503, r_type = ''service_unavailable'', r_code = ''quota_unavailable'',
                       r_retryAfter = 1\<rparr>"

definition stream_limit_reply :: reply where
  "stream_limit_reply = \<lparr>r_status = 429, r_type = ''rate_limited'', r_code = ''stream_limit_exceeded'',
                         r_retryAfter = 1\<rparr>"

definition retry_seconds :: "duration \<Rightarrow> int" where
  "retry_seconds d = (let s = (if 0 \<le> d then d div 1000000000 else - ((- d) div 1000000000))
                      in if s < 1 then 1 else s)"

definition monthly_limit_reply :: "int \<Rightarrow> reply" where
  "monthly_limit_reply s = \<lparr>r_status = 429, r_type = ''rate_limited'', r_code = ''monthly_limit_exceeded'',
                            r_retryAfter = s\<rparr>"

record request =
  rq_hosted :: bool
  rq_enforcing :: bool
  rq_account :: string
  rq_client :: string
  rq_route :: string
  rq_model :: string
  rq_now :: time
  rq_later :: time
  rq_planFaults :: faults
  rq_usageFaults :: faults

definition sv_acquire :: "server \<Rightarrow> int \<Rightarrow> request \<Rightarrow> server \<times> bool" where
  "sv_acquire sv limit q =
     (case tryAcquire (sv_tracker sv) (rq_account q) limit (rq_client q) (rq_route q) (rq_model q) of
        (t, es, got) \<Rightarrow> (sv\<lparr>sv_tracker := t, sv_emitted := sv_emitted sv @ es\<rparr>, got))"

definition sv_release :: "server \<Rightarrow> request \<Rightarrow> server" where
  "sv_release sv q =
     (case clientEnd (sv_tracker sv) (rq_account q) (rq_client q) (rq_route q) False of
        (t, es) \<Rightarrow> sv\<lparr>sv_tracker := t, sv_emitted := sv_emitted sv @ es\<rparr>)"

definition beginClientRequest ::
  "server \<Rightarrow> request \<Rightarrow> server \<times> reply option" where
  "beginClientRequest sv q =
     (if \<not> rq_hosted q \<or> \<not> rq_enforcing q then (fst (sv_acquire sv Unlimited q), None)
      else case EntitlementsForAccount (rq_planFaults q) (sv_db sv) (rq_account q) of
          Inl e \<Rightarrow> (sv, Some quotaUnavailable)
        | Inr plan \<Rightarrow>
            (let (sv1, got) = sv_acquire sv (max_concurrent_streams plan) q in
             if \<not> got then (sv1, Some stream_limit_reply)
             else if monthly_requests plan \<noteq> Unlimited then
               (case ReserveUsageCounter (rq_usageFaults q) (sv_db sv1) (rq_account q)
                       (UsagePeriod (rq_now q)) (monthly_requests plan) of
                  (d, Inl e) \<Rightarrow> (sv_release (sv1\<lparr>sv_db := d\<rparr>) q, Some quotaUnavailable)
                | (d, Inr False) \<Rightarrow>
                    (sv_release (sv1\<lparr>sv_db := d\<rparr>) q,
                     Some (monthly_limit_reply
                             (retry_seconds (time_sub (NextPeriodStart (rq_now q)) (rq_later q)))))
                | (d, Inr True) \<Rightarrow> (sv1\<lparr>sv_db := d\<rparr>, None))
             else (sv1\<lparr>sv_db := fst (IncrementUsageCounter (rq_usageFaults q) (sv_db sv1)
                                  (rq_account q) (UsagePeriod (rq_now q)))\<rparr>, None)))"

section \<open>Acquiring and releasing through the pool\<close>

definition request_ids_ok :: "request \<Rightarrow> bool" where
  "request_ids_ok q \<longleftrightarrow> nul_free (rq_account q) \<and> nul_free (rq_client q) \<and> rq_client q \<noteq> []"

definition key_of :: "request \<Rightarrow> string \<times> string \<times> string" where
  "key_of q = (rq_client q, rq_route q, rq_model q)"

definition live_count :: "server \<Rightarrow> string \<Rightarrow> int" where
  "live_count sv a = activeClientRequestsLocked (sv_tracker sv) a"

definition used :: "server \<Rightarrow> string \<Rightarrow> string \<Rightarrow> int" where
  "used sv a per = usage_of (sv_db sv) (a, per)"

lemma key_good [simp]: "slot_good (rq_account q) (key_of q) \<longleftrightarrow> request_ids_ok q"
  by (simp add: slot_good_def key_of_def request_ids_ok_def)

lemma sv_acquire_slot:
  "sv_acquire sv l q = (sv', got) \<Longrightarrow>
   sv_db sv' = sv_db sv \<and>
   slot_acquire (sv_tracker sv) (rq_account q) l (key_of q) = (if got then Some (sv_tracker sv') else None) \<and>
   (\<not> got \<longrightarrow> sv' = sv)"
  by (auto simp: sv_acquire_def slot_acquire_def key_of_def tryAcquire_def split: if_splits)

lemma sv_release_slot:
  "sv_db (sv_release sv q) = sv_db sv \<and>
   sv_tracker (sv_release sv q) = slot_release (sv_tracker sv) (rq_account q) (key_of q)"
  by (simp add: sv_release_def slot_release_def key_of_def split_def)

lemma slot_good_account: "nul_free a \<Longrightarrow> slot_good a (''x'', r, m)"
  by (simp add: slot_good_def nul_free_def NUL_def)

lemma acquire_release_live:
  assumes "inflight_inv (sv_tracker sv)" "request_ids_ok q" "nul_free b" "sv_acquire sv l q = (sv', True)"
  shows "live_count (sv_release (sv'\<lparr>sv_db := d\<rparr>) q) b = live_count sv b"
  using sv_acquire_slot [OF assms(4)] sv_release_slot [of "sv'\<lparr>sv_db := d\<rparr>" q]
    slots.acquire_release_total [of "sv_tracker sv" "rq_account q" "key_of q" b "(''x'', [], [])"] assms
  by (auto simp: live_count_def slot_good_account)

lemma acquired_live:
  assumes "inflight_inv (sv_tracker sv)" "request_ids_ok q" "nul_free b" "sv_acquire sv l q = (sv', True)"
  shows "live_count sv' b = live_count sv b + (if b = rq_account q then 1 else 0)"
  using sv_acquire_slot [OF assms(4)] assms
    slots.acquire_total [of "sv_tracker sv" "rq_account q" "key_of q" b "(''x'', [], [])"]
  by (auto simp: live_count_def slot_good_account)

lemma acquired_bound:
  assumes "inflight_inv (sv_tracker sv)" "request_ids_ok q" "sv_acquire sv l q = (sv', True)" "0 \<le> l"
  shows "live_count sv' (rq_account q) \<le> l"
  using sv_acquire_slot [OF assms(3)] assms
    slots.acquire_bound [of "sv_tracker sv" "rq_account q" "key_of q" l "sv_tracker sv'"]
  by (simp add: live_count_def)

lemma sv_acquire_inv:
  assumes "inflight_inv (sv_tracker sv)" "request_ids_ok q"
  shows "inflight_inv (sv_tracker (fst (sv_acquire sv l q))) \<and> sv_db (fst (sv_acquire sv l q)) = sv_db sv"
proof -
  obtain sv' got where a: "sv_acquire sv l q = (sv', got)" by (cases "sv_acquire sv l q")
  show ?thesis
    using sv_acquire_slot [OF a] assms a
      slots.acquire_ok [of "sv_tracker sv" "rq_account q" "key_of q" l "sv_tracker sv'"]
    by (cases got) auto
qed

lemma sv_release_inv:
  "inflight_inv (sv_tracker sv) \<Longrightarrow> request_ids_ok q \<Longrightarrow> inflight_inv (sv_tracker (sv_release sv q))"
  using sv_release_slot [of sv q] slots.release_ok [of "sv_tracker sv" "rq_account q" "key_of q"] by simp

lemma beginClientRequest_inv:
  assumes "inflight_inv (sv_tracker sv)" "plans_inv (sv_db sv)" "request_ids_ok q"
  shows "inflight_inv (sv_tracker (fst (beginClientRequest sv q))) \<and>
         plans_inv (sv_db (fst (beginClientRequest sv q)))"
proof -
  note inv = sv_acquire_inv [OF assms(1,3)] sv_release_inv [OF _ assms(3)]
  have rel: "inflight_inv (slot_release t (rq_account q) (key_of q))" if "inflight_inv t" for t
    using slots.release_ok [OF that] assms(3) by simp
  show ?thesis
    using assms
    by (simp add: beginClientRequest_def split_def inv sv_release_slot Let_def rel plans_inv_Increment
        plans_inv_Reserve split: sum.split bool.split)
qed

section \<open>Outcomes\<close>

text \<open>A rejection leaves every account's live count and every monthly counter as they were.\<close>

lemma begin_rejected:
  assumes "inflight_inv (sv_tracker sv)" "request_ids_ok q" "nul_free b"
    "beginClientRequest sv q = (sv', Some r)"
  shows "live_count sv' b = live_count sv b \<and> used sv' c per = used sv c per"
proof -
  have live: "live_count (sv_release (sv1\<lparr>sv_db := d\<rparr>) q) b = live_count sv b"
    if "sv_acquire sv l q = (sv1, True)" for sv1 l d
    using acquire_release_live [OF assms(1-3) that] .
  have same: "sv1 = sv" if "sv_acquire sv l q = (sv1, False)" for sv1 l
    using sv_acquire_slot [OF that] by simp
  have db: "sv_db sv1 = sv_db sv" if "sv_acquire sv l q = (sv1, got)" for sv1 l got
    using sv_acquire_slot [OF that] by simp
  have err: "usage_of d (c, per) = usage_of dd (c, per)"
    if "ReserveUsageCounter f dd a p l = (d, Inl e)" for d dd f a p l e
    using usage.reserve_error [of f dd "(a, p)" l e "(c, per)"] that by (simp add: reserve_slot_def)
  have ref: "usage_of d (c, per) = usage_of dd (c, per)"
    if "ReserveUsageCounter f dd a p l = (d, Inr False)" for d dd f a p l
    using that by (auto simp: reserve_defs split: if_splits)
  show ?thesis
    using assms(4)
    by (auto simp: beginClientRequest_def used_def sv_release_slot live db
        split: if_splits sum.splits prod.splits bool.splits dest: err ref same)
qed


text \<open>A hosted, enforced admission takes one slot of each kind and stays within the plan.\<close>

lemma begin_admitted:
  assumes "inflight_inv (sv_tracker sv)" "request_ids_ok q" "rq_hosted q" "rq_enforcing q"
    "beginClientRequest sv q = (sv', None)"
  shows "\<exists>plan. EntitlementsForAccount (rq_planFaults q) (sv_db sv) (rq_account q) = Inr plan \<and>
     live_count sv' (rq_account q) = live_count sv (rq_account q) + 1 \<and>
     (0 \<le> max_concurrent_streams plan \<longrightarrow> live_count sv' (rq_account q) \<le> max_concurrent_streams plan) \<and>
     (0 \<le> monthly_requests plan \<longrightarrow>
        used sv' (rq_account q) (UsagePeriod (rq_now q)) = used sv (rq_account q) (UsagePeriod (rq_now q)) + 1 \<and>
        used sv' (rq_account q) (UsagePeriod (rq_now q)) \<le> monthly_requests plan)"
proof -
  from assms(3-5) obtain plan sv1 where
    plan: "EntitlementsForAccount (rq_planFaults q) (sv_db sv) (rq_account q) = Inr plan" and
    acq: "sv_acquire sv (max_concurrent_streams plan) q = (sv1, True)"
    by (auto simp: beginClientRequest_def split: sum.splits prod.splits if_splits)
  have nf: "nul_free (rq_account q)" using assms(2) by (simp add: request_ids_ok_def)
  have live: "live_count sv' = live_count sv1"
    using assms(3-5) plan acq
    by (auto simp: beginClientRequest_def live_count_def split: sum.splits prod.splits bool.splits if_splits)
  have db: "sv_db sv1 = sv_db sv" using sv_acquire_slot [OF acq] by simp
  have monthly: "used sv' (rq_account q) (UsagePeriod (rq_now q)) = used sv (rq_account q) (UsagePeriod (rq_now q)) + 1 \<and>
      used sv' (rq_account q) (UsagePeriod (rq_now q)) \<le> monthly_requests plan" if m: "0 \<le> monthly_requests plan"
  proof -
    from assms(3-5) plan acq m obtain d where
      d: "ReserveUsageCounter (rq_usageFaults q) (sv_db sv1) (rq_account q) (UsagePeriod (rq_now q))
            (monthly_requests plan) = (d, Inr True)" "sv_db sv' = d"
      by (auto simp: beginClientRequest_def Unlimited_def split: sum.splits prod.splits bool.splits if_splits)
    with usage.reserve_taken [of "rq_usageFaults q" "sv_db sv" "(rq_account q, UsagePeriod (rq_now q))"
        "monthly_requests plan" "(rq_account q, UsagePeriod (rq_now q))"] db m
    show ?thesis by (simp add: used_def reserve_slot_def)
  qed
  show ?thesis
    using plan monthly acquired_live [OF assms(1,2) nf acq] acquired_bound [OF assms(1,2) acq]
    by (auto simp: live)
qed

text \<open>A database error on the plan lookup or the reservation rejects the request.\<close>

lemma begin_fails_closed:
  assumes "rq_hosted q" "rq_enforcing q" "snd (beginClientRequest sv q) = None"
  shows "\<not> rq_planFaults q 0 \<and>
    (\<forall>plan. EntitlementsForAccount (rq_planFaults q) (sv_db sv) (rq_account q) = Inr plan \<longrightarrow>
       0 \<le> monthly_requests plan \<longrightarrow> \<not> (\<exists>n \<le> 3. rq_usageFaults q n))"
proof -
  from assms have "\<not> rq_planFaults q 0"
    by (auto simp: beginClientRequest_def EntitlementsForAccount_def)
  moreover have "\<not> rq_usageFaults q n"
    if "EntitlementsForAccount (rq_planFaults q) (sv_db sv) (rq_account q) = Inr plan"
      "0 \<le> monthly_requests plan" "n \<le> 3" for plan n
  proof -
    have "n \<in> {0, 1, 2, 3}" using that(3) by auto
    with assms that(1,2) show ?thesis
      by (auto simp: beginClientRequest_def ReserveUsageCounter_def Unlimited_def Let_def
          split: if_splits prod.splits)
  qed
  ultimately show ?thesis by blast
qed

end
