(* ===== verification/UpstreamError.thy ===== *)
theory UpstreamError
  imports Json
begin

text \<open>
  \<open>internal/server/error_message.go\<close> and \<open>internal/server/upstream_error.go\<close>: the fixed sentences
  of the failure classes, and the reduction of a provider's error body to a bounded, sanitized,
  credential-free detail. Bodies are byte strings and are parsed by theory \<open>Json\<close>.
\<close>

section \<open>The provider instance and an attempt\<close>

text \<open>\<open>providers.Instance\<close>, the fields routing reads. \<open>p_OAuthProviderData\<close> lists the map in the
  order an iteration meets it.\<close>

record provider =
  p_ID :: string
  p_Name :: string
  p_Type :: string
  p_Credential :: string
  p_OAuthAccountID :: string
  p_OAuthProviderData :: "(string \<times> json) list"
  p_Protocols :: "string list"
  p_MinOutputTokens :: int

text \<open>\<open>requestAttempt\<close> of \<open>logging.go\<close>; the latencies and the diagnostic strings are left out.\<close>

record requestAttempt =
  at_providerModelID :: string
  at_provider :: string
  at_model :: string
  at_result :: string
  at_failureClass :: string
  at_httpStatus :: int
  at_errorMessage :: "string option"
  at_clientError :: string
  at_recovered :: bool

section \<open>Fixed messages\<close>

definition status_texts :: "(int \<times> string) list" where
  "status_texts =
     [(100, ''Continue''),
      (101, ''Switching Protocols''),
      (102, ''Processing''),
      (103, ''Early Hints''),
      (200, ''OK''),
      (201, ''Created''),
      (202, ''Accepted''),
      (203, ''Non-Authoritative Information''),
      (204, ''No Content''),
      (205, ''Reset Content''),
      (206, ''Partial Content''),
      (207, ''Multi-Status''),
      (208, ''Already Reported''),
      (226, ''IM Used''),
      (300, ''Multiple Choices''),
      (301, ''Moved Permanently''),
      (302, ''Found''),
      (303, ''See Other''),
      (304, ''Not Modified''),
      (305, ''Use Proxy''),
      (307, ''Temporary Redirect''),
      (308, ''Permanent Redirect''),
      (400, ''Bad Request''),
      (401, ''Unauthorized''),
      (402, ''Payment Required''),
      (403, ''Forbidden''),
      (404, ''Not Found''),
      (405, ''Method Not Allowed''),
      (406, ''Not Acceptable''),
      (407, ''Proxy Authentication Required''),
      (408, ''Request Timeout''),
      (409, ''Conflict''),
      (410, ''Gone''),
      (411, ''Length Required''),
      (412, ''Precondition Failed''),
      (413, ''Request Entity Too Large''),
      (414, ''Request URI Too Long''),
      (415, ''Unsupported Media Type''),
      (416, ''Requested Range Not Satisfiable''),
      (417, ''Expectation Failed''),
      (418, ''I'' @ [CHR 0x27] @ ''m a teapot''),
      (421, ''Misdirected Request''),
      (422, ''Unprocessable Entity''),
      (423, ''Locked''),
      (424, ''Failed Dependency''),
      (425, ''Too Early''),
      (426, ''Upgrade Required''),
      (428, ''Precondition Required''),
      (429, ''Too Many Requests''),
      (431, ''Request Header Fields Too Large''),
      (451, ''Unavailable For Legal Reasons''),
      (500, ''Internal Server Error''),
      (501, ''Not Implemented''),
      (502, ''Bad Gateway''),
      (503, ''Service Unavailable''),
      (504, ''Gateway Timeout''),
      (505, ''HTTP Version Not Supported''),
      (506, ''Variant Also Negotiates''),
      (507, ''Insufficient Storage''),
      (508, ''Loop Detected''),
      (510, ''Not Extended''),
      (511, ''Network Authentication Required'')]"

definition StatusText :: "int \<Rightarrow> string" where
  "StatusText n = (case map_of status_texts n of Some t \<Rightarrow> t | None \<Rightarrow> [])"

definition httpStatusErrorMessage :: "string \<Rightarrow> string" where
  "httpStatusErrorMessage cls =
     (if \<not> has_prefix cls ''http_'' then []
      else case atoi (drop 5 cls) of None \<Rightarrow> []
         | Some n \<Rightarrow> if StatusText n \<noteq> [] then ''HTTP '' @ itoa n @ '': '' @ StatusText n else ''HTTP '' @ itoa n)"

definition fixed_messages :: "(string \<times> string) list" where
  "fixed_messages =
     [(''upstream_timeout'',
        ''Upstream request timed out''),
      (''upstream_unreachable'',
        ''Could not reach upstream provider''),
      (''upstream_read_error'',
        ''Could not read upstream provider response''),
      (''empty_response'',
        ''The upstream provider returned no content''),
      (''upstream_stream_error'',
        ''The upstream provider reported a stream error''),
      (''upstream_stream_incomplete'',
        ''The upstream provider reported an incomplete response''),
      (''upstream_stream_eof'',
        ''The upstream stream ended before completion''),
      (''upstream_response_too_large'',
        ''Upstream provider response exceeded Tiller'' @ [CHR 0x27] @ ''s size limit''),
      (''context_limit_exceeded'',
        ''The request exceeds this target'' @ [CHR 0x27] @ ''s context window. Shorten the conversation or use a target with a larger context window.''),
      (''reasoning_roundtrip_required'',
        ''The upstream provider requires the reasoning_content from earlier assistant turns to be passed back when tools are used. Include each prior assistant message'' @ [CHR 0x27] @ ''s reasoning_content in the conversation and retry.''),
      (''model_not_found'',
        ''The requested model was not found or is not configured''),
      (''database_error'',
        ''Internal database error while resolving the request''),
      (''client_cancelled'',
        ''The client cancelled the request''),
      (''client_timeout'',
        ''The client request timed out''),
      (''translation_error'',
        ''Failed to translate the request for the upstream provider''),
      (''unsupported_feature'',
        ''The request uses a feature not supported by the upstream provider''),
      (''invalid_request'',
        ''The request was rejected as invalid''),
      (''upstream_error'',
        ''The upstream provider returned an error''),
      (''protocol_unavailable'',
        ''No compatible protocol is available for this request''),
      (''free_model_requires_keyless'',
        ''This OpenCode free-tier model must be served without a credential''),
      (''free_tier_rejected'',
        ''OpenCode declined the free-tier request for third-party relay''),
      (''virtual_model_unavailable'',
        ''All targets for the virtual model are currently unavailable''),
      (''model_unavailable'',
        ''The requested model is currently unavailable''),
      (''invalid_upstream'',
        ''The upstream provider endpoint could not be resolved'')]"

definition fixedUpstreamErrorMessage :: "string \<Rightarrow> string" where
  "fixedUpstreamErrorMessage cls =
     (case map_of fixed_messages cls of Some t \<Rightarrow> t | None \<Rightarrow> httpStatusErrorMessage cls)"

definition strPtrIfNonEmpty :: "string \<Rightarrow> string option" where
  "strPtrIfNonEmpty v = (if v = [] then None else Some v)"

section \<open>Sanitizing\<close>

definition maxClientErrorMessageRunes :: nat where
  "maxClientErrorMessageRunes = 2000"

definition clean_piece :: "string \<Rightarrow> string option" where
  "clean_piece p = (if p = [CHR 0x0A] \<or> p = [CHR 0x09] then Some [CHR 0x20]
                    else if is_control p then None else Some (canon_rune p))"

definition sanitized_runes :: "string \<Rightarrow> string list" where
  "sanitized_runes s =
     trim_pieces (take maxClientErrorMessageRunes
       (join_with [[CHR 0x20]] (text_fields (List.map_filter clean_piece (pieces s)))))"

definition sanitizeErrorText :: "string \<Rightarrow> string" where
  "sanitizeErrorText s = concat (sanitized_runes s)"

section \<open>The detail of an error body\<close>

record upstreamErrorDetail =
  Message :: string
  Code :: string
  Param :: string
  Type :: string

definition no_detail :: upstreamErrorDetail where
  "no_detail = \<lparr>Message = [], Code = [], Param = [], Type = []\<rparr>"

definition usable :: "upstreamErrorDetail \<Rightarrow> bool" where
  "usable d \<longleftrightarrow> sanitizeErrorText (Message d) \<noteq> [] \<or> sanitizeErrorText (Code d) \<noteq> [] \<or>
                sanitizeErrorText (Param d) \<noteq> []"

definition sanitized :: "upstreamErrorDetail \<Rightarrow> upstreamErrorDetail" where
  "sanitized d = \<lparr>Message = sanitizeErrorText (Message d), Code = sanitizeErrorText (Code d),
                  Param = sanitizeErrorText (Param d), Type = sanitizeErrorText (Type d)\<rparr>"

fun firstNonEmpty :: "string list \<Rightarrow> string" where
  "firstNonEmpty [] = []"
| "firstNonEmpty (v # vs) = (if trim_space v \<noteq> [] then v else firstNonEmpty vs)"

definition decodeErrorCode :: "json option \<Rightarrow> string" where
  "decodeErrorCode raw = (case raw of
      Some (JStr s) \<Rightarrow> sanitizeErrorText s
    | Some (JNum n) \<Rightarrow> n
    | _ \<Rightarrow> [])"

text \<open>The inner \<open>error\<close> object: \<open>None\<close> when it does not decode.\<close>

definition decode_error_object :: "json \<Rightarrow> upstreamErrorDetail option" where
  "decode_error_object j = (case j of
      JObj m \<Rightarrow>
        (case (field_string ''message'' m, field_string ''type'' m, field_string ''param'' m) of
           (Some msg, Some ty, Some par) \<Rightarrow>
             Some \<lparr>Message = msg, Code = decodeErrorCode (field_raw ''code'' m), Param = par, Type = ty\<rparr>
         | _ \<Rightarrow> None)
    | JNull \<Rightarrow> Some no_detail
    | _ \<Rightarrow> None)"

definition decode_error_string :: "json \<Rightarrow> string option" where
  "decode_error_string j = (case j of JStr s \<Rightarrow> Some s | JNull \<Rightarrow> Some [] | _ \<Rightarrow> None)"

definition envelope_of :: "(string \<times> json) list \<Rightarrow> string \<Rightarrow> upstreamErrorDetail" where
  "envelope_of m topMessage =
     (let fallback = (if topMessage \<noteq> [] then no_detail\<lparr>Message := topMessage\<rparr> else no_detail) in
      case field_raw ''error'' m of
        None \<Rightarrow> fallback
      | Some e \<Rightarrow>
          (case decode_error_object e of
             Some d \<Rightarrow> if usable d then d
                      else (case decode_error_string e of Some s \<Rightarrow> no_detail\<lparr>Message := s\<rparr> | None \<Rightarrow> fallback)
           | None \<Rightarrow> (case decode_error_string e of Some s \<Rightarrow> no_detail\<lparr>Message := s\<rparr> | None \<Rightarrow> fallback)))"

definition maxPlainErrorBodyBytes :: nat where
  "maxPlainErrorBodyBytes = 4096"

definition parseErrorEnvelope :: "string \<Rightarrow> string \<Rightarrow> upstreamErrorDetail" where
  "parseErrorEnvelope body contentType =
     (let trimmed = trim_space body in
      if trimmed = [] then no_detail
      else if has_prefix trimmed ''{'' then
        (case json_parse body of
           Some (JObj m) \<Rightarrow>
             (case field_string ''message'' m of None \<Rightarrow> no_detail | Some msg \<Rightarrow> envelope_of m msg)
         | _ \<Rightarrow> no_detail)
      else if contains contentType ''text/plain'' \<and> length body \<le> maxPlainErrorBodyBytes \<and> utf8_valid body
      then no_detail\<lparr>Message := trimmed\<rparr>
      else no_detail)"

definition fill_gaps :: "upstreamErrorDetail \<Rightarrow> upstreamErrorDetail \<Rightarrow> upstreamErrorDetail" where
  "fill_gaps inner outer = inner\<lparr>Code := firstNonEmpty [Code inner, Code outer],
                                 Param := firstNonEmpty [Param inner, Param outer],
                                 Type := firstNonEmpty [Type inner, Type outer]\<rparr>"

text \<open>The loop of \<open>unwrapErrorDetail\<close>; the argument counts the levels still allowed.\<close>

fun unwrap_levels :: "nat \<Rightarrow> upstreamErrorDetail \<Rightarrow> upstreamErrorDetail" where
  "unwrap_levels 0 d = d"
| "unwrap_levels (Suc n) d =
     (if has_prefix (trim_space (Message d)) ''{'' then
        (let inner = parseErrorEnvelope (Message d) ''application/json''
         in if usable inner then unwrap_levels n (fill_gaps inner d) else d)
      else d)"

definition maxErrorDetailUnwrapDepth :: nat where
  "maxErrorDetailUnwrapDepth = 3"

definition unwrapErrorDetail :: "upstreamErrorDetail \<Rightarrow> nat \<Rightarrow> upstreamErrorDetail" where
  "unwrapErrorDetail d depth = unwrap_levels (maxErrorDetailUnwrapDepth - depth) d"

definition parseUpstreamErrorDetail :: "string \<Rightarrow> string \<Rightarrow> upstreamErrorDetail" where
  "parseUpstreamErrorDetail body contentType =
     sanitized (unwrapErrorDetail (parseErrorEnvelope body contentType) 0)"

section \<open>Classification\<close>

definition isOpenCodeFreeTierRejection :: "string \<Rightarrow> bool" where
  "isOpenCodeFreeTierRejection body \<longleftrightarrow>
     body \<noteq> [] \<and> contains (to_lower body) ''from within opencode'' \<and>
     (contains (to_lower body) ''freetiererror'' \<or> contains (to_lower body) ''free tier'')"

definition isContextLimitError :: "upstreamErrorDetail \<Rightarrow> bool" where
  "isContextLimitError d \<longleftrightarrow>
     to_lower (trim_space (Code d)) \<in> {''context_length_exceeded'', ''context_window_exceeded'',
                                      ''input_too_long'', ''prompt_too_long''} \<or>
     list_ex (contains (to_lower (Message d)))
       [''maximum context length'', ''context length exceeded'', ''exceeds the context window'',
        ''exceeded the context window'', ''context window exceeded'', ''input is too long'',
        ''prompt is too long'']"

definition isReasoningRoundtripError :: "upstreamErrorDetail \<Rightarrow> bool" where
  "isReasoningRoundtripError d \<longleftrightarrow>
     contains (to_lower (Message d)) ''reasoning_content'' \<and>
     contains (to_lower (Message d)) ''must be passed back''"

section \<open>Rendering\<close>

definition clientMessage :: "upstreamErrorDetail \<Rightarrow> string" where
  "clientMessage d =
     (if Message d = [] \<and> Code d = [] \<and> Param d = [] then []
      else (let qs = (if Code d \<noteq> [] then [''code: '' @ Code d] else []) @
                     (if Param d \<noteq> [] then [''param: '' @ Param d] else [])
            in (if Message d \<noteq> [] then ''Upstream provider error: '' @ Message d
                else ''Upstream provider error'') @
               (if qs \<noteq> [] then '' ('' @ join_with '', '' qs @ '')'' else [])))"

definition provider_secrets :: "provider \<Rightarrow> string list" where
  "provider_secrets p = p_Credential p # p_OAuthAccountID p #
     List.map_filter (\<lambda>(k, v). case v of JStr s \<Rightarrow> if s \<noteq> [] then Some s else None | _ \<Rightarrow> None)
       (p_OAuthProviderData p)"

definition redact_with :: "string list \<Rightarrow> string \<Rightarrow> string" where
  "redact_with secrets text =
     List.fold (\<lambda>secret t. if secret \<noteq> [] then replace_all t secret mark else t) secrets text"

text \<open>\<open>sort.Slice\<close> by decreasing length; the order among secrets of one length is the sort's choice,
  here the input's order.\<close>

definition redactProviderSecrets :: "string \<Rightarrow> provider \<Rightarrow> string" where
  "redactProviderSecrets text p =
     (if text = [] then text
      else redact_with (sort_key (\<lambda>s. - int (length s)) (provider_secrets p)) text)"

definition route_name :: "requestAttempt \<Rightarrow> string" where
  "route_name a =
     (let r = at_provider a;
          r1 = (if at_model a \<noteq> [] then (if r \<noteq> [] then r @ ''/'' else r) @ at_model a else r)
      in if r1 = [] then ''target'' else r1)"

definition attempt_line :: "requestAttempt \<Rightarrow> string" where
  "attempt_line a =
     (if at_failureClass a = ''context_limit_exceeded'' then
        route_name a @ '': '' @ fixedUpstreamErrorMessage (at_failureClass a) @
          (if at_clientError a \<noteq> [] then '' '' @ at_clientError a else [])
      else if at_failureClass a = ''reasoning_roundtrip_required'' then
        route_name a @ '': '' @ fixedUpstreamErrorMessage (at_failureClass a)
      else if at_result a = ''failed'' \<and> at_clientError a \<noteq> [] then
        route_name a @ '': '' @ (if 0 < at_httpStatus a then ''HTTP '' @ itoa (at_httpStatus a) @ '' '' else []) @
          at_clientError a
      else if at_result a = ''failed'' then
        route_name a @ '': '' @
          (case at_errorMessage a of
             Some m \<Rightarrow> if m \<noteq> [] then m
                      else if at_failureClass a \<noteq> [] then at_failureClass a else ''request failed''
           | None \<Rightarrow> if at_failureClass a \<noteq> [] then at_failureClass a else ''request failed'')
      else if at_failureClass a \<noteq> [] then route_name a @ '': skipped ('' @ at_failureClass a @ '')''
      else route_name a @ '': skipped'')"

definition exhaustedRouteMessage :: "requestAttempt list \<Rightarrow> string" where
  "exhaustedRouteMessage attempts =
     (if attempts = [] then ''The virtual model could not be served by its configured targets.''
      else ''All targets for the virtual model failed:'' @ CHR 0x0A #
           join_with [CHR 0x0A] (List.map attempt_line attempts))"

section \<open>What sanitizing guarantees\<close>

definition good_rune :: "string \<Rightarrow> bool" where
  "good_rune r \<longleftrightarrow> valid_rune r \<and> \<not> is_control r"

abbreviation space1 :: string where
  "space1 \<equiv> [CHR 0x20]"

lemma good_space1 [simp]: "good_rune space1"
  by (simp add: good_rune_def valid_ascii is_control_def)

lemma is_space_space1 [simp]: "is_space space1"
  by (simp add: is_space_def space_runes_def)

lemma good_canon: "\<not> is_control p \<Longrightarrow> good_rune (canon_rune p)"
proof (cases "valid_rune p")
  case False
  have "\<not> is_control replacement" by (simp add: is_control_def replacement_def)
  then show ?thesis using False by (simp add: good_rune_def canon_rune_def)
qed (simp add: good_rune_def canon_rune_def)

lemma clean_good: "clean_piece p = Some r \<Longrightarrow> good_rune r"
  using good_canon good_space1 unfolding clean_piece_def by (metis option.distinct(1) option.inject)

lemma cleaned_good: "list_all good_rune (List.map_filter clean_piece ps)"
  by (induction ps) (auto simp: map_filter_simps clean_good split: option.split)

lemma clean_good_id: "good_rune r \<Longrightarrow> clean_piece r = Some r"
proof -
  assume r: "good_rune r"
  have "is_control [CHR 0x0A]" "is_control [CHR 0x09]" by (simp_all add: is_control_def)
  then have "r \<noteq> [CHR 0x0A]" "r \<noteq> [CHR 0x09]" using r by (auto simp: good_rune_def)
  then show ?thesis using r by (simp add: clean_piece_def good_rune_def canon_rune_def)
qed

lemma clean_all_good: "list_all good_rune rs \<Longrightarrow> List.map_filter clean_piece rs = rs"
  by (induction rs) (simp_all add: map_filter_simps clean_good_id)

definition field_ok :: "string list \<Rightarrow> bool" where
  "field_ok f \<longleftrightarrow> f \<noteq> [] \<and> list_all (\<lambda>r. good_rune r \<and> \<not> is_space r) f"

lemma fields_acc_ok:
  "list_all good_rune rs \<Longrightarrow> list_all (\<lambda>r. good_rune r \<and> \<not> is_space r) cur \<Longrightarrow>
   list_all field_ok (fields_acc cur rs)"
proof (induction rs arbitrary: cur)
  case Nil then show ?case by (cases "cur = []") (simp_all add: field_ok_def list_all_rev)
next
  case (Cons r rs)
  then show ?case by (cases "cur = []"; cases "is_space r") (simp_all add: field_ok_def)
qed

text \<open>Text whose white space is single blanks between words.\<close>

definition inner_ok :: "string list \<Rightarrow> bool" where
  "inner_ok rs \<longleftrightarrow> list_all (\<lambda>r. good_rune r \<and> (is_space r \<longrightarrow> r = space1)) rs \<and>
     successively (\<lambda>a b. \<not> (is_space a \<and> is_space b)) rs"

definition normal_text :: "string list \<Rightarrow> bool" where
  "normal_text rs \<longleftrightarrow> inner_ok rs \<and> (rs \<noteq> [] \<longrightarrow> \<not> is_space (hd rs) \<and> \<not> is_space (last rs))"

lemma successively_nonspace:
  "list_all (\<lambda>r. \<not> is_space r) f \<Longrightarrow> successively (\<lambda>a b. \<not> (is_space a \<and> is_space b)) f"
  by (induction f rule: induct_list012) simp_all

lemma field_ok_normal: "field_ok f \<Longrightarrow> normal_text f"
  using successively_nonspace [of f]
  by (auto simp: normal_text_def inner_ok_def field_ok_def list_all_iff)

lemma join_normal: "list_all field_ok fs \<Longrightarrow> normal_text (join_with [space1] fs)"
proof (induction "[space1]" fs rule: join_with.induct)
  case (3 x y zs)
  then have x: "normal_text x" "x \<noteq> []" and r: "normal_text (join_with [space1] (y # zs))"
    by (auto simp: field_ok_normal field_ok_def)
  have "join_with [space1] (y # zs) \<noteq> []" using 3 by (cases zs) (auto simp: field_ok_def)
  then show ?case
    using x r by (auto simp: normal_text_def inner_ok_def successively_append_iff successively_Cons)
next
  case 1 then show ?case by (simp add: normal_text_def inner_ok_def)
next
  case (2 x) then show ?case by (simp add: field_ok_normal)
qed

lemma inner_prefix: "inner_ok (xs @ ys) \<Longrightarrow> inner_ok xs"
  by (auto simp: inner_ok_def successively_append_iff)

lemma trim_take_normal:
  assumes "normal_text rs"
  shows "normal_text (trim_pieces (take n rs)) \<and> (\<exists>ys. rs = trim_pieces (take n rs) @ ys)"
proof (cases "take n rs")
  case Nil then show ?thesis unfolding Nil by (simp add: trim_pieces_def normal_text_def inner_ok_def)
next
  case (Cons x xs)
  then have "x = hd rs" by (cases rs; cases n) auto
  then have x: "\<not> is_space x" using assms Cons by (auto simp: normal_text_def)
  then have t: "trim_pieces (take n rs) = rev (dropWhile is_space (rev (take n rs)))"
    by (simp add: trim_pieces_def Cons)
  have "take n rs = rev (dropWhile is_space (rev (take n rs))) @ rev (takeWhile is_space (rev (take n rs)))"
    by (metis rev_append rev_rev_ident takeWhile_dropWhile_id)
  then obtain ys where ys: "rs = trim_pieces (take n rs) @ ys" by (metis t append_assoc append_take_drop_id)
  then have i: "inner_ok (trim_pieces (take n rs))" using assms inner_prefix by (metis normal_text_def)
  have h: "\<not> is_space (hd (trim_pieces (take n rs)))" if "trim_pieces (take n rs) \<noteq> []"
    using that ys assms by (metis hd_append2 normal_text_def append_is_Nil_conv)
  have l: "\<not> is_space (last (trim_pieces (take n rs)))" if "trim_pieces (take n rs) \<noteq> []"
    using that hd_dropWhile [of is_space "rev (take n rs)"] unfolding t by (simp add: last_rev)
  show ?thesis using i h l ys by (auto simp: normal_text_def)
qed

lemma sanitized_normal: "normal_text (sanitized_runes s)"
  unfolding sanitized_runes_def text_fields_def
  by (intro trim_take_normal [THEN conjunct1] join_normal fields_acc_ok cleaned_good) simp

lemma trim_length: "length (trim_pieces rs) \<le> length rs"
proof -
  have "length (trim_pieces rs) \<le> length (rev (dropWhile is_space rs))"
    unfolding trim_pieces_def length_rev [of "dropWhile is_space (rev (dropWhile is_space rs))"]
    by (rule length_dropWhile_le)
  then show ?thesis using length_dropWhile_le [of is_space rs] by simp
qed

lemma sanitized_length: "length (sanitized_runes s) \<le> maxClientErrorMessageRunes"
  unfolding sanitized_runes_def by (rule order_trans [OF trim_length]) simp

lemma normal_good: "normal_text rs \<Longrightarrow> list_all good_rune rs"
  by (auto simp: normal_text_def inner_ok_def list_all_iff)

lemma pieces_sanitized: "pieces (sanitizeErrorText s) = sanitized_runes s"
  unfolding sanitizeErrorText_def
  by (rule pieces_concat) (use normal_good [OF sanitized_normal] in \<open>auto simp: list_all_iff good_rune_def\<close>)

lemma join_fields_acc:
  "inner_ok rs \<Longrightarrow> rs \<noteq> [] \<longrightarrow> \<not> is_space (last rs) \<Longrightarrow> cur \<noteq> [] \<Longrightarrow>
   join_with [space1] (fields_acc cur rs) = rev cur @ rs"
proof (induction rs arbitrary: cur rule: induct_list012)
  case (2 x) then show ?case by auto
next
  case (3 x y zs)
  have t: "inner_ok (y # zs)" using 3 by (auto simp: inner_ok_def)
  show ?case
  proof (cases "is_space x")
    case False then show ?thesis using 3 t by simp
  next
    case True
    then have "x = space1" "\<not> is_space y" using 3 by (auto simp: inner_ok_def)
    moreover have "inner_ok zs" using t by (auto simp: inner_ok_def successively_Cons)
    ultimately have r: "join_with [space1] (fields_acc [y] zs) = y # zs"
      using 3 by (cases zs) auto
    then obtain w ws where "fields_acc [y] zs = w # ws" by (cases "fields_acc [y] zs") auto
    then show ?thesis using r True \<open>x = space1\<close> \<open>\<not> is_space y\<close> 3 by simp
  qed
qed simp

lemma join_fields_normal: "normal_text rs \<Longrightarrow> join_with [space1] (text_fields rs) = rs"
proof (cases rs)
  case (Cons r rs')
  assume n: "normal_text rs"
  then have "inner_ok rs'" "\<not> is_space r" "rs' \<noteq> [] \<longrightarrow> \<not> is_space (last rs')"
    using Cons by (auto simp: normal_text_def inner_ok_def successively_Cons split: if_splits)
  then show ?thesis using join_fields_acc [of rs' "[r]"] Cons by (simp add: text_fields_def)
qed (simp add: text_fields_def)

lemma trim_normal: "normal_text rs \<Longrightarrow> trim_pieces rs = rs"
proof (cases "rs = []")
  case False
  assume n: "normal_text rs"
  then have "dropWhile is_space rs = rs" using False by (cases rs) (auto simp: normal_text_def)
  moreover have "dropWhile is_space (rev rs) = rev rs"
    using n False by (cases rs rule: rev_cases) (auto simp: normal_text_def)
  ultimately show ?thesis by (simp add: trim_pieces_def)
qed (simp add: trim_pieces_def)

lemma sanitize_idem: "sanitizeErrorText (sanitizeErrorText s) = sanitizeErrorText s"
proof -
  have n: "normal_text (sanitized_runes s)" by (rule sanitized_normal)
  have "sanitized_runes (sanitizeErrorText s) = sanitized_runes s"
    unfolding sanitized_runes_def [of "sanitizeErrorText s"] pieces_sanitized
    using clean_all_good [OF normal_good [OF n]] join_fields_normal [OF n] trim_normal [OF n]
      sanitized_length [of s] by simp
  then show ?thesis by (simp add: sanitizeErrorText_def)
qed

section \<open>Redaction\<close>

lemma redact_keeps_out:
  "not_in_mark s \<Longrightarrow> \<not> contains t s \<Longrightarrow> \<not> contains (redact_with secrets t) s"
  unfolding redact_with_def
  by (induction secrets arbitrary: t) (auto simp: replace_all_keeps_out)

lemma redact_gone:
  "not_in_mark s \<Longrightarrow> List.member secrets s \<Longrightarrow> \<not> contains (redact_with secrets t) s"
proof (induction secrets arbitrary: t)
  case (Cons x xs)
  show ?case
  proof (cases "x = s")
    case True
    then have "redact_with (x # xs) t = redact_with xs (replace_all t s mark)"
      using Cons.prems not_in_markD by (auto simp: redact_with_def)
    then show ?thesis using redact_keeps_out [OF Cons.prems(1) replace_all_gone [OF Cons.prems(1)]] by simp
  next
    case False
    then have "List.member xs s" using Cons.prems by simp
    then show ?thesis using Cons.IH [OF Cons.prems(1)] by (simp add: redact_with_def)
  qed
qed simp

lemma redactProviderSecrets_gone:
  assumes "not_in_mark s" "List.member (provider_secrets p) s"
  shows "\<not> contains (redactProviderSecrets text p) s"
proof (cases "text = []")
  case True then show ?thesis using not_in_markD [OF assms(1)] by (simp add: redactProviderSecrets_def)
next
  case False
  have "List.member (sort_key (\<lambda>s. - int (length s)) (provider_secrets p)) s" using assms(2) by simp
  from redact_gone [OF assms(1) this, of "text"] False show ?thesis
    by (simp add: redactProviderSecrets_def)
qed

end
