(* ===== verification/Sniff.thy ===== *)
theory Sniff
  imports Text
begin

text \<open>
  The classification of a successful upstream response without a Content-Type
  (\<open>looksLikeSSE\<close> and \<open>sniffAndClassify\<close> of \<open>internal/server/client.go\<close>). A response body is the list
  of results its reads return, at most 32 bytes each, every one with an error flag; after the list
  the reader reports the end of the body.
\<close>

section \<open>Complete lines\<close>

datatype sseSniff = SseInconclusive | SseDetected | SseNotSSE

definition newline :: char where
  "newline = CHR 0x0A"

definition strip_cr :: "string \<Rightarrow> string" where
  "strip_cr l = (if l \<noteq> [] \<and> last l = CHR 0x0D then butlast l else l)"

definition line_verdict :: "string \<Rightarrow> sseSniff" where
  "line_verdict l =
     (let line = strip_cr l in
      if has_prefix line ''event:'' \<or> has_prefix line ''data:'' then SseDetected
      else if line = [] \<or> hd line \<noteq> CHR '':'' then SseNotSSE
      else SseInconclusive)"

text \<open>The loop over lines: a comment line is passed over, an unterminated line decides nothing.\<close>

fun scan_lines :: "string \<Rightarrow> string \<Rightarrow> sseSniff" where
  "scan_lines line [] = SseInconclusive"
| "scan_lines line (c # cs) =
     (if c = newline then
        (case line_verdict (rev line) of
           SseInconclusive \<Rightarrow> scan_lines [] cs
         | v \<Rightarrow> v)
      else scan_lines (c # line) cs)"

definition bom :: string where
  "bom = [CHR 0xEF, CHR 0xBB, CHR 0xBF]"

definition looksLikeSSE :: "string \<Rightarrow> sseSniff" where
  "looksLikeSSE s = scan_lines [] (if has_prefix s bom then drop 3 s else s)"

lemma scan_lines_append:
  "scan_lines l s \<noteq> SseInconclusive \<Longrightarrow> scan_lines l (s @ t) = scan_lines l s"
  by (induction l s rule: scan_lines.induct) (auto split: sseSniff.splits if_splits)

lemma scan_lines_line: "newline \<notin> set s \<Longrightarrow> scan_lines l s = SseInconclusive"
  by (induction s arbitrary: l) auto

lemma bom_line: "newline \<notin> set bom"
  by (simp add: bom_def newline_def)

lemma prefix_bom_short: "has_prefix (s @ t) bom \<Longrightarrow> \<not> has_prefix s bom \<Longrightarrow> newline \<notin> set s"
proof -
  assume a: "has_prefix (s @ t) bom" "\<not> has_prefix s bom"
  have "length s < length bom"
  proof (rule ccontr)
    assume "\<not> ?thesis"
    then show False using a by (simp add: has_prefix_def)
  qed
  then obtain us where "s @ us = bom" using a(1) by (auto simp: has_prefix_iff append_eq_append_conv2)
  then show ?thesis using bom_line by (metis Un_iff set_append)
qed

lemma has_prefix_extend: "has_prefix s p \<Longrightarrow> has_prefix (s @ t) p"
  by (auto simp: has_prefix_iff)

text \<open>A verdict reached from a prefix is the verdict of every extension of it.\<close>

lemma looksLikeSSE_stable:
  assumes "looksLikeSSE s \<noteq> SseInconclusive"
  shows "looksLikeSSE (s @ t) = looksLikeSSE s"
proof (cases "has_prefix s bom")
  case True
  then have "3 \<le> length s" by (simp add: has_prefix_def bom_def)
  then show ?thesis
    using True assms scan_lines_append [of "[]" "drop 3 s" t]
    by (simp add: looksLikeSSE_def has_prefix_extend)
next
  case False
  then have "scan_lines [] s \<noteq> SseInconclusive" using assms by (simp add: looksLikeSSE_def)
  then have "\<not> has_prefix (s @ t) bom" using prefix_bom_short False scan_lines_line by blast
  then show ?thesis using False assms scan_lines_append [of "[]" s t] by (simp add: looksLikeSSE_def)
qed

lemma looksLikeSSE_take:
  "looksLikeSSE (take n s) = v \<Longrightarrow> v \<noteq> SseInconclusive \<Longrightarrow> looksLikeSSE s = v"
  using looksLikeSSE_stable [of "take n s" "drop n s"] by (simp add: append_take_drop_id)

section \<open>The sniffer\<close>

record response =
  rs_status :: int
  rs_contentType :: string
  rs_contentLength :: int
  rs_reads :: "(string \<times> bool) list"

definition maxSSEDetectionPrefix :: nat where
  "maxSSEDetectionPrefix = 64"

definition sniffNoProgressReads :: nat where
  "sniffNoProgressReads = 8"

text \<open>The result: the verdict, the bytes already consumed and the reads still to come.\<close>

fun sniff_loop :: "string \<Rightarrow> nat \<Rightarrow> (string \<times> bool) list \<Rightarrow> sseSniff \<times> string \<times> (string \<times> bool) list" where
  "sniff_loop buf noProgress [] = (SseInconclusive, buf, [])"
| "sniff_loop buf noProgress ((d, e) # rest) =
     (if maxSSEDetectionPrefix \<le> length buf \<or> sniffNoProgressReads \<le> noProgress
      then (SseInconclusive, buf, (d, e) # rest)
      else (let buf1 = buf @ d; n = (if d \<noteq> [] then 0 else noProgress + 1) in
            case looksLikeSSE buf1 of
              SseInconclusive \<Rightarrow> if e then (SseInconclusive, buf1, rest) else sniff_loop buf1 n rest
            | v \<Rightarrow> (v, buf1, rest)))"

definition body_bytes :: "(string \<times> bool) list \<Rightarrow> string" where
  "body_bytes reads = concat (List.map fst reads)"

definition restoreSniffedBody :: "string \<Rightarrow> (string \<times> bool) list \<Rightarrow> (string \<times> bool) list" where
  "restoreSniffedBody prefix rest = (if prefix = [] then rest else (prefix, False) # rest)"

definition sniffAndClassify :: "response \<Rightarrow> response" where
  "sniffAndClassify r =
     (if rs_status r < 200 \<or> 300 \<le> rs_status r \<or> rs_contentLength r = 0 \<or> rs_contentType r \<noteq> [] then r
      else (case sniff_loop [] 0 (rs_reads r) of (v, buf, rest) \<Rightarrow>
              r\<lparr>rs_contentType := (if v = SseDetected then ''text/event-stream'' else rs_contentType r),
                rs_reads := restoreSniffedBody buf rest\<rparr>))"

definition isStreamingResponse :: "response \<Rightarrow> bool" where
  "isStreamingResponse r \<longleftrightarrow> contains (rs_contentType r) ''text/event-stream''"

lemma sniff_loop_bytes:
  "sniff_loop buf n reads = (v, buf', rest) \<Longrightarrow> buf' @ body_bytes rest = buf @ body_bytes reads"
  by (induction buf n reads rule: sniff_loop.induct)
     (auto simp: body_bytes_def Let_def split: if_splits sseSniff.splits)

lemma sniff_loop_verdict:
  "sniff_loop buf n reads = (v, buf', rest) \<Longrightarrow> v \<noteq> SseInconclusive \<Longrightarrow> looksLikeSSE buf' = v"
  by (induction buf n reads rule: sniff_loop.induct)
     (auto simp: Let_def split: if_splits sseSniff.splits)

text \<open>When no read stalls or fails, a verdict that the first 64 bytes settle is found.\<close>

lemma sniff_loop_finds:
  assumes "\<forall>(d, e) \<in> set reads. d \<noteq> [] \<and> \<not> e"
    and "looksLikeSSE (take maxSSEDetectionPrefix (buf @ body_bytes reads)) = v" "v \<noteq> SseInconclusive"
    and "looksLikeSSE buf = SseInconclusive"
  shows "fst (sniff_loop buf 0 reads) = v"
  using assms
proof (induction reads arbitrary: buf)
  case Nil
  then show ?case using looksLikeSSE_stable [of "take maxSSEDetectionPrefix buf" "drop maxSSEDetectionPrefix buf"]
    by (simp add: body_bytes_def)
next
  case (Cons x reads)
  obtain d e where x: "x = (d, e)" by (cases x)
  have de: "d \<noteq> []" "\<not> e" using Cons.prems(1) x by auto
  have short: "length buf < maxSSEDetectionPrefix"
  proof (rule ccontr)
    assume "\<not> ?thesis"
    then have "take maxSSEDetectionPrefix (buf @ body_bytes (x # reads)) = take maxSSEDetectionPrefix buf" by simp
    then have "looksLikeSSE (take maxSSEDetectionPrefix buf) \<noteq> SseInconclusive"
      using Cons.prems(2,3) by (simp only:) simp
    then show False
      using looksLikeSSE_stable [of "take maxSSEDetectionPrefix buf" "drop maxSSEDetectionPrefix buf"] Cons.prems(4)
      by simp
  qed
  have bytes: "buf @ body_bytes (x # reads) = (buf @ d) @ body_bytes reads" by (simp add: body_bytes_def x)
  show ?case
  proof (cases "looksLikeSSE (buf @ d)")
    case SseInconclusive
    then show ?thesis using Cons.IH [of "buf @ d"] Cons.prems short x de bytes
      by (auto simp: Let_def sniffNoProgressReads_def)
  next
    case other: SseDetected
    have "looksLikeSSE ((buf @ d) @ body_bytes reads) = SseDetected"
      using looksLikeSSE_stable [of "buf @ d"] other by simp
    moreover have "looksLikeSSE ((buf @ d) @ body_bytes reads) = v"
      using looksLikeSSE_take [OF Cons.prems(2,3)] by (simp only: bytes)
    ultimately show ?thesis using other short x by (simp add: Let_def sniffNoProgressReads_def)
  next
    case other: SseNotSSE
    have "looksLikeSSE ((buf @ d) @ body_bytes reads) = SseNotSSE"
      using looksLikeSSE_stable [of "buf @ d"] other by simp
    moreover have "looksLikeSSE ((buf @ d) @ body_bytes reads) = v"
      using looksLikeSSE_take [OF Cons.prems(2,3)] by (simp only: bytes)
    ultimately show ?thesis using other short x by (simp add: Let_def sniffNoProgressReads_def)
  qed
qed

lemma sniff_keeps_bytes: "body_bytes (rs_reads (sniffAndClassify r)) = body_bytes (rs_reads r)"
  by (auto simp: sniffAndClassify_def restoreSniffedBody_def body_bytes_def split: prod.splits
      dest!: sniff_loop_bytes [unfolded body_bytes_def])

lemma sniff_sound:
  assumes "rs_contentType r = []" "rs_contentType (sniffAndClassify r) = ''text/event-stream''"
  shows "looksLikeSSE (body_bytes (rs_reads r)) = SseDetected"
proof -
  obtain v buf rest where l: "sniff_loop [] 0 (rs_reads r) = (v, buf, rest)" by (metis prod_cases3)
  then have "v = SseDetected" using assms by (auto simp: sniffAndClassify_def split: if_splits)
  then show ?thesis
    using sniff_loop_verdict [OF l] sniff_loop_bytes [OF l] looksLikeSSE_stable [of buf "body_bytes rest"] by simp
qed

end
