(* ===== verification/Routing.thy ===== *)
theory Routing
  imports Cooldown Inflight UpstreamError Sniff
begin

text \<open>
  The routing loop of \<open>Server.proxy\<close> (\<open>internal/server/client.go\<close>), from the resolved route to
  the selected response or the error of an exhausted route. One theory definition per stretch of
  the loop body, in the order of the code; what the world answers in one iteration (the client's
  context, the clock, the upstream response, the outcome of the request translation and of the
  reads) is a record \<open>iter_env\<close>, and \<open>env k\<close> is the record of the \<open>k\<close>-th iteration, so the
  theorems hold for every behaviour of the upstreams and of the client. The client's context is
  read several times in one iteration; \<open>ev_ctx ev j\<close> is the result of the \<open>j\<close>-th reading.
  Logging, latencies and live publication are left out.
\<close>

section \<open>Routes and candidates\<close>

record candidate =
  c_Provider :: provider
  c_ProviderModelID :: string
  c_UpstreamModelID :: string
  c_NativeProtocol :: string
  c_Available :: bool

record route =
  rt_Virtual :: bool
  rt_RoutingMode :: string
  rt_RouteModelID :: string
  rt_self :: candidate
  rt_Targets :: "candidate list"

record config =
  cf_accountID :: string
  cf_clientKeyID :: string
  cf_requestID :: string
  cf_incoming :: string
  cf_cooldownSeconds :: int
  cf_nonStreaming :: bool

definition ordered :: "route \<Rightarrow> bool" where
  "ordered rt \<longleftrightarrow> rt_RoutingMode rt = ''ordered_fallback''"

definition route_candidates :: "route \<Rightarrow> candidate list" where
  "route_candidates rt = (if rt_Virtual rt then rt_Targets rt else [rt_self rt])"

section \<open>What one iteration observes\<close>

datatype ctx_err = Canceled | DeadlineExceeded

datatype translation = Translated bool | UnsupportedFeature string | TranslationError string

datatype min_tokens = MinCompatible | MinIncompatible | MinError

datatype do_result = DoFailed bool | DoResponse response

datatype preflight = PreflightOk | PreflightTooLarge | PreflightReadError

datatype probe = ProbeOutput | ProbeStreamError | ProbeEmpty | ProbeInconclusive | ProbeReadError

record iter_env =
  ev_ctx :: "nat \<Rightarrow> ctx_err option"
  ev_now :: time
  ev_failedAt :: time
  ev_translate :: translation
  ev_normalizeFails :: bool
  ev_minTokens :: min_tokens
  ev_endpointOk :: bool
  ev_requestOk :: bool
  ev_do :: do_result
  ev_timedOut :: bool
  ev_errorBody :: "string option"
  ev_refresh :: "(string \<times> (string \<times> json) list \<times> string) option"
  ev_preflight :: preflight
  ev_probe :: probe

section \<open>The state of a request\<close>

datatype client_write =
    JsonError int string string string
  | StreamFailure string
  | Relayed string

record rstate =
  st_attempts :: "requestAttempt list"
  st_httpStatus :: int
  st_errorText :: "string option"
  st_errorMessage :: "string option"
  st_fallbackUsed :: bool
  st_fallbackReason :: "string option"
  st_reasoningStripped :: bool
  st_liveFallback :: bool
  st_candidates :: "candidate list"
  st_oauthRefreshed :: "string list"
  st_cooldown :: cooldownStore
  st_tracker :: inflightTracker
  st_emitted :: "emission list"
  st_protocolUnavailable :: bool
  st_translationFailureClass :: string
  st_nonTranslationFailure :: bool
  st_terminalPreflightClass :: string
  st_skippedCooled :: bool
  st_committed :: bool
  st_writes :: "client_write list"
  st_calls :: "(string \<times> string) list"
  st_activeTargetID :: string
  st_selected :: "(candidate \<times> string \<times> response) option"

text \<open>\<open>st_calls\<close> lists the upstream calls made: the leg's target and the provider instance called.
  \<open>st_writes\<close> lists what the handler wrote to the client, error bodies and stream failures.\<close>

datatype flow = Next rstate | Retry rstate | Return rstate | Success rstate

section \<open>Helpers of the loop\<close>

definition fallbackStatus :: "int \<Rightarrow> bool" where
  "fallbackStatus status \<longleftrightarrow> status < 200 \<or> 300 \<le> status"

definition compatibleProtocol :: "string list \<Rightarrow> string \<Rightarrow> string \<Rightarrow> string" where
  "compatibleProtocol protocols native incoming =
     (if native \<noteq> [] then native
      else if List.member protocols incoming then incoming
      else (case List.find (List.member protocols) [''messages'', ''chat'', ''responses''] of
              Some p \<Rightarrow> p | None \<Rightarrow> []))"

definition cooldownTrigger :: "string \<Rightarrow> int \<Rightarrow> bool" where
  "cooldownTrigger cls status =
     (if cls = ''context_limit_exceeded'' \<or> cls = ''reasoning_roundtrip_required'' then False
      else if cls \<in> {''upstream_unreachable'', ''upstream_timeout'', ''upstream_read_error'',
                     ''empty_response'', ''upstream_stream_error''} then True
      else if status = 0 then False
      else if status \<in> {405, 409, 413, 415, 422} then False
      else 400 \<le> status \<and> status < 600)"

definition client_class :: "ctx_err \<Rightarrow> string" where
  "client_class e = (case e of DeadlineExceeded \<Rightarrow> ''client_timeout'' | Canceled \<Rightarrow> ''client_cancelled'')"

definition clientFailureClass :: "ctx_err option \<Rightarrow> string \<Rightarrow> string" where
  "clientFailureClass ctx fallback = (case ctx of Some e \<Rightarrow> client_class e | None \<Rightarrow> fallback)"

definition allSkippedUnsupportedFeature :: "requestAttempt list \<Rightarrow> bool" where
  "allSkippedUnsupportedFeature as \<longleftrightarrow> as \<noteq> [] \<and>
     list_all (\<lambda>a. at_result a = ''skipped'' \<and> at_failureClass a = ''unsupported_feature'') as"

definition allAttemptsFailureClass :: "requestAttempt list \<Rightarrow> string \<Rightarrow> bool" where
  "allAttemptsFailureClass as cls \<longleftrightarrow> as \<noteq> [] \<and>
     list_all (\<lambda>a. at_result a = ''failed'' \<and> at_failureClass a = cls) as"

definition hasFailedAttempt :: "requestAttempt list \<Rightarrow> bool" where
  "hasFailedAttempt as \<longleftrightarrow> list_ex (\<lambda>a. at_result a = ''failed'') as"

definition IsOpenCodeFreeModel :: "string \<Rightarrow> bool" where
  "IsOpenCodeFreeModel m =
     (let i = to_lower m in
      if i = [] then False else if i = ''big-pickle'' then True
      else has_suffix i ''-free'' \<and> i \<noteq> ''ox-alpha-free'')"

definition oauth_type :: "string \<Rightarrow> bool" where
  "oauth_type t \<longleftrightarrow> t \<in> {''codex-subscription'', ''claude-subscription'', ''github-copilot''}"

definition mk_attempt :: "candidate \<Rightarrow> string \<Rightarrow> int \<Rightarrow> string \<Rightarrow> string option \<Rightarrow> string \<Rightarrow> requestAttempt" where
  "mk_attempt c result status cls msg clientErr =
     \<lparr>at_providerModelID = c_ProviderModelID c, at_provider = p_Name (c_Provider c),
      at_model = c_UpstreamModelID c, at_result = result, at_failureClass = cls, at_httpStatus = status,
      at_errorMessage = msg, at_clientError = clientErr, at_recovered = False\<rparr>"

definition add_attempt :: "rstate \<Rightarrow> requestAttempt \<Rightarrow> rstate" where
  "add_attempt st a = st\<lparr>st_attempts := st_attempts st @ [a]\<rparr>"

definition set_row :: "rstate \<Rightarrow> int \<Rightarrow> string \<Rightarrow> rstate" where
  "set_row st status cls = st\<lparr>st_httpStatus := status, st_errorText := Some cls,
                              st_errorMessage := strPtrIfNonEmpty (fixedUpstreamErrorMessage cls)\<rparr>"

definition add_write :: "rstate \<Rightarrow> client_write \<Rightarrow> rstate" where
  "add_write st w = st\<lparr>st_writes := st_writes st @ [w]\<rparr>"

definition inferenceError :: "rstate \<Rightarrow> int \<Rightarrow> string \<Rightarrow> string \<Rightarrow> string \<Rightarrow> rstate" where
  "inferenceError st status ty code msg = add_write st (JsonError status ty code msg)"

text \<open>\<open>failAfterCommit\<close> followed by \<open>inferenceError\<close> when no stream was committed.\<close>

definition terminal_error :: "rstate \<Rightarrow> int \<Rightarrow> string \<Rightarrow> string \<Rightarrow> string \<Rightarrow> rstate" where
  "terminal_error st status ty code msg =
     (if st_committed st then add_write st (StreamFailure code) else inferenceError st status ty code msg)"

definition st_target :: "(inflightTracker \<Rightarrow> inflightTracker \<times> emission list) \<Rightarrow> rstate \<Rightarrow> rstate" where
  "st_target f st = (case f (st_tracker st) of
     (t, es) \<Rightarrow> st\<lparr>st_tracker := t, st_emitted := st_emitted st @ es\<rparr>)"

definition leg_end :: "config \<Rightarrow> route \<Rightarrow> string \<Rightarrow> rstate \<Rightarrow> rstate" where
  "leg_end cf rt targetID st =
     st_target (\<lambda>t. targetEnd t (cf_accountID cf) (rt_RouteModelID rt) targetID) st"

definition leg_start :: "config \<Rightarrow> route \<Rightarrow> string \<Rightarrow> rstate \<Rightarrow> rstate" where
  "leg_start cf rt targetID st =
     st_target (\<lambda>t. targetStart t (cf_accountID cf) (rt_RouteModelID rt) targetID) st"

definition recordSkippedAttempt :: "config \<Rightarrow> route \<Rightarrow> rstate \<Rightarrow> requestAttempt \<Rightarrow> bool \<Rightarrow> rstate" where
  "recordSkippedAttempt cf rt st a advances =
     (let a = a\<lparr>at_result := ''skipped''\<rparr>;
          st = add_attempt st a;
          st = (if advances \<and> rt_Virtual rt \<and> ordered rt
                then st\<lparr>st_fallbackUsed := True,
                        st_fallbackReason := (case st_fallbackReason st of
                          None \<Rightarrow> Some (at_failureClass a) | Some r \<Rightarrow> Some r)\<rparr>
                else st)
      in st_target (\<lambda>t. targetSkipped t (cf_accountID cf) (rt_RouteModelID rt) (cf_clientKeyID cf)
                          (at_providerModelID a) (at_failureClass a)) st)"

definition openCooldown :: "config \<Rightarrow> iter_env \<Rightarrow> candidate \<Rightarrow> string \<Rightarrow> string \<Rightarrow> rstate \<Rightarrow> rstate" where
  "openCooldown cf ev c cls message st =
     st\<lparr>st_cooldown := cooldown_set (st_cooldown st) (cf_accountID cf) (c_ProviderModelID c)
          (ev_failedAt ev) (time_add (ev_failedAt ev) (seconds (cf_cooldownSeconds cf)))
          (p_Name (c_Provider c)) (c_UpstreamModelID c) (cf_requestID cf) cls message\<rparr>"

section \<open>The top of an iteration\<close>

definition attempt_top :: "config \<Rightarrow> route \<Rightarrow> iter_env \<Rightarrow> nat \<Rightarrow> nat \<Rightarrow> rstate \<Rightarrow> flow + rstate" where
  "attempt_top cf rt ev pass i st =
     (let st = st\<lparr>st_liveFallback := st_liveFallback st \<or> (ordered rt \<and> (0 < i \<or> 0 < pass))\<rparr> in
      case ev_ctx ev 0 of
        None \<Rightarrow> Inr st
      | Some e \<Rightarrow>
          (let cls = client_class e;
               st = (set_row st 502 cls)\<lparr>st_fallbackReason := Some cls\<rparr>
           in Inl (Return (terminal_error st 502 ''api_error'' cls
                      ''The client request ended before fallback could complete.''))))"

section \<open>Guards: availability, cooldown, free tier, protocol\<close>

definition attempt_guards ::
  "config \<Rightarrow> route \<Rightarrow> iter_env \<Rightarrow> nat \<Rightarrow> candidate \<Rightarrow> bool \<Rightarrow> rstate \<Rightarrow> flow + (rstate \<times> string)" where
  "attempt_guards cf rt ev pass c advances st =
     (let skip = (\<lambda>st cls msg. recordSkippedAttempt cf rt st (mk_attempt c [] 0 cls msg []) advances);
          keyless = ''free_model_requires_keyless'' in
      if \<not> c_Available c then
        Inl (Next (skip (st\<lparr>st_nonTranslationFailure := True\<rparr>) ''unavailable'' None))
      else if ordered rt \<and> 0 < cf_cooldownSeconds cf \<and> pass \<noteq> 1 \<and>
              cooled (st_cooldown st) (cf_accountID cf) (c_ProviderModelID c) (ev_now ev) then
        Inl (Next (skip (st\<lparr>st_skippedCooled := True\<rparr>) ''cooldown'' None))
      else if p_Credential (c_Provider c) \<noteq> [] \<and>
              (p_Type (c_Provider c) = ''opencode-zen'' \<or> p_Type (c_Provider c) = ''opencode-go'') \<and>
              IsOpenCodeFreeModel (c_UpstreamModelID c) then
        (if \<not> rt_Virtual rt then
           Inl (Return (inferenceError (set_row st 400 keyless) 400 ''invalid_request_error'' keyless
             ''This is an OpenCode free-tier model and cannot be served with a credential. Configure it through an opencode-free provider instead.''))
         else Inl (Next (skip (st\<lparr>st_nonTranslationFailure := True\<rparr>) keyless
                           (strPtrIfNonEmpty (fixedUpstreamErrorMessage keyless)))))
      else
        (let target = compatibleProtocol (p_Protocols (c_Provider c)) (c_NativeProtocol c) (cf_incoming cf) in
         if target = [] then
           Inl (Next (skip (st\<lparr>st_protocolUnavailable := True, st_nonTranslationFailure := True\<rparr>)
                        ''protocol_unavailable'' None))
         else Inr (st, target)))"

section \<open>Preparing the request body\<close>

definition normalized_by :: "candidate \<Rightarrow> string \<Rightarrow> string option" where
  "normalized_by c target =
     (if p_Type (c_Provider c) = ''claude-subscription'' \<and> target = ''messages''
      then Some ''The Claude request could not be normalized.''
      else if p_Type (c_Provider c) = ''codex-subscription''
      then Some ''The Codex request could not be normalized.''
      else if p_Type (c_Provider c) = ''deepseek'' \<and> target = ''chat''
      then Some ''The DeepSeek request could not be normalized.''
      else None)"

definition attempt_translate ::
  "config \<Rightarrow> route \<Rightarrow> iter_env \<Rightarrow> candidate \<Rightarrow> bool \<Rightarrow> string \<Rightarrow> rstate \<Rightarrow> flow + rstate" where
  "attempt_translate cf rt ev c advances target st =
     (let failed = (\<lambda>code msg.
            if \<not> rt_Virtual rt
            then Inl (Return (inferenceError (set_row st 400 code) 400 ''invalid_request_error'' code msg))
            else Inl (Next (recordSkippedAttempt cf rt (st\<lparr>st_translationFailureClass := code\<rparr>)
                              (mk_attempt c [] 0 code (Some msg) []) advances)))
      in if target = cf_incoming cf then Inr st
         else (case ev_translate ev of
                 TranslationError msg \<Rightarrow> failed ''translation_error'' msg
               | UnsupportedFeature msg \<Rightarrow> failed ''unsupported_feature'' msg
               | Translated stripped \<Rightarrow>
                   Inr (st\<lparr>st_reasoningStripped := st_reasoningStripped st \<or> stripped\<rparr>)))"

definition attempt_normalize ::
  "config \<Rightarrow> route \<Rightarrow> iter_env \<Rightarrow> candidate \<Rightarrow> bool \<Rightarrow> string \<Rightarrow> rstate \<Rightarrow> flow + rstate" where
  "attempt_normalize cf rt ev c advances target st =
     (let bad = (\<lambda>msg. Inl (Return (inferenceError (set_row st 400 ''invalid_request'') 400
                                     ''invalid_request_error'' ''invalid_request'' msg)));
          unsup = ''unsupported_feature'' in
      case (if ev_normalizeFails ev then normalized_by c target else None) of
        Some msg \<Rightarrow> bad msg
      | None \<Rightarrow>
          (if p_MinOutputTokens (c_Provider c) \<le> 0 then Inr st
           else (case ev_minTokens ev of
                   MinCompatible \<Rightarrow> Inr st
                 | MinError \<Rightarrow> bad ''Could not apply minimum output tokens.''
                 | MinIncompatible \<Rightarrow>
                     (if \<not> rt_Virtual rt then
                        Inl (Return (inferenceError (set_row st 400 unsup) 400 ''invalid_request_error'' unsup
                               ''The model requires a higher minimum output length than requested.''))
                      else Inl (Next (recordSkippedAttempt cf rt st
                             (mk_attempt c [] 0 unsup (strPtrIfNonEmpty (fixedUpstreamErrorMessage unsup)) [])
                             advances))))))"

section \<open>The upstream call and its network errors\<close>

definition target_id :: "candidate \<Rightarrow> string" where
  "target_id c = (if c_ProviderModelID c = [] then p_Name (c_Provider c) @ ''/'' @ c_UpstreamModelID c
                  else c_ProviderModelID c)"

definition net_error :: "config \<Rightarrow> route \<Rightarrow> iter_env \<Rightarrow> candidate \<Rightarrow> bool \<Rightarrow> rstate \<Rightarrow> flow" where
  "net_error cf rt ev c timeout st =
     (let st = leg_end cf rt (target_id c) st;
          cls = clientFailureClass (ev_ctx ev 1)
                  (if timeout then ''upstream_timeout'' else ''upstream_unreachable'');
          st = (add_attempt st (mk_attempt c ''failed'' 0 cls
                  (strPtrIfNonEmpty (fixedUpstreamErrorMessage cls)) []))\<lparr>st_nonTranslationFailure := True\<rparr>
      in case ev_ctx ev 2 of
           Some e \<Rightarrow>
             (let st = st\<lparr>st_httpStatus := 502, st_errorText := Some (client_class e),
                          st_fallbackReason := Some (client_class e)\<rparr>
              in Return (terminal_error st 502 ''api_error'' (client_class e)
                   ''The client request ended before fallback could complete.''))
         | None \<Rightarrow>
             (let st = (if ordered rt \<and> 0 < cf_cooldownSeconds cf \<and> cooldownTrigger cls 0 \<and> ev_ctx ev 3 = None
                        then openCooldown cf ev c cls (fixedUpstreamErrorMessage cls) st else st)
              in if \<not> rt_Virtual rt
                 then Return (terminal_error (set_row st 502 cls) 502 ''api_error'' cls
                        ''The upstream provider could not complete the request.'')
                 else Next (st\<lparr>st_fallbackUsed := True, st_fallbackReason := Some cls\<rparr>)))"

definition classify_response :: "candidate \<Rightarrow> response \<Rightarrow> response" where
  "classify_response c r =
     (if fallbackStatus (rs_status r) then r
      else if p_Type (c_Provider c) = ''codex-subscription''
      then r\<lparr>rs_contentType := ''text/event-stream''\<rparr>
      else sniffAndClassify r)"

definition attempt_send :: "config \<Rightarrow> route \<Rightarrow> iter_env \<Rightarrow> candidate \<Rightarrow> rstate \<Rightarrow> flow + (rstate \<times> response)" where
  "attempt_send cf rt ev c st =
     (if \<not> ev_endpointOk ev then
        Inl (Next (add_attempt (st\<lparr>st_nonTranslationFailure := True\<rparr>)
                     (mk_attempt c ''failed'' 0 ''invalid_upstream'' None [])))
      else if \<not> ev_requestOk ev then Inl (Next st)
      else (let st = leg_start cf rt (target_id c) st;
                st = st\<lparr>st_calls := st_calls st @ [(target_id c, p_ID (c_Provider c))]\<rparr>
            in case ev_do ev of
                 DoFailed timeout \<Rightarrow> Inl (net_error cf rt ev c timeout st)
               | DoResponse r \<Rightarrow> Inr (st, classify_response c r)))"

section \<open>A response outside 2xx\<close>

definition http_class :: "int \<Rightarrow> string" where
  "http_class status = ''http_'' @ itoa status"

definition error_body :: "iter_env \<Rightarrow> string" where
  "error_body ev = (case ev_errorBody ev of Some b \<Rightarrow> b | None \<Rightarrow> [])"

definition error_detail :: "iter_env \<Rightarrow> response \<Rightarrow> upstreamErrorDetail" where
  "error_detail ev r = (if ev_timedOut ev \<or> error_body ev = [] then no_detail
                        else parseUpstreamErrorDetail (error_body ev) (rs_contentType r))"

definition free_tier :: "iter_env \<Rightarrow> bool" where
  "free_tier ev \<longleftrightarrow> ev_errorBody ev \<noteq> None \<and> isOpenCodeFreeTierRejection (error_body ev)"

definition status_class :: "iter_env \<Rightarrow> response \<Rightarrow> string" where
  "status_class ev r =
     (if free_tier ev then ''free_tier_rejected''
      else if ev_timedOut ev then ''upstream_timeout''
      else if error_body ev \<noteq> [] \<and> isContextLimitError (error_detail ev r) then ''context_limit_exceeded''
      else if error_body ev \<noteq> [] \<and> isReasoningRoundtripError (error_detail ev r)
      then ''reasoning_roundtrip_required''
      else http_class (rs_status r))"

definition status_attempt :: "iter_env \<Rightarrow> candidate \<Rightarrow> response \<Rightarrow> requestAttempt" where
  "status_attempt ev c r =
     mk_attempt c ''failed'' (rs_status r) (status_class ev r)
       (strPtrIfNonEmpty (fixedUpstreamErrorMessage (status_class ev r)))
       (if error_body ev \<noteq> [] then redactProviderSecrets (clientMessage (error_detail ev r)) (c_Provider c)
        else [])"

definition refresh_provider :: "provider \<Rightarrow> string \<times> (string \<times> json) list \<times> string \<Rightarrow> provider" where
  "refresh_provider p tok = (case tok of (credential, pdata, account) \<Rightarrow>
     p\<lparr>p_Credential := credential, p_OAuthProviderData := pdata,
       p_OAuthAccountID := (if p_Type p = ''codex-subscription'' then account else p_OAuthAccountID p)\<rparr>)"

definition mark_recovered :: "requestAttempt list \<Rightarrow> requestAttempt list" where
  "mark_recovered as = (if as = [] then [] else butlast as @ [(last as)\<lparr>at_recovered := True\<rparr>])"

definition adopt_refresh :: "candidate \<Rightarrow> provider \<Rightarrow> rstate \<Rightarrow> rstate" where
  "adopt_refresh c p st =
     st\<lparr>st_oauthRefreshed := p_ID (c_Provider c) # st_oauthRefreshed st,
        st_attempts := mark_recovered (st_attempts st),
        st_candidates := List.map (\<lambda>d. if p_ID (c_Provider d) = p_ID (c_Provider c)
                                       then d\<lparr>c_Provider := p\<rparr> else d) (st_candidates st)\<rparr>"

definition direct_status_error :: "iter_env \<Rightarrow> candidate \<Rightarrow> response \<Rightarrow> rstate \<Rightarrow> rstate" where
  "direct_status_error ev c r st =
     (let cls = status_class ev r; detail = at_clientError (status_attempt ev c r) in
      if cls = ''context_limit_exceeded'' \<or> cls = ''reasoning_roundtrip_required'' then
        terminal_error (set_row st (rs_status r) cls) (rs_status r) ''api_error'' cls
          (fixedUpstreamErrorMessage cls @
             (if detail \<noteq> [] \<and> cls = ''context_limit_exceeded'' then '' '' @ detail else []))
      else if free_tier ev then
        terminal_error (set_row st 400 ''free_tier_rejected'') 400 ''api_error'' ''free_tier_rejected''
          (''OpenCode declined the free-tier request: it can only be served from within OpenCode. Use a keyed opencode-zen or opencode-go provider for this model.'' @
           (if detail \<noteq> [] then '' Upstream detail: '' @ detail else []))
      else
        terminal_error (set_row st (rs_status r) ''upstream_error'') (rs_status r) ''api_error'' ''upstream_error''
          (if detail \<noteq> [] then detail @ '' (HTTP '' @ itoa (rs_status r) @ '')''
           else ''Upstream provider returned HTTP '' @ itoa (rs_status r) @ ''.''))"

definition attempt_status :: "config \<Rightarrow> route \<Rightarrow> iter_env \<Rightarrow> candidate \<Rightarrow> response \<Rightarrow> rstate \<Rightarrow> flow + rstate" where
  "attempt_status cf rt ev c r st =
     (if \<not> fallbackStatus (rs_status r) then Inr st
      else
        (let st = leg_end cf rt (target_id c) st;
             cls = status_class ev r;
             st = (add_attempt st (status_attempt ev c r))\<lparr>st_nonTranslationFailure := True\<rparr>;
             refreshed = (if \<not> List.member (st_oauthRefreshed st) (p_ID (c_Provider c)) \<and>
                             (rs_status r = 401 \<or> rs_status r = 403) \<and> oauth_type (p_Type (c_Provider c))
                          then ev_refresh ev else None)
         in case refreshed of
              Some tok \<Rightarrow> Inl (Retry (adopt_refresh c (refresh_provider (c_Provider c) tok) st))
            | None \<Rightarrow>
                (let st = (if ordered rt \<and> 0 < cf_cooldownSeconds cf \<and> cooldownTrigger cls (rs_status r)
                           then openCooldown cf ev c cls
                                  (fixedUpstreamErrorMessage (if cls = ''free_tier_rejected'' then cls
                                                              else ''upstream_error'')) st
                           else st)
                 in if \<not> rt_Virtual rt \<or> \<not> fallbackStatus (rs_status r)
                    then Inl (Return (direct_status_error ev c r st))
                    else Inl (Next (st\<lparr>st_fallbackUsed := True, st_fallbackReason := Some cls\<rparr>)))))"

section \<open>Early commit and the bounded read of a 2xx response\<close>

definition commit_stream :: "config \<Rightarrow> route \<Rightarrow> response \<Rightarrow> rstate \<Rightarrow> rstate" where
  "commit_stream cf rt r st =
     (if rt_Virtual rt \<and> ordered rt \<and> isStreamingResponse r \<and> \<not> cf_nonStreaming cf \<and> \<not> st_committed st
      then st\<lparr>st_committed := True\<rparr> else st)"

definition preflight_class :: "iter_env \<Rightarrow> string" where
  "preflight_class ev =
     (if ev_preflight ev = PreflightTooLarge then ''upstream_response_too_large''
      else clientFailureClass (ev_ctx ev 1)
             (if ev_timedOut ev then ''upstream_timeout'' else ''upstream_read_error''))"

definition attempt_preflight :: "config \<Rightarrow> route \<Rightarrow> iter_env \<Rightarrow> candidate \<Rightarrow> rstate \<Rightarrow> flow + rstate" where
  "attempt_preflight cf rt ev c st =
     (if ev_preflight ev = PreflightOk then Inr st
      else
        (let st = leg_end cf rt (target_id c) st;
             cls = preflight_class ev;
             st = (add_attempt st (mk_attempt c ''failed'' 0 cls
                     (strPtrIfNonEmpty (fixedUpstreamErrorMessage cls)) []))
                    \<lparr>st_terminalPreflightClass := cls, st_nonTranslationFailure := True\<rparr>;
             st = (if ordered rt \<and> 0 < cf_cooldownSeconds cf \<and> cooldownTrigger cls 0 \<and> ev_ctx ev 2 = None
                   then openCooldown cf ev c cls (fixedUpstreamErrorMessage cls) st else st)
         in if \<not> rt_Virtual rt \<or> ev_ctx ev 3 \<noteq> None
            then Inl (Return (terminal_error (set_row st 502 cls) 502 ''api_error'' cls
                   (if ev_preflight ev = PreflightTooLarge
                    then ''The upstream provider response exceeded Tiller'' @ [CHR 0x27] @ ''s non-streaming response limit.''
                    else ''The upstream provider could not complete the request.'')))
            else Inl (Next (st\<lparr>st_fallbackUsed := True, st_fallbackReason := Some cls\<rparr>))))"

section \<open>The output probe and selection\<close>

definition probe_class :: "iter_env \<Rightarrow> response \<Rightarrow> string" where
  "probe_class ev r =
     (if \<not> isStreamingResponse r then []
      else (case ev_probe ev of
              ProbeReadError \<Rightarrow> clientFailureClass (ev_ctx ev 4)
                (if ev_timedOut ev then ''upstream_timeout'' else ''upstream_read_error'')
            | ProbeStreamError \<Rightarrow> ''upstream_stream_error''
            | ProbeEmpty \<Rightarrow> ''empty_response''
            | ProbeOutput \<Rightarrow> []
            | ProbeInconclusive \<Rightarrow> []))"

definition recordPreOutputFailure ::
  "config \<Rightarrow> iter_env \<Rightarrow> candidate \<Rightarrow> requestAttempt \<Rightarrow> string \<Rightarrow> rstate \<Rightarrow> flow" where
  "recordPreOutputFailure cf ev c a cls st =
     (let st = add_attempt st a;
          st = (if 0 < cf_cooldownSeconds cf \<and> cooldownTrigger cls (at_httpStatus a) \<and> ev_ctx ev 5 = None
                then openCooldown cf ev c cls (fixedUpstreamErrorMessage cls) st else st)
      in case ev_ctx ev 6 of
           Some e \<Rightarrow>
             (let st = (set_row st 502 (client_class e))\<lparr>st_fallbackReason := Some (client_class e)\<rparr>
              in Return (terminal_error st 502 ''api_error'' (client_class e)
                   ''The upstream provider could not complete the request.''))
         | None \<Rightarrow> Next (st\<lparr>st_fallbackUsed := True, st_fallbackReason := Some cls\<rparr>))"

definition attempt_probe :: "config \<Rightarrow> route \<Rightarrow> iter_env \<Rightarrow> candidate \<Rightarrow> response \<Rightarrow> rstate \<Rightarrow> flow + rstate" where
  "attempt_probe cf rt ev c r st =
     (if rt_Virtual rt \<and> ordered rt \<and> probe_class ev r \<noteq> [] then
        (let cls = probe_class ev r;
             st = (leg_end cf rt (target_id c) st)\<lparr>st_nonTranslationFailure := True\<rparr>
         in Inl (recordPreOutputFailure cf ev c
                   (mk_attempt c ''failed'' (rs_status r) cls
                      (strPtrIfNonEmpty (fixedUpstreamErrorMessage cls)) []) cls st))
      else Inr st)"

definition select_target :: "candidate \<Rightarrow> string \<Rightarrow> response \<Rightarrow> rstate \<Rightarrow> rstate" where
  "select_target c target r st =
     (add_attempt st (mk_attempt c ''success'' (rs_status r) [] None []))
       \<lparr>st_selected := Some (c, target, r), st_activeTargetID := target_id c\<rparr>"

section \<open>One iteration\<close>

fun and_then :: "flow + 'a \<Rightarrow> ('a \<Rightarrow> flow) \<Rightarrow> flow" where
  "and_then (Inl f) k = f"
| "and_then (Inr x) k = k x"

definition attempt_response ::
  "config \<Rightarrow> route \<Rightarrow> iter_env \<Rightarrow> candidate \<Rightarrow> string \<Rightarrow> response \<Rightarrow> rstate \<Rightarrow> flow" where
  "attempt_response cf rt ev c target r st =
     and_then (attempt_status cf rt ev c r st) (\<lambda>st.
     and_then (attempt_preflight cf rt ev c (commit_stream cf rt r st)) (\<lambda>st.
     and_then (attempt_probe cf rt ev c r st) (\<lambda>st.
       Success (select_target c target r st))))"

definition attempt_call ::
  "config \<Rightarrow> route \<Rightarrow> iter_env \<Rightarrow> candidate \<Rightarrow> string \<Rightarrow> rstate \<Rightarrow> flow" where
  "attempt_call cf rt ev c target st =
     and_then (attempt_send cf rt ev c st) (\<lambda>(st, r). attempt_response cf rt ev c target r st)"

definition iteration :: "config \<Rightarrow> route \<Rightarrow> iter_env \<Rightarrow> nat \<Rightarrow> nat \<Rightarrow> rstate \<Rightarrow> flow" where
  "iteration cf rt ev pass i st =
     (let c = st_candidates st ! i; advances = (i + 1 < length (st_candidates st)) in
      and_then (attempt_top cf rt ev pass i st) (\<lambda>st.
      and_then (attempt_guards cf rt ev pass c advances st) (\<lambda>(st, target).
      and_then (attempt_translate cf rt ev c advances target st) (\<lambda>st.
      and_then (attempt_normalize cf rt ev c advances target st) (\<lambda>st.
        attempt_call cf rt ev c target st)))))"

section \<open>The loops\<close>

definition unrefreshed :: "rstate \<Rightarrow> nat" where
  "unrefreshed st = length (filter (\<lambda>c. \<not> List.member (st_oauthRefreshed st) (p_ID (c_Provider c)))
                              (st_candidates st))"

text \<open>The result of a pass: how it ended, and the number of iterations made so far.\<close>

datatype pass_end = Exhausted | Returned | Selected

function run_pass ::
  "config \<Rightarrow> route \<Rightarrow> (nat \<Rightarrow> iter_env) \<Rightarrow> nat \<Rightarrow> nat \<Rightarrow> nat \<Rightarrow> rstate \<Rightarrow> pass_end \<times> nat \<times> rstate" where
  "run_pass cf rt env pass k i st =
     (if i < length (st_candidates st) then
        (case iteration cf rt (env k) pass i st of
           Return st' \<Rightarrow> (Returned, k + 1, st')
         | Success st' \<Rightarrow> (Selected, k + 1, st')
         | Next st' \<Rightarrow> run_pass cf rt env pass (k + 1) (i + 1) st'
         | Retry st' \<Rightarrow> run_pass cf rt env pass (k + 1) i st')
      else (Exhausted, k, st))"
  by pat_completeness auto

text \<open>What every stretch of the body keeps of the state.\<close>

definition same_candidates :: "rstate \<Rightarrow> rstate \<Rightarrow> bool" where
  "same_candidates st st' \<longleftrightarrow> st_candidates st' = st_candidates st \<and> st_oauthRefreshed st' = st_oauthRefreshed st"

lemma same_candidates_refl [simp]: "same_candidates st st"
  by (simp add: same_candidates_def)

lemmas row_defs =
  add_attempt_def set_row_def add_write_def inferenceError_def terminal_error_def st_target_def
  leg_end_def leg_start_def recordSkippedAttempt_def openCooldown_def

lemma candidates_rows [simp]:
  "st_candidates (add_attempt st a) = st_candidates st"
  "st_candidates (set_row st n cls) = st_candidates st"
  "st_candidates (add_write st w) = st_candidates st"
  "st_candidates (inferenceError st n ty code msg) = st_candidates st"
  "st_candidates (terminal_error st n ty code msg) = st_candidates st"
  "st_candidates (st_target f st) = st_candidates st"
  "st_candidates (leg_end cf rt x st) = st_candidates st"
  "st_candidates (leg_start cf rt x st) = st_candidates st"
  "st_candidates (recordSkippedAttempt cf rt st a b) = st_candidates st"
  "st_candidates (openCooldown cf ev c cls msg st) = st_candidates st"
  "st_candidates (commit_stream cf rt r st) = st_candidates st"
  "st_candidates (direct_status_error ev c r st) = st_candidates st"
  "st_candidates (select_target c target r st) = st_candidates st"
  "st_oauthRefreshed (add_attempt st a) = st_oauthRefreshed st"
  "st_oauthRefreshed (set_row st n cls) = st_oauthRefreshed st"
  "st_oauthRefreshed (add_write st w) = st_oauthRefreshed st"
  "st_oauthRefreshed (inferenceError st n ty code msg) = st_oauthRefreshed st"
  "st_oauthRefreshed (terminal_error st n ty code msg) = st_oauthRefreshed st"
  "st_oauthRefreshed (st_target f st) = st_oauthRefreshed st"
  "st_oauthRefreshed (leg_end cf rt x st) = st_oauthRefreshed st"
  "st_oauthRefreshed (leg_start cf rt x st) = st_oauthRefreshed st"
  "st_oauthRefreshed (recordSkippedAttempt cf rt st a b) = st_oauthRefreshed st"
  "st_oauthRefreshed (openCooldown cf ev c cls msg st) = st_oauthRefreshed st"
  "st_oauthRefreshed (commit_stream cf rt r st) = st_oauthRefreshed st"
  "st_oauthRefreshed (direct_status_error ev c r st) = st_oauthRefreshed st"
  "st_oauthRefreshed (select_target c target r st) = st_oauthRefreshed st"
  by (simp_all add: row_defs commit_stream_def direct_status_error_def select_target_def Let_def split: prod.split)

section \<open>Reasoning about the stretches of the body\<close>

text \<open>\<open>leaves P Q x\<close>: a stretch that leaves the body does so with \<open>P\<close>, one that goes on with \<open>Q\<close>.\<close>

fun leaves :: "(flow \<Rightarrow> bool) \<Rightarrow> ('a \<Rightarrow> bool) \<Rightarrow> flow + 'a \<Rightarrow> bool" where
  "leaves P Q (Inl f) = P f"
| "leaves P Q (Inr y) = Q y"

lemma leaves_and_then: "leaves P Q x \<Longrightarrow> (\<And>y. Q y \<Longrightarrow> P (k y)) \<Longrightarrow> P (and_then x k)"
  by (cases x) auto

lemma leaves_if [simp]: "leaves P Q (if b then x else y) \<longleftrightarrow> (b \<longrightarrow> leaves P Q x) \<and> (\<not> b \<longrightarrow> leaves P Q y)"
  by simp

fun flow_ok :: "(rstate \<Rightarrow> bool) \<Rightarrow> (rstate \<Rightarrow> bool) \<Rightarrow> (rstate \<Rightarrow> bool) \<Rightarrow> (rstate \<Rightarrow> bool) \<Rightarrow> flow \<Rightarrow> bool" where
  "flow_ok N R T S (Next st) = N st"
| "flow_ok N R T S (Retry st) = R st"
| "flow_ok N R T S (Return st) = T st"
| "flow_ok N R T S (Success st) = S st"

lemma refresh_provider_id [simp]: "p_ID (refresh_provider p tok) = p_ID p"
  by (simp add: refresh_provider_def split: prod.split)

text \<open>The retried candidate's provider was not refreshed before, and is now.\<close>

definition retry_frame :: "rstate \<Rightarrow> candidate \<Rightarrow> rstate \<Rightarrow> bool" where
  "retry_frame st c st' \<longleftrightarrow>
     \<not> List.member (st_oauthRefreshed st) (p_ID (c_Provider c)) \<and>
     st_oauthRefreshed st' = p_ID (c_Provider c) # st_oauthRefreshed st \<and>
     oauth_type (p_Type (c_Provider c)) \<and>
     (\<exists>p. p_ID p = p_ID (c_Provider c) \<and>
       st_candidates st' = List.map (\<lambda>d. if p_ID (c_Provider d) = p_ID (c_Provider c)
                                         then d\<lparr>c_Provider := p\<rparr> else d) (st_candidates st))"

definition frame_flow :: "rstate \<Rightarrow> candidate \<Rightarrow> flow \<Rightarrow> bool" where
  "frame_flow st c = flow_ok (same_candidates st) (retry_frame st c) (same_candidates st) (same_candidates st)"

lemma attempt_top_frame: "leaves (frame_flow st c) (same_candidates st) (attempt_top cf rt ev pass i st)"
  by (auto simp: attempt_top_def frame_flow_def same_candidates_def Let_def split: option.split)

lemma attempt_guards_frame:
  "leaves (frame_flow st c) (\<lambda>(st', _). same_candidates st st') (attempt_guards cf rt ev pass c adv st)"
  by (simp add: attempt_guards_def frame_flow_def same_candidates_def Let_def)

lemma attempt_translate_frame:
  "leaves (frame_flow st c) (same_candidates st) (attempt_translate cf rt ev c adv target st)"
  by (simp add: attempt_translate_def frame_flow_def same_candidates_def Let_def split: translation.split)

lemma attempt_normalize_frame:
  "leaves (frame_flow st c) (same_candidates st) (attempt_normalize cf rt ev c adv target st)"
  by (simp add: attempt_normalize_def frame_flow_def same_candidates_def Let_def
      split: min_tokens.split option.split)

lemma attempt_send_frame:
  "leaves (frame_flow st c) (\<lambda>(st', _). same_candidates st st') (attempt_send cf rt ev c st)"
  by (simp add: attempt_send_def net_error_def frame_flow_def same_candidates_def Let_def
      split: do_result.split option.split)

lemma attempt_status_frame:
  "leaves (frame_flow st c) (same_candidates st) (attempt_status cf rt ev c r st)"
proof -
  have "retry_frame st c (adopt_refresh c (refresh_provider (c_Provider c) tok) st1)"
    if "same_candidates st st1" "\<not> List.member (st_oauthRefreshed st) (p_ID (c_Provider c))"
       "oauth_type (p_Type (c_Provider c))" for tok st1
    using that unfolding retry_frame_def adopt_refresh_def same_candidates_def
    by (auto intro!: exI [of _ "refresh_provider (c_Provider c) tok"])
  then show ?thesis
    by (simp add: attempt_status_def frame_flow_def same_candidates_def Let_def split: option.split)
qed

lemma attempt_preflight_frame:
  "leaves (frame_flow st c) (same_candidates st) (attempt_preflight cf rt ev c st)"
  by (simp add: attempt_preflight_def frame_flow_def same_candidates_def Let_def)

lemma attempt_probe_frame:
  "leaves (frame_flow st c) (same_candidates st) (attempt_probe cf rt ev c r st)"
  by (simp add: attempt_probe_def recordPreOutputFailure_def frame_flow_def same_candidates_def Let_def
      split: option.split)

lemma frame_flow_cong: "same_candidates st st' \<Longrightarrow> frame_flow st' c = frame_flow st c"
  by (simp add: frame_flow_def same_candidates_def [abs_def] retry_frame_def [abs_def])

lemma same_candidates_commit [simp]: "same_candidates st (commit_stream cf rt r st)"
  by (simp add: same_candidates_def)

text \<open>Composition: a stretch proved from its own state also holds from an earlier one.\<close>

lemma frame_then:
  assumes "same_candidates st st'" "leaves (frame_flow st' c) Q x" "\<And>y. Q y \<Longrightarrow> frame_flow st c (k y)"
  shows "frame_flow st c (and_then x k)"
  using assms(2,3) frame_flow_cong [OF assms(1)] by (cases x) auto

lemma same_candidates_trans: "same_candidates a b \<Longrightarrow> same_candidates b d \<Longrightarrow> same_candidates a d"
  by (simp add: same_candidates_def)

lemma attempt_response_frame:
  assumes "same_candidates st st'"
  shows "frame_flow st c (attempt_response cf rt ev c target r st')"
  unfolding attempt_response_def
  by (rule frame_then [OF _ attempt_status_frame], rule assms,
      rule frame_then [OF _ attempt_preflight_frame], erule same_candidates_trans [OF assms same_candidates_trans],
      rule same_candidates_commit,
      rule frame_then [OF _ attempt_probe_frame])
     (auto simp: frame_flow_def same_candidates_def assms [unfolded same_candidates_def])

lemma iteration_frame: "frame_flow st (st_candidates st ! i) (iteration cf rt ev pass i st)"
proof -
  let ?c = "st_candidates st ! i"
  have call: "frame_flow st ?c (attempt_call cf rt ev ?c target st')" if "same_candidates st st'" for target st'
    unfolding attempt_call_def
    by (rule frame_then [OF that attempt_send_frame])
       (auto intro!: attempt_response_frame intro: same_candidates_trans [OF that])
  show ?thesis
    unfolding iteration_def Let_def
    by (rule frame_then [OF same_candidates_refl attempt_top_frame],
        rule frame_then [OF _ attempt_guards_frame], assumption, clarify,
        rule frame_then [OF _ attempt_translate_frame], erule (1) same_candidates_trans,
        rule frame_then [OF _ attempt_normalize_frame], blast intro: same_candidates_trans,
        blast intro: same_candidates_trans call)
qed

section \<open>The loops end\<close>

lemma unrefreshed_same: "same_candidates st st' \<Longrightarrow> unrefreshed st' = unrefreshed st"
  by (simp add: unrefreshed_def same_candidates_def)

lemma retry_length: "retry_frame st c st' \<Longrightarrow> length (st_candidates st') = length (st_candidates st)"
  by (auto simp: retry_frame_def)

lemma filter_length_mono:
  "(\<And>x. x \<in> set xs \<Longrightarrow> P x \<Longrightarrow> Q x) \<Longrightarrow> length (filter P xs) \<le> length (filter Q xs)"
  by (induction xs) auto

lemma filter_length_less:
  "(\<And>x. x \<in> set xs \<Longrightarrow> P x \<Longrightarrow> Q x) \<Longrightarrow> y \<in> set xs \<Longrightarrow> Q y \<Longrightarrow> \<not> P y \<Longrightarrow>
   length (filter P xs) < length (filter Q xs)"
  by (induction xs) (auto simp: less_Suc_eq_le intro: filter_length_mono)

lemma unrefreshed_retry:
  assumes "retry_frame st (st_candidates st ! i) st'" "i < length (st_candidates st)"
  shows "unrefreshed st' < unrefreshed st"
proof -
  let ?c = "st_candidates st ! i"
  obtain p where p: "p_ID p = p_ID (c_Provider ?c)"
    "st_candidates st' = List.map (\<lambda>d. if p_ID (c_Provider d) = p_ID (c_Provider ?c)
       then d\<lparr>c_Provider := p\<rparr> else d) (st_candidates st)"
    using assms(1) by (auto simp: retry_frame_def)
  have "unrefreshed st' = length (filter (\<lambda>d. \<not> List.member (p_ID (c_Provider ?c) # st_oauthRefreshed st)
          (p_ID (c_Provider d))) (st_candidates st))"
    using assms(1) p
    by (auto simp: unrefreshed_def retry_frame_def filter_map o_def intro!: arg_cong [of _ _ length] filter_cong)
  also have "\<dots> < unrefreshed st"
    unfolding unrefreshed_def
    by (rule filter_length_less [of _ _ _ ?c]) (use assms in \<open>auto simp: retry_frame_def\<close>)
  finally show ?thesis .
qed

lemma iteration_Next: "iteration cf rt ev pass i st = Next st' \<Longrightarrow> same_candidates st st'"
  using iteration_frame [of st i cf rt ev pass] by (simp add: frame_flow_def)

lemma iteration_Retry: "iteration cf rt ev pass i st = Retry st' \<Longrightarrow> retry_frame st (st_candidates st ! i) st'"
  using iteration_frame [of st i cf rt ev pass] by (simp add: frame_flow_def)

termination run_pass
proof (relation "measures [\<lambda>(cf, rt, env, pass, k, i, st). unrefreshed st,
                           \<lambda>(cf, rt, env, pass, k, i, st). length (st_candidates st) - i]", goal_cases)
  case 1 then show ?case by simp
next
  case (2 cf rt env pass k i st st')
  then show ?case
    using iteration_Next [of cf rt "env k" pass i st st'] unrefreshed_same [of st st']
    by (auto simp: same_candidates_def)
next
  case (3 cf rt env pass k i st st')
  then show ?case using iteration_Retry [of cf rt "env k" pass i st st'] unrefreshed_retry by simp
qed

declare run_pass.simps [simp del]

text \<open>The second pass ignores the cooldowns; it is made only when the first skipped a cooled target.
  \<open>allAttemptedFailed\<close> is cleared only by a success, so it holds whenever the second pass is reached.\<close>

definition run_passes :: "config \<Rightarrow> route \<Rightarrow> (nat \<Rightarrow> iter_env) \<Rightarrow> rstate \<Rightarrow> pass_end \<times> nat \<times> rstate" where
  "run_passes cf rt env st =
     (case run_pass cf rt env 0 0 0 st of
        (e, k, st1) \<Rightarrow> if e = Exhausted \<and> st_skippedCooled st1 then run_pass cf rt env 1 k 0 st1
                       else (e, k, st1))"

section \<open>The end of an exhausted route\<close>

definition last_failure_message :: "requestAttempt list \<Rightarrow> string option \<Rightarrow> string option" where
  "last_failure_message as old =
     (case List.find (\<lambda>a. at_result a = ''failed'' \<and> at_errorMessage a \<noteq> None) (rev as) of
        Some a \<Rightarrow> at_errorMessage a | None \<Rightarrow> old)"

definition exhausted :: "route \<Rightarrow> rstate \<Rightarrow> rstate" where
  "exhausted rt st =
     (let bad = (\<lambda>cls msg. terminal_error (set_row st 400 cls) 400 ''invalid_request_error'' cls msg);
          large = ''upstream_response_too_large'';
          ctx = ''context_limit_exceeded''; rr = ''reasoning_roundtrip_required'';
          unsup = ''unsupported_feature'' in
      if st_terminalPreflightClass st = large then
        terminal_error (set_row st 502 large) 502 ''api_error'' large
          (''The upstream provider response exceeded Tiller'' @ [CHR 0x27] @ ''s non-streaming response limit.'')
      else if st_translationFailureClass st \<noteq> [] \<and> \<not> st_nonTranslationFailure st then
        bad (st_translationFailureClass st) ''The request could not be represented by any configured target.''
      else if st_protocolUnavailable st then
        bad ''protocol_unavailable'' ''The selected model does not support this client protocol.''
      else if rt_Virtual rt \<and> allAttemptsFailureClass (st_attempts st) ctx then
        bad ctx (fixedUpstreamErrorMessage ctx)
      else if rt_Virtual rt \<and> allAttemptsFailureClass (st_attempts st) rr then
        bad rr (fixedUpstreamErrorMessage rr)
      else if rt_Virtual rt \<and> allSkippedUnsupportedFeature (st_attempts st) then
        bad unsup ''The request could not be represented by any configured target.''
      else
        (let st = st\<lparr>st_httpStatus := 503,
                     st_errorMessage := last_failure_message (st_attempts st) (st_errorMessage st)\<rparr>
         in if rt_Virtual rt
            then terminal_error (st\<lparr>st_errorText := Some ''virtual_model_unavailable''\<rparr>) 503
                   ''service_unavailable_error'' ''virtual_model_unavailable''
                   (exhaustedRouteMessage (st_attempts st))
            else terminal_error (st\<lparr>st_errorText := Some ''model_unavailable''\<rparr>) 503
                   ''service_unavailable_error'' ''model_unavailable'' ''The configured model is unavailable.''))"

definition notify_event :: "route \<Rightarrow> rstate \<Rightarrow> string option" where
  "notify_event rt st =
     (if st_selected st \<noteq> None then (if st_fallbackUsed st then Some ''virtual_model_fallback'' else None)
      else if rt_Virtual rt \<and> hasFailedAttempt (st_attempts st) then Some ''virtual_model_failed'' else None)"

end
