(* ===== verification/RoutingLaws.thy ===== *)
theory RoutingLaws
  imports Routing
begin

text \<open>
  What the routing loop keeps: the books of a request (its legs in the tracker, its writes to the
  client and the recorded upstream calls), the cooldowns it opens, and the order and number of its
  upstream calls. Each stretch of the loop body has one lemma per law; the laws of a pass and of
  both passes follow by the induction of \<open>run_pass\<close>.
\<close>

section \<open>The books of a request\<close>

definition upstream_attempt :: "requestAttempt \<Rightarrow> bool" where
  "upstream_attempt a \<longleftrightarrow> at_result a \<noteq> ''skipped'' \<and> at_failureClass a \<noteq> ''invalid_upstream''"

definition attempt_target :: "requestAttempt \<Rightarrow> string" where
  "attempt_target a = (if at_providerModelID a = [] then at_provider a @ ''/'' @ at_model a
                       else at_providerModelID a)"

definition recorded_calls :: "requestAttempt list \<Rightarrow> string list" where
  "recorded_calls as = List.map attempt_target (filter upstream_attempt as)"

definition legs_are ::
  "config \<Rightarrow> route \<Rightarrow> (string \<Rightarrow> string \<Rightarrow> string \<Rightarrow> int) \<Rightarrow> string list \<Rightarrow> inflightTracker \<Rightarrow> bool" where
  "legs_are cf rt L legs t \<longleftrightarrow> inflight_inv t \<and>
     (\<forall>a r x. nul_free a \<longrightarrow> nul_free r \<longrightarrow> x \<noteq> [] \<longrightarrow>
        Active (leg t a r x) =
          L a r x + (if a = cf_accountID cf \<and> r = rt_RouteModelID rt \<and> legs = [x] then 1 else 0))"

definition books ::
  "config \<Rightarrow> route \<Rightarrow> (string \<Rightarrow> string \<Rightarrow> string \<Rightarrow> int) \<Rightarrow> client_write list \<Rightarrow> string list \<Rightarrow> string list
    \<Rightarrow> rstate \<Rightarrow> bool" where
  "books cf rt L W legs pend st \<longleftrightarrow>
     legs_are cf rt L legs (st_tracker st) \<and>
     st_writes st = W \<and>
     List.map fst (st_calls st) = recorded_calls (st_attempts st) @ pend \<and>
     (pend \<noteq> [] \<or> legs = [] \<longrightarrow> st_activeTargetID st = [])"

definition ids_ok :: "config \<Rightarrow> route \<Rightarrow> bool" where
  "ids_ok cf rt \<longleftrightarrow> nul_free (cf_accountID cf) \<and> nul_free (rt_RouteModelID rt)"

lemma target_id_nonempty [simp]: "target_id c \<noteq> []"
  by (simp add: target_id_def)

lemma recorded_append [simp]: "recorded_calls (as @ bs) = recorded_calls as @ recorded_calls bs"
  by (simp add: recorded_calls_def)

lemma recorded_single:
  "recorded_calls [a] = (if upstream_attempt a then [attempt_target a] else [])"
  by (simp add: recorded_calls_def)

lemma attempt_target_mk [simp]: "attempt_target (mk_attempt c res n cls msg d) = target_id c"
  by (simp add: attempt_target_def mk_attempt_def target_id_def)

lemma upstream_mk [simp]:
  "upstream_attempt (mk_attempt c res n cls msg d) \<longleftrightarrow> res \<noteq> ''skipped'' \<and> cls \<noteq> ''invalid_upstream''"
  by (simp add: upstream_attempt_def mk_attempt_def)

lemma mark_recovered_recorded [simp]: "recorded_calls (mark_recovered as) = recorded_calls as"
proof (cases as rule: rev_cases)
  case (snoc bs a)
  have "recorded_calls [a\<lparr>at_recovered := True\<rparr>] = recorded_calls [a]"
    by (simp add: recorded_single upstream_attempt_def attempt_target_def)
  then show ?thesis by (simp add: mark_recovered_def snoc)
qed (simp add: mark_recovered_def)

lemma books_cong:
  "st_tracker st' = st_tracker st \<Longrightarrow> st_writes st' = st_writes st \<Longrightarrow> st_calls st' = st_calls st \<Longrightarrow>
   recorded_calls (st_attempts st') = recorded_calls (st_attempts st) \<Longrightarrow>
   st_activeTargetID st' = st_activeTargetID st \<Longrightarrow> books cf rt L W legs pend st' = books cf rt L W legs pend st"
  by (simp add: books_def)

lemma books_fields [simp]:
  "books cf rt L W l p (st\<lparr>st_httpStatus := x1\<rparr>) = books cf rt L W l p st"
  "books cf rt L W l p (st\<lparr>st_errorText := x2\<rparr>) = books cf rt L W l p st"
  "books cf rt L W l p (st\<lparr>st_errorMessage := x2\<rparr>) = books cf rt L W l p st"
  "books cf rt L W l p (st\<lparr>st_fallbackUsed := b\<rparr>) = books cf rt L W l p st"
  "books cf rt L W l p (st\<lparr>st_fallbackReason := x2\<rparr>) = books cf rt L W l p st"
  "books cf rt L W l p (st\<lparr>st_reasoningStripped := b\<rparr>) = books cf rt L W l p st"
  "books cf rt L W l p (st\<lparr>st_liveFallback := b\<rparr>) = books cf rt L W l p st"
  "books cf rt L W l p (st\<lparr>st_protocolUnavailable := b\<rparr>) = books cf rt L W l p st"
  "books cf rt L W l p (st\<lparr>st_translationFailureClass := x3\<rparr>) = books cf rt L W l p st"
  "books cf rt L W l p (st\<lparr>st_nonTranslationFailure := b\<rparr>) = books cf rt L W l p st"
  "books cf rt L W l p (st\<lparr>st_terminalPreflightClass := x3\<rparr>) = books cf rt L W l p st"
  "books cf rt L W l p (st\<lparr>st_skippedCooled := b\<rparr>) = books cf rt L W l p st"
  "books cf rt L W l p (st\<lparr>st_committed := b\<rparr>) = books cf rt L W l p st"
  "books cf rt L W l p (st\<lparr>st_selected := x4\<rparr>) = books cf rt L W l p st"
  "books cf rt L W l p (set_row st n cls) = books cf rt L W l p st"
  "books cf rt L W l p (openCooldown cf' ev c cls msg st) = books cf rt L W l p st"
  "books cf rt L W l p (commit_stream cf' rt' r st) = books cf rt L W l p st"
  by (simp_all add: books_def set_row_def openCooldown_def commit_stream_def)

lemma books_adopt [simp]: "books cf rt L W l p (adopt_refresh c q st) = books cf rt L W l p st"
  by (simp add: books_def adopt_refresh_def)

lemma books_write:
  "books cf rt L W l p st \<Longrightarrow> books cf rt L (W @ [w]) l p (add_write st w)"
  by (simp add: books_def add_write_def)

lemma books_terminal:
  assumes "books cf rt L W l p st"
  shows "\<exists>w. books cf rt L (W @ [w]) l p (terminal_error st n ty code msg)"
    and "\<exists>w. books cf rt L (W @ [w]) l p (inferenceError st n ty code msg)"
  using books_write [OF assms] by (auto simp: terminal_error_def inferenceError_def)

lemma books_attempt_called:
  "books cf rt L W [] [attempt_target a] st \<Longrightarrow> upstream_attempt a \<Longrightarrow> books cf rt L W [] [] (add_attempt st a)"
  by (simp add: books_def add_attempt_def recorded_single)

lemma books_attempt_skipped:
  "books cf rt L W l p st \<Longrightarrow> \<not> upstream_attempt a \<Longrightarrow> books cf rt L W l p (add_attempt st a)"
  by (simp add: books_def add_attempt_def recorded_single)

lemma targetSkipped_tracker: "fst (targetSkipped t a r c x f) = t"
  by (simp add: targetSkipped_def)

lemma books_skip:
  assumes "books cf rt L W l p st"
  shows "books cf rt L W l p (recordSkippedAttempt cf' rt' st a adv)"
proof -
  have "\<not> upstream_attempt (a\<lparr>at_result := ''skipped''\<rparr>)" by (simp add: upstream_attempt_def)
  then have "books cf rt L W l p (add_attempt st (a\<lparr>at_result := ''skipped''\<rparr>))"
    using books_attempt_skipped [OF assms] by blast
  then show ?thesis
    by (simp add: recordSkippedAttempt_def st_target_def Let_def books_def targetSkipped_def)
qed

lemma leg_start_tracker:
  "st_tracker (leg_start cf rt x st) =
     fst (inflight_apply (TargetStart (cf_accountID cf) (rt_RouteModelID rt) x) (st_tracker st))"
  by (simp add: leg_start_def st_target_def split: prod.split)

lemma leg_end_tracker:
  "st_tracker (leg_end cf rt x st) =
     fst (inflight_apply (TargetEnd (cf_accountID cf) (rt_RouteModelID rt) x) (st_tracker st))"
  by (simp add: leg_end_def st_target_def split: prod.split)

lemma leg_fields [simp]:
  "st_writes (leg_start cf rt x st) = st_writes st" "st_writes (leg_end cf rt x st) = st_writes st"
  "st_calls (leg_start cf rt x st) = st_calls st" "st_calls (leg_end cf rt x st) = st_calls st"
  "st_attempts (leg_start cf rt x st) = st_attempts st" "st_attempts (leg_end cf rt x st) = st_attempts st"
  "st_activeTargetID (leg_start cf rt x st) = st_activeTargetID st" "st_activeTargetID (leg_end cf rt x st) = st_activeTargetID st"
  "st_cooldown (leg_start cf rt x st) = st_cooldown st" "st_cooldown (leg_end cf rt x st) = st_cooldown st"
  by (simp_all add: leg_start_def leg_end_def st_target_def split: prod.split)

lemma legs_start:
  assumes "ids_ok cf rt" "legs_are cf rt L [] t" "x \<noteq> []"
  shows "legs_are cf rt L [x] (fst (inflight_apply (TargetStart (cf_accountID cf) (rt_RouteModelID rt) x) t))"
proof -
  let ?op = "TargetStart (cf_accountID cf) (rt_RouteModelID rt) x"
  have ok: "op_ids_ok ?op" and inv: "inflight_inv t" using assms by (simp_all add: ids_ok_def legs_are_def)
  have "consumer_leg (snd (inflight_apply ?op t)) a r y =
      (if a = cf_accountID cf \<and> r = rt_RouteModelID rt \<and> [x] = [y] then 1 else 0)" if "y \<noteq> []" for a r y
    using that by (auto simp: targetStart_def Let_def consumer_defs zero_delta_def)
  then show ?thesis
    using assms(2) inflight_apply_inv [OF inv ok] apply_leg [OF inv ok] by (simp add: legs_are_def)
qed

lemma legs_end:
  assumes "ids_ok cf rt" "legs_are cf rt L [x] t" "x \<noteq> []" "\<forall>a r x. 0 \<le> L a r x"
  shows "legs_are cf rt L [] (fst (inflight_apply (TargetEnd (cf_accountID cf) (rt_RouteModelID rt) x) t))"
proof -
  let ?op = "TargetEnd (cf_accountID cf) (rt_RouteModelID rt) x"
  have ok: "op_ids_ok ?op" and inv: "inflight_inv t" using assms by (simp_all add: ids_ok_def legs_are_def)
  have "Active (leg t (cf_accountID cf) (rt_RouteModelID rt) x) = L (cf_accountID cf) (rt_RouteModelID rt) x + 1"
    using assms by (simp add: legs_are_def ids_ok_def)
  moreover have "0 \<le> L (cf_accountID cf) (rt_RouteModelID rt) x" using assms(4) by blast
  ultimately have "Active (leg t (cf_accountID cf) (rt_RouteModelID rt) x) \<noteq> 0" by linarith
  then have "consumer_leg (snd (inflight_apply ?op t)) a r y =
      (if a = cf_accountID cf \<and> r = rt_RouteModelID rt \<and> [x] = [y] then -1 else 0)" if "y \<noteq> []" for a r y
    using that by (auto simp: targetEnd_def Let_def consumer_defs zero_delta_def leg_def)
  then show ?thesis
    using assms(2) inflight_apply_inv [OF inv ok] apply_leg [OF inv ok] by (simp add: legs_are_def)
qed

lemma books_leg_start:
  "ids_ok cf rt \<Longrightarrow> books cf rt L W [] [] st \<Longrightarrow> x \<noteq> [] \<Longrightarrow>
   books cf rt L W [x] [x] (leg_start cf rt x st\<lparr>st_calls := st_calls st @ [(x, q)]\<rparr>)"
  using legs_start [of cf rt L "st_tracker st" x] by (simp add: books_def leg_start_tracker)

lemma books_leg_end:
  "ids_ok cf rt \<Longrightarrow> books cf rt L W [x] [y] st \<Longrightarrow> x \<noteq> [] \<Longrightarrow> \<forall>a r x. 0 \<le> L a r x \<Longrightarrow>
   books cf rt L W [] [y] (leg_end cf rt x st)"
  using legs_end [of cf rt L x "st_tracker st"] by (simp add: books_def leg_end_tracker)

definition books_flow ::
  "config \<Rightarrow> route \<Rightarrow> (string \<Rightarrow> string \<Rightarrow> string \<Rightarrow> int) \<Rightarrow> client_write list \<Rightarrow> candidate \<Rightarrow> flow \<Rightarrow> bool" where
  "books_flow cf rt L W c =
     flow_ok (books cf rt L W [] []) (books cf rt L W [] [])
             (\<lambda>st. \<exists>w. books cf rt L (W @ [w]) [] [] st)
             (\<lambda>st. books cf rt L W [st_activeTargetID st] [] st \<and> st_activeTargetID st \<noteq> [] \<and>
                    st_selected st \<noteq> None)"

lemma books_row_update:
  "books cf rt L W l p st \<Longrightarrow>
   books cf rt L W l p (st\<lparr>st_httpStatus := n, st_errorText := t, st_fallbackReason := r\<rparr>)"
  by (simp add: books_def)

lemma top_books:
  "books cf rt L W [] [] st \<Longrightarrow>
   leaves (books_flow cf rt L W c) (books cf rt L W [] []) (attempt_top cf rt ev pass i st)"
  by (auto simp: attempt_top_def books_flow_def Let_def intro!: books_terminal split: option.split)

lemma guards_books:
  "books cf rt L W [] [] st \<Longrightarrow>
   leaves (books_flow cf rt L W c) (\<lambda>(st', _). books cf rt L W [] [] st') (attempt_guards cf rt ev pass c adv st)"
  by (auto simp: attempt_guards_def books_flow_def Let_def intro!: books_terminal books_skip)

lemma translate_books:
  "books cf rt L W [] [] st \<Longrightarrow>
   leaves (books_flow cf rt L W c) (books cf rt L W [] []) (attempt_translate cf rt ev c adv target st)"
  by (auto simp: attempt_translate_def books_flow_def Let_def intro!: books_terminal books_skip
      split: translation.split)

lemma normalize_books:
  "books cf rt L W [] [] st \<Longrightarrow>
   leaves (books_flow cf rt L W c) (books cf rt L W [] []) (attempt_normalize cf rt ev c adv target st)"
  by (auto simp: attempt_normalize_def books_flow_def Let_def intro!: books_terminal books_skip
      split: min_tokens.split option.split)

lemma clientFailureClass_upstream [simp]:
  "cls \<noteq> ''invalid_upstream'' \<Longrightarrow> clientFailureClass ctx cls \<noteq> ''invalid_upstream''"
  by (simp add: clientFailureClass_def client_class_def split: option.split ctx_err.split)

lemma http_class_upstream [simp]: "http_class n \<noteq> ''invalid_upstream''"
  by (simp add: http_class_def)

lemma status_class_upstream [simp]: "status_class ev r \<noteq> ''invalid_upstream''"
  by (simp add: status_class_def)

lemma status_attempt_upstream [simp]:
  "upstream_attempt (status_attempt ev c r)" "attempt_target (status_attempt ev c r) = target_id c"
  by (simp_all add: status_attempt_def)

lemma preflight_class_upstream [simp]: "preflight_class ev \<noteq> ''invalid_upstream''"
  by (simp add: preflight_class_def)

lemma probe_class_upstream [simp]: "probe_class ev r \<noteq> ''invalid_upstream''"
  by (simp add: probe_class_def split: probe.split)

lemma net_error_books:
  assumes "ids_ok cf rt" "\<forall>a r x. 0 \<le> L a r x" "books cf rt L W [target_id c] [target_id c] st"
  shows "books_flow cf rt L W c (net_error cf rt ev c timeout st)"
proof -
  have b: "books cf rt L W [] [] (add_attempt (leg_end cf rt (target_id c) st)
     (mk_attempt c ''failed'' 0 (clientFailureClass (ev_ctx ev 1)
        (if timeout then ''upstream_timeout'' else ''upstream_unreachable'')) msg []))" for msg
    by (rule books_attempt_called) (use books_leg_end [OF assms(1,3) target_id_nonempty assms(2)] in simp_all)
  show ?thesis
    using b unfolding net_error_def books_flow_def Let_def
    by (auto intro!: books_terminal split: option.split)
qed

lemma send_books:
  assumes "ids_ok cf rt" "\<forall>a r x. 0 \<le> L a r x" "books cf rt L W [] [] st"
  shows "leaves (books_flow cf rt L W c) (\<lambda>(st', _). books cf rt L W [target_id c] [target_id c] st')
           (attempt_send cf rt ev c st)"
proof -
  note s = books_leg_start [OF assms(1,3) target_id_nonempty, of c "p_ID (c_Provider c)"]
  have "books cf rt L W [] [] (add_attempt (st\<lparr>st_nonTranslationFailure := True\<rparr>)
      (mk_attempt c ''failed'' 0 ''invalid_upstream'' None []))"
    by (rule books_attempt_skipped) (use assms(3) in simp_all)
  then show ?thesis
    using assms s net_error_books [OF assms(1,2) s]
    by (auto simp: attempt_send_def books_flow_def Let_def split: do_result.split)
qed

lemma status_books:
  assumes "ids_ok cf rt" "\<forall>a r x. 0 \<le> L a r x" "books cf rt L W [target_id c] [target_id c] st"
  shows "leaves (books_flow cf rt L W c) (books cf rt L W [target_id c] [target_id c])
           (attempt_status cf rt ev c r st)"
proof -
  have b: "books cf rt L W [] [] (add_attempt (leg_end cf rt (target_id c) st) (status_attempt ev c r))"
    by (rule books_attempt_called) (use books_leg_end [OF assms(1,3) target_id_nonempty assms(2)] in simp_all)
  have d: "\<exists>w. books cf rt L (W @ [w]) [] [] (direct_status_error ev c r s)" if "books cf rt L W [] [] s" for s
    using that unfolding direct_status_error_def Let_def by (auto intro!: books_terminal)
  show ?thesis
    using assms(3) b
    by (auto simp: attempt_status_def books_flow_def Let_def intro!: d split: option.split)
qed

lemma preflight_books:
  assumes "ids_ok cf rt" "\<forall>a r x. 0 \<le> L a r x" "books cf rt L W [target_id c] [target_id c] st"
  shows "leaves (books_flow cf rt L W c) (books cf rt L W [target_id c] [target_id c])
           (attempt_preflight cf rt ev c st)"
proof -
  have b: "books cf rt L W [] [] (add_attempt (leg_end cf rt (target_id c) st)
     (mk_attempt c ''failed'' 0 (preflight_class ev) msg []))" for msg
    by (rule books_attempt_called) (use books_leg_end [OF assms(1,3) target_id_nonempty assms(2)] in simp_all)
  have u: "books cf rt L W [] [] (s\<lparr>st_terminalPreflightClass := x, st_nonTranslationFailure := True\<rparr>)"
    if "books cf rt L W [] [] s" for s x
    using that by (simp add: books_def)
  show ?thesis
    using assms(3) u [OF b]
    by (auto simp: attempt_preflight_def books_flow_def Let_def intro!: books_terminal)
qed

lemma probe_books:
  assumes "ids_ok cf rt" "\<forall>a r x. 0 \<le> L a r x" "books cf rt L W [target_id c] [target_id c] st"
  shows "leaves (books_flow cf rt L W c) (books cf rt L W [target_id c] [target_id c])
           (attempt_probe cf rt ev c r st)"
proof -
  have b: "books cf rt L W [] [] (add_attempt (leg_end cf rt (target_id c) st\<lparr>st_nonTranslationFailure := True\<rparr>)
     (mk_attempt c ''failed'' (rs_status r) (probe_class ev r) msg []))" for msg
    by (rule books_attempt_called) (use books_leg_end [OF assms(1,3) target_id_nonempty assms(2)] in simp_all)
  show ?thesis
    using assms(3) b
    by (auto simp: attempt_probe_def recordPreOutputFailure_def books_flow_def Let_def
        intro!: books_terminal split: option.split)
qed

lemma select_books:
  "books cf rt L W [target_id c] [target_id c] st \<Longrightarrow> books cf rt L W [target_id c] [] (select_target c target r st)"
  by (simp add: books_def select_target_def add_attempt_def recorded_single)

lemma select_fields [simp]:
  "st_activeTargetID (select_target c target r st) = target_id c"
  "st_selected (select_target c target r st) = Some (c, target, r)"
  by (simp_all add: select_target_def)

lemma call_books:
  assumes "ids_ok cf rt" "\<forall>a r x. 0 \<le> L a r x" "books cf rt L W [] [] st"
  shows "books_flow cf rt L W c (attempt_call cf rt ev c target st)"
  unfolding attempt_call_def attempt_response_def
proof (rule leaves_and_then [OF send_books [OF assms]], clarify)
  fix st r assume "books cf rt L W [target_id c] [target_id c] st"
  then show "books_flow cf rt L W c (and_then (attempt_status cf rt ev c r st)
        (\<lambda>st. and_then (attempt_preflight cf rt ev c (commit_stream cf rt r st))
        (\<lambda>st. and_then (attempt_probe cf rt ev c r st) (\<lambda>st. Success (select_target c target r st)))))"
    by (rule leaves_and_then [OF status_books [OF assms(1,2)]])
       (rule leaves_and_then [OF preflight_books [OF assms(1,2)]], simp,
        rule leaves_and_then [OF probe_books [OF assms(1,2)]], assumption,
        simp add: books_flow_def select_books)
qed

lemma iteration_books:
  assumes "ids_ok cf rt" "\<forall>a r x. 0 \<le> L a r x" "books cf rt L W [] [] st"
  shows "books_flow cf rt L W (st_candidates st ! i) (iteration cf rt ev pass i st)"
  unfolding iteration_def Let_def
  by (rule leaves_and_then [OF top_books [OF assms(3)]],
      erule leaves_and_then [OF guards_books], clarify,
      erule leaves_and_then [OF translate_books],
      erule leaves_and_then [OF normalize_books],
      erule call_books [OF assms(1,2)])

section \<open>A pass and both passes\<close>

text \<open>How a pass ends: nothing written while it goes on, one write when the handler returned, the
  selected leg open when it succeeded.\<close>

fun pass_books ::
  "config \<Rightarrow> route \<Rightarrow> (string \<Rightarrow> string \<Rightarrow> string \<Rightarrow> int) \<Rightarrow> client_write list \<Rightarrow> pass_end \<times> nat \<times> rstate \<Rightarrow> bool" where
  "pass_books cf rt L W (Exhausted, k, st) = books cf rt L W [] [] st"
| "pass_books cf rt L W (Returned, k, st) = (\<exists>w. books cf rt L (W @ [w]) [] [] st)"
| "pass_books cf rt L W (Selected, k, st) = 
     (books cf rt L W [st_activeTargetID st] [] st \<and> st_activeTargetID st \<noteq> [] \<and> st_selected st \<noteq> None)"

lemma run_pass_books:
  assumes "ids_ok cf rt" "\<forall>a r x. 0 \<le> L a r x" "books cf rt L W [] [] st"
  shows "pass_books cf rt L W (run_pass cf rt env pass k i st)"
  using assms
proof (induction cf rt env pass k i st rule: run_pass.induct)
  case (1 cf rt env pass k i st)
  have b: "books_flow cf rt L W (st_candidates st ! i) (iteration cf rt (env k) pass i st)"
    by (rule iteration_books [OF 1(3-5)])
  show ?case
  proof (cases "i < length (st_candidates st)")
    case True
    then show ?thesis
      using 1 b by (subst run_pass.simps) (auto simp: books_flow_def split: flow.split)
  next
    case False then show ?thesis using 1(5) by (subst run_pass.simps) simp
  qed
qed

lemma run_passes_books:
  assumes "ids_ok cf rt" "\<forall>a r x. 0 \<le> L a r x" "books cf rt L W [] [] st"
  shows "pass_books cf rt L W (run_passes cf rt env st)"
proof -
  obtain e k st1 where r: "run_pass cf rt env 0 0 0 st = (e, k, st1)" by (metis prod_cases3)
  then have "pass_books cf rt L W (e, k, st1)" using run_pass_books [OF assms] by metis
  then show ?thesis
    using r run_pass_books [OF assms(1,2), of W st1 env 1 k 0] by (auto simp: run_passes_def)
qed

section \<open>Upstream calls\<close>

definition the_call :: "candidate \<Rightarrow> string \<times> string" where
  "the_call c = (target_id c, p_ID (c_Provider c))"

text \<open>A stretch makes the calls \<open>new\<close>.\<close>

definition calls_flow :: "(string \<times> string) list \<Rightarrow> candidate \<Rightarrow> flow \<Rightarrow> bool" where
  "calls_flow cs c = (let ok = (\<lambda>st'. st_calls st' = cs \<or> st_calls st' = cs @ [the_call c])
                      in flow_ok ok ok ok (\<lambda>st'. st_calls st' = cs @ [the_call c] \<and> st_activeTargetID st' = target_id c))"

lemma calls_rows [simp]:
  "st_calls (add_attempt st a) = st_calls st"
  "st_calls (set_row st n cls) = st_calls st"
  "st_calls (add_write st w) = st_calls st"
  "st_calls (inferenceError st n ty code msg) = st_calls st"
  "st_calls (terminal_error st n ty code msg) = st_calls st"
  "st_calls (recordSkippedAttempt cf rt st a b) = st_calls st"
  "st_calls (openCooldown cf ev c cls msg st) = st_calls st"
  "st_calls (commit_stream cf rt r st) = st_calls st"
  "st_calls (adopt_refresh c p st) = st_calls st"
  "st_calls (direct_status_error ev c r st) = st_calls st"
  "st_calls (select_target c target r st) = st_calls st"
  by (simp_all add: row_defs commit_stream_def adopt_refresh_def direct_status_error_def select_target_def
      Let_def split: prod.split)

lemma stage_calls:
  "st_calls st = cs \<Longrightarrow> leaves (calls_flow cs c) (\<lambda>s. st_calls s = cs) (attempt_top cf rt ev pass i st)"
  "st_calls st = cs \<Longrightarrow> leaves (calls_flow cs c) (\<lambda>(s, _). st_calls s = cs) (attempt_guards cf rt ev pass c adv st)"
  "st_calls st = cs \<Longrightarrow> leaves (calls_flow cs c) (\<lambda>s. st_calls s = cs) (attempt_translate cf rt ev c adv target st)"
  "st_calls st = cs \<Longrightarrow> leaves (calls_flow cs c) (\<lambda>s. st_calls s = cs) (attempt_normalize cf rt ev c adv target st)"
  by (auto simp: attempt_top_def attempt_guards_def attempt_translate_def attempt_normalize_def calls_flow_def
      Let_def split: option.split translation.split min_tokens.split)

lemma send_calls:
  "st_calls st = cs \<Longrightarrow>
   leaves (calls_flow cs c) (\<lambda>(s, _). st_calls s = cs @ [the_call c]) (attempt_send cf rt ev c st)"
  by (auto simp: attempt_send_def net_error_def calls_flow_def the_call_def Let_def
      split: option.split do_result.split)

lemma response_calls:
  assumes "st_calls st = cs @ [the_call c]"
  shows "leaves (calls_flow cs c) (\<lambda>s. st_calls s = cs @ [the_call c]) (attempt_status cf rt ev c r st)"
    and "leaves (calls_flow cs c) (\<lambda>s. st_calls s = cs @ [the_call c]) (attempt_preflight cf rt ev c st)"
    and "leaves (calls_flow cs c) (\<lambda>s. st_calls s = cs @ [the_call c]) (attempt_probe cf rt ev c r st)"
  using assms
  by (auto simp: attempt_status_def attempt_preflight_def attempt_probe_def recordPreOutputFailure_def
      calls_flow_def Let_def split: option.split)

lemma iteration_calls: "calls_flow (st_calls st) (st_candidates st ! i) (iteration cf rt ev pass i st)"
  unfolding iteration_def Let_def attempt_call_def attempt_response_def
  by (rule leaves_and_then [OF stage_calls(1) [OF refl]],
      erule leaves_and_then [OF stage_calls(2)], clarify,
      erule leaves_and_then [OF stage_calls(3)],
      erule leaves_and_then [OF stage_calls(4)],
      erule leaves_and_then [OF send_calls], clarify,
      erule leaves_and_then [OF response_calls(1)],
      rule leaves_and_then [OF response_calls(2)], simp,
      erule leaves_and_then [OF response_calls(3)],
      simp add: calls_flow_def Let_def)

lemma retry_models:
  "retry_frame st c st' \<Longrightarrow> List.map c_ProviderModelID (st_candidates st') = List.map c_ProviderModelID (st_candidates st)"
  by (auto simp: retry_frame_def)

text \<open>The calls of a pass follow the configured order, from index \<open>i\<close> on; the pass makes at most one
  iteration per remaining candidate and one more per provider refreshed.\<close>

lemma run_pass_order:
  assumes "run_pass cf rt env pass k i st = (e, k', st')"
    and "\<forall>c \<in> set (st_candidates st). c_ProviderModelID c \<noteq> []"
  shows "\<exists>js. sorted js \<and> set js \<subseteq> {i..<length (st_candidates st)} \<and>
     List.map fst (st_calls st') = List.map fst (st_calls st) @
       List.map (\<lambda>j. c_ProviderModelID (st_candidates st ! j)) js \<and>
     length js \<le> k' - k \<and> k \<le> k' \<and>
     k' + unrefreshed st' \<le> k + (length (st_candidates st) - i) + unrefreshed st \<and>
     List.map c_ProviderModelID (st_candidates st') = List.map c_ProviderModelID (st_candidates st) \<and>
     (e = Selected \<longrightarrow> js \<noteq> [] \<and> st_activeTargetID st' = c_ProviderModelID (st_candidates st ! last js))"
  using assms
proof (induction cf rt env pass k i st rule: run_pass.induct)
  case (1 cf rt env pass k i st)
  let ?n = "length (st_candidates st)" and ?m = "\<lambda>s j. c_ProviderModelID (st_candidates s ! j)"
  note flow = iteration_calls [of st i cf rt "env k" pass]
  show ?case
  proof (cases "i < ?n")
    case False
    then show ?thesis using 1(3) by (intro exI [of _ "[]"]) (simp add: run_pass.simps [of cf rt env pass k i])
  next
    case True
    have t: "target_id (st_candidates st ! i) = ?m st i"
      using 1(4) True by (simp add: target_id_def)
    have one: "\<exists>js. sorted js \<and> set js \<subseteq> {i..<?n} \<and>
       List.map fst (st_calls s) = List.map fst (st_calls st) @ List.map (?m st) js \<and> length js \<le> 1 \<and> set js \<subseteq> {i}"
      if "st_calls s = st_calls st \<or> st_calls s = st_calls st @ [the_call (st_candidates st ! i)]" for s
      using that True t by (auto simp: the_call_def intro: exI [of _ "[]"] exI [of _ "[i]"])
    show ?thesis
    proof (cases "iteration cf rt (env k) pass i st")
      case (Return s)
      then show ?thesis using one [of s] flow True 1(3) iteration_frame [of st i cf rt "env k" pass]
        by (auto simp: frame_flow_def same_candidates_def simp: run_pass.simps [of cf rt env pass k i] calls_flow_def Let_def unrefreshed_def)
    next
      case (Success s)
      have "st_calls s = st_calls st @ [the_call (st_candidates st ! i)]"
        "st_activeTargetID s = target_id (st_candidates st ! i)" "same_candidates st s"
        using flow Success iteration_frame [of st i cf rt "env k" pass]
        by (simp_all add: calls_flow_def frame_flow_def Let_def)
      then show ?thesis
        using 1(3) True Success t unrefreshed_same [of st s]
        by (intro exI [of _ "[i]"])
           (auto simp: run_pass.simps [of cf rt env pass k i] the_call_def same_candidates_def)
    next
      case (Next s)
      have s: "same_candidates st s" using iteration_Next [OF Next] .
      have "run_pass cf rt env pass (k + 1) (i + 1) s = (e, k', st')"
        using 1(3) True Next by (simp add: run_pass.simps [of cf rt env pass k i])
      then obtain js where js: "sorted js" "set js \<subseteq> {i + 1..<?n}"
        "List.map fst (st_calls st') = List.map fst (st_calls s) @ List.map (?m st) js"
        "length js \<le> k' - (k + 1)" "k + 1 \<le> k'" "k' + unrefreshed st' \<le> k + 1 + (?n - (i + 1)) + unrefreshed st"
        "List.map c_ProviderModelID (st_candidates st') = List.map c_ProviderModelID (st_candidates st)"
        "e = Selected \<longrightarrow> js \<noteq> [] \<and> st_activeTargetID st' = ?m st (last js)"
        using 1(1) [OF True Next] 1(4) s unrefreshed_same [OF s] by (auto simp: same_candidates_def)
      obtain js0 where j0: "set js0 \<subseteq> {i}" "sorted js0" "length js0 \<le> 1"
        "List.map fst (st_calls s) = List.map fst (st_calls st) @ List.map (?m st) js0"
        using one [of s] flow Next by (auto simp: calls_flow_def Let_def)
      show ?thesis
        using js j0 True by (intro exI [of _ "js0 @ js"]) (fastforce simp: sorted_append)
    next
      case (Retry s)
      have s: "retry_frame st (st_candidates st ! i) s" using iteration_Retry [OF Retry] .
      note len = retry_length [OF s] and mods = retry_models [OF s]
      have m: "?m s j = ?m st j" if "j < ?n" for j using mods len that by (metis nth_map)
      have ne: "\<forall>c \<in> set (st_candidates s). c_ProviderModelID c \<noteq> []"
        using 1(4) mods by (metis (no_types, lifting) image_iff list.set_map)
      have "run_pass cf rt env pass (k + 1) i s = (e, k', st')"
        using 1(3) True Retry by (simp add: run_pass.simps [of cf rt env pass k i])
      then obtain js where js: "sorted js" "set js \<subseteq> {i..<?n}"
        "List.map fst (st_calls st') = List.map fst (st_calls s) @ List.map (?m s) js"
        "length js \<le> k' - (k + 1)" "k + 1 \<le> k'" "k' + unrefreshed st' \<le> k + 1 + (?n - i) + unrefreshed s"
        "List.map c_ProviderModelID (st_candidates st') = List.map c_ProviderModelID (st_candidates s)"
        "e = Selected \<longrightarrow> js \<noteq> [] \<and> st_activeTargetID st' = ?m s (last js)"
        using 1(2) [OF True Retry] ne len by auto
      have mm: "List.map (?m s) js = List.map (?m st) js" using js(2) m by (intro map_cong) auto
      obtain js0 where j0: "set js0 \<subseteq> {i}" "sorted js0" "length js0 \<le> 1"
        "List.map fst (st_calls s) = List.map fst (st_calls st) @ List.map (?m st) js0"
        using one [of s] flow Retry by (auto simp: calls_flow_def Let_def)
      show ?thesis
        using js j0 True mm mods unrefreshed_retry [OF s True]
        by (intro exI [of _ "js0 @ js"]) (fastforce simp: sorted_append)
    qed
  qed
qed

section \<open>Invariants of the loop\<close>

text \<open>What an invariant of the iterations owes, and what it gets: it holds at the end of a pass and
  of both passes.\<close>

definition inv_flow :: "(rstate \<Rightarrow> bool) \<Rightarrow> flow \<Rightarrow> bool" where
  "inv_flow I = flow_ok I I I I"

locale loop_invariant =
  fixes I :: "rstate \<Rightarrow> bool" and E :: "iter_env \<Rightarrow> bool" and cf :: config and rt :: route
  assumes step: "I st \<Longrightarrow> E ev \<Longrightarrow> i < length (st_candidates st) \<Longrightarrow> inv_flow I (iteration cf rt ev pass i st)"
begin

lemma run_pass_keeps: "\<forall>k. E (env k) \<Longrightarrow> I st \<Longrightarrow> I (snd (snd (run_pass cf rt env pass k i st)))"
proof (induction "(unrefreshed st, length (st_candidates st) - i)" arbitrary: k i st
    rule: wf_induct_rule [OF wf_lex_prod [OF wf_less_than wf_less_than]])
  case (1 i st k)
  show ?case
  proof (cases "i < length (st_candidates st)")
    case True
    have s: "inv_flow I (iteration cf rt (env k) pass i st)" using 1(2,3) True by (simp add: step)
    have n: "I (snd (snd (run_pass cf rt env pass (k + 1) (i + 1) st')))"
      if "iteration cf rt (env k) pass i st = Next st'" for st'
      using that True s iteration_Next [OF that] unrefreshed_same [OF iteration_Next [OF that]]
      by (intro 1(1) 1(2)) (auto simp: same_candidates_def inv_flow_def)
    have r: "I (snd (snd (run_pass cf rt env pass (k + 1) i st')))"
      if "iteration cf rt (env k) pass i st = Retry st'" for st'
      using that True s unrefreshed_retry [OF iteration_Retry [OF that]]
      by (intro 1(1) 1(2)) (auto simp: inv_flow_def)
    show ?thesis
      using s n r True by (subst run_pass.simps) (auto simp: inv_flow_def split: flow.split)
  next
    case False then show ?thesis using 1(3) by (subst run_pass.simps) simp
  qed
qed

lemma run_passes_keep: "\<forall>k. E (env k) \<Longrightarrow> I st \<Longrightarrow> I (snd (snd (run_passes cf rt env st)))"
proof -
  assume E: "\<forall>k. E (env k)" and "I st"
  obtain e k st1 where r: "run_pass cf rt env 0 0 0 st = (e, k, st1)" by (metis prod_cases3)
  then have "I st1" using run_pass_keeps [OF E \<open>I st\<close>, of 0 0 0] by simp
  then show ?thesis using r run_pass_keeps [OF E, of st1 1 k 0] by (simp add: run_passes_def)
qed

end

section \<open>Cooldowns opened by a request\<close>

definition opened_for :: "requestAttempt list \<Rightarrow> string \<Rightarrow> bool" where
  "opened_for as i \<longleftrightarrow> (\<exists>a \<in> set as. at_providerModelID a = i \<and> at_result a = ''failed'' \<and>
     cooldownTrigger (at_failureClass a) (at_httpStatus a))"

definition cool_inv :: "config \<Rightarrow> route \<Rightarrow> cooldownStore \<Rightarrow> time \<Rightarrow> rstate \<Rightarrow> bool" where
  "cool_inv cf rt C now st \<longleftrightarrow>
     (\<exists>os. st_cooldown st = cg.opens C (cf_accountID cf) os \<and>
       (\<forall>(i, s, til, d) \<in> set os. opened_for (st_attempts st) i \<and> s \<le> now \<and> til = time_add s (seconds (cf_cooldownSeconds cf))) \<and>
       (os \<noteq> [] \<longrightarrow> ordered rt \<and> 0 < cf_cooldownSeconds cf))"

lemma opened_for_append: "opened_for as i \<Longrightarrow> opened_for (as @ bs) i"
  by (auto simp: opened_for_def)

lemma opened_for_mark [simp]: "opened_for (mark_recovered as) i = opened_for as i"
proof (cases as rule: rev_cases)
  case (snoc bs a) then show ?thesis by (auto simp: mark_recovered_def opened_for_def)
qed (simp add: mark_recovered_def)

lemma cool_inv_cong:
  "st_cooldown st' = st_cooldown st \<Longrightarrow> st_attempts st' = st_attempts st \<Longrightarrow>
   cool_inv cf rt C now st' = cool_inv cf rt C now st"
  by (simp add: cool_inv_def)

lemma cool_inv_more:
  "cool_inv cf rt C now st \<Longrightarrow> st_cooldown st' = st_cooldown st \<Longrightarrow> st_attempts st' = st_attempts st @ as \<Longrightarrow>
   cool_inv cf rt C now st'"
  unfolding cool_inv_def by (elim exE, rule exI, simp) (blast intro: opened_for_append)

lemma attempts_rows [simp]:
  "st_attempts (add_attempt st a) = st_attempts st @ [a]"
  "st_attempts (set_row st n cls) = st_attempts st"
  "st_attempts (add_write st w) = st_attempts st"
  "st_attempts (inferenceError st n ty code msg) = st_attempts st"
  "st_attempts (terminal_error st n ty code msg) = st_attempts st"
  "st_attempts (recordSkippedAttempt cf rt st a b) = st_attempts st @ [a\<lparr>at_result := ''skipped''\<rparr>]"
  "st_attempts (openCooldown cf ev c cls msg st) = st_attempts st"
  "st_attempts (commit_stream cf rt r st) = st_attempts st"
  "st_attempts (adopt_refresh c p st) = mark_recovered (st_attempts st)"
  "st_attempts (direct_status_error ev c r st) = st_attempts st"
  "st_attempts (select_target c target r st) =
     st_attempts st @ [mk_attempt c ''success'' (rs_status r) [] None []]"
  by (simp_all add: row_defs commit_stream_def adopt_refresh_def direct_status_error_def select_target_def
      Let_def split: prod.split)

lemma cooldown_rows [simp]:
  "st_cooldown (add_attempt st a) = st_cooldown st"
  "st_cooldown (set_row st n cls) = st_cooldown st"
  "st_cooldown (add_write st w) = st_cooldown st"
  "st_cooldown (inferenceError st n ty code msg) = st_cooldown st"
  "st_cooldown (terminal_error st n ty code msg) = st_cooldown st"
  "st_cooldown (recordSkippedAttempt cf rt st a b) = st_cooldown st"
  "st_cooldown (commit_stream cf rt r st) = st_cooldown st"
  "st_cooldown (adopt_refresh c p st) = st_cooldown st"
  "st_cooldown (direct_status_error ev c r st) = st_cooldown st"
  "st_cooldown (select_target c target r st) = st_cooldown st"
  by (simp_all add: row_defs commit_stream_def adopt_refresh_def direct_status_error_def select_target_def
      Let_def split: prod.split)

lemma cool_inv_same [simp]:
  "cool_inv cf rt C now (set_row st n cls) = cool_inv cf rt C now st"
  "cool_inv cf rt C now (add_write st w) = cool_inv cf rt C now st"
  "cool_inv cf rt C now (inferenceError st n ty code msg) = cool_inv cf rt C now st"
  "cool_inv cf rt C now (terminal_error st n ty code msg) = cool_inv cf rt C now st"
  "cool_inv cf rt C now (commit_stream cf rt' r st) = cool_inv cf rt C now st"
  "cool_inv cf rt C now (direct_status_error ev c r st) = cool_inv cf rt C now st"
  "cool_inv cf rt C now (leg_end cf' rt' x st) = cool_inv cf rt C now st"
  "cool_inv cf rt C now (leg_start cf' rt' x st) = cool_inv cf rt C now st"
  by (rule cool_inv_cong; simp)+

lemma cool_inv_adopt [simp]: "cool_inv cf rt C now (adopt_refresh c p st) = cool_inv cf rt C now st"
  by (simp add: cool_inv_def)

lemma cool_inv_attempt: "cool_inv cf rt C now st \<Longrightarrow> cool_inv cf rt C now (add_attempt st a)"
  by (erule cool_inv_more) simp_all

lemma cool_inv_skip: "cool_inv cf rt C now st \<Longrightarrow> cool_inv cf rt C now (recordSkippedAttempt cf' rt' st a b)"
  by (erule cool_inv_more) simp_all

lemma cool_inv_select: "cool_inv cf rt C now st \<Longrightarrow> cool_inv cf rt C now (select_target c target r st)"
  by (erule cool_inv_more) simp_all

lemma cool_inv_open:
  assumes "cool_inv cf rt C now st" "ordered rt" "0 < cf_cooldownSeconds cf"
    "opened_for (st_attempts st) (c_ProviderModelID c)" "ev_failedAt ev \<le> now"
  shows "cool_inv cf rt C now (openCooldown cf ev c cls msg st)"
proof -
  obtain os where os: "st_cooldown st = cg.opens C (cf_accountID cf) os"
    "\<forall>(i, s, til, d) \<in> set os. opened_for (st_attempts st) i \<and> s \<le> now \<and> til = time_add s (seconds (cf_cooldownSeconds cf))"
    using assms(1) by (auto simp: cool_inv_def)
  let ?o = "(c_ProviderModelID c, ev_failedAt ev, time_add (ev_failedAt ev) (seconds (cf_cooldownSeconds cf)),
             (p_Name (c_Provider c), c_UpstreamModelID c, cf_requestID cf, cls, msg))"
  have "st_cooldown (openCooldown cf ev c cls msg st) = cg.opens C (cf_accountID cf) (os @ [?o])"
    by (simp add: openCooldown_def os(1) cg.opens_append)
  then show ?thesis
    unfolding cool_inv_def using os(2) assms(2-5) by (intro exI [of _ "os @ [?o]"]) auto
qed

lemma opened_for_mk:
  "cooldownTrigger cls n \<Longrightarrow> opened_for (as @ [mk_attempt c ''failed'' n cls msg d]) (c_ProviderModelID c)"
  by (auto simp: opened_for_def mk_attempt_def)

lemma opened_for_status:
  "cooldownTrigger (status_class ev r) (rs_status r) \<Longrightarrow>
   opened_for (as @ [status_attempt ev c r]) (c_ProviderModelID c)"
  by (simp add: status_attempt_def opened_for_mk)

definition cool_flow :: "config \<Rightarrow> route \<Rightarrow> cooldownStore \<Rightarrow> time \<Rightarrow> flow \<Rightarrow> bool" where
  "cool_flow cf rt C now = inv_flow (cool_inv cf rt C now)"

lemma cool_inv_fields [simp]:
  "cool_inv cf rt C now (st\<lparr>st_httpStatus := v0\<rparr>) = cool_inv cf rt C now st"
  "cool_inv cf rt C now (st\<lparr>st_errorText := v1\<rparr>) = cool_inv cf rt C now st"
  "cool_inv cf rt C now (st\<lparr>st_errorMessage := v2\<rparr>) = cool_inv cf rt C now st"
  "cool_inv cf rt C now (st\<lparr>st_fallbackUsed := v3\<rparr>) = cool_inv cf rt C now st"
  "cool_inv cf rt C now (st\<lparr>st_fallbackReason := v4\<rparr>) = cool_inv cf rt C now st"
  "cool_inv cf rt C now (st\<lparr>st_reasoningStripped := v5\<rparr>) = cool_inv cf rt C now st"
  "cool_inv cf rt C now (st\<lparr>st_liveFallback := v6\<rparr>) = cool_inv cf rt C now st"
  "cool_inv cf rt C now (st\<lparr>st_protocolUnavailable := v7\<rparr>) = cool_inv cf rt C now st"
  "cool_inv cf rt C now (st\<lparr>st_translationFailureClass := v8\<rparr>) = cool_inv cf rt C now st"
  "cool_inv cf rt C now (st\<lparr>st_nonTranslationFailure := v9\<rparr>) = cool_inv cf rt C now st"
  "cool_inv cf rt C now (st\<lparr>st_terminalPreflightClass := v10\<rparr>) = cool_inv cf rt C now st"
  "cool_inv cf rt C now (st\<lparr>st_skippedCooled := v11\<rparr>) = cool_inv cf rt C now st"
  "cool_inv cf rt C now (st\<lparr>st_calls := v12\<rparr>) = cool_inv cf rt C now st"
  by (rule cool_inv_cong; simp)+

lemma prepare_cool:
  assumes "cool_inv cf rt C now st"
  shows "leaves (cool_flow cf rt C now) (cool_inv cf rt C now) (attempt_top cf rt ev pass i st)"
    and "leaves (cool_flow cf rt C now) (\<lambda>(s, _). cool_inv cf rt C now s) (attempt_guards cf rt ev pass c adv st)"
    and "leaves (cool_flow cf rt C now) (cool_inv cf rt C now) (attempt_translate cf rt ev c adv target st)"
    and "leaves (cool_flow cf rt C now) (cool_inv cf rt C now) (attempt_normalize cf rt ev c adv target st)"
  using assms
  by (auto simp: attempt_top_def attempt_guards_def attempt_translate_def attempt_normalize_def cool_flow_def inv_flow_def
      Let_def intro!: cool_inv_skip split: option.split translation.split min_tokens.split)

lemma send_cool:
  assumes "cool_inv cf rt C now st" "ev_failedAt ev \<le> now"
  shows "leaves (cool_flow cf rt C now) (\<lambda>(s, _). cool_inv cf rt C now s) (attempt_send cf rt ev c st)"
  using assms
  by (auto simp: attempt_send_def net_error_def cool_flow_def inv_flow_def Let_def
      intro!: cool_inv_attempt cool_inv_open opened_for_mk split: option.split do_result.split)

lemma status_cool:
  assumes "cool_inv cf rt C now st" "ev_failedAt ev \<le> now"
  shows "leaves (cool_flow cf rt C now) (cool_inv cf rt C now) (attempt_status cf rt ev c r st)"
  using assms
  by (auto simp: attempt_status_def cool_flow_def inv_flow_def Let_def
      intro!: cool_inv_attempt cool_inv_open opened_for_status split: option.split)

lemma preflight_cool:
  assumes "cool_inv cf rt C now st" "ev_failedAt ev \<le> now"
  shows "leaves (cool_flow cf rt C now) (cool_inv cf rt C now) (attempt_preflight cf rt ev c st)"
  using assms
  by (auto simp: attempt_preflight_def cool_flow_def inv_flow_def Let_def
      intro!: cool_inv_attempt cool_inv_open opened_for_mk)

lemma probe_cool:
  assumes "cool_inv cf rt C now st" "ev_failedAt ev \<le> now"
  shows "leaves (cool_flow cf rt C now) (cool_inv cf rt C now) (attempt_probe cf rt ev c r st)"
  using assms
  by (auto simp: attempt_probe_def recordPreOutputFailure_def cool_flow_def inv_flow_def Let_def mk_attempt_def
      intro!: cool_inv_attempt cool_inv_open opened_for_mk [unfolded mk_attempt_def] split: option.split)

lemma iteration_cool:
  assumes "cool_inv cf rt C now st" "ev_failedAt ev \<le> now"
  shows "cool_flow cf rt C now (iteration cf rt ev pass i st)"
  unfolding iteration_def Let_def attempt_call_def attempt_response_def
  by (rule leaves_and_then [OF prepare_cool(1) [OF assms(1)]],
      erule leaves_and_then [OF prepare_cool(2)], clarify,
      erule leaves_and_then [OF prepare_cool(3)],
      erule leaves_and_then [OF prepare_cool(4)],
      erule leaves_and_then [OF send_cool [OF _ assms(2)]], clarify,
      erule leaves_and_then [OF status_cool [OF _ assms(2)]],
      rule leaves_and_then [OF preflight_cool [OF _ assms(2)]], simp,
      erule leaves_and_then [OF probe_cool [OF _ assms(2)]],
      simp add: cool_flow_def inv_flow_def Let_def cool_inv_select)

interpretation cool: loop_invariant "cool_inv cf rt C now" "\<lambda>ev. ev_failedAt ev \<le> now" cf rt for cf rt C now
  by unfold_locales (use iteration_cool in \<open>simp add: cool_flow_def\<close>)

lemma cool_inv_start: "st_cooldown st = C \<Longrightarrow> cool_inv cf rt C now st"
  unfolding cool_inv_def by (rule exI [of _ "[]"]) simp

section \<open>Invariants of the row\<close>

text \<open>An invariant that every update of the row keeps; what is left to show of it is one line per
  update, not one per stretch of the body.\<close>

locale row_invariant =
  fixes I :: "rstate \<Rightarrow> bool" and cf :: config and rt :: route
  assumes fields:
      "\<And>v. I (st\<lparr>st_httpStatus := v\<rparr>) = I st" "\<And>v. I (st\<lparr>st_errorText := v\<rparr>) = I st"
      "\<And>v. I (st\<lparr>st_errorMessage := v\<rparr>) = I st" "\<And>v. I (st\<lparr>st_fallbackUsed := v\<rparr>) = I st"
      "\<And>v. I (st\<lparr>st_fallbackReason := v\<rparr>) = I st" "\<And>v. I (st\<lparr>st_reasoningStripped := v\<rparr>) = I st"
      "\<And>v. I (st\<lparr>st_liveFallback := v\<rparr>) = I st" "\<And>v. I (st\<lparr>st_protocolUnavailable := v\<rparr>) = I st"
      "\<And>v. I (st\<lparr>st_translationFailureClass := v\<rparr>) = I st" "\<And>v. I (st\<lparr>st_nonTranslationFailure := v\<rparr>) = I st"
      "\<And>v. I (st\<lparr>st_terminalPreflightClass := v\<rparr>) = I st" "\<And>v. I (st\<lparr>st_skippedCooled := v\<rparr>) = I st"
      "\<And>v. I (st\<lparr>st_calls := v\<rparr>) = I st" "\<And>v. I (st\<lparr>st_attempts := v\<rparr>) = I st"
      "\<And>v. I (st\<lparr>st_writes := v\<rparr>) = I st" "\<And>v. I (st\<lparr>st_cooldown := v\<rparr>) = I st"
      "\<And>v. I (st\<lparr>st_selected := v\<rparr>) = I st" "\<And>v. I (st\<lparr>st_activeTargetID := v\<rparr>) = I st"
      "\<And>v. I (st\<lparr>st_oauthRefreshed := v\<rparr>) = I st"
    and targets: "I (leg_start cf rt x st) = I st" "I (leg_end cf rt x st) = I st"
      "I (st_target (\<lambda>t. targetSkipped t a r q x f) st) = I st"
    and refresh: "I st \<Longrightarrow> I (adopt_refresh c p st)"
    and commit: "I st \<Longrightarrow> I (commit_stream cf rt resp st)"
begin

lemma updates:
  "I (add_attempt st a) = I st" "I (set_row st n cls) = I st" "I (add_write st w) = I st"
  "I (inferenceError st n ty code msg) = I st" "I (terminal_error st n ty code msg) = I st"
  "I (recordSkippedAttempt cf rt st a b) = I st" "I (openCooldown cf ev c cls msg st) = I st"
  "I (direct_status_error ev c r st) = I st" "I (select_target c target r st) = I st"
  by (simp_all add: add_attempt_def set_row_def add_write_def inferenceError_def terminal_error_def
      recordSkippedAttempt_def openCooldown_def direct_status_error_def select_target_def fields targets Let_def
      split: option.split)

lemma stages:
  assumes "I st"
  shows "leaves (inv_flow I) I (attempt_top cf rt ev pass i st)"
    and "leaves (inv_flow I) (\<lambda>(s, _). I s) (attempt_guards cf rt ev pass c adv st)"
    and "leaves (inv_flow I) I (attempt_translate cf rt ev c adv target st)"
    and "leaves (inv_flow I) I (attempt_normalize cf rt ev c adv target st)"
    and "leaves (inv_flow I) (\<lambda>(s, _). I s) (attempt_send cf rt ev c st)"
    and "leaves (inv_flow I) I (attempt_status cf rt ev c r st)"
    and "leaves (inv_flow I) I (attempt_preflight cf rt ev c st)"
    and "leaves (inv_flow I) I (attempt_probe cf rt ev c r st)"
  using assms
  by (auto simp: attempt_top_def attempt_guards_def attempt_translate_def attempt_normalize_def
      attempt_send_def net_error_def attempt_status_def attempt_preflight_def attempt_probe_def
      recordPreOutputFailure_def inv_flow_def Let_def updates fields targets intro!: refresh
      split: option.split translation.split min_tokens.split do_result.split)

lemma iteration_keeps: "I st \<Longrightarrow> inv_flow I (iteration cf rt ev pass i st)"
  unfolding iteration_def Let_def attempt_call_def attempt_response_def
  by (rule leaves_and_then [OF stages(1)], assumption,
      erule leaves_and_then [OF stages(2)], clarify,
      erule leaves_and_then [OF stages(3)],
      erule leaves_and_then [OF stages(4)],
      erule leaves_and_then [OF stages(5)], clarify,
      erule leaves_and_then [OF stages(6)],
      rule leaves_and_then [OF stages(7)], erule commit,
      erule leaves_and_then [OF stages(8)],
      simp add: inv_flow_def updates)

end

sublocale row_invariant \<subseteq> loop_invariant I "\<lambda>_. True" cf rt
  by unfold_locales (rule iteration_keeps)

text \<open>The loop touches no client ticket, and commits no stream for a client that asked for none.\<close>

definition tickets_are :: "(string, inflightState) gomap \<Rightarrow> rstate \<Rightarrow> bool" where
  "tickets_are K st \<longleftrightarrow> clientStates (st_tracker st) = K"

definition commit_ok :: "config \<Rightarrow> route \<Rightarrow> rstate \<Rightarrow> bool" where
  "commit_ok cf rt st \<longleftrightarrow> (st_committed st \<longrightarrow> rt_Virtual rt \<and> ordered rt \<and> \<not> cf_nonStreaming cf)"

lemma targets_tickets [simp]:
  "clientStates (st_tracker (leg_start cf rt x st)) = clientStates (st_tracker st)"
  "clientStates (st_tracker (leg_end cf rt x st)) = clientStates (st_tracker st)"
  "clientStates (st_tracker (st_target (\<lambda>t. targetSkipped t a r q x f) st)) = clientStates (st_tracker st)"
  by (simp_all add: leg_start_def leg_end_def st_target_def targetStart_def targetEnd_def targetSkipped_def Let_def)

lemma targets_committed [simp]:
  "st_committed (leg_start cf rt x st) = st_committed st" "st_committed (leg_end cf rt x st) = st_committed st"
  "st_committed (st_target g st) = st_committed st"
  by (simp_all add: leg_start_def leg_end_def st_target_def split: prod.split)

interpretation tickets: row_invariant "tickets_are K" cf rt for K cf rt
  by unfold_locales (simp_all add: tickets_are_def adopt_refresh_def commit_stream_def)

interpretation commits: row_invariant "commit_ok cf rt" cf rt for cf rt
  by unfold_locales (simp_all add: commit_ok_def adopt_refresh_def commit_stream_def)

section \<open>Both passes\<close>

lemma run_passes_order:
  assumes "run_passes cf rt env st = (e, k, st')"
    and "\<forall>c \<in> set (st_candidates st). c_ProviderModelID c \<noteq> []"
  shows "\<exists>js1 js2. sorted js1 \<and> sorted js2 \<and> set (js1 @ js2) \<subseteq> {0..<length (st_candidates st)} \<and>
     List.map fst (st_calls st') = List.map fst (st_calls st) @
       List.map (\<lambda>j. c_ProviderModelID (st_candidates st ! j)) (js1 @ js2) \<and>
     length (js1 @ js2) \<le> k \<and> k \<le> 2 * length (st_candidates st) + unrefreshed st \<and>
     (e = Selected \<longrightarrow> js1 @ js2 \<noteq> [] \<and>
        st_activeTargetID st' = c_ProviderModelID (st_candidates st ! last (js1 @ js2)))"
proof -
  let ?n = "length (st_candidates st)" and ?m = "\<lambda>s j. c_ProviderModelID (st_candidates s ! j)"
  obtain e1 k1 st1 where r1: "run_pass cf rt env 0 0 0 st = (e1, k1, st1)" by (metis prod_cases3)
  from run_pass_order [OF r1 assms(2)] obtain js1 where j1: "sorted js1" "set js1 \<subseteq> {0..<?n}"
    "List.map fst (st_calls st1) = List.map fst (st_calls st) @ List.map (?m st) js1" "length js1 \<le> k1"
    "k1 + unrefreshed st1 \<le> ?n + unrefreshed st"
    "List.map c_ProviderModelID (st_candidates st1) = List.map c_ProviderModelID (st_candidates st)"
    "e1 = Selected \<longrightarrow> js1 \<noteq> [] \<and> st_activeTargetID st1 = ?m st (last js1)" by auto
  show ?thesis
  proof (cases "e1 = Exhausted \<and> st_skippedCooled st1")
    case False
    then have "(e, k, st') = (e1, k1, st1)" using assms(1) r1 by (auto simp: run_passes_def)
    then show ?thesis using j1 by (intro exI [of _ js1] exI [of _ "[]"]) simp
  next
    case True
    then have r2: "run_pass cf rt env 1 k1 0 st1 = (e, k, st')" using assms(1) r1 by (simp add: run_passes_def)
    have len: "length (st_candidates st1) = ?n" using j1(6) by (metis length_map)
    have m: "?m st1 j = ?m st j" if "j < ?n" for j using j1(6) len that by (metis nth_map)
    have ne: "\<forall>c \<in> set (st_candidates st1). c_ProviderModelID c \<noteq> []"
      using assms(2) j1(6) by (metis (no_types, lifting) image_iff list.set_map)
    from run_pass_order [OF r2 ne] obtain js2 where j2: "sorted js2" "set js2 \<subseteq> {0..<?n}"
      "List.map fst (st_calls st') = List.map fst (st_calls st1) @ List.map (?m st1) js2"
      "length js2 \<le> k - k1" "k1 \<le> k" "k + unrefreshed st' \<le> k1 + ?n + unrefreshed st1"
      "e = Selected \<longrightarrow> js2 \<noteq> [] \<and> st_activeTargetID st' = ?m st1 (last js2)" using len by auto
    have "List.map (?m st1) js2 = List.map (?m st) js2" using j2(2) m by (intro map_cong) auto
    moreover have "?m st1 (last js2) = ?m st (last js2)" if "js2 \<noteq> []"
      using that j2(2) m [of "last js2"] last_in_set by fastforce
    ultimately show ?thesis using j1 j2 by (intro exI [of _ js1] exI [of _ js2]) auto
  qed
qed

section \<open>Cooled targets\<close>

text \<open>In the first pass a cooled target is skipped without a call.\<close>

lemma cooled_is_skipped:
  assumes "ordered rt" "0 < cf_cooldownSeconds cf" "ev_ctx ev 0 = None"
    and "c_Available (st_candidates st ! i)"
    and "cooled (st_cooldown st) (cf_accountID cf) (c_ProviderModelID (st_candidates st ! i)) (ev_now ev)"
  shows "\<exists>st'. iteration cf rt ev 0 i st = Next st' \<and> st_calls st' = st_calls st \<and>
     st_cooldown st' = st_cooldown st \<and> st_skippedCooled st' \<and>
     st_attempts st' = st_attempts st @ [mk_attempt (st_candidates st ! i) ''skipped'' 0 ''cooldown'' None []]"
proof -
  have "st_skippedCooled (recordSkippedAttempt cf rt s a b) = st_skippedCooled s" for s a b
    by (simp add: recordSkippedAttempt_def add_attempt_def st_target_def Let_def split: prod.split)
  moreover have "st_cooldown (recordSkippedAttempt cf rt s a b) = st_cooldown s" for s a b by simp
  ultimately show ?thesis
    using assms by (simp add: iteration_def attempt_top_def attempt_guards_def Let_def mk_attempt_def)
qed

text \<open>When every target is cooled, the first pass calls none and the second pass tries them all.\<close>

lemma all_cooled_pass:
  assumes "ordered rt" "0 < cf_cooldownSeconds cf" "\<forall>k. ev_ctx (env k) 0 = None"
    and "\<forall>c \<in> set (st_candidates st). c_Available c \<and>
           (\<forall>k. cooled (st_cooldown st) (cf_accountID cf) (c_ProviderModelID c) (ev_now (env k)))"
    and "i \<le> length (st_candidates st)"
  shows "\<exists>st'. run_pass cf rt env 0 k i st = (Exhausted, k + (length (st_candidates st) - i), st') \<and>
     st_calls st' = st_calls st \<and> (i < length (st_candidates st) \<longrightarrow> st_skippedCooled st') \<and>
     st_candidates st' = st_candidates st \<and>
     (st_skippedCooled st \<longrightarrow> st_skippedCooled st')"
  using assms
proof (induction "length (st_candidates st) - i" arbitrary: k i st)
  case 0
  then show ?case by (subst run_pass.simps) simp
next
  case (Suc d)
  then have i: "i < length (st_candidates st)" by simp
  have ci: "c_Available (st_candidates st ! i)"
    "cooled (st_cooldown st) (cf_accountID cf) (c_ProviderModelID (st_candidates st ! i)) (ev_now (env k))"
    using Suc.prems(4) i by auto
  obtain s where s: "iteration cf rt (env k) 0 i st = Next s" "st_calls s = st_calls st"
    "st_cooldown s = st_cooldown st" "st_skippedCooled s"
    using cooled_is_skipped [OF Suc.prems(1,2) Suc.prems(3) [rule_format] ci] by blast
  have sc: "st_candidates s = st_candidates st" using iteration_Next [OF s(1)] by (simp add: same_candidates_def)
  obtain st' where "run_pass cf rt env 0 (k + 1) (i + 1) s =
      (Exhausted, k + 1 + (length (st_candidates s) - (i + 1)), st')"
    "st_calls st' = st_calls s" "st_candidates st' = st_candidates s" "st_skippedCooled st'"
  proof -
    have "d = length (st_candidates s) - (i + 1)" using Suc(2) sc by simp
    from Suc(1) [OF this Suc.prems(1-3), of "k + 1"] Suc.prems(4) i sc s that show thesis by auto
  qed
  then show ?case using s sc i by (subst run_pass.simps) auto
qed

lemma all_cooled_last_resort:
  assumes "ordered rt" "0 < cf_cooldownSeconds cf" "\<forall>k. ev_ctx (env k) 0 = None" "st_candidates st \<noteq> []"
    and "\<forall>c \<in> set (st_candidates st). c_Available c \<and>
           (\<forall>k. cooled (st_cooldown st) (cf_accountID cf) (c_ProviderModelID c) (ev_now (env k)))"
  shows "\<exists>st1. st_calls st1 = st_calls st \<and> st_candidates st1 = st_candidates st \<and>
     run_passes cf rt env st = run_pass cf rt env 1 (length (st_candidates st)) 0 st1"
  using all_cooled_pass [OF assms(1-3,5), of 0 0] assms(4) by (auto simp: run_passes_def)

section \<open>Failures of the client\<close>

text \<open>When the client has ended, an attempt that got no HTTP error status cools nothing.\<close>

definition cool_same :: "cooldownStore \<Rightarrow> flow \<Rightarrow> bool" where
  "cool_same C = inv_flow (\<lambda>s. st_cooldown s = C)"

lemma cooldown_commit [simp]: "st_cooldown (commit_stream cf rt r st) = st_cooldown st"
  by (simp add: commit_stream_def)

lemma ended_at:
  "\<forall>j. 1 \<le> j \<longrightarrow> ev_ctx ev j \<noteq> None \<Longrightarrow>
   ev_ctx ev 2 \<noteq> None \<and> ev_ctx ev 3 \<noteq> None \<and> ev_ctx ev 5 \<noteq> None \<and> ev_ctx ev 6 \<noteq> None"
  by simp

lemma ended_stages:
  assumes "\<forall>j. 1 \<le> j \<longrightarrow> ev_ctx ev j \<noteq> None" "st_cooldown st = C"
  shows "leaves (cool_same C) (\<lambda>s. st_cooldown s = C) (attempt_top cf rt ev pass i st)"
    and "leaves (cool_same C) (\<lambda>(s, _). st_cooldown s = C) (attempt_guards cf rt ev pass c adv st)"
    and "leaves (cool_same C) (\<lambda>s. st_cooldown s = C) (attempt_translate cf rt ev c adv target st)"
    and "leaves (cool_same C) (\<lambda>s. st_cooldown s = C) (attempt_normalize cf rt ev c adv target st)"
    and "leaves (cool_same C) (\<lambda>s. st_cooldown s = C) (attempt_preflight cf rt ev c st)"
    and "leaves (cool_same C) (\<lambda>s. st_cooldown s = C) (attempt_probe cf rt ev c r st)"
  using assms(2) ended_at [OF assms(1)]
  by (auto simp: attempt_top_def attempt_guards_def attempt_translate_def attempt_normalize_def
      attempt_preflight_def attempt_probe_def recordPreOutputFailure_def cool_same_def inv_flow_def Let_def
      split: option.split translation.split min_tokens.split)

definition no_error_status :: "iter_env \<Rightarrow> bool" where
  "no_error_status ev = (case ev_do ev of DoFailed _ \<Rightarrow> True | DoResponse r \<Rightarrow> \<not> fallbackStatus (rs_status r))"

lemma classify_status [simp]: "rs_status (classify_response c r) = rs_status r"
  by (simp add: classify_response_def sniffAndClassify_def split: prod.split)

lemma ended_send:
  assumes "\<forall>j. 1 \<le> j \<longrightarrow> ev_ctx ev j \<noteq> None" "no_error_status ev" "st_cooldown st = C"
  shows "leaves (cool_same C) (\<lambda>(s, r). st_cooldown s = C \<and> \<not> fallbackStatus (rs_status r)) (attempt_send cf rt ev c st)"
  using assms(2,3) ended_at [OF assms(1)]
  by (auto simp: attempt_send_def net_error_def cool_same_def inv_flow_def no_error_status_def Let_def
      split: option.split do_result.splits)

lemma ended_iteration:
  assumes "\<forall>j. 1 \<le> j \<longrightarrow> ev_ctx ev j \<noteq> None" "no_error_status ev"
  shows "cool_same (st_cooldown st) (iteration cf rt ev pass i st)"
proof -
  note st = ended_stages [OF assms(1)]
  show ?thesis
    unfolding iteration_def Let_def attempt_call_def attempt_response_def
    by (rule leaves_and_then [OF st(1) [OF refl]],
        erule leaves_and_then [OF st(2)], clarify,
        erule leaves_and_then [OF st(3)],
        erule leaves_and_then [OF st(4)],
        erule leaves_and_then [OF ended_send [OF assms]], clarify,
        simp add: attempt_status_def,
        rule leaves_and_then [OF st(5)], simp,
        erule leaves_and_then [OF st(6)],
        simp add: cool_same_def inv_flow_def)
qed

section \<open>Token refreshes\<close>

definition refreshed_once :: "rstate \<Rightarrow> bool" where
  "refreshed_once st \<longleftrightarrow> distinct (st_oauthRefreshed st)"

interpretation refreshes: loop_invariant refreshed_once "\<lambda>_. True" cf rt for cf rt
proof (unfold_locales)
  fix st ev pass i assume r: "refreshed_once st"
  show "inv_flow refreshed_once (iteration cf rt ev pass i st)"
    using iteration_frame [of st i cf rt ev pass] r
    by (cases "iteration cf rt ev pass i st")
       (auto simp: frame_flow_def inv_flow_def same_candidates_def retry_frame_def refreshed_once_def)
qed

end
