(* ===== verification/Relay.thy ===== *)
theory Relay
  imports RoutingLaws
begin

text \<open>
  The rest of \<open>Server.proxy\<close> after a target was selected: the four ways a response is relayed
  (aggregated from SSE, translated, passed through as SSE, passed through as JSON), the failure of
  each, the release of the selected target's cooldown, and the deferred release of the request's
  ticket and leg. The outcomes of the reads and of the translators are inputs (\<open>relay_env\<close>); the
  frames of a stream are one write \<open>Relayed\<close>.
\<close>

section \<open>Relaying\<close>

datatype aggregate = AggregateOk | AggregateStreamError | AggregateFailed

datatype nonstream_body = NotJson | JsonTranslated | JsonRejected

record relay_env =
  rl_ctx :: "ctx_err option"
  rl_timedOut :: bool
  rl_aggregate :: aggregate
  rl_nonstream :: nonstream_body
  rl_translate :: "string option"
  rl_rewriteFails :: bool
  rl_readFails :: bool

definition relay_class :: "relay_env \<Rightarrow> string \<Rightarrow> string" where
  "relay_class rl base = clientFailureClass (rl_ctx rl) (if rl_timedOut rl then ''upstream_timeout'' else base)"

definition markLastAttemptFailed :: "string \<Rightarrow> rstate \<Rightarrow> rstate" where
  "markLastAttemptFailed cls st =
     (if st_attempts st = [] then st
      else st\<lparr>st_attempts := butlast (st_attempts st) @
             [(last (st_attempts st))\<lparr>at_result := ''failed'', at_failureClass := cls,
                at_errorMessage := strPtrIfNonEmpty (fixedUpstreamErrorMessage cls)\<rparr>]\<rparr>)"

definition clearSelectedCooldown :: "config \<Rightarrow> route \<Rightarrow> candidate \<Rightarrow> rstate \<Rightarrow> rstate" where
  "clearSelectedCooldown cf rt c st =
     (if ordered rt \<and> 0 < cf_cooldownSeconds cf \<and> c_ProviderModelID c \<noteq> []
      then st\<lparr>st_cooldown := cooldown_remove (st_cooldown st) (cf_accountID cf) (c_ProviderModelID c)\<rparr>
      else st)"

definition could_not :: string where
  "could_not = ''The upstream provider could not complete the request.''"

text \<open>The client is told it is streaming, and the stream is committed unless the probe did it.\<close>

definition start_stream :: "config \<Rightarrow> route \<Rightarrow> rstate \<Rightarrow> rstate" where
  "start_stream cf rt st =
     (st_target (\<lambda>t. clientStreaming t (cf_accountID cf) (cf_clientKeyID cf) (rt_RouteModelID rt)) st)
       \<lparr>st_committed := True\<rparr>"

definition relay_aggregate :: "config \<Rightarrow> route \<Rightarrow> relay_env \<Rightarrow> candidate \<Rightarrow> response \<Rightarrow> rstate \<Rightarrow> rstate" where
  "relay_aggregate cf rt rl c r st =
     (let st = st\<lparr>st_httpStatus := rs_status r\<rparr>; cls0 = relay_class rl ''upstream_read_error'' in
      if rl_aggregate rl = AggregateOk
      then clearSelectedCooldown cf rt c (add_write st (Relayed ''json''))
      else (let st = markLastAttemptFailed cls0 st;
                cls = (if rl_aggregate rl = AggregateStreamError then ''upstream_stream_error'' else cls0)
            in inferenceError (set_row st 502 cls) 502 ''api_error'' cls could_not))"

definition relay_translated ::
  "config \<Rightarrow> route \<Rightarrow> relay_env \<Rightarrow> candidate \<Rightarrow> response \<Rightarrow> rstate \<Rightarrow> rstate" where
  "relay_translated cf rt rl c r st =
     (let streaming = isStreamingResponse r;
          st = (if streaming then start_stream cf rt st else st);
          st = st\<lparr>st_httpStatus := rs_status r\<rparr>;
          early = (if \<not> streaming \<and> \<not> st_committed st then rl_nonstream rl else NotJson)
      in case early of
           JsonRejected \<Rightarrow>
             (let cls = relay_class rl ''translation_error'' in
              inferenceError (markLastAttemptFailed cls (set_row st 502 cls)) 502 ''api_error'' cls could_not)
         | JsonTranslated \<Rightarrow> clearSelectedCooldown cf rt c (add_write st (Relayed ''json''))
         | NotJson \<Rightarrow>
             (let st = add_write st (Relayed ''stream'') in
              case rl_translate rl of
                None \<Rightarrow> clearSelectedCooldown cf rt c st
              | Some base \<Rightarrow>
                  (let cls = relay_class rl base;
                       st = markLastAttemptFailed cls (set_row st 502 cls)
                   in if streaming then add_write st (StreamFailure cls) else st)))"

definition relay_direct :: "config \<Rightarrow> route \<Rightarrow> relay_env \<Rightarrow> candidate \<Rightarrow> response \<Rightarrow> rstate \<Rightarrow> rstate" where
  "relay_direct cf rt rl c r st =
     (let cls = relay_class rl ''upstream_read_error'' in
      if isStreamingResponse r then
        (let st = add_write ((start_stream cf rt st)\<lparr>st_httpStatus := rs_status r\<rparr>) (Relayed ''stream'')
         in if rl_rewriteFails rl
            then add_write (markLastAttemptFailed cls (set_row st 502 cls)) (StreamFailure cls)
            else clearSelectedCooldown cf rt c st)
      else if rl_readFails rl then
        (let st = markLastAttemptFailed cls (set_row st 502 cls)
         in if st_committed st then add_write st (StreamFailure cls) else st)
      else clearSelectedCooldown cf rt c
             (add_write (st\<lparr>st_httpStatus := rs_status r\<rparr>)
                (Relayed (if st_committed st then ''stream'' else ''json''))))"

definition relay ::
  "config \<Rightarrow> route \<Rightarrow> relay_env \<Rightarrow> candidate \<Rightarrow> string \<Rightarrow> response \<Rightarrow> rstate \<Rightarrow> rstate" where
  "relay cf rt rl c target r st =
     (let st = st_target (\<lambda>t. clientResolved t (cf_accountID cf) (cf_clientKeyID cf) (rt_RouteModelID rt)
                               (p_Name (c_Provider c) @ ''/'' @ c_UpstreamModelID c)) st
      in if isStreamingResponse r \<and> cf_nonStreaming cf then relay_aggregate cf rt rl c r st
         else if target \<noteq> cf_incoming cf then relay_translated cf rt rl c r st
         else relay_direct cf rt rl c r st)"

text \<open>\<open>streamed\<close>: the relay announced a stream to the tracker.\<close>

definition streams :: "config \<Rightarrow> response \<Rightarrow> bool" where
  "streams cf r \<longleftrightarrow> isStreamingResponse r \<and> \<not> cf_nonStreaming cf"

section \<open>The deferred releases and the whole handler\<close>

definition finish :: "config \<Rightarrow> route \<Rightarrow> bool \<Rightarrow> rstate \<Rightarrow> rstate" where
  "finish cf rt streamed st =
     (let st = st_target (\<lambda>t. clientEnd t (cf_accountID cf) (cf_clientKeyID cf) (rt_RouteModelID rt) streamed) st
      in if st_activeTargetID st \<noteq> [] then leg_end cf rt (st_activeTargetID st) st else st)"

definition proxy_routed ::
  "config \<Rightarrow> route \<Rightarrow> (nat \<Rightarrow> iter_env) \<Rightarrow> relay_env \<Rightarrow> rstate \<Rightarrow> rstate" where
  "proxy_routed cf rt env rl st =
     (case run_passes cf rt env st of
        (Returned, k, st') \<Rightarrow> finish cf rt False st'
      | (Exhausted, k, st') \<Rightarrow> finish cf rt False (exhausted rt st')
      | (Selected, k, st') \<Rightarrow>
          (case st_selected st' of
             None \<Rightarrow> finish cf rt False (exhausted rt st')
           | Some (c, target, r) \<Rightarrow> finish cf rt (streams cf r) (relay cf rt rl c target r st')))"

definition start_state :: "route \<Rightarrow> cooldownStore \<Rightarrow> inflightTracker \<Rightarrow> rstate" where
  "start_state rt C t =
     \<lparr>st_attempts = [], st_httpStatus = 0, st_errorText = None, st_errorMessage = None,
      st_fallbackUsed = False, st_fallbackReason = None, st_reasoningStripped = False,
      st_liveFallback = False, st_candidates = route_candidates rt, st_oauthRefreshed = [],
      st_cooldown = C, st_tracker = t, st_emitted = [], st_protocolUnavailable = False,
      st_translationFailureClass = [], st_nonTranslationFailure = False,
      st_terminalPreflightClass = [], st_skippedCooled = False, st_committed = False,
      st_writes = [], st_calls = [], st_activeTargetID = [], st_selected = None\<rparr>"

section \<open>No ticket and no leg is leaked\<close>

definition own :: "config \<Rightarrow> route \<Rightarrow> string \<Rightarrow> string \<Rightarrow> string \<Rightarrow> int" where
  "own cf rt a i r = (if a = cf_accountID cf \<and> i = cf_clientKeyID cf \<and> r = rt_RouteModelID rt then 1 else 0)"

text \<open>The tickets and legs of a tracker relative to another: \<open>n\<close> requests and \<open>m\<close> streams more for
  this request's ticket, the legs \<open>legs\<close> more.\<close>

definition relative ::
  "config \<Rightarrow> route \<Rightarrow> inflightTracker \<Rightarrow> int \<Rightarrow> int \<Rightarrow> string list \<Rightarrow> inflightTracker \<Rightarrow> bool" where
  "relative cf rt t0 n m legs t \<longleftrightarrow>
     legs_are cf rt (\<lambda>a r x. Active (leg t0 a r x)) legs t \<and>
     (\<forall>a i r. nul_free a \<longrightarrow> nul_free i \<longrightarrow> i \<noteq> [] \<longrightarrow>
        Active (ticket t a i r) = Active (ticket t0 a i r) + n * own cf rt a i r \<and>
        Streaming (ticket t a i r) = Streaming (ticket t0 a i r) + m * own cf rt a i r)"

definition client_ids_ok :: "config \<Rightarrow> route \<Rightarrow> bool" where
  "client_ids_ok cf rt \<longleftrightarrow> ids_ok cf rt \<and> nul_free (cf_clientKeyID cf) \<and> cf_clientKeyID cf \<noteq> []"

lemma relative_client_op:
  assumes "relative cf rt t0 n m legs t" "op_ids_ok oper" "targetStates (fst (inflight_apply oper t)) = targetStates t"
    and "\<And>a i r. nul_free a \<Longrightarrow> nul_free i \<Longrightarrow> i \<noteq> [] \<Longrightarrow>
      consumer_active (snd (inflight_apply oper t)) a i r = dn * own cf rt a i r \<and>
      consumer_streaming (snd (inflight_apply oper t)) a i r = dm * own cf rt a i r"
  shows "relative cf rt t0 (n + dn) (m + dm) legs (fst (inflight_apply oper t))"
proof -
  have inv: "inflight_inv t" using assms(1) by (simp add: relative_def legs_are_def)
  show ?thesis
    using assms(1,3,4) apply_ticket [OF inv assms(2)] inflight_apply_inv [OF inv assms(2)]
    by (simp add: relative_def legs_are_def leg_def distrib_right)
qed

lemma relative_resolved:
  assumes "client_ids_ok cf rt" "relative cf rt t0 n m legs t"
  shows "relative cf rt t0 n m legs
     (fst (clientResolved t (cf_accountID cf) (cf_clientKeyID cf) (rt_RouteModelID rt) model))"
  using relative_client_op [OF assms(2), of "Resolve (cf_accountID cf) (cf_clientKeyID cf) (rt_RouteModelID rt) model" 0 0]
    assms(1)
  by (simp add: client_ids_ok_def ids_ok_def clientResolved_def Let_def consumer_defs zero_delta_def)

lemma relative_streaming:
  assumes "client_ids_ok cf rt" "relative cf rt t0 n m legs t"
  shows "relative cf rt t0 n (m + 1) legs
     (fst (clientStreaming t (cf_accountID cf) (cf_clientKeyID cf) (rt_RouteModelID rt)))"
  using relative_client_op [OF assms(2), of "Stream (cf_accountID cf) (cf_clientKeyID cf) (rt_RouteModelID rt)" 0 1]
    assms(1)
  by (simp add: client_ids_ok_def ids_ok_def clientStreaming_def Let_def consumer_defs zero_delta_def own_def)

lemma relative_end:
  assumes "client_ids_ok cf rt" "relative cf rt t0 n m legs t"
    and "0 < Active (ticket t (cf_accountID cf) (cf_clientKeyID cf) (rt_RouteModelID rt))"
    and "streamed \<longrightarrow> 0 < Streaming (ticket t (cf_accountID cf) (cf_clientKeyID cf) (rt_RouteModelID rt))"
  shows "relative cf rt t0 (n - 1) (m - (if streamed then 1 else 0)) legs
     (fst (clientEnd t (cf_accountID cf) (cf_clientKeyID cf) (rt_RouteModelID rt) streamed))"
proof -
  let ?op = "End (cf_accountID cf) (cf_clientKeyID cf) (rt_RouteModelID rt) streamed"
  have em: "snd (inflight_apply ?op t) = [(cf_accountID cf, zero_delta\<lparr>d_ID := rt_RouteModelID rt,
      d_ClientID := cf_clientKeyID cf, d_Active := -1, d_Streaming := (if streamed then -1 else 0)\<rparr>)]"
    using assms(3,4) by (simp add: clientEnd_def Let_def ticket_def)
  have "op_ids_ok ?op" using assms(1) by (simp add: client_ids_ok_def ids_ok_def)
  moreover have "targetStates (fst (inflight_apply ?op t)) = targetStates t"
    by (simp add: clientEnd_def Let_def)
  moreover have "consumer_active (snd (inflight_apply ?op t)) a i r = (-1) * own cf rt a i r \<and>
      consumer_streaming (snd (inflight_apply ?op t)) a i r = (- (if streamed then 1 else 0)) * own cf rt a i r"
    if "nul_free a" "nul_free i" "i \<noteq> []" for a i r
    using assms(1) unfolding em
    by (auto simp: consumer_defs zero_delta_def own_def client_ids_ok_def)
  ultimately show ?thesis
    using relative_client_op [OF assms(2), of ?op "-1" "- (if streamed then 1 else 0)"] by simp
qed

lemma st_tracker_target [simp]: "st_tracker (st_target f st) = fst (f (st_tracker st))"
  by (simp add: st_target_def split: prod.split)

lemma tracker_rows [simp]:
  "st_tracker (add_write st w) = st_tracker st" "st_tracker (set_row st n cls) = st_tracker st"
  "st_tracker (inferenceError st n ty code msg) = st_tracker st"
  "st_tracker (terminal_error st n ty code msg) = st_tracker st"
  "st_tracker (markLastAttemptFailed cls st) = st_tracker st"
  "st_tracker (clearSelectedCooldown cf rt c st) = st_tracker st"
  by (simp_all add: row_defs markLastAttemptFailed_def clearSelectedCooldown_def)

lemma exhausted_tracker [simp]: "st_tracker (exhausted rt st) = st_tracker st"
  by (simp add: exhausted_def Let_def)

lemma start_stream_tracker [simp]: "st_tracker (start_stream cf rt st) =
    fst (clientStreaming (st_tracker st) (cf_accountID cf) (cf_clientKeyID cf) (rt_RouteModelID rt))"
  by (simp add: start_stream_def)

lemma active_rows [simp]:
  "st_activeTargetID (add_write st w) = st_activeTargetID st" "st_activeTargetID (set_row st n cls) = st_activeTargetID st"
  "st_activeTargetID (inferenceError st n ty code msg) = st_activeTargetID st"
  "st_activeTargetID (terminal_error st n ty code msg) = st_activeTargetID st"
  "st_activeTargetID (markLastAttemptFailed cls st) = st_activeTargetID st"
  "st_activeTargetID (clearSelectedCooldown cf rt c st) = st_activeTargetID st"
  "st_activeTargetID (st_target f st) = st_activeTargetID st"
  "st_activeTargetID (start_stream cf rt st) = st_activeTargetID st"
  by (simp_all add: row_defs markLastAttemptFailed_def clearSelectedCooldown_def start_stream_def split: prod.split)

lemma relay_tracker:
  "st_tracker (relay cf rt rl c target r st) =
     (let t = fst (clientResolved (st_tracker st) (cf_accountID cf) (cf_clientKeyID cf) (rt_RouteModelID rt)
                     (p_Name (c_Provider c) @ ''/'' @ c_UpstreamModelID c))
      in if streams cf r
         then fst (clientStreaming t (cf_accountID cf) (cf_clientKeyID cf) (rt_RouteModelID rt)) else t)"
  by (simp add: relay_def relay_aggregate_def relay_translated_def relay_direct_def streams_def Let_def
      split: nonstream_body.split option.split)

lemma relay_active: "st_activeTargetID (relay cf rt rl c target r st) = st_activeTargetID st"
  by (simp add: relay_def relay_aggregate_def relay_translated_def relay_direct_def Let_def
      split: nonstream_body.split option.split)

lemma exhausted_active [simp]: "st_activeTargetID (exhausted rt st) = st_activeTargetID st"
  by (simp add: exhausted_def Let_def)

lemma finish_tracker:
  "st_tracker (finish cf rt streamed st) =
     (let t = fst (clientEnd (st_tracker st) (cf_accountID cf) (cf_clientKeyID cf) (rt_RouteModelID rt) streamed)
      in if st_activeTargetID st \<noteq> []
         then fst (inflight_apply (TargetEnd (cf_accountID cf) (rt_RouteModelID rt) (st_activeTargetID st)) t)
         else t)"
  by (simp add: finish_def leg_end_tracker Let_def)

lemma start_books:
  "inflight_inv t \<Longrightarrow>
   books cf rt (\<lambda>a r x. Active (leg t a r x)) [] [] [] (start_state rt C t)"
  by (simp add: books_def legs_are_def start_state_def recorded_calls_def)

lemma own_pos: "0 \<le> own cf rt a i r"
  by (simp add: own_def)

lemma own_self [simp]: "own cf rt (cf_accountID cf) (cf_clientKeyID cf) (rt_RouteModelID rt) = 1"
  by (simp add: own_def)

lemma relative_legs_end:
  assumes "client_ids_ok cf rt" "relative cf rt t0 n m [x] t" "x \<noteq> []" "inflight_inv t0"
  shows "relative cf rt t0 n m [] (fst (inflight_apply (TargetEnd (cf_accountID cf) (rt_RouteModelID rt) x) t))"
proof -
  have "clientStates (fst (inflight_apply (TargetEnd (cf_accountID cf) (rt_RouteModelID rt) x) t)) = clientStates t"
    by (simp add: targetEnd_def Let_def)
  then show ?thesis
    using legs_end [of cf rt "\<lambda>a r x. Active (leg t0 a r x)" x t] assms leg_nonneg [OF assms(4)]
    by (simp add: relative_def ticket_def client_ids_ok_def)
qed

text \<open>The deferred releases undo the ticket, the announced stream and the open leg.\<close>

lemma finish_relative:
  assumes ids: "client_ids_ok cf rt" and inv: "inflight_inv t0"
    and held: "0 < Active (ticket t0 (cf_accountID cf) (cf_clientKeyID cf) (rt_RouteModelID rt))"
    and rel: "relative cf rt t0 0 (if streamed then 1 else 0) legs (st_tracker st)"
    and legs: "legs = (if st_activeTargetID st = [] then [] else [st_activeTargetID st])"
  shows "relative cf rt t0 (-1) 0 [] (st_tracker (finish cf rt streamed st))"
proof -
  let ?a = "cf_accountID cf" and ?i = "cf_clientKeyID cf" and ?r = "rt_RouteModelID rt"
  let ?t = "fst (clientEnd (st_tracker st) ?a ?i ?r streamed)"
  have ok: "nul_free ?a" "nul_free ?i" "?i \<noteq> []" using ids by (auto simp: client_ids_ok_def ids_ok_def)
  have "0 < Active (ticket (st_tracker st) ?a ?i ?r)"
    and "streamed \<longrightarrow> 0 < Streaming (ticket (st_tracker st) ?a ?i ?r)"
    using rel held ok ticket_nonneg [OF inv, of ?a ?i ?r] by (auto simp: relative_def)
  then have e: "relative cf rt t0 (-1) 0 legs ?t"
    using relative_end [OF ids rel, of streamed] by simp
  then show ?thesis
    using legs relative_legs_end [OF ids _ _ inv] by (auto simp: finish_tracker Let_def)
qed

lemma proxy_balanced:
  assumes ids: "client_ids_ok cf rt" and inv: "inflight_inv t0"
    and held: "0 < Active (ticket t0 (cf_accountID cf) (cf_clientKeyID cf) (rt_RouteModelID rt))"
  shows "relative cf rt t0 (-1) 0 [] (st_tracker (proxy_routed cf rt env rl (start_state rt C t0)))"
proof -
  let ?L = "\<lambda>a r x. Active (leg t0 a r x)"
  obtain e k st where r: "run_passes cf rt env (start_state rt C t0) = (e, k, st)" by (metis prod_cases3)
  have io: "ids_ok cf rt" using ids by (simp add: client_ids_ok_def)
  have b: "pass_books cf rt ?L [] (e, k, st)"
    unfolding r [symmetric]
    by (rule run_passes_books [OF io _ start_books [OF inv]]) (simp add: leg_nonneg [OF inv])
  have "tickets_are (clientStates t0) st"
    using tickets.run_passes_keep [where env = env and K = "clientStates t0" and st = "start_state rt C t0" and cf = cf and rt = rt] r
    by (simp add: tickets_are_def start_state_def)
  then have tk: "ticket (st_tracker st) = ticket t0" by (simp add: tickets_are_def ticket_def fun_eq_iff)
  have rel: "relative cf rt t0 0 0 legs (st_tracker st)" if "legs_are cf rt ?L legs (st_tracker st)" for legs
    using that by (simp add: relative_def tk)
  show ?thesis
  proof (cases e)
    case Exhausted
    then have "relative cf rt t0 0 0 [] (st_tracker st)" "st_activeTargetID st = []"
      using b rel by (simp_all add: books_def)
    then show ?thesis
      using Exhausted r finish_relative [OF ids inv held, of False "[]" "exhausted rt st"]
      by (simp add: proxy_routed_def)
  next
    case Returned
    then have "relative cf rt t0 0 0 [] (st_tracker st)" "st_activeTargetID st = []"
      using b rel by (auto simp: books_def)
    then show ?thesis
      using Returned r finish_relative [OF ids inv held, of False "[]" st] by (simp add: proxy_routed_def)
  next
    case Selected
    then obtain c target p where sel: "st_selected st = Some (c, target, p)" using b by auto
    let ?x = "st_activeTargetID st"
    have x: "?x \<noteq> []" and l: "relative cf rt t0 0 0 [?x] (st_tracker st)"
      using b rel Selected by (simp_all add: books_def)
    have "relative cf rt t0 0 (if streams cf p then 1 else 0) [?x]
        (st_tracker (relay cf rt rl c target p st))"
      using relative_streaming [OF ids relative_resolved [OF ids l]] relative_resolved [OF ids l]
      by (simp add: relay_tracker Let_def)
    then have "relative cf rt t0 (-1) 0 [] (st_tracker (finish cf rt (streams cf p) (relay cf rt rl c target p st)))"
      by (rule finish_relative [OF ids inv held]) (use x in \<open>simp add: relay_active\<close>)
    moreover have "proxy_routed cf rt env rl (start_state rt C t0) = finish cf rt (streams cf p) (relay cf rt rl c target p st)"
      unfolding proxy_routed_def r Selected by (simp add: sel)
    ultimately show ?thesis by (simp only:)
  qed
qed

section \<open>One answer\<close>

lemma writes_rows [simp]:
  "st_writes (add_write st w) = st_writes st @ [w]" "st_writes (set_row st n cls) = st_writes st"
  "st_writes (inferenceError st n ty code msg) = st_writes st @ [JsonError n ty code msg]"
  "st_writes (markLastAttemptFailed cls st) = st_writes st"
  "st_writes (clearSelectedCooldown cf rt c st) = st_writes st"
  "st_writes (st_target f st) = st_writes st"
  "st_writes (start_stream cf rt st) = st_writes st"
  by (simp_all add: row_defs markLastAttemptFailed_def clearSelectedCooldown_def start_stream_def split: prod.split)

lemma terminal_writes: "\<exists>w. st_writes (terminal_error st n ty code msg) = st_writes st @ [w]"
  by (simp add: terminal_error_def)

lemma exhausted_writes: "\<exists>w. st_writes (exhausted rt st) = st_writes st @ [w]"
  unfolding exhausted_def Let_def
  by (simp only: if_distrib [of st_writes] terminal_error_def) (simp split: if_split)

lemma finish_writes [simp]: "st_writes (finish cf rt b st) = st_writes st"
  by (simp add: finish_def Let_def)

definition one_answer :: "client_write list \<Rightarrow> bool" where
  "one_answer ws \<longleftrightarrow> (\<exists>w. ws = [w]) \<or> (\<exists>cls. ws = [Relayed ''stream'', StreamFailure cls])"

lemma relay_writes:
  "st_writes st = [] \<Longrightarrow> \<not> rl_readFails rl \<Longrightarrow> one_answer (st_writes (relay cf rt rl c target r st))"
  by (simp add: relay_def relay_aggregate_def relay_translated_def relay_direct_def one_answer_def Let_def
      split: nonstream_body.split option.split)

lemma proxy_one_answer:
  assumes "client_ids_ok cf rt" "inflight_inv t0" "\<not> rl_readFails rl"
  shows "one_answer (st_writes (proxy_routed cf rt env rl (start_state rt C t0)))"
proof -
  let ?L = "\<lambda>a r x. Active (leg t0 a r x)"
  obtain e k st where r: "run_passes cf rt env (start_state rt C t0) = (e, k, st)" by (metis prod_cases3)
  have b: "pass_books cf rt ?L [] (e, k, st)"
    unfolding r [symmetric]
    by (rule run_passes_books [OF _ _ start_books [OF assms(2)]])
       (use assms(1) in \<open>simp_all add: leg_nonneg [OF assms(2)] client_ids_ok_def\<close>)
  show ?thesis
  proof (cases e)
    case Exhausted
    then show ?thesis using b r exhausted_writes [of rt st] by (auto simp: proxy_routed_def books_def one_answer_def)
  next
    case Returned
    then show ?thesis using b r by (auto simp: proxy_routed_def books_def one_answer_def)
  next
    case Selected
    then have w: "st_writes st = []" using b by (simp add: books_def)
    show ?thesis
      using Selected r relay_writes [OF w assms(3)] exhausted_writes [of rt st] w
      by (auto simp: proxy_routed_def one_answer_def split: option.split prod.split)
  qed
qed

section \<open>The cooldown of a target that served\<close>

lemma cleared_cooldown:
  assumes "ordered rt" "0 < cf_cooldownSeconds cf" "c_ProviderModelID c \<noteq> []" "nul_free (cf_accountID cf)"
  shows "\<not> cooled (st_cooldown (clearSelectedCooldown cf rt c st)) (cf_accountID cf) (c_ProviderModelID c) now"
  using assms by (simp add: clearSelectedCooldown_def cooled_remove_iff)

text \<open>Without an ordered fallback the shared cooldowns are neither opened nor cleared.\<close>

lemma cooldown_rest [simp]:
  "st_cooldown (st_target f st) = st_cooldown st" "st_cooldown (start_stream cf rt st) = st_cooldown st"
  "st_cooldown (markLastAttemptFailed cls st) = st_cooldown st"
  "st_cooldown (finish cf rt b st) = st_cooldown st" "st_cooldown (exhausted rt st) = st_cooldown st"
  by (simp_all add: st_target_def start_stream_def markLastAttemptFailed_def finish_def exhausted_def Let_def
      split: prod.split)

lemma relay_cooldown:
  "\<not> (ordered rt \<and> 0 < cf_cooldownSeconds cf) \<Longrightarrow> st_cooldown (relay cf rt rl c target r st) = st_cooldown st"
  by (auto simp: relay_def relay_aggregate_def relay_translated_def relay_direct_def clearSelectedCooldown_def
      Let_def split: nonstream_body.split option.split)

end
