(* ===== verification/RouteResolution.thy ===== *)
theory RouteResolution
  imports ClientKeys Relay
begin

text \<open>
  From a client key and a requested model name to the route the routing loop takes: the queries of
  \<open>internal/store/routing.go\<close> and \<open>Server.resolveRoute\<close> (\<open>internal/server/client.go\<close>), and the listing of
  the models a key may use. \<open>QueryRow\<close> takes the first row of the tables' order, which is any. The stored
  text of reasoning capabilities is kept as text.
\<close>

section \<open>Rows joined\<close>

text \<open>\<open>NULL\<close> in a column scanned as text is the empty text.\<close>

record RouteTarget =
  tg_ProviderModelID :: string
  tg_ProviderID :: string
  tg_ProviderName :: string
  tg_ProviderType :: string
  tg_BaseURL :: string
  tg_Credential :: string
  tg_ProviderEnabled :: bool
  tg_Protocols :: string
  tg_NativeProtocol :: "string option"
  tg_UpstreamModelID :: string
  tg_Available :: bool
  tg_Locked :: bool
  tg_ReasoningCapabilities :: "string option"
  tg_MaxOutputTokens :: "int option"

definition canonical_real :: "provider_row \<Rightarrow> model_row \<Rightarrow> string" where
  "canonical_real p m = pv_name p @ ''/'' @ pm_upstream m"

text \<open>A model with its provider, both of the account.\<close>

definition model_in :: "string \<Rightarrow> tenants \<Rightarrow> string \<Rightarrow> (model_row \<times> provider_row) option" where
  "model_in a t i = (case provider_of t i of None \<Rightarrow> None
     | Some (m, p) \<Rightarrow> if pm_account m = a \<and> pv_account p = a then Some (m, p) else None)"

text \<open>The row scanned, its credential opened; a locked credential makes the target unavailable, any other failure ends the scan.\<close>

definition scan_target :: "aead \<Rightarrow> scope \<Rightarrow> string \<Rightarrow> model_row \<times> provider_row \<Rightarrow> serr + RouteTarget" where
  "scan_target g sc i row = (case row of (m, p) \<Rightarrow>
     (let v = \<lparr>tg_ProviderModelID = i, tg_ProviderID = pm_provider m, tg_ProviderName = pv_name p, tg_ProviderType = pv_type p,
          tg_BaseURL = pv_base_url p, tg_Credential = coalesce (pv_credential p), tg_ProviderEnabled = pv_enabled p,
          tg_Protocols = pv_protocols p, tg_NativeProtocol = pm_protocol m, tg_UpstreamModelID = pm_upstream m,
          tg_Available = pv_enabled p \<and> pm_available m, tg_Locked = False, tg_ReasoningCapabilities = pm_selectors m,
          tg_MaxOutputTokens = pm_max_output m\<rparr>
      in (case decryptSecret g (sc_cipher sc) (secretAAD (sc_account sc) ''provider'' (tg_ProviderID v) ''credential_secret'') (tg_Credential v) of
            Inr credential \<Rightarrow> Inr (v\<lparr>tg_Credential := credential\<rparr>)
          | Inl ErrSecretsLocked \<Rightarrow> Inr (v\<lparr>tg_Credential := [], tg_Available := False, tg_Locked := True\<rparr>)
          | Inl e \<Rightarrow> Inl e)))"

section \<open>Queries\<close>

definition ClientKeyType :: "scope \<Rightarrow> string \<Rightarrow> string tx" where
  "ClientKeyType sc c =
     andThen (query (\<lambda>t. owned ck_account (t_clients t) (sc_account sc) c)) (\<lambda>row.
       case row of None \<Rightarrow> refuse ErrClientKeyNotFound | Some k \<Rightarrow> give (ck_type k))"

definition GetSingleBinding :: "scope \<Rightarrow> string \<Rightarrow> binding_row option tx" where
  "GetSingleBinding sc c = query (\<lambda>t. owned sb_account (t_bindings t) (sc_account sc) c)"

record RouteModelInfo =
  mi_ModelID :: string
  mi_Canonical :: string
  mi_ReasoningCapabilities :: "string option"
  mi_MaxOutputTokens :: "int option"

definition model_info :: "string \<Rightarrow> model_row \<times> provider_row \<Rightarrow> RouteModelInfo" where
  "model_info i row = (case row of (m, p) \<Rightarrow> \<lparr>mi_ModelID = i, mi_Canonical = canonical_real p m,
     mi_ReasoningCapabilities = pm_selectors m, mi_MaxOutputTokens = pm_max_output m\<rparr>)"

definition RealModelForID :: "scope \<Rightarrow> string \<Rightarrow> RouteModelInfo tx" where
  "RealModelForID sc i =
     andThen (query (\<lambda>t. model_in (sc_account sc) t i)) (\<lambda>row.
       case row of None \<Rightarrow> refuse NoRows | Some r \<Rightarrow> give (model_info i r))"

text \<open>A row of the matrix of the key that is on; the two joins do not ask for the account of the model.\<close>

definition permits :: "string \<Rightarrow> string \<Rightarrow> kind \<Rightarrow> (string \<times> kind \<times> string) \<times> cell \<Rightarrow> bool" where
  "permits a c k x \<longleftrightarrow> fst (fst x) = c \<and> fst (snd (fst x)) = k \<and> c_account (snd x) = a \<and> c_on (snd x)"

definition permitted_real :: "string \<Rightarrow> string \<Rightarrow> string \<Rightarrow> tenants \<Rightarrow> RouteModelInfo list" where
  "permitted_real a c requested t =
     concat (map (\<lambda>x. case provider_of t (snd (snd (fst x))) of
         None \<Rightarrow> []
       | Some (m, p) \<Rightarrow> if canonical_real p m = requested then [model_info (snd (snd (fst x))) (m, p)] else [])
       (filter (permits a c RealKind) (t_perms t)))"

definition PermittedRealModel :: "scope \<Rightarrow> string \<Rightarrow> string \<Rightarrow> RouteModelInfo option tx" where
  "PermittedRealModel sc c requested =
     andThen (query (permitted_real (sc_account sc) c requested)) (\<lambda>rows. give (case rows of [] \<Rightarrow> None | r # _ \<Rightarrow> Some r))"

definition permitted_virtual :: "string \<Rightarrow> string \<Rightarrow> string \<Rightarrow> tenants \<Rightarrow> (string \<times> string) list" where
  "permitted_virtual a c requested t =
     concat (map (\<lambda>x. case gm_get (t_virtual t) (snd (snd (fst x))) of
         None \<Rightarrow> []
       | Some v \<Rightarrow> if canonical_virtual t v = Some requested then [(snd (snd (fst x)), requested)] else [])
       (filter (permits a c VirtualKind) (t_perms t)))"

definition PermittedVirtualModel :: "scope \<Rightarrow> string \<Rightarrow> string \<Rightarrow> (string \<times> string) tx" where
  "PermittedVirtualModel sc c requested =
     andThen (query (permitted_virtual (sc_account sc) c requested)) (\<lambda>rows.
       case rows of [] \<Rightarrow> refuse NoRows | r # _ \<Rightarrow> give r)"

definition VirtualRoutingMode :: "scope \<Rightarrow> string \<Rightarrow> string tx" where
  "VirtualRoutingMode sc i =
     andThen (query (\<lambda>t. owned vm_account (t_virtual t) (sc_account sc) i)) (\<lambda>row.
       case row of None \<Rightarrow> refuse NoRows | Some v \<Rightarrow> give (vm_mode v))"

definition VirtualModelCanonical :: "scope \<Rightarrow> string \<Rightarrow> string tx" where
  "VirtualModelCanonical sc i = (let a = sc_account sc in
     andThen (query (\<lambda>t. case owned vm_account (t_virtual t) a i of None \<Rightarrow> None
         | Some v \<Rightarrow> map_option (\<lambda>g. vg_name g @ ''/'' @ vm_name v) (owned vg_account (t_groups t) a (vm_group v)))) (\<lambda>row.
       case row of None \<Rightarrow> refuse ErrVirtualModelNotFound | Some name \<Rightarrow> give name))"

text \<open>The enabled targets of a virtual model by position.\<close>

definition target_rows :: "string \<Rightarrow> string \<Rightarrow> tenants \<Rightarrow> (string \<times> model_row \<times> provider_row) list" where
  "target_rows a v t =
     concat (map (\<lambda>(_, r). case model_in a t (vt_model r) of None \<Rightarrow> [] | Some row \<Rightarrow> [(vt_model r, row)])
       (sort_key (vt_position \<circ> snd) (select_rows (\<lambda>_ r. vt_virtual r = v \<and> vt_account r = a \<and> vt_enabled r) (t_targets t))))"

fun scan_targets :: "aead \<Rightarrow> scope \<Rightarrow> (string \<times> model_row \<times> provider_row) list \<Rightarrow> serr + RouteTarget list" where
  "scan_targets g sc [] = Inr []"
| "scan_targets g sc ((i, row) # rows) =
     (case scan_target g sc i row of
        Inl e \<Rightarrow> Inl e
      | Inr x \<Rightarrow> (case scan_targets g sc rows of Inl e \<Rightarrow> Inl e | Inr xs \<Rightarrow> Inr (x # xs)))"

definition VirtualRouteTargets :: "aead \<Rightarrow> scope \<Rightarrow> string \<Rightarrow> RouteTarget list tx" where
  "VirtualRouteTargets g sc v =
     andThen (query (target_rows (sc_account sc) v)) (\<lambda>rows. unless_error (scan_targets g sc rows))"

definition RealRouteTarget :: "aead \<Rightarrow> scope \<Rightarrow> string \<Rightarrow> RouteTarget tx" where
  "RealRouteTarget g sc i =
     andThen (query (\<lambda>t. model_in (sc_account sc) t i)) (\<lambda>row.
       case row of None \<Rightarrow> refuse NoRows | Some r \<Rightarrow> unless_error (scan_target g sc i r))"

section \<open>Routes\<close>

text \<open>\<open>json.Unmarshal\<close> into a list of texts: \<open>null\<close> elements leave the zero value.\<close>

fun text_items :: "json list \<Rightarrow> string list option" where
  "text_items [] = Some []"
| "text_items (JStr s # xs) = map_option ((#) s) (text_items xs)"
| "text_items (JNull # xs) = map_option ((#) []) (text_items xs)"
| "text_items (_ # xs) = None"

definition DecodeProtocols :: "string \<Rightarrow> string list" where
  "DecodeProtocols raw = (case json_parse raw of
       Some (JArr xs) \<Rightarrow> (case text_items xs of None \<Rightarrow> [''chat''] | Some ps \<Rightarrow> if ps = [] then [''chat''] else ps)
     | _ \<Rightarrow> [''chat''])"

text \<open>Of the provider descriptors, the minimum output the target type asks for.\<close>

definition min_output_tokens :: "string \<Rightarrow> int" where
  "min_output_tokens ty = (if ty = ''opencode-free'' then 16 else 0)"

record resolvedTarget =
  rr_Provider :: provider
  rr_ProviderModelID :: string
  rr_UpstreamModelID :: string
  rr_RequestedModel :: string
  rr_NativeProtocol :: string
  rr_Virtual :: bool
  rr_Available :: bool
  rr_RouteKind :: string
  rr_RouteModelID :: string
  rr_RouteModel :: string
  rr_CredentialsLocked :: bool
  rr_ReasoningCapabilities :: "string option"
  rr_MaxOutputTokens :: "int option"

record resolvedRoute = resolvedTarget +
  rr_RoutingMode :: string
  rr_Targets :: "resolvedTarget list"

definition no_provider :: provider where
  "no_provider = \<lparr>p_ID = [], p_Name = [], p_Type = [], p_Credential = [], p_OAuthAccountID = [], p_OAuthProviderData = [],
     p_Protocols = [], p_MinOutputTokens = 0\<rparr>"

definition routeTargetToResolved :: "RouteTarget \<Rightarrow> resolvedTarget" where
  "routeTargetToResolved t =
     \<lparr>rr_Provider = \<lparr>p_ID = tg_ProviderID t, p_Name = tg_ProviderName t, p_Type = tg_ProviderType t, p_Credential = tg_Credential t,
        p_OAuthAccountID = [], p_OAuthProviderData = [], p_Protocols = DecodeProtocols (tg_Protocols t),
        p_MinOutputTokens = min_output_tokens (tg_ProviderType t)\<rparr>,
      rr_ProviderModelID = tg_ProviderModelID t, rr_UpstreamModelID = tg_UpstreamModelID t, rr_RequestedModel = [],
      rr_NativeProtocol = coalesce (tg_NativeProtocol t), rr_Virtual = False, rr_Available = tg_Available t,
      rr_RouteKind = [], rr_RouteModelID = [], rr_RouteModel = [], rr_CredentialsLocked = tg_Locked t,
      rr_ReasoningCapabilities = tg_ReasoningCapabilities t, rr_MaxOutputTokens = tg_MaxOutputTokens t\<rparr>"

definition no_route :: resolvedRoute where
  "no_route = \<lparr>rr_Provider = no_provider, rr_ProviderModelID = [], rr_UpstreamModelID = [], rr_RequestedModel = [],
     rr_NativeProtocol = [], rr_Virtual = False, rr_Available = False, rr_RouteKind = [], rr_RouteModelID = [], rr_RouteModel = [],
     rr_CredentialsLocked = False, rr_ReasoningCapabilities = None, rr_MaxOutputTokens = None, rr_RoutingMode = [], rr_Targets = []\<rparr>"

text \<open>What the key asks for: the model its binding names, or the permitted model of the requested name, real before virtual.\<close>

definition real_route :: "RouteModelInfo \<Rightarrow> resolvedRoute" where
  "real_route info = no_route\<lparr>rr_RouteKind := ''real'', rr_RouteModelID := mi_ModelID info, rr_RouteModel := mi_Canonical info,
     rr_MaxOutputTokens := mi_MaxOutputTokens info, rr_ReasoningCapabilities := mi_ReasoningCapabilities info\<rparr>"

definition virtual_route :: "string \<Rightarrow> string \<Rightarrow> resolvedRoute" where
  "virtual_route i canonical = no_route\<lparr>rr_RouteKind := ''virtual'', rr_RouteModelID := i, rr_RouteModel := canonical\<rparr>"

definition bound_route :: "scope \<Rightarrow> string \<Rightarrow> (string \<times> resolvedRoute) tx" where
  "bound_route sc c =
     andThen (GetSingleBinding sc c) (\<lambda>binding.
       case binding of
         None \<Rightarrow> refuse NoRows
       | Some b \<Rightarrow>
           (case sb_real b of
              Some m \<Rightarrow> andThen (RealModelForID sc m) (\<lambda>info. give (sb_name b, real_route info))
            | None \<Rightarrow> andThen (VirtualModelCanonical sc (coalesce (sb_virtual b))) (\<lambda>name.
                give (sb_name b, virtual_route (coalesce (sb_virtual b)) name))))"

definition catalogue_route :: "scope \<Rightarrow> string \<Rightarrow> string \<Rightarrow> (string \<times> resolvedRoute) tx" where
  "catalogue_route sc c requested =
     andThen (PermittedRealModel sc c requested) (\<lambda>found.
       case found of
         Some info \<Rightarrow> give (requested, real_route info)
       | None \<Rightarrow> andThen (PermittedVirtualModel sc c requested) (\<lambda>(i, name). give (requested, virtual_route i name)))"

definition virtual_target :: "string \<Rightarrow> resolvedRoute \<Rightarrow> RouteTarget \<Rightarrow> resolvedTarget" where
  "virtual_target clientModel r t = (routeTargetToResolved t)\<lparr>rr_Virtual := True, rr_RequestedModel := clientModel,
     rr_RouteKind := rr_RouteKind r, rr_RouteModelID := rr_RouteModelID r, rr_RouteModel := rr_RouteModel r\<rparr>"

definition with_targets :: "string \<Rightarrow> resolvedRoute \<Rightarrow> RouteTarget list \<Rightarrow> resolvedRoute" where
  "with_targets clientModel r ts = (let xs = map (virtual_target clientModel r) ts;
       r = r\<lparr>rr_Targets := xs, rr_Virtual := True, rr_RequestedModel := clientModel\<rparr> in
     case xs of
       [] \<Rightarrow> r
     | x # _ \<Rightarrow> r\<lparr>rr_Provider := rr_Provider x, rr_UpstreamModelID := rr_UpstreamModelID x, rr_Available := rr_Available x\<rparr>)"

definition fill_route :: "aead \<Rightarrow> scope \<Rightarrow> string \<times> resolvedRoute \<Rightarrow> resolvedRoute tx" where
  "fill_route g sc cr = (case cr of (clientModel, r) \<Rightarrow>
     if rr_RouteKind r = ''virtual'' then
       andThen (VirtualRoutingMode sc (rr_RouteModelID r)) (\<lambda>mode.
       andThen (VirtualRouteTargets g sc (rr_RouteModelID r)) (\<lambda>ts.
         if ts \<noteq> [] \<and> list_all tg_Locked ts then refuse ErrSecretsLocked
         else give (with_targets clientModel (r\<lparr>rr_RoutingMode := mode\<rparr>) ts)))
     else
       andThen (RealRouteTarget g sc (rr_RouteModelID r)) (\<lambda>t.
         if tg_Locked t then refuse ErrSecretsLocked
         else (let x = routeTargetToResolved t in
           give (r\<lparr>rr_ProviderModelID := rr_RouteModelID r, rr_Provider := rr_Provider x, rr_UpstreamModelID := rr_UpstreamModelID x,
             rr_NativeProtocol := rr_NativeProtocol x, rr_ReasoningCapabilities := rr_ReasoningCapabilities x,
             rr_RequestedModel := clientModel, rr_Virtual := False, rr_Available := rr_Available x\<rparr>))))"

text \<open>\<open>current\<close> is what the OAuth manager has for a provider of an account after a refresh it may need: the access token,
  the provider data and the account id of the identity token; \<open>None\<close> where it fails.\<close>

type_synonym oauth_source = "string \<Rightarrow> string \<Rightarrow> (string \<times> (string \<times> json) list \<times> string) option"

definition HydrateOAuth :: "oauth_source \<Rightarrow> string \<Rightarrow> provider \<Rightarrow> provider" where
  "HydrateOAuth current a p =
     (if \<not> oauth_type (p_Type p) then p
      else (case current a (p_ID p) of
              None \<Rightarrow> p
            | Some (token, data, i) \<Rightarrow>
                p\<lparr>p_Credential := token, p_OAuthProviderData := data,
                  p_OAuthAccountID := (if p_Type p = ''codex-subscription'' then i else p_OAuthAccountID p)\<rparr>))"

definition hydrate_route :: "oauth_source \<Rightarrow> string \<Rightarrow> resolvedRoute \<Rightarrow> resolvedRoute" where
  "hydrate_route current a r =
     (if rr_RouteKind r = ''virtual'' then r\<lparr>rr_Targets := map (rr_Provider_update (HydrateOAuth current a)) (rr_Targets r)\<rparr>
      else r\<lparr>rr_Provider := HydrateOAuth current a (rr_Provider r)\<rparr>)"

definition resolveRoute :: "aead \<Rightarrow> oauth_source \<Rightarrow> scope \<Rightarrow> string \<Rightarrow> string \<Rightarrow> resolvedRoute tx" where
  "resolveRoute g current sc c requested =
     andThen (RunTx (andThen (ClientKeyType sc c) (\<lambda>ty.
       andThen (if ty = ''single'' then bound_route sc c else catalogue_route sc c requested) (fill_route g sc))))
     (\<lambda>r. give (hydrate_route current (sc_account sc) r))"

section \<open>The listing of a key\<close>

record CatalogueEntry =
  ce_Canonical :: string
  ce_ContextLength :: "int option"
  ce_MaxOutputTokens :: "int option"
  ce_SupportsTools :: "bool option"
  ce_SupportsVision :: "bool option"
  ce_SupportsReasoning :: "bool option"
  ce_SupportsStructuredOutput :: "bool option"
  ce_ReasoningCapabilities :: "string option"
  ce_VirtualModelID :: "string option"

definition real_entries :: "string \<Rightarrow> string \<Rightarrow> tenants \<Rightarrow> CatalogueEntry list" where
  "real_entries a c t =
     concat (map (\<lambda>x. case model_in a t (snd (snd (fst x))) of
         None \<Rightarrow> []
       | Some (m, p) \<Rightarrow> if pm_available m \<and> pv_enabled p
           then [\<lparr>ce_Canonical = canonical_real p m, ce_ContextLength = pm_context m, ce_MaxOutputTokens = pm_max_output m,
             ce_SupportsTools = pm_tools m, ce_SupportsVision = pm_vision m, ce_SupportsReasoning = pm_reasoning m,
             ce_SupportsStructuredOutput = pm_structured m, ce_ReasoningCapabilities = pm_selectors m, ce_VirtualModelID = None\<rparr>] else [])
       (filter (permits a c RealKind) (t_perms t)))"

text \<open>A virtual model is listed while one of its targets can serve.\<close>

definition virtual_entries :: "string \<Rightarrow> string \<Rightarrow> tenants \<Rightarrow> CatalogueEntry list" where
  "virtual_entries a c t =
     concat (map (\<lambda>x. let i = snd (snd (fst x)) in case owned vm_account (t_virtual t) a i of
         None \<Rightarrow> []
       | Some v \<Rightarrow> (case owned vg_account (t_groups t) a (vm_group v) of
           None \<Rightarrow> []
         | Some g \<Rightarrow> if serves a t i
             then [\<lparr>ce_Canonical = vg_name g @ ''/'' @ vm_name v, ce_ContextLength = None, ce_MaxOutputTokens = None,
               ce_SupportsTools = None, ce_SupportsVision = None, ce_SupportsReasoning = None,
               ce_SupportsStructuredOutput = None, ce_ReasoningCapabilities = None, ce_VirtualModelID = Some i\<rparr>] else []))
       (filter (permits a c VirtualKind) (t_perms t)))"

fun insert_entry :: "CatalogueEntry \<Rightarrow> CatalogueEntry list \<Rightarrow> CatalogueEntry list" where
  "insert_entry x [] = [x]"
| "insert_entry x (y # ys) = (if text_le (ce_Canonical x) (ce_Canonical y) then x # y # ys else y # insert_entry x ys)"

definition ListCatalogueEntries :: "scope \<Rightarrow> string \<Rightarrow> CatalogueEntry list tx" where
  "ListCatalogueEntries sc c = (let a = sc_account sc in
     query (\<lambda>t. foldr insert_entry (real_entries a c t @ virtual_entries a c t) []))"

record TargetCapability =
  tc_VirtualModelID :: string
  tc_ContextLength :: "int option"
  tc_MaxOutputTokens :: "int option"
  tc_SupportsTools :: "bool option"
  tc_SupportsVision :: "bool option"
  tc_SupportsReasoning :: "bool option"
  tc_SupportsStructuredOutput :: "bool option"
  tc_ReasoningCapabilities :: "string option"

definition VirtualTargetCapabilities :: "scope \<Rightarrow> string list \<Rightarrow> TargetCapability list tx" where
  "VirtualTargetCapabilities sc virtualIDs = (let a = sc_account sc in
     if virtualIDs = [] then give []
     else query (\<lambda>t. concat (map (\<lambda>(_, r). case model_in a t (vt_model r) of
         None \<Rightarrow> []
       | Some (m, p) \<Rightarrow> if pm_available m \<and> pv_enabled p
           then [\<lparr>tc_VirtualModelID = vt_virtual r, tc_ContextLength = pm_context m, tc_MaxOutputTokens = pm_max_output m,
             tc_SupportsTools = pm_tools m, tc_SupportsVision = pm_vision m, tc_SupportsReasoning = pm_reasoning m,
             tc_SupportsStructuredOutput = pm_structured m, tc_ReasoningCapabilities = pm_selectors m\<rparr>] else [])
       (select_rows (\<lambda>_ r. vt_virtual r \<in> set virtualIDs \<and> vt_account r = a \<and> vt_enabled r) (t_targets t)))))"

section \<open>The route the routing loop takes\<close>

definition candidate_of :: "'a resolvedTarget_scheme \<Rightarrow> candidate" where
  "candidate_of r = \<lparr>c_Provider = rr_Provider r, c_ProviderModelID = rr_ProviderModelID r, c_UpstreamModelID = rr_UpstreamModelID r,
     c_NativeProtocol = rr_NativeProtocol r, c_Available = rr_Available r\<rparr>"

definition route_of :: "resolvedRoute \<Rightarrow> route" where
  "route_of r = \<lparr>rt_Virtual = rr_Virtual r, rt_RoutingMode = rr_RoutingMode r, rt_RouteModelID = rr_RouteModelID r,
     rt_self = candidate_of r, rt_Targets = map candidate_of (rr_Targets r)\<rparr>"

section \<open>What a route may reach\<close>

text \<open>The key is one of the account's; it is bound to the model, or a catalogue key with the model switched on.\<close>

definition may_use :: "tenants \<Rightarrow> string \<Rightarrow> string \<Rightarrow> kind \<Rightarrow> string \<Rightarrow> string \<Rightarrow> bool" where
  "may_use t a c k i name \<longleftrightarrow> (\<exists>key. gm_get (t_clients t) c = Some key \<and> ck_account key = a \<and>
     (if ck_type key = ''single''
      then \<exists>b. gm_get (t_bindings t) c = Some b \<and> sb_account b = a \<and>
             (case k of RealKind \<Rightarrow> sb_real b = Some i | VirtualKind \<Rightarrow> sb_real b = None \<and> coalesce (sb_virtual b) = i)
      else \<exists>x. ((c, k, i), x) \<in> set (t_perms t) \<and> c_account x = a \<and> c_on x \<and>
             (case k of RealKind \<Rightarrow> (\<exists>m p. provider_of t i = Some (m, p) \<and> canonical_real p m = name)
              | VirtualKind \<Rightarrow> (\<exists>v. gm_get (t_virtual t) i = Some v \<and> canonical_virtual t v = Some name))))"

text \<open>A target names a model and the provider of the model, both of the account.\<close>

definition own_target :: "tenants \<Rightarrow> string \<Rightarrow> candidate \<Rightarrow> bool" where
  "own_target t a x \<longleftrightarrow> (\<exists>m p. gm_get (t_models t) (c_ProviderModelID x) = Some m \<and> pm_account m = a \<and>
     p_ID (c_Provider x) = pm_provider m \<and> gm_get (t_providers t) (pm_provider m) = Some p \<and> pv_account p = a \<and>
     p_Type (c_Provider x) = pv_type p \<and> c_UpstreamModelID x = pm_upstream m \<and>
     (c_Available x \<longrightarrow> pv_enabled p \<and> pm_available m))"

lemma model_in_iff: "model_in a t i = Some (m, p) \<longleftrightarrow>
    gm_get (t_models t) i = Some m \<and> gm_get (t_providers t) (pm_provider m) = Some p \<and> pm_account m = a \<and> pv_account p = a"
  by (auto simp: model_in_def provider_of_def split: option.splits)

lemma hydrate_same: "p_ID (HydrateOAuth cur a p) = p_ID p" "p_Type (HydrateOAuth cur a p) = p_Type p"
  by (auto simp: HydrateOAuth_def split: option.split)

lemma scan_target_own:
  assumes "scan_target g sc i row = Inr x" "model_in a t i = Some row"
  shows "own_target t a (candidate_of (rr_Provider_update (HydrateOAuth cur b) (routeTargetToResolved x))) \<and> tg_ProviderModelID x = i"
proof -
  obtain m p where row: "row = (m, p)" by fastforce
  then have "tg_ProviderModelID x = i" "tg_ProviderID x = pm_provider m" "tg_ProviderType x = pv_type p" "tg_UpstreamModelID x = pm_upstream m"
    "tg_Available x \<longrightarrow> pv_enabled p \<and> pm_available m"
    using assms(1) by (auto simp: scan_target_def Let_def split: sum.splits serr.splits)
  then show ?thesis using assms(2) row
    by (auto simp: own_target_def candidate_of_def routeTargetToResolved_def model_in_iff hydrate_same)
qed

lemma scan_targets_rows: "scan_targets g sc rows = Inr xs \<Longrightarrow> x \<in> set xs \<Longrightarrow> \<exists>i row. (i, row) \<in> set rows \<and> scan_target g sc i row = Inr x"
  by (induction rows arbitrary: xs rule: scan_targets.induct) (fastforce split: sum.splits)+

lemma target_rows_own: "(i, row) \<in> set (target_rows a v t) \<Longrightarrow> model_in a t i = Some row"
  by (auto simp: target_rows_def split: option.splits)


lemma bound_route_effect:
  assumes "effect (bound_route sc c) t cr t'"
  shows "t' = t \<and> (\<exists>b. gm_get (t_bindings t) c = Some b \<and> sb_account b = sc_account sc \<and>
    (rr_RouteKind (snd cr) = ''real'' \<and> sb_real b = Some (rr_RouteModelID (snd cr)) \<or>
     rr_RouteKind (snd cr) = ''virtual'' \<and> sb_real b = None \<and> coalesce (sb_virtual b) = rr_RouteModelID (snd cr)))"
proof -
  let ?k = "\<lambda>binding. case binding of
         None \<Rightarrow> refuse NoRows
       | Some b \<Rightarrow>
           (case sb_real b of
              Some m \<Rightarrow> andThen (RealModelForID sc m) (\<lambda>info. give (sb_name b, real_route info))
            | None \<Rightarrow> andThen (VirtualModelCanonical sc (coalesce (sb_virtual b))) (\<lambda>name.
                give (sb_name b, virtual_route (coalesce (sb_virtual b)) name)))"
  have "effect (?k (owned sb_account (t_bindings t) (sc_account sc) c)) t cr t'"
    using assms by (auto simp: bound_route_def GetSingleBinding_def effects dest!: effect_andThen)
  then obtain b where b: "owned sb_account (t_bindings t) (sc_account sc) c = Some b" and run: "effect (?k (Some b)) t cr t'"
    by (cases "owned sb_account (t_bindings t) (sc_account sc) c") (auto simp: effects)
  show ?thesis
  proof (cases "sb_real b")
    case None
    then show ?thesis using run b
      by (auto simp: owned_iff effects VirtualModelCanonical_def Let_def virtual_route_def dest!: effect_andThen split: option.splits)
  next
    case (Some m)
    then show ?thesis using run b
      by (auto simp: owned_iff effects RealModelForID_def real_route_def model_info_def dest!: effect_andThen split: option.splits)
  qed
qed

lemma permitted_real_row:
  assumes "r \<in> set (permitted_real a c requested t)"
  shows "\<exists>x m p. ((c, RealKind, mi_ModelID r), x) \<in> set (t_perms t) \<and> c_account x = a \<and> c_on x \<and>
    provider_of t (mi_ModelID r) = Some (m, p) \<and> canonical_real p m = requested \<and> mi_Canonical r = requested"
proof -
  obtain x where x: "x \<in> set (t_perms t)" "permits a c RealKind x"
    and r: "r \<in> set (case provider_of t (snd (snd (fst x))) of None \<Rightarrow> []
       | Some (m, p) \<Rightarrow> if canonical_real p m = requested then [model_info (snd (snd (fst x))) (m, p)] else [])"
    using assms unfolding permitted_real_def
    by (simp only: set_concat set_map set_filter Union_iff image_iff mem_Collect_eq) blast
  obtain own k i y where q: "x = ((own, k, i), y)" by (metis prod.collapse)
  obtain m p where mp: "provider_of t i = Some (m, p)" using r q by (cases "provider_of t i") auto
  then have "canonical_real p m = requested" "r = model_info i (m, p)" using r q by (auto split: if_splits)
  then show ?thesis using x q mp by (auto simp: permits_def model_info_def)
qed

lemma permitted_virtual_row:
  assumes "(i, name) \<in> set (permitted_virtual a c requested t)"
  shows "name = requested \<and> (\<exists>x v. ((c, VirtualKind, i), x) \<in> set (t_perms t) \<and> c_account x = a \<and> c_on x \<and>
    gm_get (t_virtual t) i = Some v \<and> canonical_virtual t v = Some requested)"
proof -
  obtain x where x: "x \<in> set (t_perms t)" "permits a c VirtualKind x"
    and r: "(i, name) \<in> set (case gm_get (t_virtual t) (snd (snd (fst x))) of None \<Rightarrow> []
       | Some v \<Rightarrow> if canonical_virtual t v = Some requested then [(snd (snd (fst x)), requested)] else [])"
    using assms unfolding permitted_virtual_def
    by (simp only: set_concat set_map set_filter Union_iff image_iff mem_Collect_eq) blast
  obtain own k j y where q: "x = ((own, k, j), y)" by (metis prod.collapse)
  obtain v where v: "gm_get (t_virtual t) j = Some v" using r q by (cases "gm_get (t_virtual t) j") auto
  then have "canonical_virtual t v = Some requested" "i = j" "name = requested" using r q by (auto split: if_splits)
  then show ?thesis using x q v by (auto simp: permits_def)
qed

lemma catalogue_route_effect:
  assumes "effect (catalogue_route sc c requested) t cr t'"
  shows "t' = t \<and> rr_RouteModel (snd cr) = requested \<and>
    (rr_RouteKind (snd cr) = ''real'' \<and> (\<exists>r \<in> set (permitted_real (sc_account sc) c requested t). mi_ModelID r = rr_RouteModelID (snd cr)) \<or>
     rr_RouteKind (snd cr) = ''virtual'' \<and> (rr_RouteModelID (snd cr), requested) \<in> set (permitted_virtual (sc_account sc) c requested t))"
proof (cases "permitted_real (sc_account sc) c requested t")
  case Nil
  then have "effect (andThen (PermittedVirtualModel sc c requested) (\<lambda>(i, name). give (requested, virtual_route i name))) t cr t'"
    using assms by (auto simp: catalogue_route_def PermittedRealModel_def effects dest!: effect_andThen)
  then obtain i name where "effect (PermittedVirtualModel sc c requested) t (i, name) t'" "cr = (requested, virtual_route i name)"
    by (auto simp: effects dest!: effect_andThen)
  then have "t' = t" "(i, name) \<in> set (permitted_virtual (sc_account sc) c requested t)"
    by (auto simp: PermittedVirtualModel_def effects dest!: effect_andThen split: list.splits)
  then show ?thesis using permitted_virtual_row [of i name] \<open>cr = _\<close> by (auto simp: virtual_route_def)
next
  case (Cons r rs)
  then have r: "cr = (requested, real_route r) \<and> t' = t" using assms
    by (auto simp: catalogue_route_def PermittedRealModel_def effects dest!: effect_andThen)
  moreover have "r \<in> set (permitted_real (sc_account sc) c requested t)" using Cons by simp
  ultimately show ?thesis using permitted_real_row [of r "sc_account sc" c requested t] by (auto simp: real_route_def)
qed

text \<open>What the two kinds of route are filled with.\<close>

definition served :: "tenants \<Rightarrow> string \<Rightarrow> string \<Rightarrow> string \<Rightarrow> candidate \<Rightarrow> bool" where
  "served t a k i x \<longleftrightarrow> own_target t a x \<and>
     (if k = ''virtual'' then \<exists>j r. (j, r) \<in> set (t_targets t) \<and> vt_virtual r = i \<and> vt_account r = a \<and> vt_enabled r \<and> vt_model r = c_ProviderModelID x
      else c_ProviderModelID x = i)"

lemma target_rows_target: "(m, row) \<in> set (target_rows a v t) \<Longrightarrow>
    \<exists>j r. (j, r) \<in> set (t_targets t) \<and> vt_virtual r = v \<and> vt_account r = a \<and> vt_enabled r \<and> vt_model r = m"
  by (fastforce simp: target_rows_def select_rows_def split: option.splits)

lemma fill_route_effect:
  assumes "effect (fill_route g sc cr) t r t'" "rr_RouteKind (snd cr) \<in> {''real'', ''virtual''}" "rr_Targets (snd cr) = []"
  shows "t' = t \<and> rr_RouteKind r = rr_RouteKind (snd cr) \<and> rr_RouteModelID r = rr_RouteModelID (snd cr) \<and> rr_RouteModel r = rr_RouteModel (snd cr) \<and>
    rr_Virtual r = (rr_RouteKind r = ''virtual'') \<and> rr_RequestedModel r = fst cr \<and>
    (\<forall>x \<in> set (route_candidates (route_of (hydrate_route cur a' r))). served t (sc_account sc) (rr_RouteKind r) (rr_RouteModelID r) x)"
proof -
  obtain cm r0 where cr: "cr = (cm, r0)" by fastforce
  let ?a = "sc_account sc"
  show ?thesis
  proof (cases "rr_RouteKind r0 = ''virtual''")
    case True
    then obtain mode ts where ts: "scan_targets g sc (target_rows ?a (rr_RouteModelID r0) t) = Inr ts" and t': "t' = t"
      and r: "r = with_targets cm (r0\<lparr>rr_RoutingMode := mode\<rparr>) ts"
      using assms(1) cr
      by (auto simp: fill_route_def VirtualRoutingMode_def VirtualRouteTargets_def effects dest!: effect_andThen split: if_splits option.splits)
    have x: "served t ?a ''virtual'' (rr_RouteModelID r0) (candidate_of (rr_Provider_update (HydrateOAuth cur a') (virtual_target cm r1 x)))"
      if mem: "x \<in> set ts" for x r1
    proof -
      obtain i row where i: "(i, row) \<in> set (target_rows ?a (rr_RouteModelID r0) t)" "scan_target g sc i row = Inr x"
        using scan_targets_rows [OF ts mem] by blast
      have "own_target t ?a (candidate_of (rr_Provider_update (HydrateOAuth cur a') (routeTargetToResolved x))) \<and> tg_ProviderModelID x = i"
        by (rule scan_target_own [OF i(2) target_rows_own [OF i(1)]])
      moreover have "candidate_of (rr_Provider_update (HydrateOAuth cur a') (virtual_target cm r1 x)) =
          candidate_of (rr_Provider_update (HydrateOAuth cur a') (routeTargetToResolved x))"
        by (simp add: candidate_of_def virtual_target_def)
      ultimately show ?thesis using target_rows_target [OF i(1)] by (auto simp: served_def candidate_of_def routeTargetToResolved_def)
    qed
    have w: "rr_RouteKind r = ''virtual''" "rr_RouteModelID r = rr_RouteModelID r0" "rr_RouteModel r = rr_RouteModel r0" "rr_Virtual r" "rr_RequestedModel r = cm"
      "rr_Targets r = map (virtual_target cm (r0\<lparr>rr_RoutingMode := mode\<rparr>)) ts"
      using True by (auto simp: r with_targets_def Let_def split: list.split)
    have "route_candidates (route_of (hydrate_route cur a' r)) =
        map (\<lambda>x. candidate_of (rr_Provider_update (HydrateOAuth cur a') (virtual_target cm (r0\<lparr>rr_RoutingMode := mode\<rparr>) x))) ts"
      using w by (simp add: route_candidates_def route_of_def hydrate_route_def)
    then show ?thesis using x w t' cr True by auto
  next
    case False
    then have real: "rr_RouteKind r0 = ''real''" using assms(2) cr by simp
    obtain v row where row: "model_in ?a t (rr_RouteModelID r0) = Some row" and v: "scan_target g sc (rr_RouteModelID r0) row = Inr v" and t': "t' = t"
      and r: "r = (let x = routeTargetToResolved v in r0\<lparr>rr_ProviderModelID := rr_RouteModelID r0, rr_Provider := rr_Provider x, rr_UpstreamModelID := rr_UpstreamModelID x,
             rr_NativeProtocol := rr_NativeProtocol x, rr_ReasoningCapabilities := rr_ReasoningCapabilities x,
             rr_RequestedModel := cm, rr_Virtual := False, rr_Available := rr_Available x\<rparr>)"
      using assms(1) cr False
      by (auto simp: fill_route_def RealRouteTarget_def effects Let_def dest!: effect_andThen split: if_splits option.splits)
    have own: "own_target t ?a (candidate_of (rr_Provider_update (HydrateOAuth cur a') (routeTargetToResolved v)))" "tg_ProviderModelID v = rr_RouteModelID r0"
      using scan_target_own [OF v row] by simp_all
    have "candidate_of (hydrate_route cur a' r) = candidate_of (rr_Provider_update (HydrateOAuth cur a') (routeTargetToResolved v))"
      using real own(2) by (simp add: r Let_def hydrate_route_def candidate_of_def routeTargetToResolved_def)
    moreover have "route_candidates (route_of (hydrate_route cur a' r)) = [candidate_of (hydrate_route cur a' r)]"
      using real by (simp add: r Let_def hydrate_route_def route_candidates_def route_of_def)
    moreover have "c_ProviderModelID (candidate_of (hydrate_route cur a' r)) = rr_RouteModelID r0"
      using real by (simp add: r Let_def hydrate_route_def candidate_of_def)
    ultimately show ?thesis using own t' cr real by (simp add: r Let_def served_def)
  qed
qed

lemma resolveRoute_reaches:
  assumes "effect (resolveRoute g cur sc c requested) t r t'"
  shows "t' = t \<and> (\<exists>k. rr_RouteKind r = (case k of RealKind \<Rightarrow> ''real'' | VirtualKind \<Rightarrow> ''virtual'') \<and>
      may_use t (sc_account sc) c k (rr_RouteModelID r) requested) \<and>
    (\<forall>x \<in> set (route_candidates (route_of r)). served t (sc_account sc) (rr_RouteKind r) (rr_RouteModelID r) x)"
proof -
  let ?a = "sc_account sc"
  let ?body = "andThen (ClientKeyType sc c) (\<lambda>ty.
       andThen (if ty = ''single'' then bound_route sc c else catalogue_route sc c requested) (fill_route g sc))"
  obtain r0 where r: "r = hydrate_route cur ?a r0" and tx: "effect (RunTx ?body) t r0 t'"
    using effect_andThen [OF assms [unfolded resolveRoute_def]] by (auto simp: effects)
  have run: "effect ?body t r0 t'" by (rule effect_RunTx [OF tx])
  obtain key cr t1 where key: "gm_get (t_clients t) c = Some key" "ck_account key = ?a"
    and pick: "effect (if ck_type key = ''single'' then bound_route sc c else catalogue_route sc c requested) t cr t1"
    and fill: "effect (fill_route g sc cr) t1 r0 t'"
  proof -
    obtain ty t0 where ty: "effect (ClientKeyType sc c) t ty t0"
      and rest: "effect (andThen (if ty = ''single'' then bound_route sc c else catalogue_route sc c requested) (fill_route g sc)) t0 r0 t'"
      using effect_andThen [OF run] by blast
    obtain cr t1 where "effect (if ty = ''single'' then bound_route sc c else catalogue_route sc c requested) t0 cr t1" "effect (fill_route g sc cr) t1 r0 t'"
      using effect_andThen [OF rest] by blast
    moreover obtain key where "gm_get (t_clients t) c = Some key" "ck_account key = ?a" "ty = ck_type key" "t0 = t"
      using ty by (auto simp: ClientKeyType_def effects owned_iff dest!: effect_andThen split: option.splits)
    ultimately show ?thesis using that by blast
  qed
  have same: "rr_RouteKind r = rr_RouteKind r0" "rr_RouteModelID r = rr_RouteModelID r0" by (simp_all add: r hydrate_route_def)
  have none: "rr_Targets (snd cr) = []" using pick
    by (auto simp: bound_route_def catalogue_route_def effects real_route_def virtual_route_def no_route_def split: if_splits option.splits dest!: effect_andThen)
  show ?thesis
  proof (cases "ck_type key = ''single''")
    case True
    then have b: "t1 = t" "\<exists>b. gm_get (t_bindings t) c = Some b \<and> sb_account b = ?a \<and>
      (rr_RouteKind (snd cr) = ''real'' \<and> sb_real b = Some (rr_RouteModelID (snd cr)) \<or>
       rr_RouteKind (snd cr) = ''virtual'' \<and> sb_real b = None \<and> coalesce (sb_virtual b) = rr_RouteModelID (snd cr))"
      using bound_route_effect [of sc c t cr t1] pick by auto
    then have kind: "rr_RouteKind (snd cr) \<in> {''real'', ''virtual''}" by auto
    note f = fill_route_effect [OF fill kind none, of cur ?a]
    have "\<exists>k. rr_RouteKind r = (case k of RealKind \<Rightarrow> ''real'' | VirtualKind \<Rightarrow> ''virtual'') \<and> may_use t ?a c k (rr_RouteModelID r) requested"
    proof (cases "rr_RouteKind (snd cr) = ''real''")
      case True
      then show ?thesis using b f key same \<open>ck_type key = ''single''\<close> by (intro exI [of _ RealKind]) (auto simp: may_use_def)
    next
      case False
      then show ?thesis using b f key same \<open>ck_type key = ''single''\<close> by (intro exI [of _ VirtualKind]) (auto simp: may_use_def)
    qed
    then show ?thesis using f b(1) same r by auto
  next
    case False
    then have b: "t1 = t" "rr_RouteKind (snd cr) = ''real'' \<and> (\<exists>q \<in> set (permitted_real ?a c requested t). mi_ModelID q = rr_RouteModelID (snd cr)) \<or>
     rr_RouteKind (snd cr) = ''virtual'' \<and> (rr_RouteModelID (snd cr), requested) \<in> set (permitted_virtual ?a c requested t)"
      using catalogue_route_effect [of sc c requested t cr t1] pick by auto
    then have kind: "rr_RouteKind (snd cr) \<in> {''real'', ''virtual''}" by auto
    note f = fill_route_effect [OF fill kind none, of cur ?a]
    have "\<exists>k. rr_RouteKind r = (case k of RealKind \<Rightarrow> ''real'' | VirtualKind \<Rightarrow> ''virtual'') \<and> may_use t ?a c k (rr_RouteModelID r) requested"
      using b(2)
    proof
      assume h: "rr_RouteKind (snd cr) = ''real'' \<and> (\<exists>q \<in> set (permitted_real ?a c requested t). mi_ModelID q = rr_RouteModelID (snd cr))"
      then obtain q where q: "q \<in> set (permitted_real ?a c requested t)" "mi_ModelID q = rr_RouteModelID (snd cr)" by blast
      show ?thesis using permitted_real_row [OF q(1)] q(2) h f key same False
        by (intro exI [of _ RealKind]) (auto simp: may_use_def)
    next
      assume h: "rr_RouteKind (snd cr) = ''virtual'' \<and> (rr_RouteModelID (snd cr), requested) \<in> set (permitted_virtual ?a c requested t)"
      then show ?thesis using permitted_virtual_row [of "rr_RouteModelID (snd cr)" requested] f key same False
        by (intro exI [of _ VirtualKind]) (auto simp: may_use_def)
    qed
    then show ?thesis using f b(1) same r by auto
  qed
qed

section \<open>What the routing loop then calls\<close>

definition calls_within :: "(string \<times> string) set \<Rightarrow> rstate \<Rightarrow> bool" where
  "calls_within S st \<longleftrightarrow> set (st_calls st) \<subseteq> S \<and>
     (\<forall>c \<in> set (st_candidates st). c_ProviderModelID c \<noteq> [] \<and> (c_ProviderModelID c, p_ID (c_Provider c)) \<in> S)"

interpretation calls: loop_invariant "calls_within S" "\<lambda>_. True" cf rt for S cf rt
proof (unfold_locales)
  fix st ev pass i assume r: "calls_within S st" and i: "i < length (st_candidates st)"
  let ?c = "st_candidates st ! i"
  have c: "c_ProviderModelID ?c \<noteq> []" "the_call ?c \<in> S"
    using r i nth_mem [OF i] by (auto simp: calls_within_def the_call_def target_id_def)
  have same: "(c_ProviderModelID x, q) \<in> S" if "x \<in> set (st_candidates st)" "p_ID (c_Provider x) = q" for x q
    using r that by (auto simp: calls_within_def)
  show "inv_flow (calls_within S) (iteration cf rt ev pass i st)"
    using iteration_frame [of st i cf rt ev pass] iteration_calls [of st i cf rt ev pass] r c
    by (cases "iteration cf rt ev pass i st")
       (auto simp: frame_flow_def inv_flow_def same_candidates_def retry_frame_def calls_flow_def calls_within_def Let_def, (rule same; assumption)+)
qed

text \<open>A call is for a model and its provider, both of the account, and the model is the one routed to or one of its enabled targets.\<close>

definition call_ok :: "tenants \<Rightarrow> string \<Rightarrow> string \<Rightarrow> string \<Rightarrow> string \<times> string \<Rightarrow> bool" where
  "call_ok t a k i call \<longleftrightarrow> (\<exists>m p. gm_get (t_models t) (fst call) = Some m \<and> pm_account m = a \<and> pm_provider m = snd call \<and>
     gm_get (t_providers t) (snd call) = Some p \<and> pv_account p = a \<and>
     (if k = ''virtual'' then \<exists>j r. (j, r) \<in> set (t_targets t) \<and> vt_virtual r = i \<and> vt_account r = a \<and> vt_enabled r \<and> vt_model r = fst call
      else fst call = i))"

lemma served_call: "served t a k i x \<Longrightarrow> call_ok t a k i (c_ProviderModelID x, p_ID (c_Provider x))"
  by (auto simp: served_def own_target_def call_ok_def split: if_splits)

lemma requests_reach:
  assumes "effect (resolveRoute g cur sc c requested) t r t'" "gm_get (t_models t) [] = None"
    and "call \<in> set (st_calls (snd (snd (run_passes cf (route_of r) env (start_state (route_of r) C t0)))))"
  shows "call_ok t (sc_account sc) (rr_RouteKind r) (rr_RouteModelID r) call"
proof -
  let ?S = "Collect (call_ok t (sc_account sc) (rr_RouteKind r) (rr_RouteModelID r))"
  have "calls_within ?S (start_state (route_of r) C t0)"
  proof -
    have "c_ProviderModelID x \<noteq> [] \<and> (c_ProviderModelID x, p_ID (c_Provider x)) \<in> ?S" if "x \<in> set (route_candidates (route_of r))" for x
    proof -
      have s: "served t (sc_account sc) (rr_RouteKind r) (rr_RouteModelID r) x" using resolveRoute_reaches [OF assms(1)] that by blast
      then have "gm_get (t_models t) (c_ProviderModelID x) \<noteq> None" by (auto simp: served_def own_target_def)
      then show ?thesis using served_call [OF s] assms(2) by auto
    qed
    then show ?thesis by (simp add: calls_within_def start_state_def)
  qed
  from calls.run_passes_keep [OF _ this, where env = env and cf = cf and rt = "route_of r"] have "set (st_calls (snd (snd (run_passes cf (route_of r) env (start_state (route_of r) C t0))))) \<subseteq> ?S"
    by (simp add: calls_within_def)
  then show ?thesis using assms(3) by blast
qed

end
