(* ===== verification/Examples.thy ===== *)
theory Examples
  imports Relay Admission LoginLimiter VirtualCapabilities ResponseLaws StreamTools
begin

text \<open>
  Concrete values the witnesses evaluate: an ordered-fallback route of two targets whose first
  upstream call answers HTTP 500 and whose second is served as JSON, the same route with both
  targets cooled, an account on a plan of one stream, and a login table.
\<close>

definition ex_provider :: "string \<Rightarrow> provider" where
  "ex_provider n = \<lparr>p_ID = n, p_Name = n, p_Type = ''openai'', p_Credential = ''sk-12345'',
     p_OAuthAccountID = [], p_OAuthProviderData = [], p_Protocols = [''chat''], p_MinOutputTokens = 0\<rparr>"

definition ex_candidate :: "string \<Rightarrow> candidate" where
  "ex_candidate n = \<lparr>c_Provider = ex_provider (''p'' @ n), c_ProviderModelID = ''m'' @ n,
     c_UpstreamModelID = ''up'' @ n, c_NativeProtocol = [], c_Available = True\<rparr>"

definition ex_route :: route where
  "ex_route = \<lparr>rt_Virtual = True, rt_RoutingMode = ''ordered_fallback'', rt_RouteModelID = ''r'',
     rt_self = ex_candidate ''0'', rt_Targets = [ex_candidate ''1'', ex_candidate ''2'']\<rparr>"

definition ex_config :: config where
  "ex_config = \<lparr>cf_accountID = ''a'', cf_clientKeyID = ''k'', cf_requestID = ''q'', cf_incoming = ''chat'',
     cf_cooldownSeconds = 60, cf_nonStreaming = False\<rparr>"

definition ex_response :: "int \<Rightarrow> response" where
  "ex_response n = \<lparr>rs_status = n, rs_contentType = ''application/json'', rs_contentLength = 2,
     rs_reads = [(''{}'', False)]\<rparr>"

definition ex_iter :: "int \<Rightarrow> iter_env" where
  "ex_iter n = \<lparr>ev_ctx = (\<lambda>_. None), ev_now = 100, ev_failedAt = 100, ev_translate = Translated False,
     ev_normalizeFails = False, ev_minTokens = MinCompatible, ev_endpointOk = True, ev_requestOk = True,
     ev_do = DoResponse (ex_response n), ev_timedOut = False, ev_errorBody = Some [],
     ev_refresh = None, ev_preflight = PreflightOk, ev_probe = ProbeOutput\<rparr>"

definition ex_env :: "nat \<Rightarrow> iter_env" where
  "ex_env k = (if k = 0 then ex_iter 500 else ex_iter 200)"

definition ex_relay :: relay_env where
  "ex_relay = \<lparr>rl_ctx = None, rl_timedOut = False, rl_aggregate = AggregateOk, rl_nonstream = NotJson,
     rl_translate = None, rl_rewriteFails = False, rl_readFails = False\<rparr>"

definition ex_tracker :: inflightTracker where
  "ex_tracker = fst (clientStart new_tracker ''a'' ''k'' ''r'' ''model'')"

definition ex_cooled :: cooldownStore where
  "ex_cooled = cooldown_set (cooldown_set newCooldownStore ''a'' ''m1'' 50 1000 [] [] [] [] [])
                 ''a'' ''m2'' 50 1000 [] [] [] [] []"

lemma ex_ids: "client_ids_ok ex_config ex_route"
  by (simp add: client_ids_ok_def ids_ok_def ex_config_def ex_route_def nul_free_def NUL_def)

lemma ex_tracker_inv: "inflight_inv ex_tracker"
  using inflight_apply_inv [OF inflight_inv_new, of "Start ''a'' ''k'' ''r'' ''model''"]
  by (simp add: ex_tracker_def nul_free_def NUL_def)

lemma ex_tracker_held: "Active (ticket ex_tracker ''a'' ''k'' ''r'') = 1"
  by code_simp

lemma ex_run: "st_calls (snd (snd (run_passes ex_config ex_route ex_env
    (start_state ex_route newCooldownStore ex_tracker)))) = [(''m1'', ''p1''), (''m2'', ''p2'')]"
  by code_simp

lemma ex_run_writes: "st_writes (proxy_routed ex_config ex_route ex_env ex_relay
    (start_state ex_route newCooldownStore ex_tracker)) = [Relayed ''json'']"
  by code_simp

section \<open>Plans and admission\<close>

definition ex_plan :: "string \<Rightarrow> plan" where
  "ex_plan n = \<lparr>p_name = n, max_providers = 1, max_client_keys = 1, max_virtual_models = 1,
     max_concurrent_streams = 1, activity_retention_days = 7, monthly_requests = 10, p_updatedAt = []\<rparr>"

definition ex_db :: db where
  "ex_db = \<lparr>plans = [(DefaultPlan, ex_plan DefaultPlan), (''small'', ex_plan ''small'')],
     accounts = [(''a'', ''small'')], usage_counters = [], providers = [], client_keys = [], virtual_models = []\<rparr>"

lemma ex_db_inv: "plans_inv ex_db"
  by (auto simp: plans_inv_def ex_db_def ex_plan_def gm_wf_def DefaultPlan_def validatePlanLimits_def
      Unlimited_def split: if_splits)

lemma ex_rename_fails: "isl (snd (RenamePlan (\<lambda>n. n = 5) ''t'' ex_db ''small'' (ex_plan ''tiny'')))"
  by code_simp

definition ex_server :: server where
  "ex_server = \<lparr>sv_tracker = ex_tracker, sv_db = ex_db, sv_emitted = []\<rparr>"

definition ex_request :: request where
  "ex_request = \<lparr>rq_hosted = True, rq_enforcing = True, rq_account = ''a'', rq_client = ''k'', rq_route = ''r'',
     rq_model = ''m'', rq_now = 100, rq_later = 101, rq_planFaults = (\<lambda>_. False), rq_usageFaults = (\<lambda>_. False)\<rparr>"

lemma ex_request_ids: "request_ids_ok ex_request"
  by (simp add: request_ids_ok_def ex_request_def nul_free_def NUL_def)

lemma ex_rejected: "\<exists>sv'. beginClientRequest ex_server ex_request = (sv', Some stream_limit_reply)"
proof -
  have "snd (beginClientRequest ex_server ex_request) = Some stream_limit_reply" by code_simp
  then show ?thesis by (metis prod.collapse)
qed

lemma ex_admitted: "snd (beginClientRequest (ex_server\<lparr>sv_tracker := new_tracker\<rparr>) ex_request) = None"
  by code_simp

section \<open>Documents and capabilities\<close>

definition ex_capabilities :: ReasoningCapabilities where
  "ex_capabilities = \<lparr>caps_Options = [\<lparr>opt_Type = ''effort'', opt_Values = [''high'', ''low''], opt_Min = None, opt_Max = None\<rparr>],
     caps_ClientEfforts = None, caps_ThinkingModes = [], caps_DefaultEffort = [], caps_Mandatory = None,
     caps_DefaultEnabled = None, caps_Parameters = [], caps_EffortAliases = []\<rparr>"

definition ex_target :: "int \<Rightarrow> ReasoningCapabilities option \<Rightarrow> virtualTargetCapabilities" where
  "ex_target n c = \<lparr>ContextLength = Some n, MaxOutputTokens = None, SupportsTools = None, SupportsVision = Some True,
     SupportsReasoning = None, SupportsStructuredOutput = None, Capabilities = c\<rparr>"

definition ex_conversation :: "plain list" where
  "ex_conversation = [Plain ''user'' [''hi''] [],
     Plain ''assistant'' [''ok''] [(AStr ''t1'', AStr ''ls'', AObj [(''a'', AStr ''b'')])],
     Result (AStr ''t1'') (AStr ''out'')]"

definition ex_no_tools :: obj where
  "ex_no_tools = [(''model'', AStr ''m''), (''tool_choice'', AStr ''none''),
     (''tools'', AArr [AObj [(''type'', AStr ''function''), (''function'', AObj [(''name'', AStr ''f'')])]]),
     (''messages'', AArr [AObj [(''role'', AStr ''user''), (''content'', AStr ''hi'')]])]"

lemma ex_no_tools_ok: "\<not> isl (chatToResponsesRequest ex_no_tools)"
  by code_simp

definition ex_responses :: obj where
  "ex_responses = [(''input'', AStr ''hi''), (''store'', ABool False)]"

lemma ex_responses_ok: "\<not> isl (translate_map (Some ex_responses) ProtocolResponses ProtocolChat ''m'' 0)"
  by code_simp

section \<open>Streams and responses\<close>

definition sse_data :: "string \<Rightarrow> string" where
  "sse_data s = ''data: '' @ s @ [CHR 0x0A, CHR 0x0A]"

definition ex_chat_stream :: string where
  \<open>ex_chat_stream =
     sse_data ''{"choices":[{"delta":{"content":"hi"}}]}'' @
     sse_data ''[DONE]''\<close>

definition sse_event :: "string \<Rightarrow> string \<Rightarrow> string" where
  "sse_event name s = ''event: '' @ name @ [CHR 0x0A] @ sse_data s"

definition ex_messages_stream :: string where
  \<open>ex_messages_stream =
     sse_event ''content_block_start'' ''{"index":0,"content_block":{"type":"tool_use","id":"t","name":"f"}}'' @
     sse_event ''content_block_delta'' ''{"index":0,"delta":{"type":"input_json_delta","partial_json":"{}"}}'' @
     sse_event ''content_block_stop'' ''{"index":0}'' @
     sse_event ''message_stop'' ''{"type":"message_stop"}''\<close>

definition ex_translated :: "string \<Rightarrow> string \<Rightarrow> string \<Rightarrow> step \<times> usageCapture" where
  "ex_translated incoming target s =
     translateSSEObserved (\<lambda>_. 0) (\<lambda>_. 0) ''i'' incoming target ''m'' EndOfFile s (new_capture target)"

lemma ex_to_messages: "snd (fst (ex_translated ProtocolMessages ProtocolChat ex_chat_stream)) = None"
  by code_simp

lemma ex_to_chat: "snd (fst (ex_translated ProtocolChat ProtocolMessages ex_messages_stream)) = None"
  by code_simp

definition ex_completion :: obj where
  \<open>ex_completion = [(''id'', AStr ''c1''), (''choices'', AArr [AObj [(''message'', AObj
     [(''content'', AStr ''hi''), (''tool_calls'', AArr [fn_call (AStr ''t1'') (AStr ''ls'') (AStr ''{"a":"b"}'')])]),
     (''finish_reason'', AStr ''tool_calls'')]])]\<close>

definition ex_thought :: obj where
  "ex_thought = [(''choices'', AArr [AObj [(''message'', AObj [(''content'', AStr ''hi''),
     (''reasoning_details'', AArr [AObj [(''type'', AStr ''reasoning.text''), (''format'', AStr ''anthropic-claude-v1''),
        (''text'', AStr ''so''), (''signature'', AStr ''s'')]])])]])]"

lemma ex_converted: "\<exists>doc. convert_response 0 ex_completion ProtocolMessages ProtocolChat ''m'' = Inr doc"
  by (simp add: convert_response_def Let_def)

end
