(* ===== verification/StoreExamples.thy ===== *)
theory StoreExamples
  imports Examples KeyRotation StoreHistory RouteResolution
begin

text \<open>
  Concrete tables the witnesses evaluate: a provider with a plaintext credential and the disk a first
  start makes of it, and the history of an account that adds a provider, a model, a template and a key
  linked to the template, and then switches the model on in the template.
\<close>

section \<open>A sealing function\<close>

text \<open>It keeps its text in clear behind the first byte of the key, which must match to open it; the properties ask no more of it.\<close>

definition ex_seal :: "string \<Rightarrow> string \<Rightarrow> string \<Rightarrow> string \<Rightarrow> string" where
  "ex_seal key nonce text aad = (case key of [] \<Rightarrow> text | c # _ \<Rightarrow> c # text)"

definition ex_unseal :: "string \<Rightarrow> string \<Rightarrow> string \<Rightarrow> string \<Rightarrow> string option" where
  "ex_unseal key nonce sealed aad = (case key of [] \<Rightarrow> Some sealed
     | c # _ \<Rightarrow> (case sealed of [] \<Rightarrow> None | d # text \<Rightarrow> if c = d then Some text else None))"

definition ex_aead :: aead where
  "ex_aead = (ex_seal, ex_unseal)"

lemma ex_aead_ok: "aead_ok ex_aead"
  by (simp add: aead_ok_def ex_aead_def ex_seal_def ex_unseal_def split: list.split)

definition ex_key :: string where
  "ex_key = ''0123456789abcdef0123456789abcdef''"

definition ex_new_key :: string where
  "ex_new_key = ''fedcba9876543210fedcba9876543210''"

definition ex_nonces :: "nat \<Rightarrow> string option" where
  "ex_nonces k = Some ''nonce-12byte''"

lemma ex_nonces_ok: "nonces_ok ex_nonces"
  by (simp add: nonces_ok_def ex_nonces_def nonceSize_def)

section \<open>A first start\<close>

definition ex_tenants :: tenants where
  "ex_tenants = \<lparr>t_core = ex_db, t_namespaces = [], t_providers = [], t_models = [], t_groups = [], t_virtual = [], t_targets = [],
     t_clients = [], t_bindings = [], t_defaults = [], t_perms = [], t_templates = [], t_tdefaults = [], t_tperms = [],
     t_oauth = [], t_settings = [], t_platform = [], t_outbox = [], t_cleanup = [], t_tokens = []\<rparr>"

definition ex_provider_row :: provider_row where
  "ex_provider_row = \<lparr>pv_account = ''a'', pv_name = ''openai'', pv_type = ''openai'', pv_base_url = [],
     pv_credential = Some ''sk-1'', pv_enabled = True, pv_protocols = ''[''@ [CHR 0x22] @ ''chat'' @ [CHR 0x22] @ '']'', pv_last_refresh = None, pv_next_refresh = None,
     pv_refresh_error = None, pv_created = 0, pv_updated = 0\<rparr>"

definition ex_disk :: disk where
  "ex_disk = \<lparr>d_key = FileMissing, d_previous = FileMissing, d_tables = ex_tenants\<lparr>t_providers := [(''p1'', ex_provider_row)]\<rparr>\<rparr>"

definition ex_start :: "disk \<times> (serr + secret_cipher \<times> keySource)" where
  "ex_start = prepareSecrets ex_aead ex_nonces (Some ex_key) Written (\<lambda>_. FileMissing) ''master.key'' [] [] (\<lambda>_. False) 0 ex_disk"

lemma ex_disk_ok: "secrets_ok (d_tables ex_disk)"
  by code_simp

lemma ex_started: "snd ex_start = Inr (KeyCipher [ex_key], SourceGenerated)"
  by code_simp

definition ex_rotation :: "disk list \<times> (serr + nat)" where
  "ex_rotation = rotateMasterKey ex_aead ex_nonces (Inr ex_new_key) (\<lambda>_. Written) (\<lambda>_. FileMissing) ''master.key'' [] [] (\<lambda>_. False) 0 (fst ex_start)"

lemma ex_rotated: "length (fst ex_rotation) = 3 \<and> snd ex_rotation = Inr 1"
  by code_simp

lemma ex_start_disk: "secrets_ok (d_tables (fst ex_start)) \<and> key_text ex_key = d_key (fst ex_start)"
  by code_simp

section \<open>A history\<close>

definition ex_scope :: scope where
  "ex_scope = \<lparr>sc_account = ''a'', sc_cipher = KeyCipher [ex_key], sc_enforce = False\<rparr>"

definition ex_t1 :: tenants where
  "ex_t1 = snd (fst (CreateProvider ex_aead (Some ''nonce-12byte'') 1 ex_scope \<lparr>cp_ID = ''p1'', cp_Name = ''openai'', cp_Type = ''openai'',
     cp_BaseURL = [], cp_Credential = ''sk-1'', cp_Enabled = True, cp_Protocols = pv_protocols ex_provider_row\<rparr> (\<lambda>_. False) (0, ex_tenants)))"

definition ex_model :: CatalogueModel where
  "ex_model = \<lparr>cm_ID = ''gpt'', cm_DisplayName = ''GPT'', cm_ContextLength = None, cm_MaxOutputTokens = Some 100, cm_NativeProtocol = [],
     cm_SupportsTools = None, cm_SupportsVision = None, cm_SupportsReasoning = None, cm_SupportsStructuredOutput = None,
     cm_InputModalities = [], cm_OutputModalities = [], cm_ReasoningCapabilities = []\<rparr>"

definition ex_t2 :: tenants where
  "ex_t2 = snd (fst (InsertManualModel 2 ex_scope ''p1'' ''m1'' ex_model (\<lambda>_. False) (0, ex_t1)))"

definition ex_t3 :: tenants where
  "ex_t3 = snd (fst (CreateTemplate 3 ex_scope \<lparr>tp_ID = ''t1'', tp_Name = ''team'', tp_Description = [], tp_StartFrom = ''empty'',
     tp_SourceClientID = []\<rparr> (\<lambda>_. False) (0, ex_t2)))"

definition ex_t4 :: tenants where
  "ex_t4 = snd (fst (CreateClientKey 4 ex_scope \<lparr>ci_ID = ''c1'', ci_Name = ''laptop'', ci_Description = [], ci_Group = ''default'', ci_Selector = ''s1'',
     ci_Hash = ''h'', ci_Fingerprint = ''f'', ci_Type = ''catalogue'', ci_LoggingEnabled = True, ci_RetentionDays = 30, ci_SingleModelName = [],
     ci_SingleTargetType = [], ci_SingleTargetID = [], ci_TemplateID = ''t1''\<rparr> (\<lambda>_. False) (0, ex_t3)))"

definition ex_t5 :: tenants where
  "ex_t5 = snd (fst (UpdateTemplatePermissions 5 ex_scope ''t1'' [] [\<lparr>mu_Kind = ''real'', mu_ModelID = ''m1'', mu_Enabled = True\<rparr>]
     (\<lambda>_. False) (0, ex_t4)))"

lemma step_by:
  "store_step t (snd (fst (CreateProvider g nonce now sc cp flt (0, t))))"
  "store_step t (snd (fst (InsertManualModel now sc p i m flt (0, t))))"
  "store_step t (snd (fst (CreateTemplate now sc tp flt (0, t))))"
  "store_step t (snd (fst (CreateClientKey now sc ci flt (0, t))))"
  "store_step t (snd (fst (UpdateTemplatePermissions now sc i ds ps flt (0, t))))"
proof -
  have split: "q = ((fst (fst q), snd (fst q)), snd q)" for q :: "(nat \<times> tenants) \<times> 'b" by simp
  show "store_step t (snd (fst (CreateProvider g nonce now sc cp flt (0, t))))" by (rule Provider_created [OF split])
  show "store_step t (snd (fst (InsertManualModel now sc p i m flt (0, t))))" by (rule Manual_inserted [OF split])
  show "store_step t (snd (fst (CreateTemplate now sc tp flt (0, t))))" by (rule Template_created [OF split])
  show "store_step t (snd (fst (CreateClientKey now sc ci flt (0, t))))" by (rule Key_created [OF split])
  show "store_step t (snd (fst (UpdateTemplatePermissions now sc i ds ps flt (0, t))))" by (rule Template_permissions [OF split])
qed

lemma ex_reachable: "reachable ex_t5"
proof -
  have "reachable ex_tenants" by (rule Fresh) (simp add: ex_tenants_def matrix_view_def)
  then have "reachable ex_t1" unfolding ex_t1_def by (rule Step [OF _ step_by(1)])
  then have "reachable ex_t2" unfolding ex_t2_def by (rule Step [OF _ step_by(2)])
  then have "reachable ex_t3" unfolding ex_t3_def by (rule Step [OF _ step_by(3)])
  then have "reachable ex_t4" unfolding ex_t4_def by (rule Step [OF _ step_by(4)])
  then show ?thesis unfolding ex_t5_def by (rule Step [OF _ step_by(5)])
qed

lemma ex_linked: "map_option ck_template (gm_get (t_clients ex_t5) ''c1'') = Some (Some ''t1'')"
  by code_simp

lemma ex_switched_on: "on_cell (t_tperms ex_t5) ''t1'' RealKind ''m1'' = Some True"
  by code_simp

definition ex_resolved :: "(nat \<times> tenants) \<times> (serr + resolvedRoute)" where
  "ex_resolved = resolveRoute ex_aead (\<lambda>_ _. None) ex_scope ''c1'' ''openai/gpt'' (\<lambda>_. False) (0, ex_t5)"

lemma ex_resolves: "\<not> isl (snd ex_resolved)"
  by code_simp

lemma ex_calls: "st_calls (snd (snd (run_passes ex_config (route_of (projr (snd ex_resolved))) ex_env
    (start_state (route_of (projr (snd ex_resolved))) newCooldownStore ex_tracker)))) = [(''m1'', ''p1'')]"
  by code_simp

section \<open>A virtual model over two providers\<close>

definition ex_model_row :: "string \<Rightarrow> string \<Rightarrow> model_row" where
  "ex_model_row p u = providerModelArgs ''a'' p (ex_model\<lparr>cm_ID := u\<rparr>) False 1"

definition ex_target_row :: "string \<Rightarrow> int \<Rightarrow> target_row" where
  "ex_target_row m k = \<lparr>vt_account = ''a'', vt_virtual = ''v1'', vt_model = m, vt_position = k, vt_enabled = True, vt_created = 1, vt_updated = 1\<rparr>"

definition ex_virtual_row :: virtual_row where
  "ex_virtual_row = \<lparr>vm_account = ''a'', vm_group = ''g1'', vm_name = ''fast'', vm_target_provider = ''p1'', vm_target_model = ''m1'',
     vm_mode = ''ordered_fallback'', vm_created = 1, vm_updated = 1\<rparr>"

definition ex_served :: tenants where
  "ex_served = ex_tenants\<lparr>t_namespaces := [((''a'', ''openai''), \<lparr>ns_kind = RealKind, ns_entity = ''p1''\<rparr>),
       ((''a'', ''other''), \<lparr>ns_kind = RealKind, ns_entity = ''p2''\<rparr>), ((''a'', ''team''), \<lparr>ns_kind = VirtualKind, ns_entity = ''g1''\<rparr>)],
     t_providers := [(''p1'', ex_provider_row), (''p2'', ex_provider_row\<lparr>pv_name := ''other''\<rparr>)],
     t_models := [(''m1'', ex_model_row ''p1'' ''gpt''), (''m2'', ex_model_row ''p2'' ''gpt'')],
     t_groups := [(''g1'', \<lparr>vg_account = ''a'', vg_name = ''team'', vg_created = 1, vg_updated = 1\<rparr>)],
     t_virtual := [(''v1'', ex_virtual_row)], t_targets := [(''x1'', ex_target_row ''m1'' 1), (''x2'', ex_target_row ''m2'' 2)]\<rparr>"

definition ex_deleted :: "(nat \<times> tenants) \<times> (serr + unit)" where
  "ex_deleted = DeleteProvider 9 ex_scope ''p1'' (\<lambda>_. False) (0, ex_served)"

lemma ex_deletes: "snd ex_deleted = Inr ()"
  by code_simp

end
