(* ===== verification/Spec2Isabelle.thy ===== *)
theory Spec2Isabelle
  imports Prelude Text Json GoValue Reasoning VirtualCapabilities RequestTranslation TranslationLaws ResponseTranslation ResponseLaws UsageCapture EventStream StreamTranslation StreamRelay StreamLaws StreamContent StreamTools Cipher Cooldown Inflight LoginLimiter Plans Tenants Secrets KeyRotation Schema Catalogue VirtualModels ClientKeys MatrixLaws TemplateLaws Mirroring StoreLaws ProviderLaws KeyLaws StoreHistory Calendar Admission UpstreamError Sniff Routing RoutingLaws Relay RouteResolution Examples StoreExamples
begin

text \<open>
A verification library for tiller-router, a gateway that serves Chat, Messages and Responses clients
  from many upstream providers. It models the core of the Go program: the life of one inference
  request from its client key to the relayed answer, the in-memory stores that requests share, the
  translation of requests, responses and event streams between protocols, the tables of accounts and
  everything that writes them, and the encryption of the secrets in them. File names are relative to
  src/.

  THE PROGRAM AND THE THEORIES

  A request enters \<open>proxy\<close> (internal/server/client.go) after the client key was resolved to a route by
  queries on the tables the admin operations write.
  Admission takes a concurrency slot and a monthly unit; the routing loop tries the targets of the
  route in up to two passes; each iteration translates the request, calls the upstream, classifies the
  answer and either selects the target, goes on, or ends the request; the relay then writes the
  selected response. On the way the request changes three stores shared by all requests: the
  cooldowns, the in-flight tracker and the usage counters.

  Prelude: Go times, maps (association lists with distinct keys whose order is the runtime's) and
  account-scoped keys. Text: byte strings and runes. Json: the grammar of encoding/json with its
  fuel. GoValue: dynamic values (any), IEEE doubles, their decoding and encoding.
  Cooldown (internal/server/cooldown.go): the cooldown store and its admin handlers.
  Inflight (inflight.go): tickets and target legs, the deltas each operation publishes, interleaved
  requests as a step relation; the locale \<open>slot_pool\<close>, interpreted on the tracker.
  LoginLimiter (login_limiter.go): failures, lockouts, attempt windows, eviction.
  Plans, Calendar (internal/store/plans.go, usage_counters.go): plan tables with a fault possible at
  every database step; the locale \<open>capped_counter\<close>, interpreted on the usage counters; usage periods.
  Admission (client.go, beginClientRequest): client of both locales.
  UpstreamError (upstream_error.go, error_message.go): what an upstream error body means, redaction of
  provider credentials and sanitizing of the text shown to clients.
  Sniff (client.go): whether a response without a content type is an event stream.
  Routing, RoutingLaws (client.go, proxy): the pass loop. An iteration is a composition of stages in
  the order of the code, each of which may end it: \<open>Next\<close> (continue), \<open>Again\<close> (the i-- after a token
  refresh), \<open>Select\<close> (goto routeDone), \<open>Return\<close>. The locales \<open>loop_invariant\<close> and \<open>row_invariant\<close>
  carry an invariant of the stages through both passes; they are interpreted on cooldowns, refreshes,
  tickets and early commits. Relay (client.go): the relay of the selected response and the whole of
  proxy after admission.
  Reasoning (translate.go, internal/providers/registry.go): reasoning selectors and capabilities.
  VirtualCapabilities (virtual_capabilities.go): what a virtual model claims for its targets.
  RequestTranslation, TranslationLaws (translate.go, reasoning_state.go): translation of requests.
  ResponseTranslation, ResponseLaws (translate.go, reasoning_response_state.go): complete responses;
  UsageCapture (logging.go): the token counts kept of them.
  EventStream, StreamTranslation, StreamRelay (translate.go): event streams, their decoding, translation
  and aggregation; StreamLaws, StreamContent, StreamTools: what the written stream says. The locale
  \<open>stream_invariant\<close> carries an invariant of the stream state through the loop over events; it is
  interpreted on the grammar of each protocol, on the content written and on the bounds.
  Cipher (internal/crypto/cipher.go, keyfile.go): the stored form of a secret and the master key.
  Tenants, Schema (internal/store/store.go, internal/database/migrations): the tables as maps of rows, a
  statement as a function that may violate a constraint, operations as sequences of statements any of
  which may fail, and \<open>RunTx\<close>, which makes a sequence all or nothing.
  Secrets (internal/store/secrets.go), KeyRotation (cmd/tiller-router/main.go): listing, migrating and
  rotating every stored secret; the start of the process and the rotation command as the durable states
  of key file, sidecar and tables they go through.
  Catalogue, VirtualModels, ClientKeys (internal/store/providers.go, models.go, virtual.go, clients.go,
  templates.go): the operations on providers and their models, virtual models, client keys and
  catalogue templates. MatrixLaws, TemplateLaws, Mirroring, StoreLaws, KeyLaws: every operation keeps
  the matrix of a linked key equal to its template's, by triples over the statements; StoreHistory: the
  histories of operations. ProviderLaws: what deleting a provider leaves.
  RouteResolution (internal/store/routing.go, client.go, resolveRoute): from key and requested name to the
  route the pass loop takes, and the listing of a key's models.
  Examples, StoreExamples: the concrete values at which the witnesses evaluate the definitions.

  WHAT IS SHOWN

  Routing ends and keeps to the configured order; every upstream call is recorded; a request gives
  back exactly what it took from the tracker on every path; cooldowns open only for targets it saw
  fail, never for a client that left; a request is answered once. Admission stays within the plan,
  leaves no trace when it rejects and fails closed. Concurrent requests and live consumers agree.
  Credentials do not reach clients; texts are bounded and clean. Targets receive only reasoning
  controls they advertise; conversations, tool calls and opaque reasoning state survive translation of
  requests, responses and streams, and every translated stream is a sentence of the client's protocol.
  Upstream calls are for models of the key's own account that the key may use; deleting a provider
  leaves every virtual model a target. Neither a start nor a rotation that fails or is cut short at any
  write loses a stored secret.

  BOUNDS AND FUEL

  The JSON parser is fuelled by the length of the document, which theory Json proves to be enough.
  The routing loop has no fuel: it terminates because an iteration either advances or refreshes a
  provider that was not refreshed before. The loops over a stream need none: an event shortens the rest
  of the body. Integers the code keeps in int64 are integers with the bound
  written where it shows (times saturate, budgets are compared with the bounds of int64).

  INPUTS OF THE MODEL

  What other parties do is an input over which every theorem quantifies: AES-GCM (of which only that
  it opens what it sealed is assumed), nonces and generated identifiers, the outcome of writing a key
  file, the clock and the order of maps in stream translation, the tokens of the OAuth manager, the
  outcome of each upstream
  call and of reading its body, the end of the client's context, the clock, database faults, the
  iteration order of Go maps. Of the program's own parts, routing takes as inputs the outcomes of the
  request normalizers, of the minimum-output check, of the output probe and of the response
  translators, and whether the request could be translated. The tables are in any order, so a query for
  one row gives any of those that match.

  NOT MODELLED

  Request headers, endpoints and body normalizers, catalogue discovery, the admin listings, activity,
  settings, audit and OAuth token rows of the store, HTTP handlers of the admin interface, OAuth, WebAuthn
  and sessions, configuration, mail and DNS. They are input and output, cryptography and glue over
  libraries. Of SQL, what is modelled is the effect of each statement on the rows with the constraints
  of the migrations; the text of timestamps and of stored reasoning capabilities is kept opaque.
  Mutexes are not modelled: each operation of a store is one atomic step, as its lock makes it.
\<close>

text \<open>C1. Whatever the upstreams, the client and the relay do, when the handler ends the tracker holds exactly what it held before admission: the request has given back its ticket once, announced streams are withdrawn, and no target leg of any account is left open.\<close>

theorem proxy_releases_ticket_and_legs:
  fixes cf rt env rl C t0
  assumes "client_ids_ok cf rt" "inflight_inv t0"
    and "0 < Active (ticket t0 (cf_accountID cf) (cf_clientKeyID cf) (rt_RouteModelID rt))"
    and "nul_free a" "nul_free i" "i \<noteq> []" "nul_free r" "x \<noteq> []"
  defines "t \<equiv> st_tracker (proxy_routed cf rt env rl (start_state rt C t0))"
  shows "Active (ticket t a i r) = Active (ticket t0 a i r) -
           (if a = cf_accountID cf \<and> i = cf_clientKeyID cf \<and> r = rt_RouteModelID rt then 1 else 0) \<and>
         Streaming (ticket t a i r) = Streaming (ticket t0 a i r) \<and>
         Active (leg t a r x) = Active (leg t0 a r x)"
  using proxy_balanced [OF assms(1-3), of env rl C] assms(4-8)
  by (simp add: relative_def legs_are_def own_def t_def)

theorem proxy_releases_ticket_and_legs_witness:
  "Active (ticket (st_tracker (proxy_routed ex_config ex_route ex_env ex_relay
     (start_state ex_route newCooldownStore ex_tracker))) ''a'' ''k'' ''r'') = 0"
  using proxy_releases_ticket_and_legs [OF ex_ids ex_tracker_inv, of "''a''" "''k''" "''r''" "''m1''" ex_env ex_relay newCooldownStore]
  by (simp add: ex_config_def ex_route_def ex_tracker_held nul_free_def NUL_def)


text \<open>C3. The answer of a response is its texts and its tool calls (id, name, arguments), whatever the protocol. For each pair of protocols the document the client gets has exactly the answer of the upstream response, in order, provided the texts are strings that are not blank and, for a Messages client, the arguments are the canonical encoding of a value.\<close>

theorem an_answer_survives_translation:
  assumes "convert_response now source incoming target model = Inr doc"
    and "target \<in> {ProtocolChat, ProtocolMessages, ProtocolResponses}"
    and "\<forall>v \<in> set (fst (answer_view target source)). readable v"
    and "incoming = ProtocolMessages \<longrightarrow> (\<forall>c \<in> set (snd (answer_view target source)). canonical_arguments (snd (snd c)))"
  shows "answer_view incoming doc = answer_view target source"
  by (rule answer_kept [OF assms(1-3)]) (use assms(4) in blast)

theorem an_answer_survives_translation_witness:
  "\<exists>doc. convert_response 0 ex_completion ProtocolMessages ProtocolChat ''m'' = Inr doc \<and>
     answer_view ProtocolMessages doc = ([AStr ''hi''], [(AStr ''t1'', AStr ''ls'', AStr ''{\"a\":\"b\"}'')])"
proof -
  obtain doc where doc: "convert_response 0 ex_completion ProtocolMessages ProtocolChat ''m'' = Inr doc"
    using ex_converted by blast
  have v: "answer_view ProtocolChat ex_completion = ([AStr ''hi''], [(AStr ''t1'', AStr ''ls'', AStr ''{\"a\":\"b\"}'')])"
    by code_simp
  have "readable (AStr ''hi'')" "canonical_arguments (AStr ''{\"a\":\"b\"}'')" by code_simp+
  then show ?thesis using an_answer_survives_translation [OF doc, unfolded v] doc by simp
qed





text \<open>C6. Whatever the upstreams do, every upstream call a request makes is for a model of the account of its client key and for the provider of that model, also of the account; the model is the one the key is bound to or has switched on under the requested name, or one of the enabled targets of that virtual model. OAuth refreshes on the way do not change this.\<close>

theorem requests_stay_in_their_account:
  assumes "resolveRoute g cur sc c requested flt (n, t) = ((n', t'), Inr r)" "gm_get (t_models t) [] = None"
    and "call \<in> set (st_calls (snd (snd (run_passes cf (route_of r) env (start_state (route_of r) C t0)))))"
  shows "(\<exists>k. rr_RouteKind r = (case k of RealKind \<Rightarrow> ''real'' | VirtualKind \<Rightarrow> ''virtual'') \<and>
      may_use t (sc_account sc) c k (rr_RouteModelID r) requested) \<and>
    call_ok t (sc_account sc) (rr_RouteKind r) (rr_RouteModelID r) call"
proof -
  have eff: "effect (resolveRoute g cur sc c requested) t r t'" using assms(1) by (auto simp: effect_def)
  show ?thesis using resolveRoute_reaches [OF eff] requests_reach [OF eff assms(2,3)] by blast
qed

theorem requests_stay_in_their_account_witness:
  "\<exists>r. snd ex_resolved = Inr r \<and> call_ok ex_t5 ''a'' (rr_RouteKind r) (rr_RouteModelID r) (''m1'', ''p1'')"
proof -
  obtain r where r: "snd ex_resolved = Inr r" using ex_resolves by (cases "snd ex_resolved") auto
  have run: "resolveRoute ex_aead (\<lambda>_ _. None) ex_scope ''c1'' ''openai/gpt'' (\<lambda>_. False) (0, ex_t5) =
      ((fst (fst ex_resolved), snd (fst ex_resolved)), Inr r)"
    unfolding r [symmetric] prod.collapse by (rule ex_resolved_def [symmetric])
  have none: "gm_get (t_models ex_t5) [] = None" by code_simp
  have "(''m1'', ''p1'') \<in> set (st_calls (snd (snd (run_passes ex_config (route_of r) ex_env (start_state (route_of r) newCooldownStore ex_tracker)))))"
    using ex_calls r by simp
  then show ?thesis using requests_stay_in_their_account [OF run none] r by (auto simp: ex_scope_def)
qed

text \<open>C7. A Messages client can always parse the stream it gets, whatever the upstream sends and however the read ends: message_start comes first and once, content blocks are numbered from zero without gaps, deltas and stops name the one open block, message_delta and message_stop come with no block open and nothing follows message_stop. A stream that was translated to its end is stopped; one that failed is a prefix of such a stream, and the reader knows exactly the block the writer has open.\<close>

theorem messages_clients_get_a_grammatical_stream:
  assumes "translateSSEObserved clock oor i ProtocolMessages target model end s u = ((st, err), u')"
  shows "if err = None then msg_done st else msg_inv st"
  by (rule messages_stream [OF assms])

theorem messages_clients_get_a_grammatical_stream_witness:
  "msg_done (fst (fst (ex_translated ProtocolMessages ProtocolChat ex_chat_stream)))"
  using messages_clients_get_a_grammatical_stream
    [of "\<lambda>_. 0" "\<lambda>_. 0" "''i''" ProtocolChat "''m''" EndOfFile ex_chat_stream "new_capture ProtocolChat"
        "fst (fst (ex_translated ProtocolMessages ProtocolChat ex_chat_stream))" None
        "snd (ex_translated ProtocolMessages ProtocolChat ex_chat_stream)"]
    ex_to_messages
  by (simp add: ex_translated_def prod_eq_iff)





text \<open>C10. Every upstream call a request makes is recorded by exactly one attempt of its log row, in the order of the calls, and every recorded upstream attempt was a call.\<close>

theorem calls_are_recorded:
  fixes cf rt env C t0
  assumes "ids_ok cf rt" "inflight_inv t0"
  defines "st \<equiv> snd (snd (run_passes cf rt env (start_state rt C t0)))"
  shows "List.map fst (st_calls st) = recorded_calls (st_attempts st)"
proof -
  obtain e k s where r: "run_passes cf rt env (start_state rt C t0) = (e, k, s)" by (metis prod_cases3)
  have "pass_books cf rt (\<lambda>a r x. Active (leg t0 a r x)) [] (e, k, s)"
    unfolding r [symmetric]
    by (rule run_passes_books [OF assms(1) _ start_books [OF assms(2)]]) (simp add: leg_nonneg [OF assms(2)])
  then show ?thesis by (cases e) (auto simp: st_def r books_def)
qed

theorem calls_are_recorded_witness:
  "recorded_calls (st_attempts (snd (snd (run_passes ex_config ex_route ex_env
     (start_state ex_route newCooldownStore ex_tracker))))) = [''m1'', ''m2'']"
  using calls_are_recorded [OF _ ex_tracker_inv, of ex_config ex_route ex_env newCooldownStore] ex_ids ex_run
  by (simp add: client_ids_ok_def)

text \<open>C11. After any history of the store operations, on any accounts, with any arguments and any statements failing, a client key linked to a catalogue template is linked to a template of its own account, and its feeder defaults and model permissions are exactly those of the template, so routing may read the rows of the key alone.\<close>

theorem linked_keys_mirror_their_template:
  assumes "reachable t" "gm_get (t_clients t) c = Some r" "ck_template r = Some x"
  shows "(\<exists>q. gm_get (t_templates t) x = Some q \<and> ct_account q = ck_account r) \<and>
    (\<forall>k i. on_cell (t_defaults t) c k i = on_cell (t_tdefaults t) x k i \<and> on_cell (t_perms t) c k i = on_cell (t_tperms t) x k i)"
proof -
  have link: "link_of t c = Some x" using assms(2,3) by (simp add: link_of_def)
  have inv: "matrix_inv t" by (rule reachable_inv [OF assms(1)])
  then have "owner_account templateMatrix t x = Some (ck_account r)" "mirrored t c x"
    using link assms(2) by (simp_all add: matrix_inv_def links_ok_def)
  then show ?thesis by (auto simp: mirrored_def)
qed

theorem linked_keys_mirror_their_template_witness:
  "on_cell (t_perms ex_t5) ''c1'' RealKind ''m1'' = Some True"
proof -
  obtain r where r: "gm_get (t_clients ex_t5) ''c1'' = Some r" "ck_template r = Some ''t1''"
    using ex_linked by auto
  show ?thesis using linked_keys_mirror_their_template [OF ex_reachable r] ex_switched_on by simp
qed

text \<open>C12. With the key in the data directory, every durable state a master key rotation can leave (a crash after any write, a failed write of either key file, a failed transaction, a failed restore) still has a key on disk, in the key file or in the sidecar beside it, under which every stored secret says what it said under the old key.\<close>

theorem an_interrupted_rotation_is_recoverable:
  assumes "d' \<in> set (fst (rotateMasterKey g nonces newKey w extern keyPath envKey envKeyFile flt n d))"
    and "trim_space envKey = []" "trim_space envKeyFile = []"
    and "aead_ok g" "nonces_ok nonces" "secrets_ok (d_tables d)" "key_in (d_key d) old"
  shows "recoverable g d' (map (plain_of g (KeyCipher [old])) (secrets (d_tables d)))"
proof -
  obtain ds r where run: "rotateMasterKey g nonces newKey w extern keyPath envKey envKeyFile flt n d = (ds, r)" by fastforce
  show ?thesis by (rule rotateMasterKey_recoverable [OF run _ assms(2-7)]) (use assms(1) run in simp)
qed

theorem an_interrupted_rotation_is_recoverable_witness:
  "length (fst ex_rotation) = 3 \<and>
   list_all (\<lambda>d'. recoverable ex_aead d' (map (plain_of ex_aead (KeyCipher [ex_key])) (secrets (d_tables (fst ex_start))))) (fst ex_rotation)"
proof -
  have key: "key_in (d_key (fst ex_start)) ex_key" using ex_start_disk key_text_in [of ex_key] by (simp add: ex_key_def KeySize_def)
  have blank: "trim_space [] = []" by code_simp
  show ?thesis unfolding ex_rotation_def list_all_iff
    using ex_rotated [unfolded ex_rotation_def] ex_start_disk
      an_interrupted_rotation_is_recoverable [OF _ blank blank ex_aead_ok ex_nonces_ok _ key] by blast
qed

text \<open>C13. When the process starts, whatever the key sources, the writes and the random source do, either it is locked and no row changed, or it uses one key under which every stored secret is encrypted, readable and says what it said before; a generated key is already in the key file, and only when no row was encrypted. AES-GCM is assumed to open what it sealed, and nonces to have the standard length.\<close>

theorem a_start_never_loses_a_secret:
  assumes "prepareSecrets g nonces fresh w extern keyPath envKey envKeyFile flt n d = (d', Inr (KeyCipher c, source))"
    and "aead_ok g" "nonces_ok nonces" "secrets_ok (d_tables d)"
  shows "c = [] \<and> d_tables d' = d_tables d \<or>
    (\<exists>k. c = [k] \<and> readable_secrets g (KeyCipher c) (d_tables d') \<and> list_all (\<lambda>r. Encrypted (sr_value r)) (secrets (d_tables d')) \<and>
       map (plain_of g (KeyCipher c)) (secrets (d_tables d')) = map (plain_of g (KeyCipher c)) (secrets (d_tables d)) \<and>
       (source = SourceGenerated \<longrightarrow> key_in (d_key d') k \<and> list_all (\<lambda>r. \<not> Encrypted (sr_value r)) (secrets (d_tables d))))"
  by (rule prepareSecrets_started [OF assms])

theorem a_start_never_loses_a_secret_witness:
  "\<exists>k. readable_secrets ex_aead (KeyCipher [k]) (d_tables (fst ex_start)) \<and> key_in (d_key (fst ex_start)) k"
proof -
  have run: "prepareSecrets ex_aead ex_nonces (Some ex_key) Written (\<lambda>_. FileMissing) ''master.key'' [] [] (\<lambda>_. False) 0 ex_disk =
      (fst ex_start, Inr (KeyCipher [ex_key], SourceGenerated))"
    using ex_started by (simp only: ex_start_def prod.collapse flip: ex_started)
  show ?thesis using a_start_never_loses_a_secret [OF run ex_aead_ok ex_nonces_ok ex_disk_ok] by auto
qed













text \<open>C20. When a provider is deleted, no Single key was bound to one of its models, the provider is gone, and every virtual model of the account that had a target there still has a target elsewhere that can serve: enabled, its model available, its provider enabled.\<close>

theorem deleting_a_provider_breaks_no_virtual_model:
  assumes "DeleteProvider now sc pid flt (n, t) = ((n', t'), Inr ())" "gm_wf (t_models t)" "gm_wf (t_providers t)"
    and "(v, r) \<in> set (t_virtual t)" "vm_account r = sc_account sc" "canonical_virtual t r \<noteq> None" "uses_provider (sc_account sc) pid t v"
  shows "(\<exists>j q. (j, q) \<in> set (t_targets t') \<and> vt_virtual q = v \<and> eligible t' q \<and> target_provider t' q \<noteq> Some pid) \<and>
    owned pv_account (t_providers t') (sc_account sc) pid = None \<and> single_refs (sc_account sc) pid t = 0"
proof -
  have "effect (DeleteProvider now sc pid) t () t'" using assms(1) by (auto simp: effect_def)
  from DeleteProvider_covered [OF this assms(2-7)] show ?thesis unfolding takeover_covers covers_def by blast
qed

theorem deleting_a_provider_breaks_no_virtual_model_witness:
  "\<exists>j q. (j, q) \<in> set (t_targets (snd (fst ex_deleted))) \<and> vt_virtual q = ''v1'' \<and> target_provider (snd (fst ex_deleted)) q \<noteq> Some ''p1''"
proof -
  have run: "DeleteProvider 9 ex_scope ''p1'' (\<lambda>_. False) (0, ex_served) = ((fst (fst ex_deleted), snd (fst ex_deleted)), Inr ())"
    unfolding ex_deletes [symmetric] prod.collapse by (rule ex_deleted_def [symmetric])
  have v: "(''v1'', ex_virtual_row) \<in> set (t_virtual ex_served)" "vm_account ex_virtual_row = sc_account ex_scope"
    "canonical_virtual ex_served ex_virtual_row \<noteq> None" "uses_provider (sc_account ex_scope) ''p1'' ex_served ''v1''"
    "gm_wf (t_models ex_served)" "gm_wf (t_providers ex_served)" by code_simp+
  show ?thesis using deleting_a_provider_breaks_no_virtual_model [OF run v(5,6,1-4)] by blast
qed



text \<open>C22. Whatever an upstream sends, a translated stream never holds more than 128 tool calls, 8 MiB of call arguments (and its byte counter is their exact sum), 8 MiB of text and 8 MiB of reasoning; every alias of a call names a call that exists, and a call is numbered by its place.\<close>

theorem what_a_stream_accumulates_is_bounded:
  assumes "translateSSEObserved clock oor i incoming target model end s u = ((st, err), u')"
  shows "tools_ok st"
  using bounded.stream [OF new_stream_ok assms] by (simp split: if_splits)

theorem what_a_stream_accumulates_is_bounded_witness:
  "len (ss_toolCalls (fst (fst (ex_translated ProtocolChat ProtocolMessages ex_messages_stream)))) \<le> maxStreamToolCalls"
  using what_a_stream_accumulates_is_bounded
    [of "\<lambda>_. 0" "\<lambda>_. 0" "''i''" ProtocolChat ProtocolMessages "''m''" EndOfFile ex_messages_stream "new_capture ProtocolMessages"
        "fst (fst (ex_translated ProtocolChat ProtocolMessages ex_messages_stream))"
        "snd (fst (ex_translated ProtocolChat ProtocolMessages ex_messages_stream))"
        "snd (ex_translated ProtocolChat ProtocolMessages ex_messages_stream)"]
  by (simp add: ex_translated_def tools_ok_def)



text \<open>C24. When the client has gone by the time an attempt fails, an attempt that received no HTTP error status (a network error, a broken read, an empty or failed stream) leaves every cooldown as it was.\<close>

theorem client_failures_never_cool:
  assumes "\<forall>j. 1 \<le> j \<longrightarrow> ev_ctx ev j \<noteq> None" "no_error_status ev"
  shows "flow_ok (\<lambda>s. st_cooldown s = st_cooldown st) (\<lambda>s. st_cooldown s = st_cooldown st)
           (\<lambda>s. st_cooldown s = st_cooldown st) (\<lambda>s. st_cooldown s = st_cooldown st)
           (iteration cf rt ev pass i st)"
  using ended_iteration [OF assms, of st cf rt pass i] by (simp add: cool_same_def inv_flow_def)

theorem client_failures_never_cool_witness:
  "flow_ok (\<lambda>s. st_cooldown s = []) (\<lambda>s. st_cooldown s = []) (\<lambda>s. st_cooldown s = []) (\<lambda>s. st_cooldown s = [])
     (iteration ex_config ex_route ((ex_iter 200)\<lparr>ev_ctx := (\<lambda>j. if j = 0 then None else Some Canceled),
        ev_do := DoFailed False\<rparr>) 0 0 (start_state ex_route newCooldownStore ex_tracker))"
  using client_failures_never_cool [of "(ex_iter 200)\<lparr>ev_ctx := (\<lambda>j. if j = 0 then None else Some Canceled), ev_do := DoFailed False\<rparr>"
      "start_state ex_route newCooldownStore ex_tracker" ex_config ex_route 0 0]
  by (simp add: no_error_status_def start_state_def newCooldownStore_def)

text \<open>C25. The reasoning capabilities of a virtual model cover those of its targets: an effort that some target accepts is accepted by the merged capabilities, whatever the iteration order of the runtime; and the virtual model is marked as requiring reasoning only when every target of known capabilities requires it.\<close>

theorem virtual_reasoning_covers_its_targets:
  assumes "rearranges ord"
  shows "((\<exists>t \<in> set targets. offers e (Capabilities t)) \<longrightarrow>
       offers e (Capabilities (aggregateVirtualCapabilities ord targets))) \<and>
     (isMandatoryReasoning (Capabilities (aggregateVirtualCapabilities ord targets)) \<longrightarrow>
       (\<forall>t \<in> set targets. Capabilities t \<noteq> None \<longrightarrow> isMandatoryReasoning (Capabilities t)))"
  using offers_fold [OF assms, of e None targets] mandatory_fold [of ord targets None]
  by (auto simp: aggregateVirtualCapabilities_def)

theorem virtual_reasoning_covers_its_targets_witness:
  "offers ''low'' (Capabilities (aggregateVirtualCapabilities id [ex_target 9 None, ex_target 4 (Some ex_capabilities)]))"
proof -
  have "rearranges id" by (simp add: rearranges_def)
  moreover have "offers ''low'' (Capabilities (ex_target 4 (Some ex_capabilities)))" by code_simp
  ultimately show ?thesis
    using virtual_reasoning_covers_its_targets [of id "[ex_target 9 None, ex_target 4 (Some ex_capabilities)]" "''low''"] by simp
qed









text \<open>C30. A signed or redacted thinking block that is carried through a Chat message as a reasoning detail comes back as a thinking block of the same type with the same text, signature or data.\<close>

theorem reasoning_state_survives_chat:
  assumes "anthropicReasoningToChatDetails block i = Inr d"
  shows "\<exists>b. detail_to_block (AObj d) = Inr (AObj b) \<and>
     at b ''type'' = at block ''type'' \<and>
     (if is_str (at block ''type'') ''thinking''
      then at b ''thinking'' = at block ''thinking'' \<and>
           at b ''signature'' = (if strField (at block ''signature'') = [] then ANil else at block ''signature'')
      else at b ''data'' = at block ''data'')"
  using detail_roundtrip [OF assms] by (simp add: same_state_def)

theorem reasoning_state_survives_chat_witness:
  "\<exists>d b. detail_to_block (AObj d) = Inr (AObj b) \<and> at b ''signature'' = AStr ''sig''"
proof -
  let ?block = "[(''type'', AStr ''thinking''), (''thinking'', AStr ''hm''), (''signature'', AStr ''sig'')]"
  obtain d where d: "anthropicReasoningToChatDetails ?block 0 = Inr d"
    by (simp add: anthropicReasoningToChatDetails_def is_str_def)
  from reasoning_state_survives_chat [OF d] show ?thesis by (auto simp: is_str_def)
qed





text \<open>C33. A request that is rejected at admission, for whatever reason, leaves the live count of every account and every monthly counter as they were.\<close>

theorem a_rejected_request_leaves_no_trace:
  assumes "inflight_inv (sv_tracker sv)" "request_ids_ok q" "nul_free b"
    "beginClientRequest sv q = (sv', Some r)"
  shows "live_count sv' b = live_count sv b \<and> used sv' c per = used sv c per"
  by (rule begin_rejected [OF assms])

theorem a_rejected_request_leaves_no_trace_witness:
  "live_count (fst (beginClientRequest ex_server ex_request)) ''a'' = live_count ex_server ''a''"
proof -
  obtain sv' r where b: "beginClientRequest ex_server ex_request = (sv', Some r)" using ex_rejected by fastforce
  have "nul_free ''a''" by code_simp
  from a_rejected_request_leaves_no_trace [OF _ ex_request_ids this b] b ex_tracker_inv show ?thesis by (simp add: ex_server_def)
qed

text \<open>C34. Under enforcement a request is never admitted on a database fault: neither when reading the plan fails nor when, for a capped plan, a step of reserving the monthly unit fails.\<close>

theorem admission_fails_closed:
  assumes "rq_hosted q" "rq_enforcing q" "snd (beginClientRequest sv q) = None"
  shows "\<not> rq_planFaults q 0 \<and>
    (\<forall>plan. EntitlementsForAccount (rq_planFaults q) (sv_db sv) (rq_account q) = Inr plan \<longrightarrow>
       0 \<le> monthly_requests plan \<longrightarrow> \<not> (\<exists>n \<le> 3. rq_usageFaults q n))"
  by (rule begin_fails_closed [OF assms])

theorem admission_fails_closed_witness:
  "\<not> rq_planFaults ex_request 0"
  using admission_fails_closed [of ex_request "ex_server\<lparr>sv_tracker := new_tracker\<rparr>"] ex_admitted by (simp add: ex_request_def)

text \<open>C35. Whatever the upstream answered, a translated response has the shape of the client protocol: a Chat completion has one choice with an assistant message, a finish reason and calls of type function; a Messages response is an assistant message with a stop reason; a Responses response is completed and holds one message item. Every content block, part and output item is an object whose type is a string.\<close>

theorem translated_responses_have_the_shape_of_their_protocol:
  assumes "convert_response now source incoming target model = Inr doc" "target \<noteq> incoming \<or> incoming \<noteq> ProtocolChat"
  shows "response_shape incoming doc"
  by (rule response_shape_ok [OF assms])

theorem translated_responses_have_the_shape_of_their_protocol_witness:
  "\<exists>doc. convert_response 0 ex_completion ProtocolMessages ProtocolChat ''m'' = Inr doc \<and> messages_shape doc"
proof -
  obtain doc where doc: "convert_response 0 ex_completion ProtocolMessages ProtocolChat ''m'' = Inr doc"
    using ex_converted by blast
  from translated_responses_have_the_shape_of_their_protocol [OF doc] doc show ?thesis by (simp add: response_shape_def)
qed

text \<open>C36. A headerless response is marked as a stream only when the complete body, read as a whole, starts with an SSE field line, however its bytes were split over reads; and the sniffer gives every byte back.\<close>

theorem sniffed_stream_verdict_is_of_the_body:
  assumes "rs_contentType r = []"
  shows "body_bytes (rs_reads (sniffAndClassify r)) = body_bytes (rs_reads r) \<and>
     (rs_contentType (sniffAndClassify r) = ''text/event-stream'' \<longrightarrow>
        looksLikeSSE (body_bytes (rs_reads r)) = SseDetected)"
  using sniff_keeps_bytes [of r] sniff_sound [OF assms] by blast

theorem sniffed_stream_verdict_is_of_the_body_witness:
  "looksLikeSSE (''data: x'' @ [CHR 0x0A]) = SseDetected"
proof -
  let ?r = "(ex_response 200)\<lparr>rs_contentType := [], rs_reads := [(''da'', False), (''ta: x'' @ [CHR 0x0A], False)]\<rparr>"
  have "rs_contentType (sniffAndClassify ?r) = ''text/event-stream''" by code_simp
  moreover have "body_bytes (rs_reads ?r) = ''data: x'' @ [CHR 0x0A]" by code_simp
  moreover have "rs_contentType ?r = []" by simp
  ultimately show ?thesis using sniffed_stream_verdict_is_of_the_body [of ?r] by metis
qed

text \<open>C37. When no read fails or stalls, a verdict that the first 64 bytes of the body settle is the one the sniffer reaches, whatever the sizes of the chunks they arrive in.\<close>

theorem sniffing_is_independent_of_chunking:
  assumes "\<forall>(d, e) \<in> set reads. d \<noteq> [] \<and> \<not> e"
    and "looksLikeSSE (take maxSSEDetectionPrefix (body_bytes reads)) = v" "v \<noteq> SseInconclusive"
  shows "fst (sniff_loop [] 0 reads) = v"
  using sniff_loop_finds [OF assms(1), of "[]"] assms(2,3)
  by (simp add: looksLikeSSE_def has_prefix_def bom_def)

theorem sniffing_is_independent_of_chunking_witness:
  "fst (sniff_loop [] 0 [(''e'', False), (''vent: m'' @ [CHR 0x0A], False)]) = SseDetected"
  by (rule sniffing_is_independent_of_chunking) (simp, code_simp, simp)

text \<open>C38. Reading an event always takes something off the body, so every loop over a stream ends, and an event never holds more data than the cap, even when many data lines are joined; only an event refused for its size holds one byte more.\<close>

theorem events_are_bounded_and_use_up_the_body:
  assumes "readSSEEvent s = (e, rest, err)"
  shows "(err = None \<longrightarrow> length rest < length s) \<and>
         len (sse_Data e) \<le> maxAccumulatedTextBytes + (if err = Some EventLimit then 1 else 0)"
proof -
  have "len (sse_Data no_event) \<le> maxAccumulatedTextBytes" by (simp add: no_event_def maxAccumulatedTextBytes_def)
  then show ?thesis
    using read_event_bound [OF assms [unfolded readSSEEvent_def]] read_event_shorter [of no_event s e rest] assms
    by (simp add: readSSEEvent_def)
qed

theorem events_are_bounded_and_use_up_the_body_witness:
  "\<exists>e rest. readSSEEvent ex_chat_stream = (e, rest, None) \<and> length rest < length ex_chat_stream"
proof -
  have "snd (snd (readSSEEvent ex_chat_stream)) = None" by code_simp
  then obtain e rest where r: "readSSEEvent ex_chat_stream = (e, rest, None)" by (metis prod.collapse)
  from events_are_bounded_and_use_up_the_body [OF r] r show ?thesis by simp
qed

text \<open>C39. No sequence of plan operations, with database faults at any step, breaks the plan tables: the default plan exists, every account points at an existing plan, every stored plan carries its own name and valid limits, and no usage counter is negative.\<close>

theorem plans_stay_consistent:
  assumes "plans_inv d"
  shows "plans_inv (plan_run ops d)"
  by (rule plans_inv_run [OF assms])

theorem plans_stay_consistent_witness:
  "plans_inv (plan_run [(\<lambda>n. False, OpDelete ''x''), (\<lambda>n. True, OpAssign ''a'' ''x'')] ex_db)"
  by (rule plans_stay_consistent [OF ex_db_inv])

text \<open>C40. The tables of the login limiter never hold more than their maximal number of entries, and neither recording a failure nor counting an attempt of any address, with any eviction order, ends a lockout that has not expired.\<close>

theorem login_tables_are_bounded_and_keep_lockouts:
  assumes "limiter_inv l" "arrangement ord" "0 \<le> now"
  shows "length (failures (fst (recordFailure ord l key now))) \<le> maxLimiterEntries \<and>
     length (attempts (fst (allowAttempt ord l key now))) \<le> maxLimiterEntries \<and>
     (\<forall>k f. gm_get (failures l) k = Some f \<and> now < lockedUntil f \<longrightarrow>
        gm_get (failures (fst (recordFailure ord l key now))) k = Some f) \<and>
     (\<forall>k f. gm_get (attempts l) k = Some f \<and> now < lockedUntil f \<longrightarrow>
        gm_get (attempts (fst (allowAttempt ord l key now))) k = Some f)"
  using limiter_inv_recordFailure [OF assms(1,2), of key now] limiter_inv_allowAttempt [OF assms(1,2), of key now]
    recordFailure_keeps_lockout [OF assms(1,2) _ assms(3)] allowAttempt_keeps_lockout [OF assms(1,2) _ assms(3)]
  by (auto simp: limiter_inv_def)

theorem login_tables_are_bounded_and_keep_lockouts_witness:
  "length (failures (fst (recordFailure id (newLoginLimiter 3 60 60) ''k'' 10))) \<le> maxLimiterEntries"
  using login_tables_are_bounded_and_keep_lockouts [OF limiter_inv_new, of id 10] by (simp add: arrangement_def)

end
